(* ===== verification/Text.thy ===== *)
theory Text
  imports Prelude
begin

text \<open>
  Rust strings as lists of Unicode scalar values. The source slices strings only at
  character boundaries, so a position here counts scalars where the code's offset counts
  bytes; the byte length that size limits use is \<open>utf8_len\<close>.

  The Unicode tables of the \<open>regex\<close>, \<open>unicode-normalization\<close> and
  \<open>caseless\<close> crates are not part of the repository: \<open>unicode\<close> bundles them as
  a parameter. \<open>White_Space\<close>, which \<open>str::trim\<close> uses, is a fixed set of the
  standard library and is written out.
\<close>

type_synonym ustr = "nat list"

record unicode =
  is_cf :: "nat \<Rightarrow> bool"
  is_mn :: "nat \<Rightarrow> bool"
  nfkc :: "ustr \<Rightarrow> ustr"
  case_fold :: "ustr \<Rightarrow> ustr"
  lower_other :: "ustr \<Rightarrow> nat \<Rightarrow> ustr"

text \<open>The tables restricted to ASCII and the byte order mark, where every normalisation but case
  folding is the identity: the instance concrete evaluations use.\<close>

definition ascii_tables :: unicode where
  "ascii_tables = \<lparr> is_cf = (\<lambda>c. c = 0xFEFF), is_mn = (\<lambda>_. False), nfkc = (\<lambda>s. s),
     case_fold = map (\<lambda>c. if 65 \<le> c \<and> c \<le> 90 then c + 32 else c), lower_other = (\<lambda>s i. [s ! i]) \<rparr>"

definition asc :: "string \<Rightarrow> ustr" where
  "asc s = map of_char s"

lemma asc_Nil [simp]: "asc [] = []"
  by (simp add: asc_def)

lemma asc_Cons [simp]: "asc (c # s) = of_char c # asc s"
  by (simp add: asc_def)

lemma asc_append [simp]: "asc (s @ t) = asc s @ asc t"
  by (simp add: asc_def)

lemma length_asc [simp]: "length (asc s) = length s"
  by (simp add: asc_def)

section \<open>Characters\<close>

abbreviation (input) LF :: nat where "LF \<equiv> 10"
abbreviation (input) CR :: nat where "CR \<equiv> 13"
abbreviation (input) SPC :: nat where "SPC \<equiv> 32"

definition is_ws :: "nat \<Rightarrow> bool" where
  "is_ws c \<longleftrightarrow> (9 \<le> c \<and> c \<le> 13) \<or> c = 32 \<or> c = 0x85 \<or> c = 0xA0 \<or> c = 0x1680
     \<or> (0x2000 \<le> c \<and> c \<le> 0x200A) \<or> c = 0x2028 \<or> c = 0x2029 \<or> c = 0x202F
     \<or> c = 0x205F \<or> c = 0x3000"

definition is_ascii_upper :: "nat \<Rightarrow> bool" where
  "is_ascii_upper c \<longleftrightarrow> 65 \<le> c \<and> c \<le> 90"

definition is_ascii_alpha :: "nat \<Rightarrow> bool" where
  "is_ascii_alpha c \<longleftrightarrow> 65 \<le> c \<and> c \<le> 90 \<or> 97 \<le> c \<and> c \<le> 122"

definition is_ascii_digit :: "nat \<Rightarrow> bool" where
  "is_ascii_digit c \<longleftrightarrow> 48 \<le> c \<and> c \<le> 57"

definition ascii_lower :: "nat \<Rightarrow> nat" where
  "ascii_lower c = (if is_ascii_upper c then c + 32 else c)"

definition utf8_len1 :: "nat \<Rightarrow> nat" where
  "utf8_len1 c = (if c < 0x80 then 1 else if c < 0x800 then 2 else if c < 0x10000 then 3 else 4)"

definition utf8_len :: "ustr \<Rightarrow> nat" where
  "utf8_len s = sum_list (map utf8_len1 s)"

lemma utf8_len_Nil [simp]: "utf8_len [] = 0"
  by (simp add: utf8_len_def)

lemma utf8_len_Cons [simp]: "utf8_len (c # s) = utf8_len1 c + utf8_len s"
  by (simp add: utf8_len_def)

lemma utf8_len_append [simp]: "utf8_len (s @ t) = utf8_len s + utf8_len t"
  by (simp add: utf8_len_def)

lemma utf8_len1_pos [simp]: "0 < utf8_len1 c"
  by (simp add: utf8_len1_def)

lemma length_le_utf8_len: "length s \<le> utf8_len s"
proof (induction s)
  case (Cons c s)
  have "1 \<le> utf8_len1 c" using utf8_len1_pos [of c] by linarith
  with Cons show ?case by simp
qed simp

text \<open>\<open>str::to_lowercase\<close>: ASCII letters by their own rule; the lowering of another
  character may depend on where it stands (final sigma), so the table gets string and index.\<close>

definition to_lowercase :: "unicode \<Rightarrow> ustr \<Rightarrow> ustr" where
  "to_lowercase U s =
     concat (map (\<lambda>i. if s ! i < 128 then [ascii_lower (s ! i)] else lower_other U s i) [0..<length s])"

section \<open>Trimming and comparing\<close>

definition trim_start :: "ustr \<Rightarrow> ustr" where
  "trim_start s = dropWhile is_ws s"

definition trim_end :: "ustr \<Rightarrow> ustr" where
  "trim_end s = rev (dropWhile is_ws (rev s))"

definition trim :: "ustr \<Rightarrow> ustr" where
  "trim s = trim_end (trim_start s)"

definition eq_ignore_ascii_case :: "ustr \<Rightarrow> ustr \<Rightarrow> bool" where
  "eq_ignore_ascii_case a b \<longleftrightarrow> map ascii_lower a = map ascii_lower b"

lemma trim_end_prefix: "\<exists>ws. s = trim_end s @ ws \<and> (\<forall>c\<in>set ws. is_ws c)"
proof -
  have "s = trim_end s @ rev (takeWhile is_ws (rev s))"
    unfolding trim_end_def by (metis rev_append rev_rev_ident takeWhile_dropWhile_id)
  moreover have "\<forall>c\<in>set (rev (takeWhile is_ws (rev s))). is_ws c"
    by (auto dest: set_takeWhileD)
  ultimately show ?thesis by blast
qed

lemma trim_start_suffix: "\<exists>ws. s = ws @ trim_start s \<and> (\<forall>c\<in>set ws. is_ws c)"
  unfolding trim_start_def
  by (metis set_takeWhileD takeWhile_dropWhile_id)

lemma trim_split: "\<exists>a b. s = a @ trim s @ b \<and> (\<forall>c\<in>set a \<union> set b. is_ws c)"
proof -
  obtain a where a: "s = a @ trim_start s" "\<forall>c\<in>set a. is_ws c"
    using trim_start_suffix by blast
  obtain b where b: "trim_start s = trim s @ b" "\<forall>c\<in>set b. is_ws c"
    using trim_end_prefix unfolding trim_def by blast
  from a b have "s = a @ trim s @ b \<and> (\<forall>c\<in>set a \<union> set b. is_ws c)" by auto
  then show ?thesis by blast
qed

lemma set_trim: "set (trim s) \<subseteq> set s"
proof -
  obtain a b where "s = a @ trim s @ b" using trim_split by blast
  then show ?thesis by (metis Un_upper1 Un_upper2 order_trans set_append)
qed

lemma length_trim_le: "length (trim s) \<le> length s"
proof -
  obtain a b where "s = a @ trim s @ b" using trim_split by blast
  then have "length s = length (a @ trim s @ b)" by presburger
  then show ?thesis by simp
qed

lemma trim_start_hd: "trim_start s = c # t \<Longrightarrow> \<not> is_ws c"
  by (metis hd_dropWhile list.distinct(1) list.sel(1) trim_start_def)

lemma trim_end_last: "trim_end s \<noteq> [] \<Longrightarrow> \<not> is_ws (last (trim_end s))"
  unfolding trim_end_def by (simp add: hd_dropWhile last_rev)

lemma trim_hd: "trim s \<noteq> [] \<Longrightarrow> \<not> is_ws (hd (trim s))"
proof -
  assume ne: "trim s \<noteq> []"
  obtain b where b: "trim_start s = trim s @ b" using trim_end_prefix unfolding trim_def by blast
  with ne have "trim_start s \<noteq> []" and hd: "hd (trim s) = hd (trim_start s)" by auto
  then show ?thesis by (metis hd_Cons_tl trim_start_hd)
qed

lemma trim_last: "trim s \<noteq> [] \<Longrightarrow> \<not> is_ws (last (trim s))"
  by (simp add: trim_def trim_end_last)

lemma trim_id: "s = [] \<or> \<not> is_ws (hd s) \<and> \<not> is_ws (last s) \<Longrightarrow> trim s = s"
proof (cases s)
  case (Cons c t)
  assume "s = [] \<or> \<not> is_ws (hd s) \<and> \<not> is_ws (last s)"
  with Cons have c: "\<not> is_ws c" and l: "\<not> is_ws (last s)" by auto
  from c Cons have st: "trim_start s = s" by (simp add: trim_start_def)
  have "dropWhile is_ws (rev s) = rev s"
    using l Cons by (metis dropWhile.simps(2) hd_Cons_tl hd_rev list.distinct(1) rev_is_Nil_conv)
  with st show ?thesis by (simp add: trim_def trim_end_def)
qed (simp add: trim_def trim_start_def trim_end_def)

lemma trim_trim [simp]: "trim (trim s) = trim s"
  using trim_hd trim_last by (intro trim_id) blast

lemma trim_Nil [simp]: "trim [] = []"
  by (simp add: trim_id)

lemma trim_ws_left: "\<forall>c\<in>set a. is_ws c \<Longrightarrow> trim (a @ s) = trim s"
  by (simp add: trim_def trim_start_def dropWhile_append2)

lemma trim_ws_right: "\<forall>c\<in>set b. is_ws c \<Longrightarrow> trim (s @ b) = trim s"
proof -
  assume b: "\<forall>c\<in>set b. is_ws c"
  show ?thesis
  proof (cases "\<forall>c\<in>set s. is_ws c")
    case True
    with b have "trim_start (s @ b) = []" "trim_start s = []"
      by (auto simp: trim_start_def dropWhile_append2)
    then show ?thesis by (simp add: trim_def)
  next
    case False
    then have "trim_start (s @ b) = trim_start s @ b"
      by (auto simp: trim_start_def intro: dropWhile_append1)
    moreover have "dropWhile is_ws (rev b @ t) = dropWhile is_ws t" for t
      using b by (intro dropWhile_append2) simp
    ultimately show ?thesis
      by (simp add: trim_def trim_end_def)
  qed
qed

section \<open>Searching and replacing\<close>

fun starts_with :: "ustr \<Rightarrow> ustr \<Rightarrow> bool" where
  "starts_with s [] = True"
| "starts_with [] (p # ps) = False"
| "starts_with (c # s) (p # ps) = (c = p \<and> starts_with s ps)"

lemma starts_with_iff: "starts_with s p \<longleftrightarrow> (\<exists>t. s = p @ t)"
  by (induction s p rule: starts_with.induct) auto

definition str_strip_prefix :: "ustr \<Rightarrow> ustr \<Rightarrow> ustr option" where
  "str_strip_prefix s p = (if starts_with s p then Some (drop (length p) s) else None)"

fun contains :: "ustr \<Rightarrow> ustr \<Rightarrow> bool" where
  "contains [] p = (p = [])"
| "contains (c # s) p = (starts_with (c # s) p \<or> contains s p)"

lemma contains_iff: "contains s p \<longleftrightarrow> (\<exists>a b. s = a @ p @ b)"
proof (induction s)
  case (Cons c s)
  show ?case
  proof
    assume "contains (c # s) p"
    then consider "starts_with (c # s) p" | "contains s p" by auto
    then show "\<exists>a b. c # s = a @ p @ b"
    proof cases
      case 1
      then obtain t where "c # s = [] @ p @ t" by (auto simp: starts_with_iff)
      then show ?thesis by blast
    next
      case 2
      then obtain a b where "s = a @ p @ b" using Cons by blast
      then have "c # s = (c # a) @ p @ b" by simp
      then show ?thesis by blast
    qed
  next
    assume "\<exists>a b. c # s = a @ p @ b"
    then obtain a b where ab: "c # s = a @ p @ b" by blast
    show "contains (c # s) p"
    proof (cases a)
      case Nil
      with ab have "starts_with (c # s) p" by (auto simp: starts_with_iff)
      then show ?thesis by simp
    next
      case (Cons d a')
      with ab have "s = a' @ p @ b" by simp
      with Cons.IH show ?thesis by auto
    qed
  qed
qed auto

text \<open>\<open>str::replace(pat, rep)\<close> for a non-empty pattern: the matches are found left to
  right and do not overlap.\<close>

function replace_all :: "ustr \<Rightarrow> ustr \<Rightarrow> ustr \<Rightarrow> ustr" where
  "replace_all p r [] = []"
| "replace_all p r (c # s) =
     (if p = [] then c # s
      else if starts_with (c # s) p then r @ replace_all p r (drop (length p) (c # s))
      else c # replace_all p r s)"
  by pat_completeness auto
termination
proof (relation "measure (\<lambda>(p, r, s). length s)", goal_cases)
  case (2 p r c s)
  then have "0 < length p" by simp
  then show ?case by (simp add: length_drop)
qed auto

declare replace_all.simps(2) [simp del]

lemma replace_all_no_match: "\<not> contains s p \<Longrightarrow> replace_all p r s = s"
proof (induction s)
  case (Cons c s)
  then show ?case by (auto simp: replace_all.simps(2))
qed simp

lemma replace_all_match:
  assumes "p \<noteq> []" "c # s = p @ t"
  shows "replace_all p r (c # s) = r @ replace_all p r t"
proof -
  have "starts_with (c # s) p" "drop (length p) (c # s) = t"
    using assms by (auto simp: starts_with_iff)
  with assms(1) show ?thesis by (simp only: replace_all.simps(2) if_True if_False)
qed

lemma length_replace_all_le: "length r \<le> length p \<Longrightarrow> length (replace_all p r s) \<le> length s"
proof (induction p r s rule: replace_all.induct)
  case (2 p r c s)
  show ?case
  proof (cases "p \<noteq> [] \<and> starts_with (c # s) p")
    case True
    then obtain t where t: "c # s = p @ t" by (auto simp: starts_with_iff)
    then have "length (replace_all p r t) \<le> length t" using 2 True by auto
    moreover have "replace_all p r (c # s) = r @ replace_all p r t"
      using True t by (intro replace_all_match) auto
    ultimately show ?thesis using 2(3) t by (metis add_mono length_append)
  next
    case False
    then show ?thesis using 2 by (auto simp: replace_all.simps(2))
  qed
qed simp

lemma length_replace_all_less:
  "length r < length p \<Longrightarrow> contains s p \<Longrightarrow> length (replace_all p r s) < length s"
proof (induction p r s rule: replace_all.induct)
  case (2 p r c s)
  from 2(3) have ne: "p \<noteq> []" by auto
  show ?case
  proof (cases "starts_with (c # s) p")
    case True
    then obtain t where t: "c # s = p @ t" by (auto simp: starts_with_iff)
    have "length (replace_all p r t) \<le> length t" using 2(3) by (intro length_replace_all_le) simp
    moreover have "replace_all p r (c # s) = r @ replace_all p r t"
      using t ne by (intro replace_all_match)
    ultimately show ?thesis using 2(3) t by (metis add_less_le_mono length_append)
  next
    case False
    with 2 ne show ?thesis by (auto simp: replace_all.simps(2))
  qed
qed simp

lemma set_replace_all: "set (replace_all p r s) \<subseteq> set r \<union> set s"
proof (induction p r s rule: replace_all.induct)
  case (2 p r c s)
  have "set (drop (length p) (c # s)) \<subseteq> set (c # s)" by (rule set_drop_subset)
  with 2 show ?case
    by (auto simp del: drop_Cons simp: replace_all.simps(2) split: if_splits)
qed simp

section \<open>Numbers as text\<close>

fun digits_of :: "nat \<Rightarrow> ustr" where
  "digits_of n = (if n < 10 then [48 + n] else digits_of (n div 10) @ [48 + n mod 10])"

declare digits_of.simps [simp del]

lemma digits_of_digit: "c \<in> set (digits_of n) \<Longrightarrow> is_ascii_digit c"
proof (induction n rule: digits_of.induct)
  case (1 n)
  show ?case
  proof (cases "n < 10")
    case True
    with 1 show ?thesis by (simp add: digits_of.simps [of n] is_ascii_digit_def)
  next
    case False
    with "1.prems" have "c \<in> set (digits_of (n div 10)) \<or> c = 48 + n mod 10"
      by (auto simp: digits_of.simps [of n])
    then show ?thesis
    proof
      assume "c = 48 + n mod 10"
      moreover have "n mod 10 < 10" by simp
      ultimately show ?thesis unfolding is_ascii_digit_def by linarith
    qed (use 1 False in simp)
  qed
qed

text \<open>\<open>str::parse::<u64>\<close>: an optional plus sign, at least one ASCII digit, nothing
  else, and no overflow.\<close>

fun digits_val :: "nat \<Rightarrow> ustr \<Rightarrow> nat option" where
  "digits_val acc [] = Some acc"
| "digits_val acc (c # s) =
     (if is_ascii_digit c then digits_val (10 * acc + (c - 48)) s else None)"

definition parse_u64 :: "ustr \<Rightarrow> nat option" where
  "parse_u64 s =
     (let ds = (case s of c # t \<Rightarrow> if c = 43 then t else s | [] \<Rightarrow> [])
      in if ds = [] then None
         else case digits_val 0 ds of
                Some n \<Rightarrow> if n \<le> U64_MAX then Some n else None
              | None \<Rightarrow> None)"

lemma digits_val_append:
  "digits_val acc (s @ t) = Option.bind (digits_val acc s) (\<lambda>a. digits_val a t)"
  by (induction acc s rule: digits_val.induct) auto

lemma digits_val_digits_of: "digits_val 0 (digits_of n) = Some n"
proof (induction n rule: digits_of.induct)
  case (1 n)
  show ?case
  proof (cases "n < 10")
    case True
    then show ?thesis by (simp add: digits_of.simps [of n] is_ascii_digit_def)
  next
    case False
    have "is_ascii_digit (48 + n mod 10)"
      using mod_less_divisor [of 10 n] unfolding is_ascii_digit_def by linarith
    with False 1 show ?thesis
      by (simp add: digits_of.simps [of n] digits_val_append)
  qed
qed

lemma digits_of_hd: "\<exists>c t. digits_of n = c # t \<and> is_ascii_digit c"
proof -
  have "digits_of n \<noteq> []" by (subst digits_of.simps) simp
  then obtain c t where ct: "digits_of n = c # t" by (cases "digits_of n") auto
  moreover have "is_ascii_digit c" by (rule digits_of_digit [of c n]) (simp add: ct)
  ultimately show ?thesis by blast
qed

lemma parse_u64_digits_of: "n \<le> U64_MAX \<Longrightarrow> parse_u64 (digits_of n) = Some n"
proof -
  assume n: "n \<le> U64_MAX"
  obtain c t where ct: "digits_of n = c # t" "is_ascii_digit c" using digits_of_hd by blast
  from ct(2) have "c \<noteq> 43" by (auto simp: is_ascii_digit_def)
  with ct n digits_val_digits_of [of n] show ?thesis by (simp add: parse_u64_def)
qed

text \<open>\<open>str::split(sep)\<close> for a one-character separator: always at least one part.\<close>

fun split_on :: "nat \<Rightarrow> ustr \<Rightarrow> ustr list" where
  "split_on d [] = [[]]"
| "split_on d (c # s) =
     (if c = d then [] # split_on d s
      else case split_on d s of p # ps \<Rightarrow> (c # p) # ps | [] \<Rightarrow> [[c]])"

lemma split_on_nonempty [simp]: "split_on d s \<noteq> []"
  by (induction s) (auto split: list.splits)

lemma split_on_no_sep: "l \<in> set (split_on d s) \<Longrightarrow> d \<notin> set l"
proof (induction s arbitrary: l)
  case (Cons c s)
  obtain q qs where q: "split_on d s = q # qs" by (cases "split_on d s") auto
  with Cons show ?case by (fastforce split: if_splits)
qed simp

lemma split_on_free: "d \<notin> set l \<Longrightarrow> split_on d l = [l]"
  by (induction l) auto

lemma split_on_append: "d \<notin> set l \<Longrightarrow> split_on d (l @ d # s) = l # split_on d s"
  by (induction l) auto

lemma split_on_join:
  "ls \<noteq> [] \<Longrightarrow> (\<And>l. l \<in> set ls \<Longrightarrow> d \<notin> set l) \<Longrightarrow> split_on d (join [d] ls) = ls"
proof (induction "[d]" ls rule: join.induct)
  case (3 x y xs)
  have "d \<notin> set x" using "3.prems" by simp
  then have "split_on d (join [d] (x # y # xs)) = x # split_on d (join [d] (y # xs))"
    by (simp add: split_on_append)
  also have "split_on d (join [d] (y # xs)) = y # xs" using 3 by simp
  finally show ?case .
qed (simp_all add: split_on_free)

lemma set_join: "set (join sep ls) \<subseteq> set sep \<union> \<Union> (set ` set ls)"
  by (induction sep ls rule: join.induct) auto

lemma set_split_on: "l \<in> set (split_on d s) \<Longrightarrow> set l \<subseteq> set s"
proof (induction s arbitrary: l)
  case (Cons c s)
  obtain q qs where q: "split_on d s = q # qs" by (cases "split_on d s") auto
  then have "set q \<subseteq> set s" "\<And>l. l \<in> set qs \<Longrightarrow> set l \<subseteq> set s" using Cons.IH by auto
  with q Cons.prems show ?case by (auto split: if_splits)
qed simp

lemma split_on_concat: "split_on d (s @ d # r) = split_on d s @ split_on d r"
proof (induction s)
  case (Cons c s)
  then show ?case by (cases "split_on d s") auto
qed simp

lemma split_on_hd: "\<exists>v. s = hd (split_on d s) @ v"
proof (induction s)
  case (Cons c s)
  then show ?case by (cases "split_on d s") auto
qed simp

lemma split_on_part: "l \<in> set (split_on d s) \<Longrightarrow> \<exists>u v. s = u @ l @ v"
proof (induction s arbitrary: l)
  case (Cons c s)
  obtain q qs where q: "split_on d s = q # qs" by (cases "split_on d s") auto
  have in_s: "\<exists>u v. c # s = u @ k @ v" if k: "k \<in> set (split_on d s)" for k
  proof -
    obtain u v where "s = u @ k @ v" using Cons.IH [OF k] by blast
    then have "c # s = (c # u) @ k @ v" by simp
    then show ?thesis by blast
  qed
  show ?case
  proof (cases "c = d")
    case True
    with Cons.prems q consider "l = []" | "l \<in> set (split_on d s)" by auto
    then show ?thesis using in_s by cases auto
  next
    case False
    with Cons.prems q consider "l = c # q" | "l \<in> set (split_on d s)" by auto
    then show ?thesis
    proof cases
      case 1
      obtain v where "s = q @ v" using split_on_hd [of s d] q by auto
      with 1 have "c # s = [] @ l @ v" by simp
      then show ?thesis by blast
    qed (rule in_s)
  qed
qed simp

end
