(* ===== verification/Float64.thy ===== *)
theory Float64
  imports Prelude Complex_Main
begin

text \<open>
  IEEE-754 binary64 as Rust's \<open>f64\<close> uses it: round to nearest, ties to even, with
  gradual underflow and overflow to infinity. A finite value is the rational it denotes; the
  two zeros are one value (no computation of the source divides by a zero or reads a sign).
  The interface the clients rely on is the locale \<open>rounding\<close>: monotone, and exact on
  the multiples of one half that weighted votes produce.
\<close>

datatype f64 = NaN | PosInf | NegInf | Fin rat

section \<open>Rounding a rational\<close>

fun bit_length :: "nat \<Rightarrow> nat" where
  "bit_length n = (if n = 0 then 0 else Suc (bit_length (n div 2)))"

declare bit_length.simps [simp del]

text \<open>The exponent of the leading bit: \<open>2 ^ k \<le> x < 2 ^ (k + 1)\<close> for positive \<open>x\<close>.\<close>

definition leading_exp :: "rat \<Rightarrow> int" where
  "leading_exp x =
     (let (n, d) = quotient_of x;
          k = int (bit_length (nat n)) - int (bit_length (nat d))
      in if 2 powi k \<le> x then k else k - 1)"

text \<open>Exponent of the unit in the last place, never below that of the subnormals.\<close>

definition ulp_exp :: "rat \<Rightarrow> int" where
  "ulp_exp x = max (leading_exp x) (-1022) - 52"

definition round_half_even :: "rat \<Rightarrow> int" where
  "round_half_even x =
     (let f = \<lfloor>x\<rfloor>; r = x - of_int f
      in if r < 1/2 then f
         else if r > 1/2 then f + 1
         else if even f then f else f + 1)"

definition round_pos :: "rat \<Rightarrow> rat" where
  "round_pos x = of_int (round_half_even (x / 2 powi ulp_exp x)) * 2 powi ulp_exp x"

definition rnd64 :: "rat \<Rightarrow> rat" where
  "rnd64 x = (if x = 0 then 0 else if x > 0 then round_pos x else - round_pos (- x))"

definition F64_MAX :: rat where
  "F64_MAX = (2 ^ 53 - 1) * 2 ^ 971"

definition to_f64 :: "rat \<Rightarrow> f64" where
  "to_f64 x = (let y = rnd64 x
               in if y > F64_MAX then PosInf else if y < - F64_MAX then NegInf else Fin y)"

section \<open>Operations\<close>

fun f_add :: "f64 \<Rightarrow> f64 \<Rightarrow> f64" where
  "f_add (Fin x) (Fin y) = to_f64 (x + y)"
| "f_add NaN _ = NaN"
| "f_add _ NaN = NaN"
| "f_add PosInf NegInf = NaN"
| "f_add NegInf PosInf = NaN"
| "f_add PosInf _ = PosInf"
| "f_add _ PosInf = PosInf"
| "f_add NegInf _ = NegInf"
| "f_add _ NegInf = NegInf"

fun f_neg :: "f64 \<Rightarrow> f64" where
  "f_neg (Fin x) = Fin (- x)"
| "f_neg NaN = NaN"
| "f_neg PosInf = NegInf"
| "f_neg NegInf = PosInf"

definition f_sub :: "f64 \<Rightarrow> f64 \<Rightarrow> f64" where
  "f_sub a b = f_add a (f_neg b)"

fun f_abs :: "f64 \<Rightarrow> f64" where
  "f_abs (Fin x) = Fin \<bar>x\<bar>"
| "f_abs NaN = NaN"
| "f_abs _ = PosInf"

fun f_sign :: "f64 \<Rightarrow> int" where
  "f_sign (Fin x) = (if x > 0 then 1 else if x < 0 then -1 else 0)"
| "f_sign PosInf = 1"
| "f_sign NegInf = -1"
| "f_sign NaN = 0"

definition f_inf :: "int \<Rightarrow> f64" where
  "f_inf s = (if s > 0 then PosInf else if s < 0 then NegInf else NaN)"

fun f_mul :: "f64 \<Rightarrow> f64 \<Rightarrow> f64" where
  "f_mul (Fin x) (Fin y) = to_f64 (x * y)"
| "f_mul a b = (if a = NaN \<or> b = NaN then NaN else f_inf (f_sign a * f_sign b))"

text \<open>Division; the divisor zero is the positive one, the only one the source can build
  (a count converted with \<open>as f64\<close>).\<close>

fun f_div :: "f64 \<Rightarrow> f64 \<Rightarrow> f64" where
  "f_div (Fin x) (Fin y) = (if y = 0 then f_inf (f_sign (Fin x)) else to_f64 (x / y))"
| "f_div (Fin x) NaN = NaN"
| "f_div (Fin x) _ = Fin 0"
| "f_div NaN _ = NaN"
| "f_div a (Fin y) = (if y < 0 then f_neg a else a)"
| "f_div a _ = NaN"

fun f_lt :: "f64 \<Rightarrow> f64 \<Rightarrow> bool" where
  "f_lt (Fin x) (Fin y) = (x < y)"
| "f_lt (Fin x) PosInf = True"
| "f_lt NegInf (Fin y) = True"
| "f_lt NegInf PosInf = True"
| "f_lt _ _ = False"

definition f_le :: "f64 \<Rightarrow> f64 \<Rightarrow> bool" where
  "f_le a b \<longleftrightarrow> a \<noteq> NaN \<and> b \<noteq> NaN \<and> \<not> f_lt b a"

definition f_gt :: "f64 \<Rightarrow> f64 \<Rightarrow> bool" where
  "f_gt a b = f_lt b a"

text \<open>\<open>f64::clamp\<close> (\<open>NaN\<close> stays), \<open>f64::round\<close> (ties away from zero), the finiteness test,
  and the conversion of a count.\<close>

definition f_clamp :: "f64 \<Rightarrow> f64 \<Rightarrow> f64 \<Rightarrow> f64" where
  "f_clamp lo hi a = (if f_lt a lo then lo else if f_lt hi a then hi else a)"

definition round_away :: "rat \<Rightarrow> int" where
  "round_away x = (if x \<ge> 0 then \<lfloor>x + 1/2\<rfloor> else - \<lfloor>- x + 1/2\<rfloor>)"

fun f_round :: "f64 \<Rightarrow> f64" where
  "f_round (Fin x) = Fin (of_int (round_away x))"
| "f_round a = a"

fun is_finite :: "f64 \<Rightarrow> bool" where
  "is_finite (Fin x) = True"
| "is_finite _ = False"

definition f_of_nat :: "nat \<Rightarrow> f64" where
  "f_of_nat n = to_f64 (of_nat n)"

text \<open>\<open>Iterator::sum\<close>: a left fold from zero.\<close>

definition f_sum :: "f64 list \<Rightarrow> f64" where
  "f_sum xs = fold (\<lambda>x acc. f_add acc x) xs (Fin 0)"

section \<open>What rounding guarantees\<close>

locale rounding =
  fixes rnd :: "rat \<Rightarrow> rat"
  assumes rnd_mono: "x \<le> y \<Longrightarrow> rnd x \<le> rnd y"
    and rnd_half: "\<bar>m\<bar> \<le> 2 ^ 53 \<Longrightarrow> rnd (of_int m / 2) = of_int m / 2"
    and rnd_error: "2 powi (- 1022) \<le> \<bar>x\<bar> \<Longrightarrow> \<bar>rnd x - x\<bar> \<le> \<bar>x\<bar> / 2 ^ 53"
begin

lemma rnd_int: "\<bar>m\<bar> \<le> 2 ^ 52 \<Longrightarrow> rnd (of_int m) = of_int m"
  using rnd_half [of "2 * m"] by simp

lemma rnd_zero [simp]: "rnd 0 = 0"
  using rnd_int [of 0] by simp

lemma rnd_one [simp]: "rnd 1 = 1"
  using rnd_int [of 1] by simp

lemma rnd_between_ints:
  assumes "of_int a \<le> x" "x \<le> of_int b" "\<bar>a\<bar> \<le> 2 ^ 52" "\<bar>b\<bar> \<le> 2 ^ 52"
  shows "of_int a \<le> rnd x \<and> rnd x \<le> of_int b"
  using rnd_mono [OF assms(1)] rnd_mono [OF assms(2)] assms(3,4) by (simp add: rnd_int)

lemma rnd_unit: "0 \<le> x \<Longrightarrow> x \<le> 1 \<Longrightarrow> 0 \<le> rnd x \<and> rnd x \<le> 1"
  using rnd_between_ints [of 0 x 1] by simp

lemma rnd_abs_unit: "\<bar>x\<bar> \<le> 1 \<Longrightarrow> \<bar>rnd x\<bar> \<le> 1"
proof -
  assume "\<bar>x\<bar> \<le> 1"
  then have "of_int (- 1) \<le> x" "x \<le> of_int 1" by (simp_all add: abs_le_iff)
  from rnd_between_ints [OF this] show ?thesis by (simp add: abs_le_iff)
qed

lemma rnd_pos_half: "1/2 \<le> x \<Longrightarrow> 1/2 \<le> rnd x"
  using rnd_mono [of "1/2" x] rnd_half [of 1] by simp

lemma rnd_neg_half: "x \<le> - 1/2 \<Longrightarrow> rnd x \<le> - 1/2"
  using rnd_mono [of x "- 1/2"] rnd_half [of "- 1"] by simp

lemma rnd_close:
  assumes "1 / 2 ^ 20 \<le> \<bar>x\<bar>"
  shows "\<bar>rnd x - x\<bar> \<le> \<bar>x\<bar> / 2 ^ 53"
proof (rule rnd_error)
  have "(2::rat) powi (- 1022) \<le> 2 powi (- 20)" by (intro power_int_increasing) auto
  also have "\<dots> = 1 / 2 ^ 20" by (simp add: power_int_minus field_simps)
  finally show "2 powi (- 1022) \<le> \<bar>x\<bar>" using assms by linarith
qed

end

section \<open>The rounding of binary64 meets the interface\<close>

lemma bit_length_bounds: "n > 0 \<Longrightarrow> 2 ^ (bit_length n - 1) \<le> n \<and> n < 2 ^ bit_length n \<and> 0 < bit_length n"
proof (induction n rule: bit_length.induct)
  case (1 n)
  show ?case
  proof (cases "n div 2 = 0")
    case True
    with 1 have "n = 1" by auto
    moreover have "bit_length 0 = 0" by (simp add: bit_length.simps)
    then have "bit_length 1 = 1" by (simp add: bit_length.simps [of "Suc 0"])
    ultimately show ?thesis by simp
  next
    case False
    with 1 have IH: "2 ^ (bit_length (n div 2) - 1) \<le> n div 2" "n div 2 < 2 ^ bit_length (n div 2)"
      "0 < bit_length (n div 2)" by auto
    obtain k where k: "bit_length (n div 2) = Suc k" using IH(3) by (cases "bit_length (n div 2)") auto
    from 1 have bl: "bit_length n = Suc (Suc k)" by (simp add: bit_length.simps [of n] k)
    from IH k have "2 ^ k \<le> n div 2" "n div 2 < 2 * 2 ^ k" by auto
    then have "2 * 2 ^ k \<le> n" "n < 2 * (2 * 2 ^ k)" by linarith+
    with bl show ?thesis by simp
  qed
qed

lemma leading_exp_bounds:
  assumes "x > 0"
  shows "2 powi leading_exp x \<le> x \<and> x < 2 powi (leading_exp x + 1)"
proof -
  obtain n d where q: "quotient_of x = (n, d)" by (cases "quotient_of x")
  have d: "d > 0" using quotient_of_denom_pos [OF q] .
  have x: "x = of_int n / of_int d" using quotient_of_div [OF q] .
  with assms d have n: "n > 0" by (simp add: zero_less_divide_iff)
  define a where "a = int (bit_length (nat n))"
  define b where "b = int (bit_length (nat d))"
  have an: "2 ^ (bit_length (nat n) - 1) \<le> nat n" "nat n < 2 ^ bit_length (nat n)" "0 < bit_length (nat n)"
    using bit_length_bounds [of "nat n"] n by auto
  have bd: "2 ^ (bit_length (nat d) - 1) \<le> nat d" "nat d < 2 ^ bit_length (nat d)" "0 < bit_length (nat d)"
    using bit_length_bounds [of "nat d"] d by auto
  have pn: "(2::rat) powi (a - 1) \<le> of_int n" "(of_int n :: rat) < 2 powi a"
  proof -
    have "(2::rat) powi (a - 1) = 2 ^ (bit_length (nat n) - 1)"
      using an(3) by (simp add: a_def power_int_def nat_diff_distrib)
    also have "\<dots> = of_nat (2 ^ (bit_length (nat n) - 1))" by simp
    also have "\<dots> \<le> of_nat (nat n)" using an(1) of_nat_le_iff by blast
    finally show "(2::rat) powi (a - 1) \<le> of_int n" using n by simp
    have "(of_nat (nat n) :: rat) < of_nat (2 ^ bit_length (nat n))" using an(2) of_nat_less_iff by blast
    then show "(of_int n :: rat) < 2 powi a" using n by (simp add: a_def)
  qed
  have pd: "(2::rat) powi (b - 1) \<le> of_int d" "(of_int d :: rat) < 2 powi b"
  proof -
    have "(2::rat) powi (b - 1) = 2 ^ (bit_length (nat d) - 1)"
      using bd(3) by (simp add: b_def power_int_def nat_diff_distrib)
    also have "\<dots> = of_nat (2 ^ (bit_length (nat d) - 1))" by simp
    also have "\<dots> \<le> of_nat (nat d)" using bd(1) of_nat_le_iff by blast
    finally show "(2::rat) powi (b - 1) \<le> of_int d" using d by simp
    have "(of_nat (nat d) :: rat) < of_nat (2 ^ bit_length (nat d))" using bd(2) of_nat_less_iff by blast
    then show "(of_int d :: rat) < 2 powi b" using d by (simp add: b_def)
  qed
  have dpos: "(of_int d :: rat) > 0" using d by simp
  have lo: "2 powi (a - b - 1) \<le> x"
  proof -
    have "2 powi (a - b - 1) * of_int d \<le> 2 powi (a - b - 1) * (2 powi b :: rat)"
      using pd(2) by (intro mult_left_mono) auto
    also have "\<dots> = 2 powi (a - 1)" by (simp flip: power_int_add)
    also have "\<dots> \<le> of_int n" by (rule pn(1))
    finally show ?thesis using dpos by (simp add: x pos_le_divide_eq)
  qed
  have hi: "x < 2 powi (a - b + 1)"
  proof -
    have "of_int n < (2 powi a :: rat)" by (rule pn(2))
    also have "\<dots> = 2 powi (a - b + 1) * 2 powi (b - 1)" by (simp flip: power_int_add)
    also have "\<dots> \<le> 2 powi (a - b + 1) * of_int d"
      using pd(1) by (intro mult_left_mono) auto
    finally show ?thesis using dpos by (simp add: x pos_divide_less_eq)
  qed
  have e: "leading_exp x = (if 2 powi (a - b) \<le> x then a - b else a - b - 1)"
    by (simp add: leading_exp_def q a_def b_def)
  show ?thesis using lo hi by (auto simp: e)
qed

lemma powi2_less_iff: "(2::rat) powi a < 2 powi b \<longleftrightarrow> a < b"
proof
  assume "a < b"
  then show "(2::rat) powi a < 2 powi b" by (intro power_int_strict_increasing) auto
next
  assume lt: "(2::rat) powi a < 2 powi b"
  show "a < b"
  proof (rule ccontr)
    assume "\<not> a < b"
    then have "(2::rat) powi b \<le> 2 powi a" by (intro power_int_increasing) auto
    with lt show False by simp
  qed
qed

lemma powi2_le_iff: "(2::rat) powi a \<le> 2 powi b \<longleftrightarrow> a \<le> b"
  using powi2_less_iff [of b a] by linarith

lemma leading_exp_mono:
  assumes "0 < x" "x \<le> y"
  shows "leading_exp x \<le> leading_exp y"
proof -
  have "2 powi leading_exp x \<le> x" using leading_exp_bounds [OF assms(1)] by blast
  also have "\<dots> \<le> y" by (rule assms(2))
  also have "\<dots> < 2 powi (leading_exp y + 1)" using leading_exp_bounds [of y] assms by auto
  finally show ?thesis by (simp add: powi2_less_iff)
qed

lemma round_half_even_floor: "round_half_even x = \<lfloor>x\<rfloor> \<or> round_half_even x = \<lfloor>x\<rfloor> + 1"
  by (auto simp: round_half_even_def Let_def)

lemma round_half_even_mono: "x \<le> y \<Longrightarrow> round_half_even x \<le> round_half_even y"
proof -
  assume le: "x \<le> y"
  then have fl: "\<lfloor>x\<rfloor> \<le> \<lfloor>y\<rfloor>" by (rule floor_mono)
  show ?thesis
  proof (cases "\<lfloor>x\<rfloor> = \<lfloor>y\<rfloor>")
    case True
    with le show ?thesis by (auto simp: round_half_even_def Let_def)
  next
    case False
    with fl have "\<lfloor>x\<rfloor> + 1 \<le> \<lfloor>y\<rfloor>" by simp
    then show ?thesis using round_half_even_floor [of x] round_half_even_floor [of y] by auto
  qed
qed

lemma round_half_even_int [simp]: "round_half_even (of_int k) = k"
  by (simp add: round_half_even_def)

lemma round_pos_exact:
  assumes "x > 0" "x = of_int m * 2 powi e" "\<bar>m\<bar> \<le> 2 ^ 53" "-1074 \<le> e"
  shows "round_pos x = x"
proof -
  have "(0::rat) < 2 powi e" by simp
  with assms(1,2) have m: "m > 0" by (metis of_int_0_less_iff zero_less_mult_pos2)
  have "x \<le> 2 ^ 53 * 2 powi e"
    using assms(2,3) m by (simp add: mult_right_mono)
  then have "x \<le> 2 powi (53 + e)" by (simp add: power_int_add)
  then have "2 powi leading_exp x \<le> (2::rat) powi (53 + e)"
    using leading_exp_bounds [OF assms(1)] by auto
  then have le: "leading_exp x \<le> 53 + e" by (simp add: powi2_le_iff)
  show ?thesis
  proof (cases "ulp_exp x \<le> e")
    case True
    define j where "j = nat (e - ulp_exp x)"
    have "x / 2 powi ulp_exp x = of_int m * 2 powi (e - ulp_exp x)"
      by (simp add: assms(2) power_int_diff)
    also have "\<dots> = of_int (m * 2 ^ j)"
      using True by (simp add: j_def power_int_def)
    finally have "round_half_even (x / 2 powi ulp_exp x) = m * 2 ^ j"
      by (simp only: round_half_even_int)
    then have "round_pos x = of_int (m * 2 ^ j) * 2 powi ulp_exp x" by (simp only: round_pos_def)
    also have "\<dots> = x / 2 powi ulp_exp x * 2 powi ulp_exp x"
      using \<open>x / 2 powi ulp_exp x = of_int m * 2 powi (e - ulp_exp x)\<close>
        \<open>of_int m * 2 powi (e - ulp_exp x) = of_int (m * 2 ^ j)\<close> by simp
    finally show ?thesis by simp
  next
    case False
    with le assms(4) have u: "ulp_exp x = e + 1" "leading_exp x = 53 + e"
      by (auto simp: ulp_exp_def)
    then have "2 powi (53 + e) \<le> x" using leading_exp_bounds [OF assms(1)] by auto
    with \<open>x \<le> 2 powi (53 + e)\<close> have xe: "x = 2 powi (53 + e)" by simp
    have q: "x / 2 powi ulp_exp x = 2 powi 52"
      unfolding u(1) by (subst xe) (simp flip: power_int_diff)
    then have "x / 2 powi ulp_exp x = of_int (2 ^ 52)" by simp
    then have "round_half_even (x / 2 powi ulp_exp x) = 2 ^ 52" by (simp only: round_half_even_int)
    then have "round_pos x = of_int (2 ^ 52) * 2 powi ulp_exp x" by (simp only: round_pos_def)
    also have "\<dots> = x / 2 powi ulp_exp x * 2 powi ulp_exp x"
      using \<open>x / 2 powi ulp_exp x = of_int (2 ^ 52)\<close> by simp
    finally show ?thesis by simp
  qed
qed

lemma ulp_exp_le_leading: "-1022 \<le> leading_exp x \<Longrightarrow> ulp_exp x = leading_exp x - 52"
  by (simp add: ulp_exp_def)

lemma round_pos_le_binade:
  assumes "x > 0" "-1022 \<le> k" "x \<le> 2 powi k"
  shows "round_pos x \<le> 2 powi k"
proof -
  let ?u = "ulp_exp x"
  have up: "(0::rat) < 2 powi ?u" by simp
  have ku: "?u \<le> k"
  proof -
    have "2 powi leading_exp x \<le> x" using leading_exp_bounds [OF assms(1)] by blast
    then have "leading_exp x \<le> k" using assms(3) by (metis order_trans powi2_le_iff)
    with assms(2) show ?thesis by (simp add: ulp_exp_def)
  qed
  have "x / 2 powi ?u \<le> 2 powi k / 2 powi ?u" using assms(3) up by (simp add: divide_right_mono)
  also have "\<dots> = 2 powi (k - ?u)" by (simp add: power_int_diff)
  also have "\<dots> = of_int (2 ^ nat (k - ?u))" using ku by (simp add: power_int_def)
  finally have "round_half_even (x / 2 powi ?u) \<le> round_half_even (of_int (2 ^ nat (k - ?u)))"
    by (rule round_half_even_mono)
  then have le: "round_half_even (x / 2 powi ?u) \<le> 2 ^ nat (k - ?u)"
    by (simp only: round_half_even_int)
  have "round_pos x = of_int (round_half_even (x / 2 powi ?u)) * 2 powi ?u" by (simp only: round_pos_def)
  also have "\<dots> \<le> of_int (2 ^ nat (k - ?u)) * 2 powi ?u"
    using le up by (intro mult_right_mono) (simp_all only: of_int_le_iff less_imp_le)
  also have "\<dots> = 2 powi (k - ?u) * 2 powi ?u" using ku by (simp add: power_int_def)
  also have "\<dots> = 2 powi k" by (simp flip: power_int_add)
  finally show ?thesis .
qed

lemma round_pos_ge_binade:
  assumes "x > 0" "-1022 \<le> k" "2 powi k \<le> x"
  shows "2 powi k \<le> round_pos x"
proof -
  let ?u = "ulp_exp x" and ?l = "leading_exp x"
  have up: "(0::rat) < 2 powi ?u" by simp
  have "2 powi k < (2::rat) powi (?l + 1)"
    using assms(3) leading_exp_bounds [OF assms(1)] by (auto intro: order_le_less_trans)
  then have kl: "k \<le> ?l" by (simp add: powi2_less_iff)
  with assms(2) have u: "?u = ?l - 52" by (simp add: ulp_exp_le_leading)
  have "of_int (2 ^ 52) = 2 powi ?l / (2 powi ?u :: rat)" by (simp add: u power_int_diff)
  also have "\<dots> \<le> x / 2 powi ?u"
    using leading_exp_bounds [OF assms(1)] up by (simp add: divide_right_mono)
  finally have "round_half_even (of_int (2 ^ 52)) \<le> round_half_even (x / 2 powi ?u)"
    by (rule round_half_even_mono)
  then have ge: "2 ^ 52 \<le> round_half_even (x / 2 powi ?u)" by (simp only: round_half_even_int)
  have "2 powi k \<le> (2::rat) powi ?l" using kl by (simp add: powi2_le_iff)
  also have "\<dots> = of_int (2 ^ 52) * 2 powi ?u" by (simp add: u power_int_diff)
  also have "\<dots> \<le> of_int (round_half_even (x / 2 powi ?u)) * 2 powi ?u"
    using ge up by (intro mult_right_mono) (simp_all only: of_int_le_iff less_imp_le)
  also have "\<dots> = round_pos x" by (simp only: round_pos_def)
  finally show ?thesis .
qed

lemma round_pos_mono:
  assumes "0 < x" "x \<le> y"
  shows "round_pos x \<le> round_pos y"
proof (cases "ulp_exp x = ulp_exp y")
  case True
  have "x / 2 powi ulp_exp y \<le> y / 2 powi ulp_exp y" using assms(2) by (simp add: divide_right_mono)
  then have "round_half_even (x / 2 powi ulp_exp x) \<le> round_half_even (y / 2 powi ulp_exp y)"
    unfolding True by (rule round_half_even_mono)
  then show ?thesis unfolding round_pos_def True
    by (intro mult_right_mono) (simp_all only: of_int_le_iff, simp)
next
  case False
  have le: "leading_exp x \<le> leading_exp y" by (rule leading_exp_mono [OF assms])
  with False have lt: "leading_exp x < leading_exp y" "-1022 < leading_exp y"
    by (auto simp: ulp_exp_def max_def split: if_splits)
  have "x < 2 powi (leading_exp x + 1)" using leading_exp_bounds [OF assms(1)] by blast
  also have "\<dots> \<le> (2::rat) powi leading_exp y" using lt by (simp add: powi2_le_iff)
  finally have "round_pos x \<le> 2 powi leading_exp y"
    using round_pos_le_binade [of x "leading_exp y"] assms(1) lt by auto
  also have "\<dots> \<le> round_pos y"
    using round_pos_ge_binade [of y "leading_exp y"] leading_exp_bounds [of y] assms lt by auto
  finally show ?thesis .
qed

lemma round_pos_nonneg: "x > 0 \<Longrightarrow> 0 \<le> round_pos x"
proof -
  assume "x > 0"
  then have "round_half_even (of_int 0) \<le> round_half_even (x / 2 powi ulp_exp x)"
    by (intro round_half_even_mono) simp
  then have "0 \<le> round_half_even (x / 2 powi ulp_exp x)" by (simp only: round_half_even_int)
  then show ?thesis by (simp add: round_pos_def)
qed

lemma rnd64_mono: "x \<le> y \<Longrightarrow> rnd64 x \<le> rnd64 y"
proof -
  assume le: "x \<le> y"
  consider "0 < x" | "x \<le> 0" "0 \<le> y" | "y < 0" by linarith
  then show ?thesis
  proof cases
    case 1
    with le show ?thesis by (simp add: rnd64_def round_pos_mono)
  next
    case 2
    have "rnd64 x \<le> 0" using 2 round_pos_nonneg [of "- x"] by (auto simp: rnd64_def)
    moreover have "0 \<le> rnd64 y" using 2 round_pos_nonneg [of y] by (auto simp: rnd64_def)
    ultimately show ?thesis by simp
  next
    case 3
    with le have "round_pos (- y) \<le> round_pos (- x)" by (intro round_pos_mono) auto
    with 3 le show ?thesis by (simp add: rnd64_def)
  qed
qed

lemma rnd64_half: "\<bar>m\<bar> \<le> 2 ^ 53 \<Longrightarrow> rnd64 (of_int m / 2) = of_int m / 2"
proof -
  assume m: "\<bar>m\<bar> \<le> 2 ^ 53"
  have h: "of_int k / 2 = (of_int k :: rat) * 2 powi (-1)" for k by (simp add: power_int_minus)
  consider "m = 0" | "m > 0" | "m < 0" by linarith
  then show ?thesis
  proof cases
    case 2
    have "round_pos (of_int m / 2) = of_int m / 2"
      by (rule round_pos_exact [OF _ h m]) (use 2 in auto)
    with 2 show ?thesis by (simp add: rnd64_def)
  next
    case 3
    have "round_pos (of_int (- m) / 2) = of_int (- m) / 2"
      by (rule round_pos_exact [OF _ h]) (use 3 m in auto)
    with 3 show ?thesis by (simp add: rnd64_def)
  qed (simp add: rnd64_def)
qed

lemma round_half_even_error: "\<bar>of_int (round_half_even x) - x\<bar> \<le> 1/2"
proof -
  have "of_int \<lfloor>x\<rfloor> \<le> x" "x < of_int \<lfloor>x\<rfloor> + 1" by linarith+
  then show ?thesis by (auto simp: round_half_even_def Let_def abs_le_iff)
qed

lemma round_pos_error:
  assumes "2 powi (- 1022) \<le> x"
  shows "\<bar>round_pos x - x\<bar> \<le> x / 2 ^ 53"
proof -
  have x: "x > 0" using assms by (rule less_le_trans [rotated]) simp
  let ?u = "ulp_exp x"
  have up: "(0::rat) < 2 powi ?u" by simp
  have "2 powi (- 1022) < (2::rat) powi (leading_exp x + 1)"
    using assms leading_exp_bounds [OF x] by (meson order_le_less_trans)
  then have "- 1022 < leading_exp x + 1" by (simp only: powi2_less_iff)
  then have "- 1022 \<le> leading_exp x" by simp
  then have u: "?u = leading_exp x - 52" by (rule ulp_exp_le_leading)
  have "round_pos x - x = (of_int (round_half_even (x / 2 powi ?u)) - x / 2 powi ?u) * 2 powi ?u"
    by (simp add: round_pos_def left_diff_distrib)
  then have "\<bar>round_pos x - x\<bar> = \<bar>of_int (round_half_even (x / 2 powi ?u)) - x / 2 powi ?u\<bar> * 2 powi ?u"
    by (simp add: abs_mult)
  also have "\<dots> \<le> 1/2 * 2 powi ?u"
    using round_half_even_error up by (intro mult_right_mono) auto
  also have "\<dots> = 2 powi leading_exp x / 2 ^ 53"
    by (simp add: u power_int_diff)
  also have "\<dots> \<le> x / 2 ^ 53"
    using leading_exp_bounds [OF x] by (intro divide_right_mono) auto
  finally show ?thesis .
qed

lemma rnd64_error:
  assumes "2 powi (- 1022) \<le> \<bar>x\<bar>"
  shows "\<bar>rnd64 x - x\<bar> \<le> \<bar>x\<bar> / 2 ^ 53"
proof -
  have "(0::rat) < 2 powi (- 1022)" by simp
  with assms consider "x > 0" | "x < 0" by fastforce
  then show ?thesis
  proof cases
    case 1
    with assms round_pos_error [of x] show ?thesis by (simp add: rnd64_def)
  next
    case 2
    with assms round_pos_error [of "- x"] show ?thesis
      by (simp add: rnd64_def abs_minus_commute)
  qed
qed

interpretation ieee: rounding rnd64
  by unfold_locales (fact rnd64_mono, fact rnd64_half, fact rnd64_error)

section \<open>Operations on values far from overflow\<close>

lemma F64_MAX_big: "of_int k \<le> F64_MAX" if "\<bar>k\<bar> \<le> 2 ^ 52"
proof -
  have "(of_int k :: rat) \<le> 2 ^ 52" using that by (metis abs_le_D1 of_int_le_numeral_power_cancel_iff)
  also have "\<dots> \<le> F64_MAX" by (simp add: F64_MAX_def)
  finally show ?thesis .
qed

lemma to_f64_bounded:
  assumes "\<bar>x\<bar> \<le> of_int k" "\<bar>k\<bar> \<le> 2 ^ 52"
  shows "to_f64 x = Fin (rnd64 x)"
proof -
  have "of_int (- k) \<le> rnd64 x \<and> rnd64 x \<le> of_int k"
    by (rule ieee.rnd_between_ints) (use assms in auto)
  moreover have "of_int k \<le> F64_MAX" by (rule F64_MAX_big [OF assms(2)])
  ultimately show ?thesis by (auto simp: to_f64_def Let_def)
qed

lemma to_f64_half: "\<bar>m\<bar> \<le> 2 ^ 53 \<Longrightarrow> to_f64 (of_int m / 2) = Fin (of_int m / 2)"
proof -
  assume m: "\<bar>m\<bar> \<le> 2 ^ 53"
  have "\<bar>of_int m / 2 :: rat\<bar> \<le> of_int (2 ^ 52)"
    using m by (simp add: abs_le_iff flip: of_int_minus)
  then show ?thesis using to_f64_bounded [of "of_int m / 2" "2 ^ 52"] rnd64_half [OF m] by simp
qed

lemma to_f64_int: "\<bar>m\<bar> \<le> 2 ^ 52 \<Longrightarrow> to_f64 (of_int m) = Fin (of_int m)"
  using to_f64_half [of "2 * m"] by simp

lemma f_of_nat_small [simp]: "n \<le> 2 ^ 52 \<Longrightarrow> f_of_nat n = Fin (of_nat n)"
  using to_f64_int [of "int n"] by (simp add: f_of_nat_def)

end
