(* ===== verification/Formatting.thy ===== *)
theory Formatting
  imports Text Float64
begin

text \<open>
  Durations as \<open>std::time::Duration\<close> (whole nanoseconds up to \<open>DURATION_MAX\<close>, every operation
  the source uses saturating), and the formatting of the standard library that messages
  interpolate. How a string is escaped by its \<open>Debug\<close> form and how a duration or a binary64
  number is printed does not influence any decision of the program, so \<open>rust_fmt\<close> keeps these
  three renderings as a parameter; integers are printed by \<open>digits_of\<close>.
\<close>

record rust_fmt =
  dbg_str :: "ustr \<Rightarrow> ustr"
  dbg_dur :: "nat \<Rightarrow> ustr"
  show_f64 :: "f64 \<Rightarrow> ustr"

definition plain_fmt :: rust_fmt where
  "plain_fmt = \<lparr> dbg_str = (\<lambda>s. s), dbg_dur = (\<lambda>d. digits_of d @ asc ''ns''), show_f64 = (\<lambda>_. asc ''f'') \<rparr>"

section \<open>Durations\<close>

type_synonym duration = nat

definition NANOS :: nat where "NANOS = 10 ^ 9"

definition DURATION_MAX :: duration where "DURATION_MAX = U64_MAX * NANOS + (NANOS - 1)"

definition secs :: "nat \<Rightarrow> duration" where "secs n = n * NANOS"

definition millis :: "nat \<Rightarrow> duration" where "millis n = n * 10 ^ 6"

definition as_secs :: "duration \<Rightarrow> nat" where "as_secs d = d div NANOS"

definition dur_add :: "duration \<Rightarrow> duration \<Rightarrow> duration" where
  "dur_add a b = sat_add DURATION_MAX a b"

definition dur_sub :: "duration \<Rightarrow> duration \<Rightarrow> duration" where
  "dur_sub a b = sat_sub a b"

definition dur_mul :: "duration \<Rightarrow> nat \<Rightarrow> duration" where
  "dur_mul a n = sat_mul DURATION_MAX a n"

lemma dur_add_le [simp]: "dur_add a b \<le> DURATION_MAX"
  by (simp add: dur_add_def)

lemma dur_mul_le [simp]: "dur_mul a n \<le> DURATION_MAX"
  by (simp add: dur_mul_def)

lemma secs_le_max: "n \<le> U64_MAX \<Longrightarrow> secs n \<le> DURATION_MAX"
  by (simp add: secs_def DURATION_MAX_def trans_le_add1)

section \<open>Derived renderings\<close>

text \<open>\<open>Option<T>\<close> under \<open>{:?}\<close>, and the formats shared by several messages.\<close>

fun dbg_option :: "('a \<Rightarrow> ustr) \<Rightarrow> 'a option \<Rightarrow> ustr" where
  "dbg_option f None = asc ''None''"
| "dbg_option f (Some x) = asc ''Some('' @ f x @ asc '')''"

definition show_nat :: "nat \<Rightarrow> ustr" where "show_nat n = digits_of n"

definition show_int :: "int \<Rightarrow> ustr" where
  "show_int i = (if i < 0 then asc ''-'' @ digits_of (nat (- i)) else digits_of (nat i))"

lemma ascii_show_nat: "c \<in> set (show_nat n) \<Longrightarrow> is_ascii_digit c"
  by (simp add: show_nat_def digits_of_digit)

end
