(* ===== verification/Schema.thy ===== *)
theory Schema
  imports Formatting "HOL-Library.Word" "HOL-Library.List_Lexorder"
begin

text \<open>
  The vocabulary of an analysis (\<open>src/src/schema.rs\<close>): verdicts, severities, modes, the three
  mages, findings and the output of one mage. The orders of the code are instances of
  \<open>linorder\<close>, so that the library's sorting applies to them. A map keyed by mage iterates in
  ascending order of the key, \<open>agents_asc\<close>.
\<close>

section \<open>Verdicts\<close>

datatype verdict = Approve | Reject | Conditional

fun weight :: "verdict \<Rightarrow> f64" where
  "weight Approve = Fin 1"
| "weight Reject = Fin (- 1)"
| "weight Conditional = Fin (1/2)"

fun effective :: "verdict \<Rightarrow> verdict" where
  "effective Approve = Approve"
| "effective Conditional = Approve"
| "effective Reject = Reject"

fun show_verdict :: "verdict \<Rightarrow> ustr" where
  "show_verdict Approve = asc ''APPROVE''"
| "show_verdict Reject = asc ''REJECT''"
| "show_verdict Conditional = asc ''CONDITIONAL''"

text \<open>The weight as an exact number of halves.\<close>

fun half_weight :: "verdict \<Rightarrow> int" where
  "half_weight Approve = 2"
| "half_weight Reject = - 2"
| "half_weight Conditional = 1"

lemma weight_half: "weight v = Fin (of_int (half_weight v) / 2)"
  by (cases v) auto

lemma half_weight_bounds: "- 2 \<le> half_weight v \<and> half_weight v \<le> 2"
  by (cases v) auto

lemma effective_cases: "effective v = Approve \<or> effective v = Reject"
  by (cases v) auto

lemma effective_idem [simp]: "effective (effective v) = effective v"
  by (cases v) auto

lemma effective_Reject_iff: "effective v = Reject \<longleftrightarrow> v = Reject"
  by (cases v) auto

section \<open>Severities\<close>

datatype severity = Critical | Warning | Info

fun icon :: "severity \<Rightarrow> ustr" where
  "icon Critical = asc ''[!!!]''"
| "icon Warning = asc ''[!!]''"
| "icon Info = asc ''[i]''"

fun show_severity :: "severity \<Rightarrow> ustr" where
  "show_severity Critical = asc ''CRITICAL''"
| "show_severity Warning = asc ''WARNING''"
| "show_severity Info = asc ''INFO''"

fun severity_rank :: "severity \<Rightarrow> nat" where
  "severity_rank Info = 0"
| "severity_rank Warning = 1"
| "severity_rank Critical = 2"

lemma severity_rank_inj: "severity_rank a = severity_rank b \<longleftrightarrow> a = b"
  by (cases a; cases b) auto

instantiation severity :: linorder
begin

definition less_eq_severity :: "severity \<Rightarrow> severity \<Rightarrow> bool" where
  "a \<le> b \<longleftrightarrow> severity_rank a \<le> severity_rank b"

definition less_severity :: "severity \<Rightarrow> severity \<Rightarrow> bool" where
  "a < b \<longleftrightarrow> severity_rank a < severity_rank b"

instance
  by standard (auto simp: less_eq_severity_def less_severity_def severity_rank_inj)

end

lemma severity_order: "Info < Warning" "Warning < Critical"
  by (simp_all add: less_severity_def)

section \<open>Modes\<close>

datatype mode = CodeReview | Design | Analysis

fun show_mode :: "mode \<Rightarrow> ustr" where
  "show_mode CodeReview = asc ''code-review''"
| "show_mode Design = asc ''design''"
| "show_mode Analysis = asc ''analysis''"

fun dbg_mode :: "mode \<Rightarrow> ustr" where
  "dbg_mode CodeReview = asc ''CodeReview''"
| "dbg_mode Design = asc ''Design''"
| "dbg_mode Analysis = asc ''Analysis''"

section \<open>Mages\<close>

datatype agent_name = Melchior | Balthasar | Caspar

fun agent_title :: "agent_name \<Rightarrow> ustr" where
  "agent_title Melchior = asc ''Scientist''"
| "agent_title Balthasar = asc ''Pragmatist''"
| "agent_title Caspar = asc ''Critic''"

fun display_name :: "agent_name \<Rightarrow> ustr" where
  "display_name Melchior = asc ''Melchior''"
| "display_name Balthasar = asc ''Balthasar''"
| "display_name Caspar = asc ''Caspar''"

lemma display_name_inj: "display_name a = display_name b \<longleftrightarrow> a = b"
  by (cases a; cases b) auto

instantiation agent_name :: linorder
begin

definition less_eq_agent_name :: "agent_name \<Rightarrow> agent_name \<Rightarrow> bool" where
  "a \<le> b \<longleftrightarrow> display_name a \<le> display_name b"

definition less_agent_name :: "agent_name \<Rightarrow> agent_name \<Rightarrow> bool" where
  "a < b \<longleftrightarrow> display_name a < display_name b"

instance
  by standard (auto simp: less_eq_agent_name_def less_agent_name_def display_name_inj le_less,
    metis display_name_inj linorder_less_linear)

end

lemma agent_order: "Balthasar < Caspar" "Caspar < Melchior" "Balthasar < Melchior"
  by (simp_all add: less_agent_name_def)

definition agents_asc :: "agent_name list" where
  "agents_asc = [Balthasar, Caspar, Melchior]"

lemma agents_asc_all [simp]: "a \<in> set agents_asc"
  by (cases a) (auto simp: agents_asc_def)

lemma agents_asc_sorted: "sorted agents_asc" "distinct agents_asc"
  by (auto simp: agents_asc_def less_imp_le agent_order)

lemma agent_set_le: "finite (A :: agent_name set) \<and> card A \<le> 3"
proof -
  have "A \<subseteq> set agents_asc" by (auto intro: agents_asc_all)
  moreover have "card (set agents_asc) = 3" by (simp add: agents_asc_def)
  ultimately show ?thesis by (metis List.finite_set card_mono finite_subset)
qed

lemma distinct_agents_le: "distinct (xs :: agent_name list) \<Longrightarrow> length xs \<le> 3"
  using agent_set_le [of "set xs"] by (simp add: distinct_card)

text \<open>The values of a map keyed by mage, in iteration order.\<close>

definition map_keys :: "(agent_name \<rightharpoonup> 'v) \<Rightarrow> agent_name list" where
  "map_keys m = filter (\<lambda>a. m a \<noteq> None) agents_asc"

lemma set_map_keys [simp]: "set (map_keys m) = dom m"
  by (auto simp: map_keys_def)

lemma distinct_map_keys [simp]: "distinct (map_keys m)"
  by (simp add: map_keys_def agents_asc_sorted)

section \<open>Findings\<close>

datatype category =
    BufferOverflow | NullDeref | ResourceLeak | UnvalidatedInput | RaceCondition
  | ErrorHandling | HardcodedSecret | IntegerOverflow | Injection | LogicError
  | TypeMismatch | DeprecatedApi | Performance | Style | Documentation | OtherCategory

record finding =
  fi_severity :: severity
  fi_title :: ustr
  fi_detail :: ustr
  fi_file :: "ustr option"
  fi_line :: "32 word option"
  fi_category :: category

definition finding_new :: "severity \<Rightarrow> ustr \<Rightarrow> ustr \<Rightarrow> finding" where
  "finding_new s t d = \<lparr> fi_severity = s, fi_title = t, fi_detail = d, fi_file = None,
     fi_line = None, fi_category = OtherCategory \<rparr>"

definition with_location :: "finding \<Rightarrow> ustr \<Rightarrow> 32 word \<Rightarrow> finding" where
  "with_location f file line = f\<lparr> fi_file := Some file, fi_line := Some line \<rparr>"

definition with_category :: "finding \<Rightarrow> category \<Rightarrow> finding" where
  "with_category f c = f\<lparr> fi_category := c \<rparr>"

section \<open>The output of one mage\<close>

record agent_output =
  ao_agent :: agent_name
  ao_verdict :: verdict
  ao_confidence :: f64
  ao_summary :: ustr
  ao_reasoning :: ustr
  ao_findings :: "finding list"
  ao_recommendation :: ustr

definition effective_verdict :: "agent_output \<Rightarrow> verdict" where
  "effective_verdict a = effective (ao_verdict a)"

definition is_approving :: "agent_output \<Rightarrow> bool" where
  "is_approving a \<longleftrightarrow> ao_verdict a = Approve \<or> ao_verdict a = Conditional"

definition is_dissenting :: "agent_output \<Rightarrow> verdict \<Rightarrow> bool" where
  "is_dissenting a v \<longleftrightarrow> effective_verdict a \<noteq> v"

lemma is_approving_iff: "is_approving a \<longleftrightarrow> effective_verdict a = Approve"
  by (cases "ao_verdict a") (auto simp: is_approving_def effective_verdict_def)

text \<open>A vote with given findings, for concrete evaluations.\<close>

definition vote :: "agent_name \<Rightarrow> verdict \<Rightarrow> finding list \<Rightarrow> agent_output" where
  "vote a v fs = \<lparr> ao_agent = a, ao_verdict = v, ao_confidence = Fin 1, ao_summary = asc ''s'',
     ao_reasoning = asc ''r'', ao_findings = fs, ao_recommendation = asc ''go'' \<rparr>"

lemma vote_simps [simp]:
  "ao_agent (vote a v fs) = a" "ao_verdict (vote a v fs) = v" "ao_confidence (vote a v fs) = Fin 1"
  "ao_findings (vote a v fs) = fs" "effective_verdict (vote a v fs) = effective v"
  by (simp_all add: vote_def effective_verdict_def)

end
