(* ===== verification/Finding_Id.thy ===== *)
theory Finding_Id
  imports Schema
begin

text \<open>
  The stable identity of a finding (\<open>src/src/finding_id.rs\<close>): path and category
  normalisation, the identifier, and the three fail-soft field deserialisers. SHA-256 is the
  \<open>sha2\<close> crate's: a parameter that maps a string (its UTF-8 encoding) to the digest's
  bytes. A JSON value is what \<open>serde_json::Value\<close> holds.
\<close>

section \<open>Paths\<close>

fun strip_dot_slash :: "ustr \<Rightarrow> ustr" where
  "strip_dot_slash (c # d # s) = (if c = 46 \<and> d = 47 then strip_dot_slash s else c # d # s)"
| "strip_dot_slash s = s"

function collapse_slashes :: "ustr \<Rightarrow> ustr" where
  "collapse_slashes p =
     (if contains p (asc ''//'') then collapse_slashes (replace_all (asc ''//'') (asc ''/'') p) else p)"
  by pat_completeness auto
termination
  by (relation "measure length") (auto intro: length_replace_all_less)

declare collapse_slashes.simps [simp del]

definition normalize_path :: "ustr \<Rightarrow> ustr" where
  "normalize_path path =
     collapse_slashes (strip_dot_slash (map (\<lambda>c. if c = 92 then 47 else c) path))"

lemma strip_dot_slash_no_prefix: "\<not> starts_with (strip_dot_slash p) (asc ''./'')"
  by (induction p rule: strip_dot_slash.induct) auto

lemma strip_dot_slash_id: "\<not> starts_with p (asc ''./'') \<Longrightarrow> strip_dot_slash p = p"
  by (cases p rule: strip_dot_slash.cases) auto

lemma set_strip_dot_slash: "set (strip_dot_slash p) \<subseteq> set p"
  by (induction p rule: strip_dot_slash.induct) auto

lemma collapse_slashes_no_double: "\<not> contains (collapse_slashes p) (asc ''//'')"
proof (induction p rule: collapse_slashes.induct)
  case (1 p)
  then show ?case by (cases "contains p (asc ''//'')") (simp_all add: collapse_slashes.simps [of p])
qed

lemma collapse_slashes_id: "\<not> contains p (asc ''//'') \<Longrightarrow> collapse_slashes p = p"
  by (simp add: collapse_slashes.simps)

lemma set_collapse_slashes: "set (collapse_slashes p) \<subseteq> set p \<union> {47}"
proof (induction p rule: collapse_slashes.induct)
  case (1 p)
  have "set (replace_all (asc ''//'') (asc ''/'') p) \<subseteq> set p \<union> {47}"
    using set_replace_all [of "asc ''//''" "asc ''/''" p] by auto
  with 1 show ?case by (subst collapse_slashes.simps) auto
qed

text \<open>Collapsing never changes the first character, nor whether the second is a slash.\<close>

lemma replace_slashes_hd:
  "replace_all [47, 47] [47] s = [] \<longleftrightarrow> s = []"
  "s \<noteq> [] \<Longrightarrow> hd (replace_all [47, 47] [47] s) = hd s"
  by (cases s; auto simp: replace_all.simps(2) starts_with_iff)+

lemma replace_slashes_prefix:
  "starts_with (replace_all [47, 47] [47] s) [46, 47] \<longleftrightarrow> starts_with s [46, 47]"
proof (cases s)
  case (Cons c t)
  show ?thesis
  proof (cases "c = 46")
    case True
    have "replace_all [47, 47] [47] s = 46 # replace_all [47, 47] [47] t"
      using Cons True by (simp add: replace_all.simps(2))
    moreover have "starts_with (replace_all [47, 47] [47] t) [47] \<longleftrightarrow> starts_with t [47]"
      using replace_slashes_hd [of t]
      by (cases t; cases "replace_all [47, 47] [47] t") auto
    ultimately show ?thesis using Cons True by simp
  next
    case False
    with Cons replace_slashes_hd [of s] show ?thesis
      by (cases "replace_all [47, 47] [47] s") auto
  qed
qed simp

lemma collapse_slashes_prefix:
  "starts_with (collapse_slashes p) (asc ''./'') \<longleftrightarrow> starts_with p (asc ''./'')"
proof (induction p rule: collapse_slashes.induct)
  case (1 p)
  show ?case
  proof (cases "contains p (asc ''//'')")
    case True
    with 1 have "starts_with (collapse_slashes p) (asc ''./'') \<longleftrightarrow>
        starts_with (replace_all (asc ''//'') (asc ''/'') p) (asc ''./'')"
      by (simp add: collapse_slashes.simps [of p])
    also have "\<dots> \<longleftrightarrow> starts_with p (asc ''./'')"
      using replace_slashes_prefix [of p] by simp
    finally show ?thesis .
  qed (simp add: collapse_slashes.simps [of p])
qed

definition canonical_path :: "ustr \<Rightarrow> bool" where
  "canonical_path p \<longleftrightarrow> 92 \<notin> set p \<and> \<not> starts_with p (asc ''./'') \<and> \<not> contains p (asc ''//'')"

lemma normalize_path_canonical: "canonical_path (normalize_path p)"
proof -
  let ?q = "map (\<lambda>c. if c = 92 then 47 else c) p"
  have "92 \<notin> set (strip_dot_slash ?q)" using set_strip_dot_slash [of ?q] by auto
  then have "92 \<notin> set (normalize_path p)"
    unfolding normalize_path_def using set_collapse_slashes by fastforce
  then show ?thesis
    by (simp add: canonical_path_def normalize_path_def collapse_slashes_prefix
        strip_dot_slash_no_prefix collapse_slashes_no_double del: asc_Cons)
qed

lemma normalize_path_fix: "canonical_path p \<Longrightarrow> normalize_path p = p"
proof -
  assume c: "canonical_path p"
  then have "map (\<lambda>c. if c = 92 then 47 else c) p = p" by (intro map_idI) (auto simp: canonical_path_def)
  with c show ?thesis
    by (simp add: canonical_path_def normalize_path_def strip_dot_slash_id collapse_slashes_id del: asc_Cons)
qed

section \<open>Categories\<close>

fun category_slug :: "category \<Rightarrow> ustr" where
  "category_slug BufferOverflow = asc ''buffer-overflow''"
| "category_slug NullDeref = asc ''null-deref''"
| "category_slug ResourceLeak = asc ''resource-leak''"
| "category_slug UnvalidatedInput = asc ''unvalidated-input''"
| "category_slug RaceCondition = asc ''race-condition''"
| "category_slug ErrorHandling = asc ''error-handling''"
| "category_slug HardcodedSecret = asc ''hardcoded-secret''"
| "category_slug IntegerOverflow = asc ''integer-overflow''"
| "category_slug Injection = asc ''injection''"
| "category_slug LogicError = asc ''logic-error''"
| "category_slug TypeMismatch = asc ''type-mismatch''"
| "category_slug DeprecatedApi = asc ''deprecated-api''"
| "category_slug Performance = asc ''performance''"
| "category_slug Style = asc ''style''"
| "category_slug Documentation = asc ''documentation''"
| "category_slug OtherCategory = asc ''other''"

definition all_categories :: "category list" where
  "all_categories = [BufferOverflow, NullDeref, ResourceLeak, UnvalidatedInput, RaceCondition,
     ErrorHandling, HardcodedSecret, IntegerOverflow, Injection, LogicError, TypeMismatch,
     DeprecatedApi, Performance, Style, Documentation, OtherCategory]"

definition category_from_slug :: "ustr \<Rightarrow> category" where
  "category_from_slug slug =
     (case find (\<lambda>c. category_slug c = slug) all_categories of Some c \<Rightarrow> c | None \<Rightarrow> OtherCategory)"

definition normalize_category :: "unicode \<Rightarrow> ustr option \<Rightarrow> category" where
  "normalize_category U value =
     (case value of
        None \<Rightarrow> OtherCategory
      | Some raw \<Rightarrow>
          category_from_slug
            (map (\<lambda>c. if c = 95 \<or> c = 32 then 45 else c) (to_lowercase U (trim raw))))"

lemma category_slug_roundtrip: "category_from_slug (category_slug c) = c"
  by (cases c) (simp_all add: category_from_slug_def all_categories_def)

lemma category_slug_inj: "category_slug a = category_slug b \<Longrightarrow> a = b"
  by (metis category_slug_roundtrip)

section \<open>The identifier\<close>

definition FINDING_ID_HEX_LEN :: nat where "FINDING_ID_HEX_LEN = 16"

definition hex_digit :: "nat \<Rightarrow> nat" where
  "hex_digit d = (if d < 10 then 48 + d else 87 + d)"

definition hex_byte :: "nat \<Rightarrow> ustr" where
  "hex_byte b = [hex_digit (b div 16), hex_digit (b mod 16)]"

definition id_payload :: "ustr \<Rightarrow> 32 word \<Rightarrow> category \<Rightarrow> ustr" where
  "id_payload file line cat =
     normalize_path file @ asc '':'' @ show_nat (unat line) @ asc '':'' @ category_slug cat"

definition generate_finding_id ::
  "(ustr \<Rightarrow> nat list) \<Rightarrow> ustr \<Rightarrow> 32 word \<Rightarrow> category \<Rightarrow> ustr" where
  "generate_finding_id sha file line cat =
     concat (map hex_byte (take (FINDING_ID_HEX_LEN div 2) (sha (id_payload file line cat))))"

lemma length_concat_hex: "length (concat (map hex_byte bs)) = 2 * length bs"
  by (induction bs) (auto simp: hex_byte_def)

section \<open>Fail-soft fields\<close>

datatype json_number = PosInt nat | NegInt int | JFloat f64

datatype json = JNull | JBool bool | JNumber json_number | JString ustr
  | JArray "json list" | JObject "(ustr \<times> json) list"

definition u32_try_from :: "int \<Rightarrow> 32 word option" where
  "u32_try_from i = (if 0 \<le> i \<and> i \<le> int U32_MAX then Some (word_of_int i) else None)"

definition filter_positive :: "32 word option \<Rightarrow> 32 word option" where
  "filter_positive r = (case r of Some x \<Rightarrow> if x > 0 then Some x else None | None \<Rightarrow> None)"

definition de_opt_file :: "json \<Rightarrow> ustr option" where
  "de_opt_file v = (case v of JString s \<Rightarrow> Some s | _ \<Rightarrow> None)"

definition de_opt_line :: "json \<Rightarrow> 32 word option" where
  "de_opt_line v =
     (case v of
        JNumber (PosInt u) \<Rightarrow> filter_positive (u32_try_from (int u))
      | JNumber (NegInt i) \<Rightarrow> filter_positive (u32_try_from i)
      | JNumber (JFloat f) \<Rightarrow>
          (case f of
             Fin x \<Rightarrow> if x = of_int \<lfloor>x\<rfloor> \<and> x > 0 \<and> x \<le> of_nat U32_MAX
                      then Some (word_of_int \<lfloor>x\<rfloor>) else None
           | _ \<Rightarrow> None)
      | _ \<Rightarrow> None)"

definition de_category :: "unicode \<Rightarrow> json \<Rightarrow> category" where
  "de_category U v = (case v of JString s \<Rightarrow> normalize_category U (Some s) | _ \<Rightarrow> OtherCategory)"

text \<open>The number a JSON number denotes, and what a line may be.\<close>

fun json_value :: "json_number \<Rightarrow> rat option" where
  "json_value (PosInt n) = Some (of_nat n)"
| "json_value (NegInt i) = Some (of_int i)"
| "json_value (JFloat (Fin x)) = Some x"
| "json_value (JFloat _) = None"

lemma word_of_int_u32: "0 \<le> i \<Longrightarrow> i \<le> int U32_MAX \<Longrightarrow> uint (word_of_int i :: 32 word) = i"
  by (simp add: uint_word_of_int U32_MAX_def)

lemma u32_try_from_Some: "u32_try_from i = Some w \<Longrightarrow> uint w = i"
  by (auto simp: u32_try_from_def word_of_int_u32 split: if_splits)

lemma filter_positive_Some: "filter_positive r = Some w \<longleftrightarrow> r = Some w \<and> w > 0"
  by (auto simp: filter_positive_def split: option.splits)

end
