(* ===== verification/Telemetry.thy ===== *)
theory Telemetry
  imports Schema
begin

text \<open>
  What a completion carries (first part of \<open>src/src/provider.rs\<close>): its configuration, the
  reason generation stopped, the reasoning measurement, and what the termination says about
  the output budget. Token counts are \<open>u32\<close> values that are only reported.
\<close>

section \<open>Configuration of a completion\<close>

datatype reasoning_control = RcDefault | RcDisabled

record completion_config =
  cc_max_tokens :: nat
  cc_temperature :: f64
  cc_reasoning :: reasoning_control
  cc_reasoning_trace :: bool

definition completion_config_default :: completion_config where
  "completion_config_default = \<lparr> cc_max_tokens = 16384, cc_temperature = Fin 0,
     cc_reasoning = RcDefault, cc_reasoning_trace = False \<rparr>"

definition cc_with_reasoning :: "reasoning_control \<Rightarrow> completion_config \<Rightarrow> completion_config" where
  "cc_with_reasoning r c = c\<lparr> cc_reasoning := r \<rparr>"

definition cc_with_reasoning_trace :: "bool \<Rightarrow> completion_config \<Rightarrow> completion_config" where
  "cc_with_reasoning_trace on c = c\<lparr> cc_reasoning_trace := on \<rparr>"

section \<open>Why the model stopped\<close>

definition MAX_FINISH_REASON_CHARS :: nat where "MAX_FINISH_REASON_CHARS = 64"

datatype finish_reason = Stop | Length | Load | OtherReason ustr

definition STOP_WORDS :: "ustr list" where
  "STOP_WORDS = map asc [''stop'', ''content_filter'', ''tool_calls'', ''function_call'',
     ''end_turn'', ''stop_sequence'', ''tool_use'', ''refusal'', ''pause_turn'']"

definition LENGTH_WORDS :: "ustr list" where
  "LENGTH_WORDS = map asc [''length'', ''max_tokens'', ''model_context_window_exceeded'']"

definition finish_from_wire :: "ustr \<Rightarrow> finish_reason" where
  "finish_from_wire raw =
     (if raw \<in> set STOP_WORDS then Stop
      else if raw \<in> set LENGTH_WORDS then Length
      else if raw = asc ''load'' then Load
      else OtherReason (take MAX_FINISH_REASON_CHARS raw))"

fun finish_serialize :: "finish_reason \<Rightarrow> ustr" where
  "finish_serialize Stop = asc ''stop''"
| "finish_serialize Length = asc ''length''"
| "finish_serialize Load = asc ''load''"
| "finish_serialize (OtherReason w) = w"

fun dbg_finish :: "rust_fmt \<Rightarrow> finish_reason \<Rightarrow> ustr" where
  "dbg_finish F Stop = asc ''Stop''"
| "dbg_finish F Length = asc ''Length''"
| "dbg_finish F Load = asc ''Load''"
| "dbg_finish F (OtherReason w) = asc ''Other('' @ dbg_str F w @ asc '')''"

lemma finish_known_len: "w \<in> set STOP_WORDS \<union> set LENGTH_WORDS \<Longrightarrow> length w \<le> 29"
  by (auto simp: STOP_WORDS_def LENGTH_WORDS_def)

text \<open>Writing what was read and reading it back is the same reason, whatever the wire said: a
  known word is folded once, and an unknown one, cut to 64 characters, stays unknown.\<close>

lemma take_not_known:
  assumes "raw \<notin> K" "\<And>w. w \<in> K \<Longrightarrow> length w < n"
  shows "take n raw \<notin> K"
proof
  assume k: "take n raw \<in> K"
  with assms(2) have "length (take n raw) < n" by blast
  then have "take n raw = raw" by simp
  with k assms(1) show False by simp
qed

lemma finish_wire_stable: "finish_from_wire (finish_serialize (finish_from_wire raw)) = finish_from_wire raw"
proof -
  let ?K = "set STOP_WORDS \<union> set LENGTH_WORDS \<union> {asc ''load''}"
  let ?t = "take MAX_FINISH_REASON_CHARS raw"
  show ?thesis
  proof (cases "raw \<in> ?K")
    case True
    then show ?thesis by (auto simp: finish_from_wire_def STOP_WORDS_def LENGTH_WORDS_def)
  next
    case False
    have "?t \<notin> ?K"
      by (rule take_not_known [OF False])
        (auto simp: MAX_FINISH_REASON_CHARS_def STOP_WORDS_def LENGTH_WORDS_def)
    with False show ?thesis by (auto simp: finish_from_wire_def)
  qed
qed

section \<open>Measurements\<close>

datatype reasoning_state =
    NotMeasured
  | Unsupported (rs_backend: ustr) (rs_chars: "nat option") (rs_text: "ustr option")
  | Measured (rs_measured: nat) (rs_trace: "ustr option")

record telemetry =
  tm_finish :: "finish_reason option"
  tm_completion_tokens :: "nat option"
  tm_prompt_tokens :: "nat option"
  tm_reasoning :: reasoning_state

definition unmeasured :: telemetry where
  "unmeasured = \<lparr> tm_finish = None, tm_completion_tokens = None, tm_prompt_tokens = None,
     tm_reasoning = NotMeasured \<rparr>"

record completion =
  cp_text :: ustr
  cp_telemetry :: telemetry

definition completion_new :: "ustr \<Rightarrow> completion" where
  "completion_new t = \<lparr> cp_text = t, cp_telemetry = unmeasured \<rparr>"

text \<open>The reasoning text never reaches a debug rendering; only its length does.\<close>

fun elided :: "ustr option \<Rightarrow> ustr" where
  "elided (Some t) = asc ''<'' @ show_nat (length t) @ asc '' chars withheld>''"
| "elided None = asc ''None''"

fun dbg_reasoning :: "rust_fmt \<Rightarrow> reasoning_state \<Rightarrow> ustr" where
  "dbg_reasoning F NotMeasured = asc ''NotMeasured''"
| "dbg_reasoning F (Unsupported b c t) =
     asc ''Unsupported { backend: '' @ dbg_str F b @ asc '', chars: '' @ dbg_option show_nat c
       @ asc '', text: '' @ dbg_str F (elided t) @ asc '' }''"
| "dbg_reasoning F (Measured c t) =
     asc ''Measured { chars: '' @ show_nat c @ asc '', text: '' @ dbg_str F (elided t) @ asc '' }''"

fun measurement :: "reasoning_state \<Rightarrow> ustr" where
  "measurement NotMeasured = asc ''not measured''"
| "measurement (Unsupported b (Some n) t) =
     asc ''unsupported by '' @ b @ asc '', '' @ show_nat n @ asc '' chars''"
| "measurement (Unsupported b None t) = asc ''unsupported by '' @ b @ asc '', unmeasured''"
| "measurement (Measured c t) = show_nat c @ asc '' chars''"

definition with_finish :: "finish_reason \<Rightarrow> telemetry \<Rightarrow> telemetry" where
  "with_finish r t = t\<lparr> tm_finish := Some r \<rparr>"

definition with_completion_tokens :: "nat \<Rightarrow> telemetry \<Rightarrow> telemetry" where
  "with_completion_tokens n t = t\<lparr> tm_completion_tokens := Some n \<rparr>"

definition with_prompt_tokens :: "nat \<Rightarrow> telemetry \<Rightarrow> telemetry" where
  "with_prompt_tokens n t = t\<lparr> tm_prompt_tokens := Some n \<rparr>"

definition with_reasoning :: "reasoning_state \<Rightarrow> telemetry \<Rightarrow> telemetry" where
  "with_reasoning s t = t\<lparr> tm_reasoning := s \<rparr>"

definition with_telemetry :: "telemetry \<Rightarrow> completion \<Rightarrow> completion" where
  "with_telemetry t c = c\<lparr> cp_telemetry := t \<rparr>"

text \<open>A builder step taken when a value was measured: \<open>if let Some(x) = v\<close>.\<close>

fun if_measured :: "('a \<Rightarrow> 'b \<Rightarrow> 'b) \<Rightarrow> 'a option \<Rightarrow> 'b \<Rightarrow> 'b" where
  "if_measured f None t = t"
| "if_measured f (Some x) t = f x t"

text \<open>A telemetry built from what was measured holds exactly that.\<close>

lemma telemetry_built:
  "if_measured with_prompt_tokens p (if_measured with_completion_tokens c
     (if_measured with_finish f (with_reasoning r unmeasured)))
   = \<lparr> tm_finish = f, tm_completion_tokens = c, tm_prompt_tokens = p, tm_reasoning = r \<rparr>"
  "with_reasoning r (if_measured with_prompt_tokens p (if_measured with_completion_tokens c
     (if_measured with_finish f unmeasured)))
   = \<lparr> tm_finish = f, tm_completion_tokens = c, tm_prompt_tokens = p, tm_reasoning = r \<rparr>"
  "with_reasoning r (if_measured with_finish f (if_measured with_completion_tokens c
     (if_measured with_prompt_tokens p unmeasured)))
   = \<lparr> tm_finish = f, tm_completion_tokens = c, tm_prompt_tokens = p, tm_reasoning = r \<rparr>"
  by (cases p; cases c; cases f; simp add: with_prompt_tokens_def with_completion_tokens_def
      with_finish_def with_reasoning_def unmeasured_def)+

datatype budget_bearing = MayExplain | RuledOut | Unknown

definition budget_bearing_of :: "telemetry \<Rightarrow> budget_bearing" where
  "budget_bearing_of t =
     (case tm_finish t of
        None \<Rightarrow> MayExplain
      | Some Length \<Rightarrow> MayExplain
      | Some Stop \<Rightarrow> RuledOut
      | Some Load \<Rightarrow> RuledOut
      | Some (OtherReason _) \<Rightarrow> Unknown)"

text \<open>The reasoning trace cannot be told from any other of the same length.\<close>

lemma dbg_reasoning_hides:
  "length t = length t' \<Longrightarrow> dbg_reasoning F (Measured c (Some t)) = dbg_reasoning F (Measured c (Some t'))"
  "length t = length t' \<Longrightarrow>
     dbg_reasoning F (Unsupported b n (Some t)) = dbg_reasoning F (Unsupported b n (Some t'))"
  by simp_all

end
