(* ===== verification/Errors.thy ===== *)
theory Errors
  imports Telemetry
begin

text \<open>
  The error types (\<open>src/src/error.rs\<close>): what a provider can fail with, what an analysis can
  fail with, the composed messages, and the truncation every carried text goes through. The
  text of an I/O error is the operating system's and is carried as it is.
\<close>

section \<open>Truncation\<close>

definition ELLIPSIS :: nat where "ELLIPSIS = 0x2026"

definition TRUNCATION_MARKER :: ustr where
  "TRUNCATION_MARKER = SPC # ELLIPSIS # asc '' (truncated)''"

text \<open>\<open>&s[..s.floor_char_boundary(n)]\<close>: the longest prefix of at most \<open>n\<close> bytes.\<close>

fun floor_prefix :: "nat \<Rightarrow> ustr \<Rightarrow> ustr" where
  "floor_prefix n [] = []"
| "floor_prefix n (c # s) = (if utf8_len1 c \<le> n then c # floor_prefix (n - utf8_len1 c) s else [])"

definition mark_within_cap :: "ustr \<Rightarrow> nat \<Rightarrow> ustr" where
  "mark_within_cap text cap =
     (if cap < utf8_len TRUNCATION_MARKER then floor_prefix cap TRUNCATION_MARKER
      else floor_prefix (sat_sub cap (utf8_len TRUNCATION_MARKER)) text @ TRUNCATION_MARKER)"

lemma floor_prefix_le: "utf8_len (floor_prefix n s) \<le> n"
  by (induction n s rule: floor_prefix.induct) auto

lemma floor_prefix_prefix: "\<exists>t. s = floor_prefix n s @ t"
  by (induction n s rule: floor_prefix.induct) auto

lemma floor_prefix_maximal:
  "s = floor_prefix n s @ c # t \<Longrightarrow> n < utf8_len (floor_prefix n s) + utf8_len1 c"
  by (induction n s rule: floor_prefix.induct) (auto split: if_splits)

lemma floor_prefix_all: "utf8_len s \<le> n \<Longrightarrow> floor_prefix n s = s"
  by (induction n s rule: floor_prefix.induct) auto

lemma utf8_len_marker [simp]: "utf8_len TRUNCATION_MARKER = 16"
  by (simp add: TRUNCATION_MARKER_def ELLIPSIS_def utf8_len1_def)

lemma mark_within_cap_le: "utf8_len (mark_within_cap text cap) \<le> cap"
  using floor_prefix_le [of cap TRUNCATION_MARKER] floor_prefix_le [of "cap - 16" "text"]
  by (auto simp: mark_within_cap_def sat_sub_def)

lemma mark_within_cap_marked:
  "16 \<le> cap \<Longrightarrow> \<exists>p. mark_within_cap text cap = p @ TRUNCATION_MARKER \<and> (\<exists>q. text = p @ q)"
  using floor_prefix_prefix by (auto simp: mark_within_cap_def)

section \<open>Failures of a provider\<close>

datatype abandon_reason =
    RetryAfterTooLong (ar_requested: duration) (ar_cap: duration)
  | RetryAfterUnintelligible (ar_raw: ustr)
  | OperationBudgetExhausted (ar_elapsed: duration) (ar_budget: duration)

datatype response_contract_cause = Unreadable | NoMessage | RedirectRefused

datatype external_error_kind = XNetwork | XTimeout | XAuth | XRateLimit | XServerError | XOther

datatype provider_error =
    Http (pe_status: nat) (pe_body: ustr) (pe_retry_after: "ustr list") (pe_received_at: "nat option")
  | Network (pe_message: ustr)
  | Timeout (pe_message: ustr)
  | Auth (pe_message: ustr)
  | Process (pe_exit_code: "int option") (pe_stderr: ustr)
  | NestedSession
  | ResponseTooLarge (pe_limit: nat)
  | RetryAbandoned (pe_reason: abandon_reason) (pe_attempts: nat)
  | External (pe_message: ustr) (pe_kind: external_error_kind)
  | ResponseContract (pe_cause: response_contract_cause) (pe_detail: ustr)
  | EmptyCompletion (pe_telemetry: telemetry) (pe_cap: nat)
  | NoGeneration (pe_done_reason: "finish_reason option")

definition MAX_EXTERNAL_MESSAGE_BYTES :: nat where "MAX_EXTERNAL_MESSAGE_BYTES = 400"

definition MAX_CONTRACT_DETAIL_CHARS :: nat where "MAX_CONTRACT_DETAIL_CHARS = 256"

definition response_contract :: "response_contract_cause \<Rightarrow> ustr \<Rightarrow> provider_error" where
  "response_contract reason detail =
     ResponseContract reason
       (if length detail > MAX_CONTRACT_DETAIL_CHARS then take MAX_CONTRACT_DETAIL_CHARS detail
        else detail)"

definition external :: "ustr \<Rightarrow> external_error_kind \<Rightarrow> provider_error" where
  "external raw kind =
     External (if utf8_len raw \<le> MAX_EXTERNAL_MESSAGE_BYTES then raw
               else mark_within_cap raw MAX_EXTERNAL_MESSAGE_BYTES) kind"

section \<open>Messages\<close>

definition suffix :: "ustr \<Rightarrow> ustr" where
  "suffix detail = (if detail = [] then [] else asc '' ('' @ detail @ asc '')'')"

fun show_contract_cause :: "response_contract_cause \<Rightarrow> ustr" where
  "show_contract_cause Unreadable = asc ''the response body could not be read''"
| "show_contract_cause NoMessage = asc ''the response carried no message''"
| "show_contract_cause RedirectRefused =
     asc ''the response was a redirect chain this crate will not follow''"

definition REMEDY_PRESCRIBES :: ustr where "REMEDY_PRESCRIBES = asc ''configurable via''"
definition REMEDY_RULED_OUT :: ustr where "REMEDY_RULED_OUT = asc ''does not address''"
definition REMEDY_UNKNOWN :: ustr where "REMEDY_UNKNOWN = asc ''cannot be told''"

fun empty_completion_remedy :: "budget_bearing \<Rightarrow> nat option \<Rightarrow> ustr" where
  "empty_completion_remedy MayExplain prompt_tokens =
     asc '', '' @ REMEDY_PRESCRIBES @ asc '' `CompletionConfig::max_tokens`. ''
     @ (case prompt_tokens of
          Some n \<Rightarrow> asc ''The prompt measured '' @ show_nat n @ asc '' tokens: if that is''
        | None \<Rightarrow> asc ''The prompt was not measured; if it is'')
     @ asc '' already near the model's context window, it is the input that has to shrink and raising the cap will not help -- both causes arrive under the same termination and this crate does not guess between them.''"
| "empty_completion_remedy RuledOut _ =
     asc '', but the termination the backend reported is not the budget running out, so raising `CompletionConfig::max_tokens` ''
     @ REMEDY_RULED_OUT @ asc '' this.''"
| "empty_completion_remedy Unknown _ =
     asc '', and the termination the backend reported is not one this crate interprets, so whether the budget was reached ''
     @ REMEDY_UNKNOWN @ asc '' from it.''"

fun dbg_abandon :: "rust_fmt \<Rightarrow> abandon_reason \<Rightarrow> ustr" where
  "dbg_abandon F (RetryAfterTooLong r c) =
     asc ''RetryAfterTooLong { requested: '' @ dbg_dur F r @ asc '', cap: '' @ dbg_dur F c @ asc '' }''"
| "dbg_abandon F (RetryAfterUnintelligible raw) =
     asc ''RetryAfterUnintelligible { raw: '' @ dbg_str F raw @ asc '' }''"
| "dbg_abandon F (OperationBudgetExhausted e b) =
     asc ''OperationBudgetExhausted { elapsed: '' @ dbg_dur F e @ asc '', budget: '' @ dbg_dur F b
       @ asc '' }''"

fun dbg_external_kind :: "external_error_kind \<Rightarrow> ustr" where
  "dbg_external_kind XNetwork = asc ''Network''"
| "dbg_external_kind XTimeout = asc ''Timeout''"
| "dbg_external_kind XAuth = asc ''Auth''"
| "dbg_external_kind XRateLimit = asc ''RateLimit''"
| "dbg_external_kind XServerError = asc ''ServerError''"
| "dbg_external_kind XOther = asc ''Other''"

fun show_provider_error :: "rust_fmt \<Rightarrow> provider_error \<Rightarrow> ustr" where
  "show_provider_error F (Http st body ra rcv) =
     asc ''http error '' @ show_nat st @ asc '': '' @ body"
| "show_provider_error F (Network m) = asc ''network error: '' @ m"
| "show_provider_error F (Timeout m) = asc ''timeout: '' @ m"
| "show_provider_error F (Auth m) = asc ''auth error: '' @ m"
| "show_provider_error F (Process code err) =
     asc ''process error (exit_code='' @ dbg_option show_int code @ asc ''): '' @ err"
| "show_provider_error F NestedSession =
     asc ''nested session detected: cannot launch CLI provider from within an existing session''"
| "show_provider_error F (ResponseTooLarge limit) =
     asc ''response body exceeded '' @ show_nat limit @ asc '' bytes''"
| "show_provider_error F (RetryAbandoned reason n) =
     asc ''retry abandoned after '' @ show_nat n @ asc '' attempt(s): '' @ dbg_abandon F reason"
| "show_provider_error F (External m k) =
     asc ''external provider error ('' @ dbg_external_kind k @ asc ''): '' @ m"
| "show_provider_error F (ResponseContract reason detail) =
     asc ''response contract violated: '' @ show_contract_cause reason @ suffix detail"
| "show_provider_error F (EmptyCompletion t cap) =
     asc ''empty completion: the model returned no content (termination: ''
     @ dbg_option (dbg_finish F) (tm_finish t)
     @ asc ''). The output budget in force was '' @ show_nat cap @ asc '' tokens''
     @ empty_completion_remedy (budget_bearing_of t) (tm_prompt_tokens t)"
| "show_provider_error F (NoGeneration d) =
     asc ''no generation - token counters absent (termination: '' @ dbg_option (dbg_finish F) d
     @ asc ''); the known cause of this is a request without `messages`, which points at a defect in magi-core''"

section \<open>Failures of an analysis\<close>

datatype magi_error =
    Validation (me_text: ustr)
  | ProviderFailed (me_provider: provider_error)
  | InsufficientAgents (me_succeeded: nat) (me_required: nat)
  | Deserialization (me_text: ustr)
  | InputTooLarge (me_size: nat) (me_max: nat)
  | InvalidInput (me_reason: ustr)
  | SkippedByComplexityGate (me_reason: ustr)
  | IoError (me_text: ustr)
  | EndpointDown (me_lineages: "ustr list")
  | CrateDefect (me_observation: ustr) (me_hypothesis: ustr) (me_agent: agent_name)
      (me_model: ustr) (me_joined: "agent_name list")
  | PromptContract (me_owner: "agent_name option") (me_mode: "mode option") (me_reason: ustr)

fun show_magi_error :: "rust_fmt \<Rightarrow> magi_error \<Rightarrow> ustr" where
  "show_magi_error F (Validation m) = asc ''validation error: '' @ m"
| "show_magi_error F (ProviderFailed e) = show_provider_error F e"
| "show_magi_error F (InsufficientAgents s r) =
     asc ''insufficient agents: '' @ show_nat s @ asc '' succeeded, '' @ show_nat r @ asc '' required''"
| "show_magi_error F (Deserialization m) = asc ''deserialization error: '' @ m"
| "show_magi_error F (InputTooLarge s m) =
     asc ''input too large: '' @ show_nat s @ asc '' bytes exceeds maximum of '' @ show_nat m
     @ asc '' bytes''"
| "show_magi_error F (InvalidInput r) = asc ''invalid input: '' @ r"
| "show_magi_error F (SkippedByComplexityGate r) = asc ''skipped by complexity gate: '' @ r"
| "show_magi_error F (IoError m) = m"
| "show_magi_error F (EndpointDown ls) =
     asc ''endpoint down: no lineage reachable ('' @ join (asc '', '') ls @ asc '')''"
| "show_magi_error F (CrateDefect obs hyp a model joined) =
     asc ''defect in magi-core, run aborted: '' @ obs @ asc ''; '' @ hyp @ asc '' (agent ''
     @ display_name a @ asc '', model '' @ model @ asc '')''"
| "show_magi_error F (PromptContract a m r) =
     asc ''prompt contract violated''
     @ (case a of None \<Rightarrow> asc '' (unassigned prompt)'' | Some a \<Rightarrow> asc '' for '' @ display_name a)
     @ (case m of None \<Rightarrow> [] | Some m \<Rightarrow> asc '' (mode '' @ dbg_mode m @ asc '')'')
     @ asc '': '' @ r"

section \<open>Bounds on carried text\<close>

lemma external_bounded: "utf8_len (pe_message (external raw kind)) \<le> MAX_EXTERNAL_MESSAGE_BYTES"
  using mark_within_cap_le by (simp add: external_def)

lemma response_contract_bounded:
  "length (pe_detail (response_contract reason detail)) \<le> MAX_CONTRACT_DETAIL_CHARS"
  by (simp add: response_contract_def)

end
