(* ===== verification/Validate.thy ===== *)
theory Validate
  imports Errors Finding_Id
begin

text \<open>
  Field validation of a mage's output (\<open>src/src/validate.rs\<close>): the title cleaning that the
  consensus engine relies on, the limits, and the two entry points. The in-place entry point
  returns its result together with the output it leaves behind, so that what a failed
  validation does to it can be stated.
\<close>

section \<open>Titles\<close>

definition is_control_ws :: "nat \<Rightarrow> bool" where
  "is_control_ws c \<longleftrightarrow> c \<in> {9, 10, 11, 12, 13, 0x85}"

definition is_invisible :: "unicode \<Rightarrow> nat \<Rightarrow> bool" where
  "is_invisible U c \<longleftrightarrow> is_cf U c \<or> c \<in> {0x2028, 0x2029, 0x2065, 0x202F}"

definition clean_title :: "unicode \<Rightarrow> ustr \<Rightarrow> ustr" where
  "clean_title U s =
     (let step1 = map (\<lambda>c. if is_control_ws c then SPC else c) s;
          step2 = filter (\<lambda>c. \<not> is_invisible U c) step1
      in trim step2)"

definition clean :: "unicode \<Rightarrow> ustr \<Rightarrow> bool" where
  "clean U t \<longleftrightarrow> (\<forall>c\<in>set t. \<not> is_control_ws c \<and> \<not> is_invisible U c) \<and> trim t = t"

lemma space_not_control [simp]: "\<not> is_control_ws 32"
  by (simp add: is_control_ws_def)

lemma clean_title_char:
  assumes "c \<in> set (clean_title U s)"
  shows "\<not> is_control_ws c \<and> \<not> is_invisible U c"
proof -
  let ?m = "map (\<lambda>c. if is_control_ws c then SPC else c) s"
  have "c \<in> set (filter (\<lambda>c. \<not> is_invisible U c) ?m)"
    using assms set_trim unfolding clean_title_def Let_def by blast
  then have "c \<in> set ?m" "\<not> is_invisible U c" by simp_all
  moreover from this(1) have "\<not> is_control_ws c" by (auto split: if_splits)
  ultimately show ?thesis by blast
qed

lemma clean_title_clean: "clean U (clean_title U s)"
proof -
  have "trim (clean_title U s) = clean_title U s" by (simp only: clean_title_def Let_def trim_trim)
  moreover have "\<forall>c\<in>set (clean_title U s). \<not> is_control_ws c \<and> \<not> is_invisible U c"
    by (intro ballI clean_title_char)
  ultimately show ?thesis unfolding clean_def by (intro conjI)
qed

lemma clean_title_id: "clean U t \<Longrightarrow> clean_title U t = t"
proof -
  assume c: "clean U t"
  then have "map (\<lambda>c. if is_control_ws c then SPC else c) t = t"
    by (intro map_idI) (auto simp: clean_def)
  moreover from c have "filter (\<lambda>c. \<not> is_invisible U c) t = t" by (auto simp: clean_def)
  ultimately show ?thesis using c by (simp add: clean_title_def clean_def)
qed

lemma clean_title_idem [simp]: "clean_title U (clean_title U s) = clean_title U s"
  by (rule clean_title_id [OF clean_title_clean])

lemma length_clean_title: "length (clean_title U s) \<le> length s"
proof -
  have "length (clean_title U s) \<le>
      length (filter (\<lambda>c. \<not> is_invisible U c) (map (\<lambda>c. if is_control_ws c then SPC else c) s))"
    unfolding clean_title_def Let_def by (rule length_trim_le)
  also have "\<dots> \<le> length s" by (metis length_filter_le length_map)
  finally show ?thesis .
qed

section \<open>Limits\<close>

record limits =
  max_findings :: nat
  max_title_len :: nat
  max_detail_len :: nat
  max_text_len :: nat
  confidence_min :: f64
  confidence_max :: f64

definition limits_default :: limits where
  "limits_default = \<lparr> max_findings = 100, max_title_len = 500, max_detail_len = 10000,
     max_text_len = 50000, confidence_min = Fin 0, confidence_max = Fin 1 \<rparr>"

section \<open>The checks\<close>

definition validate_confidence :: "rust_fmt \<Rightarrow> limits \<Rightarrow> f64 \<Rightarrow> (unit, magi_error) result" where
  "validate_confidence F L c =
     (if \<not> (f_le (confidence_min L) c \<and> f_le c (confidence_max L))
      then Err (Validation (asc ''confidence '' @ show_f64 F c @ asc '' is out of range [''
             @ show_f64 F (confidence_min L) @ asc '', '' @ show_f64 F (confidence_max L) @ asc '']''))
      else Ok ())"

definition validate_text_field :: "limits \<Rightarrow> ustr \<Rightarrow> ustr \<Rightarrow> (unit, magi_error) result" where
  "validate_text_field L field value =
     (if length value > max_text_len L
      then Err (Validation (field @ asc '' exceeds maximum length of '' @ show_nat (max_text_len L)
             @ asc '' characters''))
      else Ok ())"

definition validate_finding_fields :: "limits \<Rightarrow> ustr \<Rightarrow> ustr \<Rightarrow> (unit, magi_error) result" where
  "validate_finding_fields L t d =
     (if t = [] then Err (Validation (asc ''finding title is empty after normalization''))
      else if length t > max_title_len L
      then Err (Validation (asc ''finding title exceeds maximum length of ''
             @ show_nat (max_title_len L) @ asc '' characters''))
      else if length d > max_detail_len L
      then Err (Validation (asc ''finding detail exceeds maximum length of ''
             @ show_nat (max_detail_len L) @ asc '' characters''))
      else Ok ())"

definition validate_finding :: "unicode \<Rightarrow> limits \<Rightarrow> finding \<Rightarrow> (unit, magi_error) result" where
  "validate_finding U L f = validate_finding_fields L (clean_title U (fi_title f)) (fi_detail f)"

definition findings_count_error :: "limits \<Rightarrow> finding list \<Rightarrow> magi_error" where
  "findings_count_error L fs =
     Validation (asc ''findings count '' @ show_nat (length fs) @ asc '' exceeds maximum of ''
       @ show_nat (max_findings L))"

definition validate_findings ::
  "unicode \<Rightarrow> limits \<Rightarrow> finding list \<Rightarrow> (unit, magi_error) result" where
  "validate_findings U L fs =
     (if length fs > max_findings L then Err (findings_count_error L fs)
      else check_all (validate_finding U L) fs)"

text \<open>The four scalar fields, in the order of the code.\<close>

definition validate_scalars :: "rust_fmt \<Rightarrow> limits \<Rightarrow> agent_output \<Rightarrow> (unit, magi_error) result" where
  "validate_scalars F L out =
     and_then (validate_confidence F L (ao_confidence out)) (\<lambda>_.
     and_then (validate_text_field L (asc ''summary'') (ao_summary out)) (\<lambda>_.
     and_then (validate_text_field L (asc ''reasoning'') (ao_reasoning out)) (\<lambda>_.
       validate_text_field L (asc ''recommendation'') (ao_recommendation out))))"

definition validate ::
  "unicode \<Rightarrow> rust_fmt \<Rightarrow> limits \<Rightarrow> agent_output \<Rightarrow> (unit, magi_error) result" where
  "validate U F L out =
     and_then (validate_scalars F L out) (\<lambda>_. validate_findings U L (ao_findings out))"

definition commit_titles :: "ustr list \<Rightarrow> finding list \<Rightarrow> finding list" where
  "commit_titles ts fs = map (\<lambda>(t, f). f\<lparr> fi_title := t \<rparr>) (zip ts fs)"

definition validate_mut ::
  "unicode \<Rightarrow> rust_fmt \<Rightarrow> limits \<Rightarrow> agent_output \<Rightarrow> (unit, magi_error) result \<times> agent_output" where
  "validate_mut U F L out =
     (case validate_scalars F L out of
        Err e \<Rightarrow> (Err e, out)
      | Ok _ \<Rightarrow>
          if length (ao_findings out) > max_findings L
          then (Err (findings_count_error L (ao_findings out)), out)
          else let cleaned = map (\<lambda>f. clean_title U (fi_title f)) (ao_findings out)
               in case check_all (\<lambda>(t, f). validate_finding_fields L t (fi_detail f))
                         (zip cleaned (ao_findings out)) of
                    Err e \<Rightarrow> (Err e, out)
                  | Ok _ \<Rightarrow> (Ok (), out\<lparr> ao_findings := commit_titles cleaned (ao_findings out) \<rparr>))"

section \<open>What validation guarantees\<close>

definition scalars_valid :: "limits \<Rightarrow> agent_output \<Rightarrow> bool" where
  "scalars_valid L out \<longleftrightarrow>
     f_le (confidence_min L) (ao_confidence out) \<and> f_le (ao_confidence out) (confidence_max L)
     \<and> length (ao_summary out) \<le> max_text_len L \<and> length (ao_reasoning out) \<le> max_text_len L
     \<and> length (ao_recommendation out) \<le> max_text_len L"

definition fields_valid :: "limits \<Rightarrow> ustr \<Rightarrow> ustr \<Rightarrow> bool" where
  "fields_valid L t d \<longleftrightarrow> t \<noteq> [] \<and> length t \<le> max_title_len L \<and> length d \<le> max_detail_len L"

definition clean_finding :: "unicode \<Rightarrow> finding \<Rightarrow> finding" where
  "clean_finding U f = f\<lparr> fi_title := clean_title U (fi_title f) \<rparr>"

definition output_valid :: "unicode \<Rightarrow> limits \<Rightarrow> agent_output \<Rightarrow> bool" where
  "output_valid U L out \<longleftrightarrow>
     scalars_valid L out \<and> length (ao_findings out) \<le> max_findings L
     \<and> (\<forall>f\<in>set (ao_findings out). fields_valid L (clean_title U (fi_title f)) (fi_detail f))"

lemma validate_scalars_Ok: "validate_scalars F L out = Ok () \<longleftrightarrow> scalars_valid L out"
  by (auto simp: validate_scalars_def scalars_valid_def validate_confidence_def
      validate_text_field_def res_simps)

lemma validate_finding_fields_Ok: "validate_finding_fields L t d = Ok () \<longleftrightarrow> fields_valid L t d"
  by (auto simp: validate_finding_fields_def fields_valid_def)

lemma unit_result_cases: "(\<And>e. r = Err e \<Longrightarrow> P) \<Longrightarrow> (r = Ok () \<Longrightarrow> P) \<Longrightarrow> P"
  for r :: "(unit, 'e) result"
  by (cases r) auto

lemma validate_Ok: "validate U F L out = Ok () \<longleftrightarrow> output_valid U L out"
  by (auto simp: validate_def output_valid_def res_simps validate_scalars_Ok validate_findings_def
      validate_finding_def validate_finding_fields_Ok)

lemma zip_map_check:
  "check_all (\<lambda>(t, f). g t f) (zip (map h fs) fs) = check_all (\<lambda>f. g (h f) f) fs"
  by (induction fs) auto

lemma commit_cleaned: "commit_titles (map (\<lambda>f. clean_title U (fi_title f)) fs) fs = map (clean_finding U) fs"
  by (induction fs) (auto simp: commit_titles_def clean_finding_def)

lemma validate_mut_eq:
  "validate_mut U F L out =
     (validate U F L out,
      if validate U F L out = Ok () then out\<lparr> ao_findings := map (clean_finding U) (ao_findings out) \<rparr>
      else out)"
proof (cases "validate_scalars F L out")
  case (Ok u)
  show ?thesis
  proof (cases "length (ao_findings out) > max_findings L")
    case True
    with Ok show ?thesis by (simp add: validate_mut_def validate_def validate_findings_def)
  next
    case False
    let ?c = "check_all (validate_finding U L) (ao_findings out)"
    have c: "check_all (\<lambda>(t, f). validate_finding_fields L t (fi_detail f))
        (zip (map (\<lambda>f. clean_title U (fi_title f)) (ao_findings out)) (ao_findings out)) = ?c"
      by (simp add: zip_map_check validate_finding_def [abs_def])
    from Ok False have v: "validate U F L out = ?c"
      by (simp add: validate_def validate_findings_def)
    show ?thesis
      using Ok False unfolding v
      by (cases ?c rule: unit_result_cases) (simp_all add: validate_mut_def Let_def c commit_cleaned)
  qed
qed (simp add: validate_mut_def validate_def)

lemma clean_finding_idem [simp]: "clean_finding U (clean_finding U f) = clean_finding U f"
  by (simp add: clean_finding_def)

lemma output_valid_cleaned:
  "output_valid U L (out\<lparr> ao_findings := map (clean_finding U) (ao_findings out) \<rparr>)
     \<longleftrightarrow> output_valid U L out"
  by (simp add: output_valid_def scalars_valid_def clean_finding_def)

end
