(* ===== verification/Consensus.thy ===== *)
theory Consensus
  imports Validate
begin

text \<open>
  The consensus engine (\<open>src/src/consensus.rs\<close>): the weighted score in binary64, its
  classification, the degraded cap, the attribution against the emitted verdict, and the
  deduplication of findings. \<open>U\<close> bundles the Unicode tables (NFKC, case folding), \<open>sha\<close> is
  SHA-256.
\<close>

section \<open>Configuration and result\<close>

record consensus_config =
  cn_min_agents :: nat
  cn_epsilon :: f64

definition consensus_config_default :: consensus_config where
  "consensus_config_default = \<lparr> cn_min_agents = 2, cn_epsilon = to_f64 (1 / 10 ^ 9) \<rparr>"

definition engine_new :: "consensus_config \<Rightarrow> consensus_config" where
  "engine_new C =
     (let m = (if cn_min_agents C = 0 then 1 else cn_min_agents C) in C\<lparr> cn_min_agents := m \<rparr>)"

record dedup_finding =
  dd_severity :: severity
  dd_title :: ustr
  dd_detail :: ustr
  dd_sources :: "agent_name list"
  dd_file :: "ustr option"
  dd_line :: "32 word option"
  dd_category :: category
  dd_id :: "ustr option"

record dissent =
  ds_agent :: agent_name
  ds_summary :: ustr
  ds_reasoning :: ustr

record condition =
  cd_agent :: agent_name
  cd_condition :: ustr

record consensus_result =
  cr_consensus :: ustr
  cr_verdict :: verdict
  cr_confidence :: f64
  cr_score :: f64
  cr_agent_count :: nat
  cr_votes :: "agent_name \<rightharpoonup> verdict"
  cr_majority_summary :: ustr
  cr_dissent :: "dissent list"
  cr_findings :: "dedup_finding list"
  cr_conditions :: "condition list"
  cr_recommendations :: "agent_name \<rightharpoonup> ustr"

section \<open>Keys\<close>

definition dedup_key :: "unicode \<Rightarrow> ustr \<Rightarrow> ustr" where
  "dedup_key U t = case_fold U (nfkc U (clean_title U t))"

datatype dedup_key_kind = KeyId ustr | KeyTitle ustr

definition finding_key :: "unicode \<Rightarrow> (ustr \<Rightarrow> nat list) \<Rightarrow> finding \<Rightarrow> dedup_key_kind" where
  "finding_key U sha f =
     (case (fi_file f, fi_line f) of
        (Some file, Some line) \<Rightarrow>
          if file \<noteq> [] \<and> line > 0 then KeyId (generate_finding_id sha file line (fi_category f))
          else KeyTitle (dedup_key U (fi_title f))
      | _ \<Rightarrow> KeyTitle (dedup_key U (fi_title f)))"

fun key_parts :: "dedup_key_kind \<Rightarrow> ustr \<times> ustr option" where
  "key_parts (KeyId h) = (asc ''id:'' @ h, Some h)"
| "key_parts (KeyTitle t) = (asc ''title:'' @ t, None)"

lemma key_parts_inj: "fst (key_parts a) = fst (key_parts b) \<longleftrightarrow> a = b"
  by (cases a; cases b) auto

section \<open>Deduplication\<close>

record group_state =
  gs_severity :: severity
  gs_title :: ustr
  gs_detail :: ustr
  gs_sources :: "agent_name list"
  gs_file :: "ustr option"
  gs_line :: "32 word option"
  gs_category :: category
  gs_id :: "ustr option"

definition group_start :: "ustr option \<Rightarrow> agent_name \<Rightarrow> finding \<Rightarrow> group_state" where
  "group_start i a f = \<lparr> gs_severity = fi_severity f, gs_title = fi_title f,
     gs_detail = fi_detail f, gs_sources = [a], gs_file = fi_file f, gs_line = fi_line f,
     gs_category = fi_category f, gs_id = i \<rparr>"

definition group_merge :: "agent_name \<Rightarrow> finding \<Rightarrow> group_state \<Rightarrow> group_state" where
  "group_merge a f st =
     (let st1 = (if fi_severity f > gs_severity st
                 then st\<lparr> gs_severity := fi_severity f, gs_detail := fi_detail f \<rparr> else st)
      in if a \<in> set (gs_sources st1) then st1 else st1\<lparr> gs_sources := gs_sources st1 @ [a] \<rparr>)"

text \<open>The first group with the key is updated; without one a group is appended.\<close>

fun upsert :: "'k \<Rightarrow> ('s \<Rightarrow> 's) \<Rightarrow> 's \<Rightarrow> ('k \<times> 's) list \<Rightarrow> ('k \<times> 's) list" where
  "upsert k upd new [] = [(k, new)]"
| "upsert k upd new ((k', s) # gs) =
     (if k' = k then (k', upd s) # gs else (k', s) # upsert k upd new gs)"

definition add_finding ::
  "unicode \<Rightarrow> (ustr \<Rightarrow> nat list) \<Rightarrow> agent_name \<Rightarrow> finding
     \<Rightarrow> (ustr \<times> group_state) list \<Rightarrow> (ustr \<times> group_state) list" where
  "add_finding U sha a f gs =
     (case key_parts (finding_key U sha f) of
        (k, i) \<Rightarrow> upsert k (group_merge a f) (group_start i a f) gs)"

definition groups_of ::
  "unicode \<Rightarrow> (ustr \<Rightarrow> nat list) \<Rightarrow> agent_output list \<Rightarrow> (ustr \<times> group_state) list" where
  "groups_of U sha agents =
     fold (\<lambda>ag gs. fold (\<lambda>f gs. add_finding U sha (ao_agent ag) f gs) (ao_findings ag) gs) agents []"

definition to_dedup :: "group_state \<Rightarrow> dedup_finding" where
  "to_dedup st = \<lparr> dd_severity = gs_severity st, dd_title = gs_title st,
     dd_detail = gs_detail st, dd_sources = gs_sources st, dd_file = gs_file st,
     dd_line = gs_line st, dd_category = gs_category st, dd_id = gs_id st \<rparr>"

text \<open>\<open>std::cmp::Reverse\<close> as the sort key; the sort is stable.\<close>

definition reverse_rank :: "severity \<Rightarrow> nat" where
  "reverse_rank s = 2 - severity_rank s"

definition deduplicate_findings ::
  "unicode \<Rightarrow> (ustr \<Rightarrow> nat list) \<Rightarrow> agent_output list \<Rightarrow> dedup_finding list" where
  "deduplicate_findings U sha agents =
     sort_key (\<lambda>d. reverse_rank (dd_severity d)) (map (\<lambda>(k, st). to_dedup st) (groups_of U sha agents))"

section \<open>Classification\<close>

definition split_label :: "ustr \<Rightarrow> nat \<Rightarrow> nat \<Rightarrow> ustr" where
  "split_label w a b = w @ asc '' ('' @ show_nat a @ asc ''-'' @ show_nat b @ asc '')''"

definition classify :: "f64 \<Rightarrow> f64 \<Rightarrow> nat \<Rightarrow> nat \<Rightarrow> bool \<Rightarrow> ustr \<times> verdict" where
  "classify score eps approve_count reject_count has_conditional =
     (if f_lt (f_abs (f_sub score (Fin 1))) eps then (asc ''STRONG GO'', Approve)
      else if f_lt (f_abs (f_sub score (Fin (- 1)))) eps then (asc ''STRONG NO-GO'', Reject)
      else if f_gt score eps \<and> has_conditional
      then (split_label (asc ''GO WITH CAVEATS'') approve_count reject_count, Approve)
      else if f_gt score eps then (split_label (asc ''GO'') approve_count reject_count, Approve)
      else if f_lt (f_abs score) eps then (asc ''HOLD -- TIE'', Reject)
      else (split_label (asc ''HOLD'') reject_count approve_count, Reject))"

definition degraded_cap :: "nat \<Rightarrow> ustr \<Rightarrow> ustr" where
  "degraded_cap n label =
     (if n < 3 then
        if label = asc ''STRONG GO'' then split_label (asc ''GO'') n 0
        else if label = asc ''STRONG NO-GO'' then split_label (asc ''HOLD'') n 0
        else label
      else label)"

section \<open>Determination\<close>

fun repeated_agent :: "agent_name set \<Rightarrow> agent_output list \<Rightarrow> agent_name option" where
  "repeated_agent seen [] = None"
| "repeated_agent seen (a # as) =
     (if ao_agent a \<in> seen then Some (ao_agent a) else repeated_agent (insert (ao_agent a) seen) as)"

definition score_of :: "agent_output list \<Rightarrow> f64" where
  "score_of agents = f_div (f_sum (map (\<lambda>a. weight (ao_verdict a)) agents)) (f_of_nat (length agents))"

definition approve_count :: "agent_output list \<Rightarrow> nat" where
  "approve_count agents = length (filter (\<lambda>a. effective_verdict a = Approve) agents)"

definition confidence_of :: "agent_output list \<Rightarrow> f64 \<Rightarrow> verdict \<Rightarrow> f64" where
  "confidence_of agents score v =
     (let base = f_div (f_sum (map ao_confidence (filter (\<lambda>a. effective_verdict a = v) agents)))
                   (f_of_nat (length agents));
          weight_factor = f_div (f_add (f_abs score) (Fin 1)) (Fin 2);
          c = f_clamp (Fin 0) (Fin 1) (f_mul base weight_factor)
      in f_div (f_round (f_mul c (Fin 100))) (Fin 100))"

definition classified :: "consensus_config \<Rightarrow> agent_output list \<Rightarrow> ustr \<times> verdict" where
  "classified C agents =
     (let ac = approve_count agents; rc = length agents - ac;
          has_conditional = list_ex (\<lambda>a. ao_verdict a = Conditional) agents
      in classify (score_of agents) (cn_epsilon C) ac rc has_conditional)"

definition consensus_of ::
  "unicode \<Rightarrow> (ustr \<Rightarrow> nat list) \<Rightarrow> consensus_config \<Rightarrow> agent_output list \<Rightarrow> consensus_result" where
  "consensus_of U sha C agents =
     (let (label, v) = classified C agents in \<lparr>
        cr_consensus = degraded_cap (length agents) label,
        cr_verdict = v,
        cr_confidence = confidence_of agents (score_of agents) v,
        cr_score = score_of agents,
        cr_agent_count = length agents,
        cr_votes = map_of (rev (map (\<lambda>a. (ao_agent a, ao_verdict a)) agents)),
        cr_majority_summary =
          join (asc '' | '')
            (map (\<lambda>a. display_name (ao_agent a) @ asc '': '' @ ao_summary a)
              (filter (\<lambda>a. effective_verdict a = v) agents)),
        cr_dissent =
          map (\<lambda>a. \<lparr> ds_agent = ao_agent a, ds_summary = ao_summary a, ds_reasoning = ao_reasoning a \<rparr>)
            (filter (\<lambda>a. is_dissenting a v) agents),
        cr_findings = deduplicate_findings U sha agents,
        cr_conditions =
          map (\<lambda>a. \<lparr> cd_agent = ao_agent a, cd_condition = ao_summary a \<rparr>)
            (filter (\<lambda>a. ao_verdict a = Conditional) agents),
        cr_recommendations = map_of (rev (map (\<lambda>a. (ao_agent a, ao_recommendation a)) agents)) \<rparr>)"

definition determine ::
  "unicode \<Rightarrow> (ustr \<Rightarrow> nat list) \<Rightarrow> consensus_config \<Rightarrow> agent_output list
     \<Rightarrow> (consensus_result, magi_error) result" where
  "determine U sha C agents =
     (if length agents < cn_min_agents C
      then Err (InsufficientAgents (length agents) (cn_min_agents C))
      else case repeated_agent {} agents of
        Some a \<Rightarrow> Err (Validation (asc ''duplicate agent name: '' @ display_name a))
      | None \<Rightarrow> Ok (consensus_of U sha C agents))"

section \<open>Determination: errors and shape\<close>

lemma repeated_agent_None:
  "repeated_agent seen as = None \<longleftrightarrow> distinct (map ao_agent as) \<and> set (map ao_agent as) \<inter> seen = {}"
  by (induction as arbitrary: seen) auto

lemma determine_Ok_iff:
  "determine U sha C agents = Ok r \<longleftrightarrow>
     cn_min_agents C \<le> length agents \<and> distinct (map ao_agent agents) \<and> r = consensus_of U sha C agents"
  using repeated_agent_None [of "{}" agents]
  by (auto simp: determine_def split: option.splits)

lemma distinct_outputs_le: "distinct (map ao_agent agents) \<Longrightarrow> length agents \<le> 3"
  using distinct_agents_le [of "map ao_agent agents"] by simp

lemma consensus_of_fields:
  "cr_score (consensus_of U sha C as) = score_of as"
  "cr_verdict (consensus_of U sha C as) = snd (classified C as)"
  "cr_consensus (consensus_of U sha C as) = degraded_cap (length as) (fst (classified C as))"
  "cr_confidence (consensus_of U sha C as) = confidence_of as (score_of as) (snd (classified C as))"
  "cr_findings (consensus_of U sha C as) = deduplicate_findings U sha as"
  "cr_dissent (consensus_of U sha C as) =
     map (\<lambda>a. \<lparr> ds_agent = ao_agent a, ds_summary = ao_summary a, ds_reasoning = ao_reasoning a \<rparr>)
       (filter (\<lambda>a. is_dissenting a (snd (classified C as))) as)"
  by (simp_all add: consensus_of_def split: prod.splits)

section \<open>The score is exact enough to decide\<close>

text \<open>The weight of the votes as an exact number of halves: with at most three mages every partial
  sum is a multiple of one half, so only the final division rounds.\<close>

definition half_sum :: "agent_output list \<Rightarrow> int" where
  "half_sum agents = sum_list (map (\<lambda>a. half_weight (ao_verdict a)) agents)"

lemma half_sum_bounds: "\<bar>half_sum as\<bar> \<le> 2 * int (length as)"
proof (induction as)
  case (Cons a as)
  with half_weight_bounds [of "ao_verdict a"] show ?case by (simp add: half_sum_def) linarith
qed (simp add: half_sum_def)

lemma half_sum_max: "half_sum as = 2 * int (length as) \<longleftrightarrow> (\<forall>a\<in>set as. ao_verdict a = Approve)"
proof (induction as)
  case (Cons a as)
  have "half_sum as \<le> 2 * int (length as)" using half_sum_bounds [of as] by linarith
  with Cons show ?case by (cases "ao_verdict a") (auto simp: half_sum_def)
qed (simp add: half_sum_def)

lemma f_sum_halves:
  assumes "\<bar>m\<bar> + 2 * int (length vs) \<le> 2 ^ 53"
  shows "fold (\<lambda>x acc. f_add acc x) (map weight vs) (Fin (of_int m / 2))
           = Fin (of_int (m + sum_list (map half_weight vs)) / 2)"
  using assms
proof (induction vs arbitrary: m)
  case (Cons v vs)
  from half_weight_bounds [of v] have b: "\<bar>m + half_weight v\<bar> + 2 * int (length vs) \<le> 2 ^ 53"
    using Cons.prems by simp linarith
  have "f_add (Fin (of_int m / 2)) (weight v) = to_f64 (of_int (m + half_weight v) / 2)"
    by (simp add: weight_half add_divide_distrib)
  also have "\<dots> = Fin (of_int (m + half_weight v) / 2)"
    by (rule to_f64_half) (use b in linarith)
  finally show ?case using Cons.IH [OF b] by (simp add: add.assoc)
qed simp

lemma score_exact:
  assumes "as \<noteq> []" "length as \<le> 3"
  shows "score_of as = Fin (rnd64 (of_int (half_sum as) / (2 * of_nat (length as))))"
proof -
  let ?n = "length as"
  have "f_sum (map (\<lambda>a. weight (ao_verdict a)) as) = Fin (of_int (half_sum as) / 2)"
    using f_sum_halves [of 0 "map ao_verdict as"] assms(2)
    by (simp add: f_sum_def half_sum_def comp_def)
  moreover have "f_of_nat ?n = Fin (of_nat ?n)" using assms(2) by simp
  ultimately have "score_of as = to_f64 (of_int (half_sum as) / 2 / of_nat ?n)"
    using assms(1) by (simp add: score_of_def)
  also have "\<dots> = Fin (rnd64 (of_int (half_sum as) / 2 / of_nat ?n))"
  proof (rule to_f64_bounded [of _ 1])
    have "(of_int \<bar>half_sum as\<bar> :: rat) \<le> of_int (2 * int ?n)"
      using half_sum_bounds by (simp only: of_int_le_iff)
    then show "\<bar>of_int (half_sum as) / 2 / of_nat ?n\<bar> \<le> (of_int 1 :: rat)"
      using assms(1) by (simp add: field_simps)
  qed simp
  finally show ?thesis by (simp add: field_simps)
qed

definition EPS :: rat where "EPS = rnd64 (1 / 10 ^ 9)"

lemma EPS_bounds: "1 / 2 ^ 31 \<le> EPS" "EPS \<le> 1 / 2 ^ 10"
proof -
  have "rnd64 (1 / 10 ^ 9) \<le> rnd64 (1 / 2 ^ 12)" by (rule ieee.rnd_mono) simp
  moreover have "\<bar>rnd64 (1 / 2 ^ 12) - 1 / 2 ^ 12\<bar> \<le> \<bar>1 / 2 ^ 12 :: rat\<bar> / 2 ^ 53"
    by (rule ieee.rnd_close) simp
  then have "\<bar>rnd64 (1 / 2 ^ 12) - 1 / 2 ^ 12\<bar> \<le> (1 / 2 ^ 12 :: rat)"
    by (rule order_trans) simp
  then have "rnd64 (1 / 2 ^ 12) - 1 / 2 ^ 12 \<le> (1 / 2 ^ 12 :: rat)" by (rule abs_le_D1)
  then have "rnd64 (1 / 2 ^ 12) \<le> 1 / 2 ^ 10" by simp
  ultimately show "EPS \<le> 1 / 2 ^ 10" unfolding EPS_def by (rule order_trans)
  have "2 powi (- 1022) \<le> (2::rat) powi (- 30)" by (intro power_int_increasing) auto
  also have "\<dots> \<le> 1 / 10 ^ 9" by (simp add: power_int_minus)
  finally have "\<bar>rnd64 (1 / 10 ^ 9) - 1 / 10 ^ 9\<bar> \<le> \<bar>1 / 10 ^ 9 :: rat\<bar> / 2 ^ 53"
    by (intro ieee.rnd_error) simp
  then have "\<bar>rnd64 (1 / 10 ^ 9) - 1 / 10 ^ 9\<bar> \<le> (1 / 10 ^ 12 :: rat)"
    by (rule order_trans) simp
  then have "- (rnd64 (1 / 10 ^ 9) - 1 / 10 ^ 9) \<le> (1 / 10 ^ 12 :: rat)"
    unfolding abs_le_iff by (rule conjunct2)
  then show "1 / 2 ^ 31 \<le> EPS" unfolding EPS_def by simp
qed

lemma eps_default: "cn_epsilon consensus_config_default = Fin EPS"
  using to_f64_bounded [of "1 / 10 ^ 9" 1] by (simp add: consensus_config_default_def EPS_def)

text \<open>A rational at least one sixteenth away from zero stays far from the tolerance when rounded.\<close>

lemma rnd_far:
  assumes "1/16 \<le> \<bar>d\<bar>"
  shows "EPS < \<bar>rnd64 d\<bar>"
proof -
  have "\<bar>rnd64 d - d\<bar> \<le> \<bar>d\<bar> / 2 ^ 53" using assms by (intro ieee.rnd_close) simp
  then have "\<bar>d\<bar> - \<bar>d\<bar> / 2 ^ 53 \<le> \<bar>rnd64 d\<bar>" by linarith
  moreover have "1/32 \<le> \<bar>d\<bar> - \<bar>d\<bar> / 2 ^ 53" using assms by simp
  ultimately show ?thesis using EPS_bounds(2) by simp
qed

lemma f_sub_far:
  assumes "\<bar>s\<bar> \<le> 1" "\<bar>k\<bar> \<le> 1" "1/16 \<le> \<bar>s - k\<bar>"
  shows "\<not> f_lt (f_abs (f_sub (Fin s) (Fin k))) (Fin EPS)"
proof -
  have "to_f64 (s - k) = Fin (rnd64 (s - k))"
    using assms by (intro to_f64_bounded [of _ 2]) auto
  with rnd_far [OF assms(3)] show ?thesis by (simp add: f_sub_def)
qed

lemma f_sub_same: "f_lt (f_abs (f_sub (Fin s) (Fin s))) (Fin EPS)"
  using to_f64_int [of 0] EPS_bounds(1) less_le_trans [of 0 "1 / 2 ^ 31" EPS]
  by (simp add: f_sub_def)

text \<open>The label for an exact half sum \<open>h\<close> of \<open>n\<close> votes.\<close>

definition exact_class :: "int \<Rightarrow> nat \<Rightarrow> nat \<Rightarrow> nat \<Rightarrow> bool \<Rightarrow> ustr \<times> verdict" where
  "exact_class h n ac rc hc =
     (if h = 2 * int n then (asc ''STRONG GO'', Approve)
      else if h = - 2 * int n then (asc ''STRONG NO-GO'', Reject)
      else if h > 0 then (split_label (asc (if hc then ''GO WITH CAVEATS'' else ''GO'')) ac rc, Approve)
      else if h = 0 then (asc ''HOLD -- TIE'', Reject)
      else (split_label (asc ''HOLD'') rc ac, Reject))"

lemma sixth_bounds:
  assumes "0 < h" "h < 2 * int n" "n \<le> 3"
  shows "1/6 \<le> (of_int h :: rat) / (2 * of_nat n) \<and> of_int h / (2 * of_nat n) \<le> (5/6 :: rat)"
proof -
  from assms have "n = 1 \<or> n = 2 \<or> n = 3" by auto
  with assms have "(n, h) \<in> {(1, 1), (2, 1), (2, 2), (2, 3), (3, 1), (3, 2), (3, 3), (3, 4), (3, 5)}"
    by auto
  then show ?thesis by auto
qed

lemma rnd_inner:
  assumes "1/6 \<le> x" "x \<le> (5/6 :: rat)"
  shows "1/8 \<le> rnd64 x \<and> rnd64 x \<le> 7/8" "- 7/8 \<le> rnd64 (- x) \<and> rnd64 (- x) \<le> - 1/8"
proof -
  have b: "x / 2 ^ 53 \<le> 1/100" using assms by simp
  have "\<bar>rnd64 x - x\<bar> \<le> \<bar>x\<bar> / 2 ^ 53" "\<bar>rnd64 (- x) - (- x)\<bar> \<le> \<bar>- x\<bar> / 2 ^ 53"
    using assms by (intro ieee.rnd_close; simp)+
  then have e: "\<bar>rnd64 x - x\<bar> \<le> 1/100" "\<bar>rnd64 (- x) + x\<bar> \<le> 1/100" using b assms by simp_all
  show "1/8 \<le> rnd64 x \<and> rnd64 x \<le> 7/8" using e(1) assms unfolding abs_le_iff by linarith
  show "- 7/8 \<le> rnd64 (- x) \<and> rnd64 (- x) \<le> - 1/8" using e(2) assms unfolding abs_le_iff by linarith
qed

lemma classify_exact:
  assumes "\<bar>h\<bar> \<le> 2 * int n" "0 < n" "n \<le> 3"
  shows "classify (Fin (rnd64 (of_int h / (2 * of_nat n)))) (Fin EPS) ac rc hc = exact_class h n ac rc hc"
proof -
  let ?x = "(of_int h :: rat) / (2 * of_nat n)"
  have eps: "0 < EPS" "EPS < 1/8" using EPS_bounds by auto
  consider "h = 2 * int n" | "h = - 2 * int n" | "h = 0" | "0 < h" "h < 2 * int n"
    | "h < 0" "- 2 * int n < h" using assms(1) by linarith
  then show ?thesis
  proof cases
    case 1
    with assms(2) have "?x = 1" by simp
    then show ?thesis using f_sub_same [of 1] assms 1 by (simp add: classify_def exact_class_def)
  next
    case 2
    with assms(2) have "?x = - 1" by simp
    moreover have "rnd64 (- 1) = - 1" using ieee.rnd_int [of "- 1"] by simp
    ultimately show ?thesis
      using f_sub_same [of "- 1"] f_sub_far [of "- 1" 1] assms 2 by (simp add: classify_def exact_class_def)
  next
    case 3
    then show ?thesis
      using f_sub_far [of 0 1] f_sub_far [of 0 "- 1"] eps assms
      by (simp add: classify_def exact_class_def f_gt_def)
  next
    case 4
    have "1/8 \<le> rnd64 ?x \<and> rnd64 ?x \<le> 7/8"
      using sixth_bounds [OF 4 assms(3)] by (intro rnd_inner) auto
    then show ?thesis
      using f_sub_far [of "rnd64 ?x" 1] f_sub_far [of "rnd64 ?x" "- 1"] eps 4
      by (auto simp: classify_def exact_class_def f_gt_def)
  next
    case 5
    have "- 7/8 \<le> rnd64 (- (- ?x)) \<and> rnd64 (- (- ?x)) \<le> - 1/8"
      using sixth_bounds [of "- h" n] 5 assms(3) by (intro rnd_inner) auto
    then have "- 7/8 \<le> rnd64 ?x \<and> rnd64 ?x \<le> - 1/8" by simp
    then show ?thesis
      using f_sub_far [of "rnd64 ?x" 1] f_sub_far [of "rnd64 ?x" "- 1"] eps 5
      by (auto simp: classify_def exact_class_def f_gt_def)
  qed
qed

lemma classified_exact:
  assumes "as \<noteq> []" "length as \<le> 3" "cn_epsilon C = cn_epsilon consensus_config_default"
  shows "classified C as = exact_class (half_sum as) (length as) (approve_count as)
     (length as - approve_count as) (list_ex (\<lambda>a. ao_verdict a = Conditional) as)"
  using classify_exact [of "half_sum as" "length as"] half_sum_bounds [of as] assms
  by (simp add: classified_def Let_def score_exact eps_default)

section \<open>Deduplication computes one merged entry per key\<close>

text \<open>The reports in the order the nested loops visit them, and the specification: the reports of
  one key merged in that order.\<close>

definition reports :: "agent_output list \<Rightarrow> (agent_name \<times> finding) list" where
  "reports agents = concat (map (\<lambda>ag. map (Pair (ao_agent ag)) (ao_findings ag)) agents)"

definition key_of :: "unicode \<Rightarrow> (ustr \<Rightarrow> nat list) \<Rightarrow> finding \<Rightarrow> ustr" where
  "key_of U sha f = fst (key_parts (finding_key U sha f))"

fun merged :: "unicode \<Rightarrow> (ustr \<Rightarrow> nat list) \<Rightarrow> (agent_name \<times> finding) list \<Rightarrow> group_state option" where
  "merged U sha [] = None"
| "merged U sha ((a, f) # ps) =
     Some (fold (\<lambda>(a, f). group_merge a f) ps (group_start (snd (key_parts (finding_key U sha f))) a f))"

definition of_key ::
  "unicode \<Rightarrow> (ustr \<Rightarrow> nat list) \<Rightarrow> ustr \<Rightarrow> (agent_name \<times> finding) list \<Rightarrow> (agent_name \<times> finding) list" where
  "of_key U sha k ps = filter (\<lambda>(a, f). key_of U sha f = k) ps"

lemma groups_of_fold: "groups_of U sha agents = fold (\<lambda>(a, f). add_finding U sha a f) (reports agents) []"
proof -
  have "fold (\<lambda>ag gs. fold (\<lambda>f gs. add_finding U sha (ao_agent ag) f gs) (ao_findings ag) gs) agents gs
      = fold (\<lambda>(a, f). add_finding U sha a f) (reports agents) gs" for gs
    by (induction agents arbitrary: gs) (auto simp: reports_def fold_map comp_def)
  then show ?thesis by (simp add: groups_of_def)
qed

lemma upsert_keys:
  "map fst (upsert k u n gs) = (if k \<in> set (map fst gs) then map fst gs else map fst gs @ [k])"
  by (induction k u n gs rule: upsert.induct) auto

lemma upsert_lookup:
  "map_of (upsert k u n gs) k' =
     (if k' = k then Some (case map_of gs k of None \<Rightarrow> n | Some st \<Rightarrow> u st) else map_of gs k')"
  by (induction gs) auto

lemma add_finding_keys:
  "map fst (add_finding U sha a f gs) =
     (if key_of U sha f \<in> set (map fst gs) then map fst gs else map fst gs @ [key_of U sha f])"
  by (simp add: add_finding_def key_of_def upsert_keys split: prod.splits)

lemma merged_append:
  "merged U sha (ps @ [(a, f)]) =
     Some (case merged U sha ps of None \<Rightarrow> group_start (snd (key_parts (finding_key U sha f))) a f
           | Some st \<Rightarrow> group_merge a f st)"
  by (cases ps) auto

lemma add_finding_lookup:
  "map_of (add_finding U sha a f gs) k =
     (if k = key_of U sha f
      then Some (case map_of gs k of
          None \<Rightarrow> group_start (snd (key_parts (finding_key U sha f))) a f | Some st \<Rightarrow> group_merge a f st)
      else map_of gs k)"
  by (cases "key_parts (finding_key U sha f)") (simp add: add_finding_def key_of_def upsert_lookup split: option.split)

lemma groups_fold_spec:
  fixes U sha ps
  defines "gs \<equiv> fold (\<lambda>(a, f). add_finding U sha a f) ps []"
  shows "map fst gs = rev (remdups (rev (map (\<lambda>(a, f). key_of U sha f) ps)))"
    and "map_of gs k = merged U sha (of_key U sha k ps)"
  unfolding gs_def
proof (induction ps rule: rev_induct)
  case (snoc p ps)
  obtain a f where p: "p = (a, f)" by (cases p)
  {
    case 1
    have "set (map fst (fold (\<lambda>(a, f). add_finding U sha a f) ps [])) =
        set (rev (remdups (rev (map (\<lambda>(a, f). key_of U sha f) ps))))" by (simp only: snoc.IH(1))
    then show ?case by (simp add: p add_finding_keys snoc.IH(1) del: set_map)
  next
    case 2
    have "of_key U sha k (ps @ [p]) =
        (if k = key_of U sha f then of_key U sha k ps @ [(a, f)] else of_key U sha k ps)"
      by (simp add: of_key_def p)
    with snoc.IH(2) show ?case by (auto simp: p add_finding_lookup merged_append)
  }
qed (simp_all add: of_key_def)

text \<open>What merging keeps: the highest severity with a detail that has it, the place and title of
  the first report, every reporting mage once.\<close>

definition merge_inv :: "(agent_name \<times> finding) list \<Rightarrow> group_state \<Rightarrow> bool" where
  "merge_inv ps st \<longleftrightarrow>
     (\<forall>(a, f)\<in>set ps. fi_severity f \<le> gs_severity st)
     \<and> (\<exists>(a, f)\<in>set ps. fi_severity f = gs_severity st \<and> fi_detail f = gs_detail st)
     \<and> set (gs_sources st) = fst ` set ps \<and> distinct (gs_sources st)
     \<and> (let f = snd (hd ps) in gs_title st = fi_title f \<and> gs_file st = fi_file f
          \<and> gs_line st = fi_line f \<and> gs_category st = fi_category f)"

lemma merge_inv_step:
  assumes inv: "merge_inv ps st" and ne: "ps \<noteq> []"
  shows "merge_inv (ps @ [(a, f)]) (group_merge a f st)"
proof (cases "gs_severity st < fi_severity f")
  case True
  with assms show ?thesis
    by (force simp: merge_inv_def group_merge_def Let_def)
next
  case False
  then have "fi_severity f \<le> gs_severity st" by simp
  with assms False show ?thesis
    by (force simp: merge_inv_def group_merge_def Let_def)
qed

lemma merged_inv: "merged U sha ps = Some st \<Longrightarrow> merge_inv ps st"
proof (induction ps arbitrary: st rule: rev_induct)
  case (snoc p ps)
  obtain a f where p: "p = (a, f)" by (cases p)
  show ?case
  proof (cases "merged U sha ps")
    case None
    then have "ps = []" by (cases ps) auto
    with snoc.prems p show ?thesis by (auto simp: merge_inv_def group_start_def Let_def)
  next
    case (Some st')
    then have "ps \<noteq> []" by auto
    with snoc Some p merge_inv_step [of ps st' a f] show ?thesis by (simp add: merged_append)
  qed
qed simp

lemma groups_of_keys:
  "map fst (groups_of U sha agents) = rev (remdups (rev (map (\<lambda>(a, f). key_of U sha f) (reports agents))))"
  unfolding groups_of_fold by (rule groups_fold_spec)

lemma groups_of_lookup: "map_of (groups_of U sha agents) k = merged U sha (of_key U sha k (reports agents))"
  unfolding groups_of_fold by (rule groups_fold_spec)

lemma groups_of_distinct: "distinct (map fst (groups_of U sha agents))"
  by (simp only: groups_of_keys) simp

lemma groups_of_in:
  "(k, st) \<in> set (groups_of U sha agents) \<longleftrightarrow> merged U sha (of_key U sha k (reports agents)) = Some st"
  using map_of_eq_Some_iff [OF groups_of_distinct] by (simp add: groups_of_lookup)

text \<open>The key of a reported entry is recomputed from the fields the entry carries.\<close>

definition as_finding :: "dedup_finding \<Rightarrow> finding" where
  "as_finding d = \<lparr> fi_severity = dd_severity d, fi_title = dd_title d, fi_detail = dd_detail d,
     fi_file = dd_file d, fi_line = dd_line d, fi_category = dd_category d \<rparr>"

definition entry_key :: "unicode \<Rightarrow> (ustr \<Rightarrow> nat list) \<Rightarrow> dedup_finding \<Rightarrow> ustr" where
  "entry_key U sha d = key_of U sha (as_finding d)"

lemma key_of_cong:
  "fi_title f = fi_title g \<Longrightarrow> fi_file f = fi_file g \<Longrightarrow> fi_line f = fi_line g \<Longrightarrow>
   fi_category f = fi_category g \<Longrightarrow> key_of U sha f = key_of U sha g"
  by (simp add: key_of_def finding_key_def split: option.split)

lemma group_entry:
  assumes "(k, st) \<in> set (groups_of U sha agents)"
  shows "merge_inv (of_key U sha k (reports agents)) st" "entry_key U sha (to_dedup st) = k"
proof -
  let ?ps = "of_key U sha k (reports agents)"
  have m: "merged U sha ?ps = Some st" using assms by (simp add: groups_of_in)
  show inv: "merge_inv ?ps st" by (rule merged_inv [OF m])
  from m have "?ps \<noteq> []" by auto
  then obtain a f where h: "hd ?ps = (a, f)" "(a, f) \<in> set ?ps"
    by (metis hd_in_set prod.exhaust)
  then have "key_of U sha f = k" by (auto simp: of_key_def)
  moreover have "entry_key U sha (to_dedup st) = key_of U sha f" unfolding entry_key_def
    by (rule key_of_cong) (use inv h in \<open>simp_all add: merge_inv_def Let_def as_finding_def to_dedup_def\<close>)
  ultimately show "entry_key U sha (to_dedup st) = k" by simp
qed

lemma dedup_set: "set (deduplicate_findings U sha agents) = (to_dedup \<circ> snd) ` set (groups_of U sha agents)"
  by (force simp: deduplicate_findings_def)

lemma in_reports: "(n, f) \<in> set (reports agents) \<longleftrightarrow> (\<exists>a\<in>set agents. ao_agent a = n \<and> f \<in> set (ao_findings a))"
  by (auto simp: reports_def)

lemma dedup_entry:
  assumes "d \<in> set (deduplicate_findings U sha agents)"
  shows "\<exists>st. to_dedup st = d \<and> (entry_key U sha d, st) \<in> set (groups_of U sha agents)"
proof -
  obtain k st where k: "(k, st) \<in> set (groups_of U sha agents)" "d = to_dedup st"
    using assms by (auto simp: dedup_set)
  with group_entry(2) [OF k(1)] show ?thesis by auto
qed

lemma reverse_rank_le: "reverse_rank a \<le> reverse_rank b \<longleftrightarrow> b \<le> a"
  by (cases a; cases b) (auto simp: reverse_rank_def less_eq_severity_def)

lemma reverse_rank_eq: "reverse_rank a = reverse_rank b \<longleftrightarrow> a = b"
  by (cases a; cases b) (auto simp: reverse_rank_def)

lemma confidence_grid:
  assumes "0 \<le> c" "c \<le> 1"
  shows "\<exists>k \<le> 100. f_div (f_round (f_mul (Fin c) (Fin 100))) (Fin 100) = to_f64 (of_nat k / 100)"
proof -
  have b: "0 \<le> c * 100" "c * 100 \<le> 100" using assms by auto
  then have m: "f_mul (Fin c) (Fin 100) = Fin (rnd64 (c * 100))"
    using to_f64_bounded [of "c * 100" 100] by simp
  define y where "y = rnd64 (c * 100)"
  have y: "0 \<le> y \<and> y \<le> 100" using ieee.rnd_between_ints [of 0 "c * 100" 100] b by (simp add: y_def)
  then have r: "0 \<le> round_away y \<and> round_away y \<le> 100"
    by (simp add: round_away_def floor_le_iff)
  have "f_div (f_round (Fin y)) (Fin 100) = to_f64 (of_nat (nat (round_away y)) / 100)"
    using r by simp
  moreover have "nat (round_away y) \<le> 100" using r by linarith
  ultimately show ?thesis unfolding m y_def [symmetric] by blast
qed

lemma f_clamp_unit: "x \<noteq> NaN \<Longrightarrow> \<exists>c. f_clamp (Fin 0) (Fin 1) x = Fin c \<and> 0 \<le> c \<and> c \<le> 1"
  by (cases x) (auto simp: f_clamp_def)

text \<open>A sum of at most three confidences is a number.\<close>

definition unit_val :: "f64 \<Rightarrow> bool" where
  "unit_val x \<longleftrightarrow> f_le (Fin 0) x \<and> f_le x (Fin 1)"

lemma unit_val_iff: "unit_val x \<longleftrightarrow> (\<exists>c. x = Fin c \<and> 0 \<le> c \<and> c \<le> 1)"
  by (cases x) (auto simp: unit_val_def f_le_def)

lemma f_sum_units:
  assumes "\<forall>x\<in>set xs. unit_val x" "int (length xs) + k \<le> 10" "0 \<le> k" "0 \<le> s" "s \<le> of_int k"
  shows "\<exists>t. fold (\<lambda>x acc. f_add acc x) xs (Fin s) = Fin t \<and> 0 \<le> t \<and> t \<le> of_int (k + int (length xs))"
  using assms
proof (induction xs arbitrary: s k)
  case (Cons x xs)
  then obtain c where c: "x = Fin c" "0 \<le> c" "c \<le> 1" by (auto simp: unit_val_iff)
  have b: "0 \<le> s + c" "s + c \<le> of_int (k + 1)" using Cons.prems c by auto
  have "f_add (Fin s) x = Fin (rnd64 (s + c))"
    using to_f64_bounded [of "s + c" "k + 1"] b c Cons.prems by simp
  moreover have "0 \<le> rnd64 (s + c) \<and> rnd64 (s + c) \<le> of_int (k + 1)"
    using ieee.rnd_between_ints [of 0 "s + c" "k + 1"] b Cons.prems by simp
  ultimately show ?case
    using Cons.IH [of "k + 1" "rnd64 (s + c)"] Cons.prems by (simp add: add.commute add.left_commute)
qed simp

lemma weight_factor_finite:
  assumes "\<bar>s\<bar> \<le> 1"
  shows "\<exists>w. f_div (f_add (f_abs (Fin s)) (Fin 1)) (Fin 2) = Fin w"
proof -
  let ?y = "rnd64 (\<bar>s\<bar> + 1)"
  have "f_add (f_abs (Fin s)) (Fin 1) = Fin ?y"
    using to_f64_bounded [of "\<bar>s\<bar> + 1" 2] assms by simp
  moreover have "0 \<le> ?y \<and> ?y \<le> 2" using ieee.rnd_between_ints [of 0 "\<bar>s\<bar> + 1" 2] assms by simp
  then have "to_f64 (?y / 2) = Fin (rnd64 (?y / 2))" by (intro to_f64_bounded [of _ 1]) auto
  ultimately show ?thesis by simp
qed

lemma to_f64_not_nan: "to_f64 x \<noteq> NaN"
  by (simp add: to_f64_def Let_def)

lemma confidence_of_grid:
  assumes "as \<noteq> []" "length as \<le> 3" "\<forall>a\<in>set as. unit_val (ao_confidence a)"
  shows "\<exists>k \<le> 100. confidence_of as (score_of as) v = to_f64 (of_nat k / 100)"
proof -
  let ?n = "length as" and ?side = "filter (\<lambda>a. effective_verdict a = v) as"
  have len: "length ?side \<le> ?n" by simp
  then have "length ?side \<le> 3" using assms(2) by (rule order_trans)
  have "\<exists>t. fold (\<lambda>x acc. f_add acc x) (map ao_confidence ?side) (Fin 0) = Fin t
      \<and> 0 \<le> t \<and> t \<le> of_int (0 + int (length (map ao_confidence ?side)))"
    by (rule f_sum_units) (use assms \<open>length ?side \<le> 3\<close> in auto)
  then obtain t where t: "f_sum (map ao_confidence ?side) = Fin t" "0 \<le> t" "t \<le> of_nat (length ?side)"
    by (auto simp: f_sum_def)
  have "t \<le> of_nat ?n" using t(3) len by (meson of_nat_mono order_trans)
  then have "\<bar>t / of_nat ?n\<bar> \<le> 1" using t(2) assms(1) by (simp add: abs_le_iff divide_le_eq)
  then have "to_f64 (t / of_nat ?n) = Fin (rnd64 (t / of_nat ?n))"
    by (intro to_f64_bounded [of _ 1]) auto
  then have base: "f_div (f_sum (map ao_confidence ?side)) (f_of_nat ?n) = Fin (rnd64 (t / of_nat ?n))"
    using assms t(1) by simp
  let ?s = "rnd64 (of_int (half_sum as) / (2 * of_nat ?n))"
  have "(of_int \<bar>half_sum as\<bar> :: rat) \<le> of_int (2 * int ?n)"
    using half_sum_bounds by (simp only: of_int_le_iff)
  then have "\<bar>of_int (half_sum as) / (2 * of_nat ?n) :: rat\<bar> \<le> 1"
    using assms(1) by (simp add: field_simps)
  then have sb: "\<bar>?s\<bar> \<le> 1" by (rule ieee.rnd_abs_unit)
  have "f_mul (Fin (rnd64 (t / of_nat ?n))) (f_div (f_add (f_abs (Fin ?s)) (Fin 1)) (Fin 2)) \<noteq> NaN"
    using weight_factor_finite [OF sb] to_f64_not_nan by auto
  then obtain c where c: "0 \<le> c" "c \<le> 1"
    "f_clamp (Fin 0) (Fin 1)
       (f_mul (Fin (rnd64 (t / of_nat ?n))) (f_div (f_add (f_abs (Fin ?s)) (Fin 1)) (Fin 2))) = Fin c"
    using f_clamp_unit by blast
  then show ?thesis using confidence_grid [OF c(1,2)]
    by (simp only: confidence_of_def Let_def base score_exact [OF assms(1,2)])
qed

lemma determine_votes:
  "distinct (map ao_agent as) \<Longrightarrow> 2 \<le> length as \<Longrightarrow>
     determine U sha (engine_new consensus_config_default) as =
       Ok (consensus_of U sha (engine_new consensus_config_default) as)"
  by (simp add: determine_Ok_iff engine_new_def consensus_config_default_def)

text \<open>Two conditional approvals against a rejection: the count says approve, the score says tie.\<close>

definition split_vote :: "agent_output list" where
  "split_vote = [vote Melchior Conditional [], vote Balthasar Conditional [], vote Caspar Reject []]"

lemma split_vote_verdict:
  "cr_verdict (consensus_of U sha (engine_new consensus_config_default) split_vote) = Reject"
  unfolding consensus_of_fields split_vote_def
  by (subst classified_exact) (simp_all add: exact_class_def half_sum_def engine_new_def Let_def)

lemma determine_split_vote:
  "determine U sha (engine_new consensus_config_default) split_vote =
     Ok (consensus_of U sha (engine_new consensus_config_default) split_vote)"
  by (rule determine_votes) (simp_all add: split_vote_def)

section \<open>Properties\<close>



text \<open>When every mage's confidence is a number between 0 and 1 (what validation ensures), the
  consensus confidence is one of the hundredths 0.00 to 1.00: rounding, the clamp and the
  penalty for a divided vote never leave the unit interval, overflow or produce a NaN.\<close>

theorem consensus_confidence_unit:
  assumes "determine U sha (engine_new C) agents = Ok r"
    and "\<forall>a\<in>set agents. f_le (Fin 0) (ao_confidence a) \<and> f_le (ao_confidence a) (Fin 1)"
  shows "(\<exists>k \<le> 100. cr_confidence r = to_f64 (of_nat k / 100))
    \<and> f_le (Fin 0) (cr_confidence r) \<and> f_le (cr_confidence r) (Fin 1)"
proof -
  from assms(1) have ok: "cn_min_agents (engine_new C) \<le> length agents"
    "distinct (map ao_agent agents)" "r = consensus_of U sha (engine_new C) agents"
    by (simp_all add: determine_Ok_iff)
  then have ne: "agents \<noteq> []" by (auto simp: engine_new_def Let_def split: if_splits)
  have "\<exists>k \<le> 100. cr_confidence r = to_f64 (of_nat k / 100)"
    unfolding ok(3) consensus_of_fields
    by (rule confidence_of_grid) (use ne assms(2) distinct_outputs_le [OF ok(2)] in \<open>auto simp: unit_val_def\<close>)
  then obtain k where k: "k \<le> 100" "cr_confidence r = to_f64 (of_nat k / 100)" by blast
  have "0 \<le> (of_nat k / 100 :: rat)" "(of_nat k / 100 :: rat) \<le> 1" using k(1) by simp_all
  with ieee.rnd_unit [of "of_nat k / 100"] to_f64_bounded [of "of_nat k / 100" 1]
  have "f_le (Fin 0) (cr_confidence r) \<and> f_le (cr_confidence r) (Fin 1)"
    by (simp add: k(2) f_le_def)
  with k show ?thesis by blast
qed

theorem consensus_confidence_unit_witness:
  "\<exists>k \<le> 100. cr_confidence (consensus_of ascii_tables (\<lambda>_. []) (engine_new consensus_config_default)
     [vote Melchior Approve [], vote Caspar Reject []]) = to_f64 (of_nat k / 100)"
  using consensus_confidence_unit [OF determine_votes [of
      "[vote Melchior Approve [], vote Caspar Reject []]" ascii_tables "\<lambda>_. []"]]
  by (simp add: f_le_def)

text \<open>Everything the result attributes to a side is attributed against the emitted verdict: the
  verdict is never Conditional, the dissenters are exactly the mages whose effective verdict
  differs from it, each with its own summary and reasoning and in input order, and the votes and
  recommendations record every mage and nobody else.\<close>

theorem consensus_attribution:
  assumes "determine U sha C agents = Ok r"
  shows "cr_verdict r \<noteq> Conditional
    \<and> map ds_agent (cr_dissent r) =
        map ao_agent (filter (\<lambda>a. effective (ao_verdict a) \<noteq> cr_verdict r) agents)
    \<and> (\<forall>n v. cr_votes r n = Some v \<longleftrightarrow> (\<exists>a\<in>set agents. ao_agent a = n \<and> ao_verdict a = v))
    \<and> (\<forall>n t. cr_recommendations r n = Some t \<longleftrightarrow>
         (\<exists>a\<in>set agents. ao_agent a = n \<and> ao_recommendation a = t))
    \<and> map cd_agent (cr_conditions r) = map ao_agent (filter (\<lambda>a. ao_verdict a = Conditional) agents)"
proof -
  from assms have ok: "distinct (map ao_agent agents)" "r = consensus_of U sha C agents"
    by (simp_all add: determine_Ok_iff)
  have d: "distinct (map fst (rev (map (\<lambda>a. (ao_agent a, g a)) agents)))" for g :: "agent_output \<Rightarrow> 'x"
    using ok(1) by (simp add: rev_map [symmetric] comp_def)
  have m: "map_of (rev (map (\<lambda>a. (ao_agent a, g a)) agents)) n = Some v
      \<longleftrightarrow> (\<exists>a\<in>set agents. ao_agent a = n \<and> g a = v)" for g :: "agent_output \<Rightarrow> 'x" and n v
    by (subst map_of_eq_Some_iff [OF d]) auto
  have v: "snd (classified C agents) \<noteq> Conditional"
    by (auto simp: classified_def classify_def Let_def)
  show ?thesis
    by (simp add: ok(2) v m consensus_of_def is_dissenting_def effective_verdict_def comp_def
        split: prod.split) (use v in auto)
qed

theorem consensus_attribution_witness:
  "map ds_agent (cr_dissent (consensus_of ascii_tables (\<lambda>_. []) (engine_new consensus_config_default)
     split_vote)) = [Melchior, Balthasar]"
  using consensus_attribution [OF determine_split_vote [of ascii_tables "\<lambda>_. []"],
      THEN conjunct2, THEN conjunct1]
  by (simp add: split_vote_verdict) (simp add: split_vote_def)

text \<open>C35: Deduplication neither loses nor invents a finding: no two entries share a key; every
  finding of every mage is represented by an entry of its key that lists the mage and whose
  severity is at least its own; and every entry's severity and detail come together from one
  reported finding of its key, with each source listed once and only if it reported one.\<close>

theorem dedup_represents:
  "distinct (map (entry_key U sha) (deduplicate_findings U sha agents))
   \<and> (\<forall>a\<in>set agents. \<forall>f\<in>set (ao_findings a). \<exists>d\<in>set (deduplicate_findings U sha agents).
        entry_key U sha d = key_of U sha f \<and> ao_agent a \<in> set (dd_sources d)
        \<and> fi_severity f \<le> dd_severity d)
   \<and> (\<forall>d\<in>set (deduplicate_findings U sha agents).
        distinct (dd_sources d)
        \<and> (\<exists>a\<in>set agents. \<exists>f\<in>set (ao_findings a). key_of U sha f = entry_key U sha d
             \<and> fi_severity f = dd_severity d \<and> fi_detail f = dd_detail d)
        \<and> (\<forall>n\<in>set (dd_sources d). \<exists>a\<in>set agents. ao_agent a = n
             \<and> (\<exists>f\<in>set (ao_findings a). key_of U sha f = entry_key U sha d)))"
proof (intro conjI ballI)
  let ?gs = "groups_of U sha agents"
  have "map (entry_key U sha) (map (\<lambda>(k, st). to_dedup st) ?gs) = map fst ?gs"
    using group_entry(2) by auto
  then have "distinct (map (entry_key U sha) (map (\<lambda>(k, st). to_dedup st) ?gs))"
    using groups_of_distinct by (simp only:)
  then show "distinct (map (entry_key U sha) (deduplicate_findings U sha agents))"
    unfolding deduplicate_findings_def by (subst (asm) distinct_map, subst distinct_map) (simp only: distinct_sort set_sort)
next
  fix a f assume a: "a \<in> set agents" "f \<in> set (ao_findings a)"
  let ?k = "key_of U sha f"
  have mem: "(ao_agent a, f) \<in> set (of_key U sha ?k (reports agents))"
    using a by (auto simp: of_key_def in_reports)
  then obtain st where st: "merged U sha (of_key U sha ?k (reports agents)) = Some st"
    by (cases "of_key U sha ?k (reports agents)") auto
  then have g: "(?k, st) \<in> set (groups_of U sha agents)" by (simp add: groups_of_in)
  with group_entry [OF g] mem have "entry_key U sha (to_dedup st) = ?k
      \<and> ao_agent a \<in> set (dd_sources (to_dedup st)) \<and> fi_severity f \<le> dd_severity (to_dedup st)"
    by (force simp: merge_inv_def to_dedup_def)
  with g show "\<exists>d\<in>set (deduplicate_findings U sha agents). entry_key U sha d = ?k
      \<and> ao_agent a \<in> set (dd_sources d) \<and> fi_severity f \<le> dd_severity d"
    by (force simp: dedup_set)
next
  fix d assume "d \<in> set (deduplicate_findings U sha agents)"
  then obtain st where st: "to_dedup st = d" "(entry_key U sha d, st) \<in> set (groups_of U sha agents)"
    using dedup_entry by blast
  have inv: "merge_inv (of_key U sha (entry_key U sha d) (reports agents)) st"
    by (rule group_entry(1) [OF st(2)])
  have mem: "(n, f) \<in> set (of_key U sha k (reports agents)) \<longleftrightarrow>
      (\<exists>a\<in>set agents. ao_agent a = n \<and> f \<in> set (ao_findings a)) \<and> key_of U sha f = k" for n f k
    by (auto simp: of_key_def in_reports)
  have fields: "gs_sources st = dd_sources d" "gs_severity st = dd_severity d" "gs_detail st = dd_detail d"
    using st(1) by (auto simp: to_dedup_def)
  show "distinct (dd_sources d)" using inv by (simp add: merge_inv_def fields)
  show "\<exists>a\<in>set agents. \<exists>f\<in>set (ao_findings a). key_of U sha f = entry_key U sha d
             \<and> fi_severity f = dd_severity d \<and> fi_detail f = dd_detail d"
    using inv by (fastforce simp: merge_inv_def mem fields)
  fix n assume "n \<in> set (dd_sources d)"
  with inv obtain f where "(n, f) \<in> set (of_key U sha (entry_key U sha d) (reports agents))"
    by (auto simp: merge_inv_def fields)
  then show "\<exists>a\<in>set agents. ao_agent a = n \<and> (\<exists>f\<in>set (ao_findings a). key_of U sha f = entry_key U sha d)"
    by (auto simp: mem)
qed

text \<open>Two mages report the same unlocated problem; the critic as critical.\<close>

definition same_problem :: "agent_output list" where
  "same_problem =
     [vote Melchior Approve [finding_new Warning (asc ''Leak'') (asc ''a'')],
      vote Caspar Reject [finding_new Info (asc ''Style'') (asc ''b''),
        finding_new Critical (asc '' LEAK'') (asc ''c'')]]"

theorem dedup_represents_witness:
  "\<exists>d\<in>set (deduplicate_findings ascii_tables (\<lambda>_. []) same_problem).
     Caspar \<in> set (dd_sources d) \<and> Critical \<le> dd_severity d"
proof -
  have m: "vote Caspar Reject [finding_new Info (asc ''Style'') (asc ''b''),
        finding_new Critical (asc '' LEAK'') (asc ''c'')] \<in> set same_problem"
    by (simp add: same_problem_def)
  show ?thesis
    using dedup_represents [of ascii_tables "\<lambda>_. []" same_problem, THEN conjunct2, THEN conjunct1,
        THEN bspec, OF m]
    by (auto simp: finding_new_def)
qed

text \<open>The findings of a result are ordered by severity, highest first, and the sort is stable:
  the entries of one severity appear in the order in which their key was first reported, which is
  the order of the mages in the input and of the findings of each mage.\<close>

lemma dedup_order:
  "sorted_wrt (\<lambda>d e. dd_severity e \<le> dd_severity d) (deduplicate_findings U sha agents)
   \<and> map fst (groups_of U sha agents) =
        rev (remdups (rev (map (\<lambda>(a, f). key_of U sha f) (reports agents))))
   \<and> (\<forall>s. map (entry_key U sha) (filter (\<lambda>d. dd_severity d = s) (deduplicate_findings U sha agents)) =
        map fst (filter (\<lambda>(k, st). gs_severity st = s) (groups_of U sha agents)))"
proof (intro conjI allI)
  let ?g = "groups_of U sha agents" and ?h = "\<lambda>d. reverse_rank (dd_severity d)"
  have "sorted (map ?h (deduplicate_findings U sha agents))"
    by (simp add: deduplicate_findings_def)
  then show "sorted_wrt (\<lambda>d e. dd_severity e \<le> dd_severity d) (deduplicate_findings U sha agents)"
    by (simp add: sorted_map reverse_rank_le)
  show "map fst ?g = rev (remdups (rev (map (\<lambda>(a, f). key_of U sha f) (reports agents))))"
    by (rule groups_of_keys)
  fix s
  have "filter (\<lambda>d. dd_severity d = s) (deduplicate_findings U sha agents) =
      filter (\<lambda>d. ?h d = reverse_rank s) (deduplicate_findings U sha agents)"
    by (simp add: reverse_rank_eq)
  also have "\<dots> = filter (\<lambda>d. ?h d = reverse_rank s) (map (\<lambda>(k, st). to_dedup st) ?g)"
    unfolding deduplicate_findings_def by (rule sort_key_stable)
  also have "\<dots> = map (\<lambda>(k, st). to_dedup st) (filter (\<lambda>(k, st). gs_severity st = s) ?g)"
    by (simp add: filter_map reverse_rank_eq comp_def case_prod_unfold to_dedup_def)
  finally show "map (entry_key U sha) (filter (\<lambda>d. dd_severity d = s) (deduplicate_findings U sha agents)) =
      map fst (filter (\<lambda>(k, st). gs_severity st = s) ?g)"
    using group_entry(2) by auto
qed

end
