(* ===== verification/Markers.thy ===== *)
theory Markers
  imports Errors
begin

text \<open>
  The verdict sentinel (\<open>src/src/verdict_markers.rs\<close>): how the single block between two marker
  lines is delimited inside raw model output. The scan is parametric in what counts as a marker
  line, as in the code; the locale \<open>marker_scan\<close> states the only thing the scan relies on, and is
  interpreted for the permissive predicate of the output parser and for the strict one of the
  prompt validation.
\<close>

section \<open>Markers and lines\<close>

definition VERDICT_OPEN :: ustr where "VERDICT_OPEN = asc ''<MAGI_VERDICT>''"
definition VERDICT_CLOSE :: ustr where "VERDICT_CLOSE = asc ''</MAGI_VERDICT>''"

definition normalize_line :: "unicode \<Rightarrow> ustr \<Rightarrow> ustr" where
  "normalize_line U line = trim (filter (\<lambda>c. \<not> (is_cf U c \<or> is_mn U c)) line)"

definition is_marker_line :: "unicode \<Rightarrow> ustr \<Rightarrow> ustr \<Rightarrow> bool" where
  "is_marker_line U line marker \<longleftrightarrow> eq_ignore_ascii_case (normalize_line U line) marker"

definition is_exact_marker_line :: "ustr \<Rightarrow> ustr \<Rightarrow> bool" where
  "is_exact_marker_line line marker \<longleftrightarrow> trim line = marker"

text \<open>The matches of \<open>LINE_BREAK_RE\<close> (\<open>\r\n\<close>, else \<open>\r\<close>, else \<open>\n\<close>) as start and end offsets.\<close>

fun breaks :: "nat \<Rightarrow> ustr \<Rightarrow> (nat \<times> nat) list" where
  "breaks p [] = []"
| "breaks p (c # s) =
     (if c = CR then
        (case s of
           d # t \<Rightarrow> if d = LF then (p, p + 2) # breaks (p + 2) t else (p, p + 1) # breaks (p + 1) s
         | [] \<Rightarrow> [(p, p + 1)])
      else if c = LF then (p, p + 1) # breaks (p + 1) s
      else breaks (p + 1) s)"

fun line_spans :: "nat \<Rightarrow> (nat \<times> nat) list \<Rightarrow> nat \<Rightarrow> (nat \<times> nat) list" where
  "line_spans cursor [] len = [(cursor, len)]"
| "line_spans cursor ((a, b) # bs) len = (cursor, a) # line_spans b bs len"

text \<open>\<open>FENCE_RE\<close>: optional whitespace, a fence of three, and no further fence character.\<close>

definition fence_kind :: "ustr \<Rightarrow> nat option" where
  "fence_kind line =
     (case trim_start line of
        a # b # c # rest \<Rightarrow>
          if (a = 96 \<or> a = 126) \<and> b = a \<and> c = a \<and> 96 \<notin> set rest \<and> 126 \<notin> set rest
          then Some a else None
      | _ \<Rightarrow> None)"

section \<open>Failure causes\<close>

datatype extraction_cause = MissingMarkers | Unterminated | Ambiguous | InvalidJson
  | MalformedObject | SchemaViolation | EchoedExample | AgentIdentity | OtherCause

record extraction_error =
  xe_cause :: extraction_cause
  xe_message :: ustr

definition xfail :: "extraction_cause \<Rightarrow> ustr \<Rightarrow> ('a, extraction_error) result" where
  "xfail c m = Err \<lparr> xe_cause = c, xe_message = m \<rparr>"

section \<open>Locating the block\<close>

definition strip_fence :: "ustr \<Rightarrow> ustr" where
  "strip_fence block =
     (case breaks 0 block of
        [] \<Rightarrow> block
      | first # others \<Rightarrow>
          let final = last (first # others);
              opener = subtext 0 (fst first) block;
              closer = drop (snd final) block
          in case (fence_kind opener, fence_kind closer) of
               (Some o', Some c') \<Rightarrow>
                 if o' \<noteq> c' then block
                 else let start = snd first; end' = fst final
                      in if start > end' then [] else trim (subtext start end' block)
             | _ \<Rightarrow> block)"

text \<open>One pass over the lines: for an open marker its line and the offset past the line, for a close
  marker its line and the offset of its start.\<close>

fun scan_markers :: "(ustr \<Rightarrow> ustr \<Rightarrow> bool) \<Rightarrow> ustr \<Rightarrow> nat \<Rightarrow> (nat \<times> nat) list
    \<Rightarrow> (nat \<times> nat) list \<times> (nat \<times> nat) list" where
  "scan_markers is_marker txt i [] = ([], [])"
| "scan_markers is_marker txt i ((a, b) # spans) =
     (case scan_markers is_marker txt (Suc i) spans of
        (opens, closes) \<Rightarrow>
          let line = subtext a b txt
          in if is_marker line VERDICT_OPEN then ((i, b) # opens, closes)
             else if is_marker line VERDICT_CLOSE then (opens, (i, a) # closes)
             else (opens, closes))"

definition locate_block ::
  "ustr \<Rightarrow> (ustr \<Rightarrow> ustr \<Rightarrow> bool) \<Rightarrow> (ustr, extraction_error) result" where
  "locate_block txt is_marker =
     (case scan_markers is_marker txt 0 (line_spans 0 (breaks 0 txt) (length txt)) of
        (opens, closes) \<Rightarrow>
          if opens = [] \<and> closes = [] then
            xfail MissingMarkers (asc ''no verdict markers found: expected '' @ VERDICT_OPEN
              @ asc '' and '' @ VERDICT_CLOSE @ asc '', each alone on its own line'')
          else if opens = [] \<or> closes = [] then
            xfail Unterminated (asc ''unterminated verdict block: '' @ show_nat (length opens)
              @ asc '' open and '' @ show_nat (length closes)
              @ asc '' close marker(s) (the signature of a truncated output)'')
          else if length opens \<noteq> 1 \<or> length closes \<noteq> 1 then
            xfail Ambiguous (asc ''expected exactly one verdict block, found ''
              @ show_nat (length opens) @ asc '' open and '' @ show_nat (length closes)
              @ asc '' close markers'')
          else let (open_index, open_end) = hd opens; (close_index, close_start) = hd closes
            in if close_index < open_index then
                 xfail Ambiguous (asc ''close marker precedes its open marker (open at line ''
                   @ show_nat (open_index + 1) @ asc '', close at line ''
                   @ show_nat (close_index + 1) @ asc '')'')
               else Ok (strip_fence (trim (subtext open_end close_start txt))))"

definition extract_block :: "unicode \<Rightarrow> ustr \<Rightarrow> (ustr, extraction_error) result" where
  "extract_block U txt = locate_block txt (is_marker_line U)"

section \<open>The lines of a text\<close>

definition line_list :: "ustr \<Rightarrow> ustr list" where
  "line_list txt = map (\<lambda>(a, b). subtext a b txt) (line_spans 0 (breaks 0 txt) (length txt))"

lemma breaks_shift: "breaks (p + k) s = map (\<lambda>(a, b). (a + k, b + k)) (breaks p s)"
proof (induction p s rule: breaks.induct)
  case (2 p c s)
  show ?case
  proof (cases "c = CR")
    case True
    then show ?thesis using 2 by (cases s) (auto simp: algebra_simps)
  next
    case False
    then show ?thesis using 2 by (auto simp: algebra_simps)
  qed
qed simp

lemma line_spans_shift:
  "line_spans (c + k) (map (\<lambda>(a, b). (a + k, b + k)) bs) (l + k) = map (\<lambda>(a, b). (a + k, b + k)) (line_spans c bs l)"
  by (induction c bs l rule: line_spans.induct) auto

lemma line_spans_append:
  "line_spans c (xs @ (u, v) # ys) len = line_spans c xs u @ line_spans v ys len"
  by (induction c xs u rule: line_spans.induct) auto

lemma breaks_append:
  assumes "a = [] \<or> last a \<noteq> CR"
  shows "breaks p (a @ LF # b) = breaks p a @ (p + length a, p + length a + 1) # breaks (p + length a + 1) b"
  using assms
proof (induction p a rule: breaks.induct)
  case (1 p)
  then show ?case by simp
next
  case (2 p c s)
  consider "c = CR" "s = []" | d t where "c = CR" "s = d # t" | "c \<noteq> CR" by (cases s) auto
  then show ?case
  proof cases
    case 1
    with 2 show ?thesis by simp
  next
    case (2 d t)
    with "2.IH" "2.prems" show ?thesis by (auto split: if_splits)
  next
    case 3
    with "2.IH" "2.prems" show ?thesis by (auto split: if_splits)
  qed
qed

lemma breaks_bounds: "(u, v) \<in> set (breaks p s) \<Longrightarrow> p \<le> u \<and> u < v \<and> v \<le> p + length s"
proof (induction p s rule: breaks.induct)
  case (2 p c s)
  consider "c = CR" "s = []" | d t where "c = CR" "s = d # t" | "c \<noteq> CR" by (cases s) auto
  then show ?case
  proof cases
    case 1
    with "2.prems" show ?thesis by simp
  next
    case (2 d t)
    with "2.IH" "2.prems" show ?thesis by (fastforce split: if_splits)
  next
    case 3
    with "2.IH" "2.prems" show ?thesis by (fastforce split: if_splits)
  qed
qed simp

definition spans :: "ustr \<Rightarrow> (nat \<times> nat) list" where
  "spans s = line_spans 0 (breaks 0 s) (length s)"

lemma line_list_spans: "line_list s = map (\<lambda>(a, b). subtext a b s) (spans s)"
  by (simp add: line_list_def spans_def)

lemma length_line_list [simp]: "length (line_list s) = length (spans s)"
  by (simp add: line_list_spans)

lemma line_spans_snd_le:
  "(\<And>u v. (u, v) \<in> set bs \<Longrightarrow> u \<le> len) \<Longrightarrow> (x, y) \<in> set (line_spans c bs len) \<Longrightarrow> y \<le> len"
  by (induction c bs len rule: line_spans.induct) fastforce+

lemma spans_le: "(x, y) \<in> set (spans s) \<Longrightarrow> y \<le> length s"
  unfolding spans_def by (rule line_spans_snd_le) (auto dest: breaks_bounds)

lemma spans_append:
  assumes "a = [] \<or> last a \<noteq> CR"
  shows "spans (a @ LF # b) = spans a @ map (\<lambda>(x, y). (x + (length a + 1), y + (length a + 1))) (spans b)"
proof -
  let ?k = "length a + 1"
  have "breaks ?k b = map (\<lambda>(x, y). (x + ?k, y + ?k)) (breaks 0 b)"
    using breaks_shift [of 0 ?k b] by simp
  then have "line_spans ?k (breaks ?k b) (length b + ?k) =
      map (\<lambda>(x, y). (x + ?k, y + ?k)) (line_spans 0 (breaks 0 b) (length b))"
    using line_spans_shift [of 0 ?k "breaks 0 b" "length b"] by simp
  moreover have "breaks 0 (a @ LF # b) = breaks 0 a @ (length a, ?k) # breaks ?k b"
    using breaks_append [OF assms, of 0 b] by simp
  ultimately show ?thesis
    by (simp add: spans_def line_spans_append add.commute)
qed

lemma line_list_append:
  assumes "a = [] \<or> last a \<noteq> CR"
  shows "line_list (a @ LF # b) = line_list a @ line_list b"
proof -
  have "subtext x y (a @ LF # b) = subtext x y a" if "(x, y) \<in> set (spans a)" for x y
    using spans_le [OF that] by (simp add: subtext_def)
  moreover have "subtext (x + (length a + 1)) (y + (length a + 1)) (a @ LF # b) = subtext x y b" for x y
    by (simp add: subtext_def)
  ultimately show ?thesis
    by (auto simp: line_list_spans spans_append [OF assms] intro!: map_cong)
qed

text \<open>A text without line breaks is its own only line.\<close>

definition one_line :: "ustr \<Rightarrow> bool" where
  "one_line s \<longleftrightarrow> CR \<notin> set s \<and> LF \<notin> set s"

lemma breaks_one_line: "one_line s \<Longrightarrow> breaks p s = []"
  by (induction p s rule: breaks.induct) (auto simp: one_line_def)

lemma spans_one_line: "one_line s \<Longrightarrow> spans s = [(0, length s)]"
  by (simp add: spans_def breaks_one_line)

lemma line_list_one_line: "one_line s \<Longrightarrow> line_list s = [s]"
  by (simp add: line_list_spans spans_one_line subtext_def)

lemma one_line_last: "one_line s \<Longrightarrow> s = [] \<or> last s \<noteq> CR"
  by (metis last_in_set one_line_def)

section \<open>The scan finds the marker lines\<close>

lemma scan_enumerate:
  "scan_markers m s i sp =
     (map (\<lambda>(k, a, b). (k, b)) (filter (\<lambda>(k, a, b). m (subtext a b s) VERDICT_OPEN) (enumerate i sp)),
      map (\<lambda>(k, a, b). (k, a)) (filter (\<lambda>(k, a, b). \<not> m (subtext a b s) VERDICT_OPEN
         \<and> m (subtext a b s) VERDICT_CLOSE) (enumerate i sp)))"
  by (induction m s i sp rule: scan_markers.induct) (auto simp: Let_def)

lemma enumerate_upt: "enumerate 0 xs = map (\<lambda>i. (i, xs ! i)) [0..<length xs]"
  by (rule nth_equalityI) (simp_all add: nth_enumerate_eq)

definition marker_lines :: "(ustr \<Rightarrow> ustr \<Rightarrow> bool) \<Rightarrow> ustr \<Rightarrow> ustr \<Rightarrow> nat list" where
  "marker_lines m mark s = filter (\<lambda>i. m (line_list s ! i) mark) [0..<length (line_list s)]"

lemma filter_index_unique:
  assumes "P x" "\<forall>y\<in>set xs. \<not> P y" "\<forall>y\<in>set ys. \<not> P y"
  shows "filter (\<lambda>i. P ((xs @ x # ys) ! i)) [0..<length (xs @ x # ys)] = [length xs]"
proof -
  define L where "L = xs @ x # ys"
  have u: "i = length xs" if "i < length L" "P (L ! i)" for i
  proof (rule ccontr)
    assume ne: "i \<noteq> length xs"
    show False
    proof (cases "i < length xs")
      case True
      with that assms(2) show False by (simp add: L_def nth_append)
    next
      case False
      then obtain k where "i = length xs + Suc k" using ne
        by (metis add.commute add_Suc_right less_imp_Suc_add linorder_neqE_nat)
      with that assms(3) show False by (simp add: L_def nth_append)
    qed
  qed
  have "length xs < length L" "P (L ! length xs)" using assms(1) by (simp_all add: L_def)
  then have "set (filter (\<lambda>i. P (L ! i)) [0..<length L]) = set [length xs]"
    by (auto dest: u)
  moreover have "sorted (filter (\<lambda>i. P (L ! i)) [0..<length L])"
    by (rule sorted_wrt_filter) simp
  moreover have "distinct (filter (\<lambda>i. P (L ! i)) [0..<length L])" by simp
  ultimately have "filter (\<lambda>i. P (L ! i)) [0..<length L] = [length xs]"
    using sorted_distinct_set_unique [of _ "[length xs]"] by simp
  then show ?thesis by (simp only: L_def)
qed

text \<open>A text none of whose lines is a marker.\<close>

definition markerless :: "(ustr \<Rightarrow> ustr \<Rightarrow> bool) \<Rightarrow> ustr \<Rightarrow> bool" where
  "markerless m s \<longleftrightarrow> (\<forall>l\<in>set (line_list s). \<not> m l VERDICT_OPEN \<and> \<not> m l VERDICT_CLOSE)"

locale marker_scan =
  fixes is_marker :: "ustr \<Rightarrow> ustr \<Rightarrow> bool"
  assumes exclusive: "is_marker l VERDICT_OPEN \<Longrightarrow> \<not> is_marker l VERDICT_CLOSE"
begin

lemma scan_lines:
  "scan_markers is_marker s 0 (spans s) =
     (map (\<lambda>i. (i, snd (spans s ! i))) (marker_lines is_marker VERDICT_OPEN s),
      map (\<lambda>i. (i, fst (spans s ! i))) (marker_lines is_marker VERDICT_CLOSE s))"
proof -
  have l: "i < length (spans s) \<Longrightarrow>
      line_list s ! i = subtext (fst (spans s ! i)) (snd (spans s ! i)) s" for i
    by (simp add: line_list_spans case_prod_unfold)
  have f: "filter P (map g xs) = map g (filter (P \<circ> g) xs)" for P :: "'b \<Rightarrow> bool" and g :: "'a \<Rightarrow> 'b" and xs
    by (rule filter_map)
  show ?thesis
    unfolding scan_enumerate enumerate_upt f marker_lines_def
    by (auto simp: case_prod_unfold comp_def l exclusive intro!: filter_cong map_cong)
qed

lemma locate_Ok_iff:
  "locate_block s is_marker = Ok b \<longleftrightarrow>
     (\<exists>i j. marker_lines is_marker VERDICT_OPEN s = [i] \<and> marker_lines is_marker VERDICT_CLOSE s = [j]
        \<and> i < j \<and> b = strip_fence (trim (subtext (snd (spans s ! i)) (fst (spans s ! j)) s)))"
proof -
  have ne: "i \<noteq> j" if "marker_lines is_marker VERDICT_OPEN s = [i]"
    "marker_lines is_marker VERDICT_CLOSE s = [j]" for i j
  proof
    assume "i = j"
    have "i \<in> set (marker_lines is_marker VERDICT_OPEN s)" "j \<in> set (marker_lines is_marker VERDICT_CLOSE s)"
      by (simp_all add: that)
    with \<open>i = j\<close> exclusive show False by (auto simp: marker_lines_def)
  qed
  show ?thesis
    unfolding locate_block_def spans_def [symmetric] scan_lines
    by (auto simp: xfail_def Let_def length_Suc_conv not_less le_less dest: ne split: if_splits)
qed

lemma locate_Err_cause:
  assumes "locate_block s is_marker = Err e"
  shows "xe_cause e =
    (let n = length (marker_lines is_marker VERDICT_OPEN s);
         k = length (marker_lines is_marker VERDICT_CLOSE s)
     in if n = 0 \<and> k = 0 then MissingMarkers else if n = 0 \<or> k = 0 then Unterminated else Ambiguous)"
  using assms unfolding locate_block_def spans_def [symmetric] scan_lines
  by (auto simp: xfail_def Let_def split: if_splits prod.splits)

lemma locate_framed:
  assumes "markerless is_marker pre" "markerless is_marker body" "markerless is_marker post"
    and ends: "pre = [] \<or> last pre \<noteq> CR" "body = [] \<or> last body \<noteq> CR"
    and o': "one_line o'" "is_marker o' VERDICT_OPEN"
    and c': "one_line c'" "is_marker c' VERDICT_CLOSE"
  shows "locate_block (pre @ LF # o' @ LF # body @ LF # c' @ LF # post) is_marker =
    Ok (strip_fence (trim body))"
proof -
  let ?t = "pre @ LF # o' @ LF # body @ LF # c' @ LF # post"
  let ?n = "length (spans pre)" and ?m = "length (spans body)"
  note app = line_list_append [OF ends(1)] line_list_append [OF ends(2)]
    line_list_append [OF one_line_last [OF o'(1)]] line_list_append [OF one_line_last [OF c'(1)]]
  have L: "line_list ?t = line_list pre @ o' # (line_list body @ c' # line_list post)"
    by (simp add: app line_list_one_line o'(1) c'(1))
  have L2: "line_list ?t = (line_list pre @ o' # line_list body) @ c' # line_list post"
    by (simp add: L)
  have "\<not> is_marker c' VERDICT_OPEN" using exclusive c'(2) by blast
  with assms have "marker_lines is_marker VERDICT_OPEN ?t = [?n]"
    unfolding marker_lines_def L by (subst filter_index_unique) (auto simp: markerless_def)
  moreover have "\<not> is_marker o' VERDICT_CLOSE" using exclusive o'(2) by blast
  with assms have "marker_lines is_marker VERDICT_CLOSE ?t = [?n + Suc ?m]"
    unfolding marker_lines_def L2 by (subst filter_index_unique) (auto simp: markerless_def)
  moreover
  have S: "spans ?t = spans pre @ map (\<lambda>(x, y). (x + (length pre + 1), y + (length pre + 1)))
      ((0, length o') # map (\<lambda>(x, y). (x + (length o' + 1), y + (length o' + 1)))
        (spans body @ map (\<lambda>(x, y). (x + (length body + 1), y + (length body + 1)))
          ((0, length c') # map (\<lambda>(x, y). (x + (length c' + 1), y + (length c' + 1))) (spans post))))"
    by (simp only: spans_append [OF ends(1)] spans_append [OF ends(2)]
        spans_append [OF one_line_last [OF o'(1)]] spans_append [OF one_line_last [OF c'(1)]]
        spans_one_line [OF o'(1)] spans_one_line [OF c'(1)] append.simps)
  have "snd (spans ?t ! ?n) = length pre + 1 + length o'"
    unfolding S by (simp add: nth_append)
  moreover have "fst (spans ?t ! (?n + Suc ?m)) = length pre + 1 + length o' + (length body + 2)"
    unfolding S by (simp add: nth_append)
  moreover have "subtext (length pre + 1 + length o') (length pre + 1 + length o' + (length body + 2)) ?t
      = LF # body @ [LF]"
    by (simp add: subtext_def)
  moreover have "trim (LF # body @ [LF]) = trim body"
    using trim_ws_left [of "[LF]" "body @ [LF]"] trim_ws_right [of "[LF]" body] by (simp add: is_ws_def)
  ultimately show ?thesis by (auto simp: locate_Ok_iff)
qed

end

lemma permissive_exclusive: "is_marker_line U l VERDICT_OPEN \<Longrightarrow> \<not> is_marker_line U l VERDICT_CLOSE"
  by (auto simp: is_marker_line_def eq_ignore_ascii_case_def VERDICT_OPEN_def VERDICT_CLOSE_def)

lemma strict_exclusive: "is_exact_marker_line l VERDICT_OPEN \<Longrightarrow> \<not> is_exact_marker_line l VERDICT_CLOSE"
  by (simp add: is_exact_marker_line_def VERDICT_OPEN_def VERDICT_CLOSE_def)

interpretation permissive: marker_scan "is_marker_line U" for U
  by unfold_locales (rule permissive_exclusive)

interpretation strict: marker_scan is_exact_marker_line
  by unfold_locales (rule strict_exclusive)

lemma extract_characterised_cause:
  "extract_block U s = Err e \<Longrightarrow> xe_cause e \<in> {MissingMarkers, Unterminated, Ambiguous}"
  unfolding extract_block_def using permissive.locate_Err_cause [of s U e] by (auto simp: Let_def)

section \<open>Strict markers are markers\<close>

text \<open>What the Unicode tables are known to say: no ASCII character is a format character or a
  nonspacing mark, and the byte order mark is a format character.\<close>

definition tables_ok :: "unicode \<Rightarrow> bool" where
  "tables_ok U \<longleftrightarrow> (\<forall>c<128. \<not> is_cf U c \<and> \<not> is_mn U c) \<and> is_cf U 0xFEFF"

lemma marker_ascii: "c \<in> set VERDICT_OPEN \<union> set VERDICT_CLOSE \<Longrightarrow> c < 128"
  by (auto simp: VERDICT_OPEN_def VERDICT_CLOSE_def)

lemma normalize_marker:
  assumes "tables_ok U" "trim l = m" "m = VERDICT_OPEN \<or> m = VERDICT_CLOSE"
  shows "normalize_line U l = m"
proof -
  let ?keep = "\<lambda>c. \<not> (is_cf U c \<or> is_mn U c)"
  obtain a b where l: "l = a @ m @ b" "\<forall>c\<in>set a \<union> set b. is_ws c" using trim_split assms(2) by metis
  have "filter ?keep m = m"
    using assms(1,3) marker_ascii by (intro filter_True) (auto simp: tables_ok_def)
  then have "filter ?keep l = filter ?keep a @ m @ filter ?keep b" by (simp add: l)
  moreover have "trim (filter ?keep a @ m @ filter ?keep b) = trim m"
    using l(2) trim_ws_left [of "filter ?keep a"] trim_ws_right [of "filter ?keep b"] by auto
  moreover have "trim m = m" using assms(2) by auto
  ultimately show ?thesis by (simp add: normalize_line_def)
qed

lemma strict_permissive:
  assumes "tables_ok U" "is_exact_marker_line l m" "m = VERDICT_OPEN \<or> m = VERDICT_CLOSE"
  shows "is_marker_line U l m"
  using normalize_marker [OF assms(1), of l m] assms(2,3)
  by (simp add: is_exact_marker_line_def is_marker_line_def eq_ignore_ascii_case_def)

text \<open>Concrete evaluation under the ASCII tables.\<close>

lemma ascii_tables_ok: "tables_ok ascii_tables"
  by (simp add: tables_ok_def ascii_tables_def)

lemma one_line_markers: "one_line VERDICT_OPEN" "one_line VERDICT_CLOSE"
  by (simp_all add: one_line_def VERDICT_OPEN_def VERDICT_CLOSE_def)

lemma exact_markers:
  "is_exact_marker_line VERDICT_OPEN VERDICT_OPEN" "is_exact_marker_line VERDICT_CLOSE VERDICT_CLOSE"
  by (simp_all add: is_exact_marker_line_def trim_id is_ws_def VERDICT_OPEN_def VERDICT_CLOSE_def)

lemma ascii_markers:
  "is_marker_line ascii_tables VERDICT_OPEN VERDICT_OPEN" "is_marker_line ascii_tables VERDICT_CLOSE VERDICT_CLOSE"
  using exact_markers strict_permissive [OF ascii_tables_ok] by blast+

lemma last_markers:
  "asc ''note'' = [] \<or> last (asc ''note'') \<noteq> CR" "asc ''{}'' = [] \<or> last (asc ''{}'') \<noteq> CR"
  by simp_all

lemma short_not_marker:
  "length l < 14 \<Longrightarrow> \<not> is_marker_line U l VERDICT_OPEN \<and> \<not> is_marker_line U l VERDICT_CLOSE"
proof -
  assume l: "length l < 14"
  have "length (normalize_line U l) \<le> length l"
    unfolding normalize_line_def by (meson length_filter_le length_trim_le order_trans)
  with l have "length (map ascii_lower (normalize_line U l)) < 14" by simp
  moreover have "length (map ascii_lower VERDICT_OPEN) = 14" "length (map ascii_lower VERDICT_CLOSE) = 15"
    by (simp_all add: VERDICT_OPEN_def VERDICT_CLOSE_def)
  ultimately show ?thesis unfolding is_marker_line_def eq_ignore_ascii_case_def by fastforce
qed

lemma markerless_ascii: "one_line l \<Longrightarrow> length l < 14 \<Longrightarrow> markerless (is_marker_line U) l"
  using short_not_marker by (simp add: markerless_def line_list_one_line)

lemma markerless_exact: "one_line l \<Longrightarrow> length l < 14 \<Longrightarrow> markerless is_exact_marker_line l"
  using short_not_marker [of l ascii_tables] strict_permissive [OF ascii_tables_ok, of l]
  by (auto simp: markerless_def line_list_one_line)

text \<open>A short one-line body in its frame.\<close>

definition framed :: "ustr \<Rightarrow> ustr" where
  "framed body = [] @ LF # VERDICT_OPEN @ LF # body @ LF # VERDICT_CLOSE @ LF # []"

lemma framed_extract:
  assumes "one_line body" "length body < 14"
  shows "extract_block ascii_tables (framed body) = Ok (strip_fence (trim body))"
    and "locate_block (framed body) is_exact_marker_line = Ok (strip_fence (trim body))"
proof -
  have nil: "one_line []" by (simp add: one_line_def)
  show "extract_block ascii_tables (framed body) = Ok (strip_fence (trim body))"
    unfolding framed_def extract_block_def
    by (rule permissive.locate_framed)
      (simp_all add: markerless_ascii nil assms one_line_markers ascii_markers one_line_last)
  show "locate_block (framed body) is_exact_marker_line = Ok (strip_fence (trim body))"
    unfolding framed_def
    by (rule strict.locate_framed)
      (simp_all add: markerless_exact nil assms one_line_markers exact_markers one_line_last)
qed

section \<open>Properties\<close>

text \<open>C11: The parser delimits a verdict exactly when one line of the output is an open marker, one
  line is a close marker and the open marker comes first; the verdict is then the text between
  these two lines and nothing else. Otherwise the failure cause follows from the number of marker
  lines alone: none of either kind, one kind missing, or ambiguous.\<close>

theorem extract_characterised:
  "(extract_block U s = Ok b \<longleftrightarrow>
     (\<exists>i j. marker_lines (is_marker_line U) VERDICT_OPEN s = [i]
        \<and> marker_lines (is_marker_line U) VERDICT_CLOSE s = [j] \<and> i < j
        \<and> b = strip_fence (trim (subtext (snd (spans s ! i)) (fst (spans s ! j)) s))))
   \<and> (extract_block U s = Err e \<longrightarrow> xe_cause e =
        (let n = length (marker_lines (is_marker_line U) VERDICT_OPEN s);
             k = length (marker_lines (is_marker_line U) VERDICT_CLOSE s)
         in if n = 0 \<and> k = 0 then MissingMarkers
            else if n = 0 \<or> k = 0 then Unterminated else Ambiguous))"
  unfolding extract_block_def using permissive.locate_Ok_iff permissive.locate_Err_cause by blast

theorem extract_characterised_witness:
  "xe_cause (get_err (extract_block ascii_tables (asc ''no verdict''))) = MissingMarkers"
proof -
  have l: "line_list (asc ''no verdict'') = [asc ''no verdict'']"
    by (rule line_list_one_line) (simp add: one_line_def)
  have n: "\<not> is_marker_line ascii_tables (asc ''no verdict'') VERDICT_OPEN"
    "\<not> is_marker_line ascii_tables (asc ''no verdict'') VERDICT_CLOSE"
    by (simp_all add: is_marker_line_def normalize_line_def ascii_tables_def trim_def trim_start_def
        trim_end_def is_ws_def eq_ignore_ascii_case_def VERDICT_OPEN_def VERDICT_CLOSE_def)
  have m: "marker_lines (is_marker_line ascii_tables) VERDICT_OPEN (asc ''no verdict'') = []"
    "marker_lines (is_marker_line ascii_tables) VERDICT_CLOSE (asc ''no verdict'') = []"
    using n by (simp_all add: marker_lines_def l del: asc_Cons length_line_list)
  show ?thesis
  proof (cases "extract_block ascii_tables (asc ''no verdict'')")
    case (Ok b)
    with extract_characterised [of ascii_tables "asc ''no verdict''" b] show ?thesis
      by (simp add: m del: asc_Cons)
  next
    case (Err e)
    with extract_characterised [of ascii_tables "asc ''no verdict''" _ e] show ?thesis
      by (simp add: m del: asc_Cons)
  qed
qed

text \<open>Nothing outside the markers is ever read: whatever surrounds the block, if no other line is
  a marker the parser returns the fence-stripped body, so two outputs that differ only outside
  the block parse alike and a well-framed verdict is always recovered.\<close>

theorem extract_framed:
  assumes "markerless (is_marker_line U) pre" "markerless (is_marker_line U) body"
    "markerless (is_marker_line U) post"
    and "pre = [] \<or> last pre \<noteq> CR" "body = [] \<or> last body \<noteq> CR"
    and "one_line o'" "is_marker_line U o' VERDICT_OPEN"
    and "one_line c'" "is_marker_line U c' VERDICT_CLOSE"
  shows "extract_block U (pre @ LF # o' @ LF # body @ LF # c' @ LF # post) = Ok (strip_fence (trim body))"
  unfolding extract_block_def by (rule permissive.locate_framed [OF assms])

theorem extract_framed_witness:
  "extract_block ascii_tables (asc ''note'' @ LF # VERDICT_OPEN @ LF # asc ''{}'' @ LF # VERDICT_CLOSE @ LF # [])
     = Ok (strip_fence (trim (asc ''{}'')))"
proof (rule extract_framed)
  show "markerless (is_marker_line ascii_tables) (asc ''note'')"
    "markerless (is_marker_line ascii_tables) (asc ''{}'')"
    "markerless (is_marker_line ascii_tables) []"
    by (simp_all add: markerless_ascii one_line_def)
qed (simp_all add: one_line_markers ascii_markers last_markers)

end
