(* ===== verification/User_Prompt.thy ===== *)
theory User_Prompt
  imports Markers Validate
begin

text \<open>
  The prompts a mage receives (\<open>src/src/user_prompt.rs\<close>): the sanitisation of the reviewed
  content, the framing with a random nonce, and the feedback appended for the single retry
  after a rejected answer. Randomness is the value the generator returned.
\<close>

section \<open>Sanitising\<close>

definition is_newline_like :: "nat \<Rightarrow> bool" where
  "is_newline_like c \<longleftrightarrow> c \<in> {13, 0x0B, 0x0C, 0x85, 0x2028, 0x2029}"

fun normalize_newlines :: "ustr \<Rightarrow> ustr" where
  "normalize_newlines [] = []"
| "normalize_newlines (c # s) =
     (if c = CR then
        LF # (case s of d # t \<Rightarrow> if d = LF then normalize_newlines t else normalize_newlines s
              | [] \<Rightarrow> [])
      else if is_newline_like c then LF # normalize_newlines s
      else c # normalize_newlines s)"

definition strip_invisibles :: "unicode \<Rightarrow> ustr \<Rightarrow> ustr" where
  "strip_invisibles U s = filter (\<lambda>c. \<not> is_invisible U c) s"

text \<open>\<open>HEADER_RE\<close>, anchored at every line start: a run without letters, a keyword, then a
  non-letter or the end. The run is greedy, and a keyword that starts with dashes takes its
  three dashes from the end of the run. The result is the length of group 1.\<close>

definition boundary :: "ustr \<Rightarrow> bool" where
  "boundary t \<longleftrightarrow> t = [] \<or> \<not> is_ascii_alpha (hd t)"

definition keyword_at :: "ustr \<Rightarrow> ustr \<Rightarrow> bool" where
  "keyword_at t kw \<longleftrightarrow> starts_with t kw \<and> boundary (drop (length kw) t)"

definition ends_with :: "ustr \<Rightarrow> ustr \<Rightarrow> bool" where
  "ends_with s p \<longleftrightarrow> length p \<le> length s \<and> drop (length s - length p) s = p"

definition header_split :: "ustr \<Rightarrow> nat option" where
  "header_split line =
     (let run = takeWhile (\<lambda>c. \<not> is_ascii_alpha c \<and> c \<noteq> CR \<and> c \<noteq> LF) line;
          rest = drop (length run) line
      in if keyword_at rest (asc ''MODE'') \<or> keyword_at rest (asc ''CONTEXT'') then Some (length run)
         else if ends_with run (asc ''---'') \<and> (keyword_at rest (asc ''BEGIN'') \<or> keyword_at rest (asc ''END''))
         then Some (length run - 3)
         else None)"

definition neutralize_line :: "ustr \<Rightarrow> ustr" where
  "neutralize_line line =
     (case header_split line of
        Some n \<Rightarrow> take n line @ [SPC, SPC] @ drop n line
      | None \<Rightarrow> line)"

definition neutralize_headers :: "ustr \<Rightarrow> ustr" where
  "neutralize_headers s = join [LF] (map neutralize_line (split_on LF s))"

section \<open>The framed user prompt\<close>

definition sanitize_content :: "unicode \<Rightarrow> ustr \<Rightarrow> ustr" where
  "sanitize_content U content =
     neutralize_headers (strip_invisibles U (normalize_newlines content))"

definition hex32 :: "nat \<Rightarrow> ustr" where
  "hex32 n = map (\<lambda>i. hex_digit (n div 16 ^ (31 - i) mod 16)) [0..<32]"

definition build_user_prompt :: "unicode \<Rightarrow> mode \<Rightarrow> ustr \<Rightarrow> nat \<Rightarrow> (ustr, magi_error) result" where
  "build_user_prompt U m content nonce_val =
     (let sanitized = sanitize_content U content; nonce = hex32 nonce_val
      in if contains sanitized nonce
         then Err (InvalidInput (asc ''content contains generated nonce; refuse and retry''))
         else Ok (asc ''MODE: '' @ show_mode m @ [LF]
                  @ asc ''---BEGIN USER CONTEXT '' @ nonce @ asc ''---'' @ [LF]
                  @ sanitized @ [LF]
                  @ asc ''---END USER CONTEXT '' @ nonce @ asc ''---''))"

section \<open>Retry feedback\<close>

definition retry_marker :: "nat list \<Rightarrow> ustr" where
  "retry_marker d = d @ asc ''RETRY-FEEDBACK'' @ d"

definition RETRY_FEEDBACK_DASH_VARIANTS :: "ustr list" where
  "RETRY_FEEDBACK_DASH_VARIANTS =
     map (\<lambda>c. retry_marker [c, c, c])
       [45, 0x2014, 0x2013, 0x2015, 0x2212, 0x2010, 0x2011, 0x2012, 0xFF0D]"

definition VERDICT_MARKER_TOKENS :: "ustr list" where
  "VERDICT_MARKER_TOKENS = [VERDICT_OPEN, VERDICT_CLOSE]"

definition sanitize_error_for_retry_feedback :: "unicode \<Rightarrow> ustr \<Rightarrow> ustr" where
  "sanitize_error_for_retry_feedback U error =
     fold (\<lambda>v r. if contains r v then replace_all v ([SPC, SPC] @ v) r else r)
       (RETRY_FEEDBACK_DASH_VARIANTS @ VERDICT_MARKER_TOKENS)
       (neutralize_headers (strip_invisibles U (normalize_newlines error)))"

definition MAX_ERROR_CHARS :: nat where "MAX_ERROR_CHARS = 400"

definition truncate_error_for_retry :: "ustr \<Rightarrow> ustr" where
  "truncate_error_for_retry t =
     (if length t \<le> MAX_ERROR_CHARS then t
      else take MAX_ERROR_CHARS t @ asc ''... [truncated]'')"

definition EM_DASH :: ustr where "EM_DASH = [0x2014]"

definition budget_template :: ustr where
  "budget_template =
     asc ''Your previous output was cut off by the OUTPUT BUDGET, not by any choice of yours: generation ended because the token limit was reached. Emit the verdict block FIRST and keep everything else short ''
     @ EM_DASH @ asc '' put no reasoning before '' @ VERDICT_OPEN @ asc '', and end at '' @ VERDICT_CLOSE
     @ asc ''. The complete block is '' @ VERDICT_OPEN @ asc '', your full 7-key JSON object, then ''
     @ VERDICT_CLOSE @ asc ''.''"

fun cause_template :: "extraction_cause \<Rightarrow> ustr" where
  "cause_template MissingMarkers =
     asc ''You emitted no verdict marker lines (or a marker shared a line with other text ''
     @ EM_DASH @ asc '' the markers are line-anchored, so a line containing anything else is not recognized as a marker). Wrap your JSON object between the two marker lines below, each one ALONE on its own line:''
     @ [LF] @ VERDICT_OPEN @ [LF] @ asc ''{ ...your 7-key JSON object... }'' @ [LF] @ VERDICT_CLOSE"
| "cause_template Unterminated =
     asc ''Your previous output was cut off: only one of the two verdict markers was found, which is the signature of a truncated response. Re-emit the COMPLETE block, from ''
     @ VERDICT_OPEN @ asc '' through your full JSON object, ending with '' @ VERDICT_CLOSE @ asc '' ''
     @ EM_DASH @ asc '' do not stop before the closing marker is written.''"
| "cause_template Ambiguous =
     asc ''You wrote the marker lines more than once '' @ EM_DASH
     @ asc '' while reasoning, while explaining the output format, or by quoting them. Write ''
     @ VERDICT_OPEN @ asc '' and '' @ VERDICT_CLOSE
     @ asc '' EXACTLY ONCE EACH, around your verdict and nowhere else. Do not repeat or quote the marker lines anywhere in your reasoning.''"
| "cause_template InvalidJson =
     asc ''The text between your marker lines was not valid, parseable JSON. Between '' @ VERDICT_OPEN
     @ asc '' and '' @ VERDICT_CLOSE @ asc '', emit ONLY the JSON object itself '' @ EM_DASH
     @ asc '' no prose, no commentary, no trailing text. Any reasoning must go BEFORE the opening marker, where it is allowed and ignored.''"
| "cause_template MalformedObject =
     asc ''Your JSON object parsed but is not a verdict object: a required key is missing, a value is not of the type its key requires (for example, a string where a number belongs), or a value has the right type but not an accepted spelling (for example, an agent or verdict name that does not match one of the values your instructions define). Include ALL SEVEN top-level keys, spelled exactly: agent, verdict, confidence, summary, reasoning, findings, recommendation ''
     @ EM_DASH @ asc '' and give each one a value of the type and spelling your instructions specify.''"
| "cause_template SchemaViolation =
     asc ''Your JSON object parsed but carried an invalid value. Include ALL SEVEN top-level keys, spelled exactly: agent, verdict, confidence, summary, reasoning, findings, recommendation. Do not omit any key and do not rename any key.''"
| "cause_template EchoedExample =
     asc ''You returned the worked example from your instructions instead of analyzing the content under review. Emit YOUR OWN analysis ''
     @ EM_DASH @ asc '' your own summary, reasoning, findings and recommendation for the actual content provided, not the example text.''"
| "cause_template AgentIdentity =
     asc ''The agent field in your verdict named a different agent than the one you were asked to act as. Set the agent field to YOUR OWN agent name, matching the role you were assigned.''"
| "cause_template OtherCause =
     asc ''Your previous response was rejected by the parsing pipeline. Re-emit a complete, valid JSON object with all seven required keys (agent, verdict, confidence, summary, reasoning, findings, recommendation), wrapped between ''
     @ VERDICT_OPEN @ asc '' and '' @ VERDICT_CLOSE
     @ asc '', each marker alone on its own line, with nothing between them besides the JSON object.''"

definition retry_template :: "extraction_cause \<Rightarrow> finish_reason option \<Rightarrow> ustr" where
  "retry_template cause finish =
     (if (cause = Unterminated \<or> cause = MissingMarkers) \<and> finish = Some Length
      then budget_template else cause_template cause)"

definition build_retry_prompt ::
  "unicode \<Rightarrow> ustr \<Rightarrow> extraction_cause \<Rightarrow> ustr \<Rightarrow> finish_reason option \<Rightarrow> ustr" where
  "build_retry_prompt U original_prompt cause error finish =
     original_prompt @ [LF, LF] @ asc ''---RETRY-FEEDBACK---'' @ [LF]
     @ asc ''Your previous response was rejected by the parsing pipeline:'' @ [LF]
     @ truncate_error_for_retry (sanitize_error_for_retry_feedback U error) @ [LF, LF]
     @ retry_template cause finish"

section \<open>What sanitising guarantees\<close>

definition PROTECTED :: "ustr list" where
  "PROTECTED = map asc [''MODE'', ''CONTEXT'', ''---BEGIN'', ''---END'']"

text \<open>A line that begins, at its very start, with a protected keyword.\<close>

definition header_line :: "ustr \<Rightarrow> bool" where
  "header_line l \<longleftrightarrow> (\<exists>kw\<in>set PROTECTED. keyword_at l kw)"

lemma normalize_newlines_clean: "c \<in> set (normalize_newlines s) \<Longrightarrow> \<not> is_newline_like c"
proof (induction s rule: normalize_newlines.induct)
  case (2 c s)
  then show ?case by (auto simp: is_newline_like_def split: if_splits list.splits)
qed simp

lemma letter_run:
  assumes "is_ascii_alpha a"
  shows "takeWhile (\<lambda>c. \<not> is_ascii_alpha c \<and> c \<noteq> CR \<and> c \<noteq> LF) (a # t) = []"
  using assms by simp

lemma alpha_letters [simp]:
  "is_ascii_alpha 77" "is_ascii_alpha 67" "is_ascii_alpha 66" "is_ascii_alpha 69"
  "\<not> is_ascii_alpha 45" "\<not> is_ascii_alpha 32"
  by (simp_all add: is_ascii_alpha_def)

text \<open>Whatever begins with a keyword is split right there.\<close>

lemma header_line_split:
  assumes "header_line l"
  shows "header_split l = Some 0"
proof -
  from assms consider "keyword_at l (asc ''MODE'')" | "keyword_at l (asc ''CONTEXT'')"
    | "keyword_at l (asc ''---BEGIN'')" | "keyword_at l (asc ''---END'')"
    by (auto simp: header_line_def PROTECTED_def simp del: asc_Cons)
  then show ?thesis
  proof cases
    case 1
    then obtain t where "l = 77 # t" by (auto simp: keyword_at_def starts_with_iff)
    with 1 show ?thesis by (simp add: header_split_def Let_def del: asc_Cons)
  next
    case 2
    then obtain t where "l = 67 # t" by (auto simp: keyword_at_def starts_with_iff)
    with 2 show ?thesis by (simp add: header_split_def Let_def del: asc_Cons)
  next
    case 3
    then obtain t where l: "l = 45 # 45 # 45 # 66 # 69 # 71 # 73 # 78 # t" "boundary t"
      by (auto simp: keyword_at_def starts_with_iff)
    then show ?thesis
      by (simp add: header_split_def Let_def keyword_at_def ends_with_def)
  next
    case 4
    then obtain t where l: "l = 45 # 45 # 45 # 69 # 78 # 68 # t" "boundary t"
      by (auto simp: keyword_at_def starts_with_iff)
    then show ?thesis
      by (simp add: header_split_def Let_def keyword_at_def ends_with_def)
  qed
qed

text \<open>The characters before the split are no letters, so the two spaces end up before the first
  letter of the line and no keyword can begin the line any more.\<close>

lemma header_split_prefix:
  assumes "header_split l = Some n"
  shows "\<forall>c\<in>set (take n l). \<not> is_ascii_alpha c"
proof -
  let ?run = "takeWhile (\<lambda>c. \<not> is_ascii_alpha c \<and> c \<noteq> CR \<and> c \<noteq> LF) l"
  have "n \<le> length ?run" using assms by (auto simp: header_split_def Let_def split: if_splits)
  then have "take n l = take n ?run"
    by (metis (no_types, lifting) length_takeWhile_le take_take takeWhile_eq_take min.absorb1)
  then show ?thesis by (auto dest!: in_set_takeD set_takeWhileD)
qed

lemma neutralize_line_safe: "\<not> header_line (neutralize_line l)"
proof (cases "header_split l")
  case None
  then show ?thesis using header_line_split [of l] by (auto simp: neutralize_line_def)
next
  case (Some n)
  let ?l = "neutralize_line l" and ?g = "take n l"
  have e: "?l = ?g @ 32 # 32 # drop n l" by (simp add: neutralize_line_def Some)
  have nl: "\<forall>c\<in>set ?g. \<not> is_ascii_alpha c" by (rule header_split_prefix [OF Some])
  show ?thesis
  proof
    assume "header_line ?l"
    then consider t where "?l = 77 # t" | t where "?l = 67 # t"
      | t c where "?l = 45 # 45 # 45 # c # t" "is_ascii_alpha c"
      by (auto simp: header_line_def PROTECTED_def keyword_at_def starts_with_iff)
    then show False
    proof cases
      case (1 t)
      with e nl show False by (cases ?g) auto
    next
      case (2 t)
      with e nl show False by (cases ?g) auto
    next
      case (3 t c)
      with e have "?g @ 32 # 32 # drop n l = 45 # 45 # 45 # c # t" by simp
      then obtain g' where "?g = 45 # 45 # 45 # g'" "g' @ 32 # 32 # drop n l = c # t"
        by (auto simp: append_eq_Cons_conv)
      with nl 3(2) show False by (cases g') auto
    qed
  qed
qed

lemma neutralize_line_set: "set (neutralize_line l) \<subseteq> set l \<union> {32}"
  by (auto simp: neutralize_line_def dest: in_set_takeD in_set_dropD split: option.splits)

lemma neutralize_headers_lines: "split_on LF (neutralize_headers s) = map neutralize_line (split_on LF s)"
  unfolding neutralize_headers_def
proof (rule split_on_join)
  fix l assume "l \<in> set (map neutralize_line (split_on LF s))"
  then obtain k where k: "k \<in> set (split_on LF s)" "l = neutralize_line k" by auto
  with split_on_no_sep [OF k(1)] neutralize_line_set [of k] show "LF \<notin> set l" by auto
qed simp

lemma neutralize_headers_safe: "l \<in> set (split_on LF (neutralize_headers s)) \<Longrightarrow> \<not> header_line l"
  by (auto simp: neutralize_headers_lines neutralize_line_safe)

lemma neutralize_headers_set: "set (neutralize_headers s) \<subseteq> set s \<union> {10, 32}"
proof -
  have "set (neutralize_headers s) \<subseteq> set [LF] \<union> \<Union> (set ` set (map neutralize_line (split_on LF s)))"
    unfolding neutralize_headers_def by (rule set_join)
  also have "\<dots> \<subseteq> set s \<union> {10, 32}"
    using neutralize_line_set set_split_on by fastforce
  finally show ?thesis .
qed

lemma truncate_error_bound: "length (truncate_error_for_retry t) \<le> MAX_ERROR_CHARS + 15"
  by (simp add: truncate_error_for_retry_def)

section \<open>Properties\<close>

text \<open>C12: The prompt sent for a review is framed unambiguously or not sent at all. It is a mode line
  and an opening line, the sanitised content, and a closing line; no line of the content begins
  with one of the protected keywords, contains the nonce that closes the frame, or hides a
  further line separator. The only failure is a content that contains the nonce.\<close>

theorem user_prompt_framed:
  "(\<forall>p. build_user_prompt U m content n = Ok p \<longrightarrow>
     (\<exists>ls. split_on LF p =
          [asc ''MODE: '' @ show_mode m, asc ''---BEGIN USER CONTEXT '' @ hex32 n @ asc ''---'']
          @ ls @ [asc ''---END USER CONTEXT '' @ hex32 n @ asc ''---'']
        \<and> (\<forall>l\<in>set ls. \<not> header_line l \<and> \<not> contains l (hex32 n) \<and> (\<forall>c\<in>set l. \<not> is_newline_like c))))
   \<and> (\<forall>e. build_user_prompt U m content n = Err e \<longrightarrow>
        e = InvalidInput (asc ''content contains generated nonce; refuse and retry'')
        \<and> contains (sanitize_content U content) (hex32 n))"
proof (intro conjI allI impI)
  let ?s = "sanitize_content U content" and ?n = "hex32 n"
  fix p assume p: "build_user_prompt U m content n = Ok p"
  then have nc: "\<not> contains ?s ?n" by (auto simp: build_user_prompt_def Let_def split: if_splits)
  have pe: "p = (asc ''MODE: '' @ show_mode m) @ LF # (asc ''---BEGIN USER CONTEXT '' @ ?n @ asc ''---'') @ LF #
      ?s @ LF # (asc ''---END USER CONTEXT '' @ ?n @ asc ''---'')"
    using p nc by (simp add: build_user_prompt_def Let_def)
  have hex: "LF \<notin> set ?n" by (auto simp: hex32_def hex_digit_def)
  have mode: "LF \<notin> set (show_mode m)" by (cases m) auto
  have sj: "split_on LF (?s @ LF # r) = split_on LF ?s @ split_on LF r" for r
    by (rule split_on_concat)
  have "split_on LF p = [asc ''MODE: '' @ show_mode m, asc ''---BEGIN USER CONTEXT '' @ ?n @ asc ''---'']
      @ split_on LF ?s @ [asc ''---END USER CONTEXT '' @ ?n @ asc ''---'']"
    unfolding pe
    by (subst split_on_append, use mode in simp, subst split_on_append, use hex in simp)
      (simp add: sj split_on_free hex del: asc_Cons, simp add: split_on_free hex)
  moreover have "\<not> header_line l \<and> \<not> contains l ?n \<and> (\<forall>c\<in>set l. \<not> is_newline_like c)"
    if l: "l \<in> set (split_on LF ?s)" for l
  proof (intro conjI ballI)
    show "\<not> header_line l" using l neutralize_headers_safe by (simp add: sanitize_content_def)
    show "\<not> contains l ?n"
    proof
      assume "contains l ?n"
      then obtain a b where "l = a @ ?n @ b" by (auto simp: contains_iff)
      moreover obtain u v where "?s = u @ l @ v" using split_on_part [OF l] by blast
      ultimately have "?s = (u @ a) @ ?n @ (b @ v)" by simp
      with nc show False unfolding contains_iff by blast
    qed
    fix c assume "c \<in> set l"
    with set_split_on [OF l] have "c \<in> set ?s" by blast
    then have "c \<in> set (strip_invisibles U (normalize_newlines content)) \<union> {10, 32}"
      using neutralize_headers_set unfolding sanitize_content_def by blast
    then show "\<not> is_newline_like c"
      using normalize_newlines_clean by (auto simp: strip_invisibles_def is_newline_like_def)
  qed
  ultimately show "\<exists>ls. split_on LF p =
      [asc ''MODE: '' @ show_mode m, asc ''---BEGIN USER CONTEXT '' @ ?n @ asc ''---'']
      @ ls @ [asc ''---END USER CONTEXT '' @ ?n @ asc ''---'']
    \<and> (\<forall>l\<in>set ls. \<not> header_line l \<and> \<not> contains l ?n \<and> (\<forall>c\<in>set l. \<not> is_newline_like c))"
    by blast
qed (auto simp: build_user_prompt_def Let_def split: if_splits)

lemma demo_prompt_ok: "\<exists>p. build_user_prompt ascii_tables Design (asc ''MODE: a'') 0 = Ok p"
proof -
  have "\<not> contains s (hex32 0)" if "length s < 32" for s
  proof
    assume "contains s (hex32 0)"
    then obtain a b where "s = a @ hex32 0 @ b" by (auto simp: contains_iff)
    then have "length s = length a + 32 + length b" by (simp add: hex32_def)
    with that show False by simp
  qed
  moreover have "length (sanitize_content ascii_tables (asc ''MODE: a'')) < 32"
    by (simp add: sanitize_content_def strip_invisibles_def is_invisible_def ascii_tables_def
        is_newline_like_def neutralize_headers_def neutralize_line_def header_split_def Let_def
        keyword_at_def boundary_def is_ascii_alpha_def ends_with_def)
  ultimately show ?thesis by (simp add: build_user_prompt_def Let_def)
qed

theorem user_prompt_framed_witness:
  "\<exists>p ls. build_user_prompt ascii_tables Design (asc ''MODE: a'') 0 = Ok p
     \<and> split_on LF p = [asc ''MODE: design'', asc ''---BEGIN USER CONTEXT '' @ hex32 0 @ asc ''---'']
          @ ls @ [asc ''---END USER CONTEXT '' @ hex32 0 @ asc ''---'']
     \<and> (\<forall>l\<in>set ls. \<not> header_line l)"
  using demo_prompt_ok user_prompt_framed [of ascii_tables Design "asc ''MODE: a''" 0, THEN conjunct1]
  by fastforce

text \<open>The retry prompt keeps the rejected attempt's prompt verbatim and appends a bounded
  feedback block, however long and whatever the error text derived from model output is; and the
  advice about the output budget is given exactly when the answer was cut off (a marker is
  missing) and the backend reported that the budget ran out.\<close>

theorem retry_prompt_bounded:
  "(\<exists>fb. build_retry_prompt U original cause error finish = original @ fb \<and> length fb \<le> 1200)
   \<and> (retry_template cause finish = budget_template \<longleftrightarrow>
        finish = Some Length \<and> (cause = Unterminated \<or> cause = MissingMarkers))"
proof
  let ?e = "truncate_error_for_retry (sanitize_error_for_retry_feedback U error)"
  have "length (retry_template cause finish) \<le> 650"
    by (cases cause) (simp_all add: retry_template_def budget_template_def VERDICT_OPEN_def
        VERDICT_CLOSE_def EM_DASH_def)
  moreover have "length ?e \<le> 415" using truncate_error_bound by (simp add: MAX_ERROR_CHARS_def)
  ultimately show "\<exists>fb. build_retry_prompt U original cause error finish = original @ fb \<and> length fb \<le> 1200"
    by (intro exI [of _ "[LF, LF] @ asc ''---RETRY-FEEDBACK---'' @ [LF]
        @ asc ''Your previous response was rejected by the parsing pipeline:'' @ [LF]
        @ ?e @ [LF, LF] @ retry_template cause finish"]) (simp add: build_retry_prompt_def)
  show "retry_template cause finish = budget_template \<longleftrightarrow>
        finish = Some Length \<and> (cause = Unterminated \<or> cause = MissingMarkers)"
    by (cases cause) (auto simp: retry_template_def budget_template_def VERDICT_OPEN_def VERDICT_CLOSE_def
        EM_DASH_def)
qed

section \<open>Limits of the feedback sanitising\<close>

lemma join_split_on: "join [d] (split_on d s) = s"
proof (induction d s rule: split_on.induct)
  case (2 d c s)
  obtain x xs where "split_on d s = x # xs" by (cases "split_on d s") auto
  with 2 show ?case by (cases xs) auto
qed simp

lemma not_contains_hd: "p \<noteq> [] \<Longrightarrow> hd p \<notin> set s \<Longrightarrow> \<not> contains s p"
  by (cases p) (auto simp: contains_iff)

lemma normalize_newlines_id: "\<forall>c\<in>set s. \<not> is_newline_like c \<Longrightarrow> normalize_newlines s = s"
  by (induction s rule: normalize_newlines.induct) (auto simp: is_newline_like_def)

lemma neutralize_headers_id:
  assumes "\<forall>l\<in>set (split_on LF s). header_split l = None"
  shows "neutralize_headers s = s"
proof -
  have "map neutralize_line (split_on LF s) = split_on LF s"
    using assms by (intro map_idI) (simp add: neutralize_line_def)
  then show ?thesis by (simp only: neutralize_headers_def join_split_on)
qed

lemma dash_variants_absent:
  assumes "\<forall>c\<in>set s. c < 128 \<and> c \<noteq> 45" "v \<in> set RETRY_FEEDBACK_DASH_VARIANTS"
  shows "\<not> contains s v"
proof (rule not_contains_hd)
  show "v \<noteq> []" "hd v \<notin> set s"
    using assms by (auto simp: RETRY_FEEDBACK_DASH_VARIANTS_def retry_marker_def)
qed

lemma fold_absent:
  "\<forall>v\<in>set vs. \<not> contains s v \<Longrightarrow> fold (\<lambda>v r. if contains r v then replace_all v ([SPC, SPC] @ v) r else r) vs s = s"
  by (induction vs) auto

lemma sanitize_error_plain:
  assumes "\<forall>c\<in>set s. c < 128 \<and> c \<noteq> 45 \<and> \<not> is_newline_like c" "\<forall>l\<in>set (split_on LF s). header_split l = None"
  shows "sanitize_error_for_retry_feedback ascii_tables s =
    fold (\<lambda>v r. if contains r v then replace_all v ([SPC, SPC] @ v) r else r) VERDICT_MARKER_TOKENS s"
proof -
  have "strip_invisibles ascii_tables s = s"
    unfolding strip_invisibles_def filter_id_conv using assms(1) by (auto simp: is_invisible_def ascii_tables_def)
  moreover have "normalize_newlines s = s" using assms(1) by (intro normalize_newlines_id) blast
  moreover have "fold (\<lambda>v r. if contains r v then replace_all v ([SPC, SPC] @ v) r else r) RETRY_FEEDBACK_DASH_VARIANTS s = s"
    using assms(1) dash_variants_absent by (intro fold_absent) blast
  ultimately show ?thesis
    using neutralize_headers_id [OF assms(2)] by (simp add: sanitize_error_for_retry_feedback_def)
qed

lemma sanitize_marker: "sanitize_error_for_retry_feedback ascii_tables VERDICT_OPEN = [SPC, SPC] @ VERDICT_OPEN"
proof -
  have "\<forall>c\<in>set VERDICT_OPEN. c < 128 \<and> c \<noteq> 45 \<and> \<not> is_newline_like c"
    by (simp add: VERDICT_OPEN_def is_newline_like_def)
  moreover have "split_on LF VERDICT_OPEN = [VERDICT_OPEN]" by (simp add: VERDICT_OPEN_def)
  moreover have "header_split VERDICT_OPEN = None"
    by (simp add: VERDICT_OPEN_def header_split_def Let_def keyword_at_def is_ascii_alpha_def ends_with_def)
  ultimately have "sanitize_error_for_retry_feedback ascii_tables VERDICT_OPEN = 
     fold (\<lambda>v r. if contains r v then replace_all v ([SPC, SPC] @ v) r else r) VERDICT_MARKER_TOKENS VERDICT_OPEN"
    by (intro sanitize_error_plain) simp_all
  then show ?thesis by (simp add: VERDICT_MARKER_TOKENS_def VERDICT_OPEN_def VERDICT_CLOSE_def replace_all.simps)
qed
lemma sanitize_model:
  "sanitize_error_for_retry_feedback ascii_tables (replicate 395 120 @ LF # asc ''MODEL'')
     = replicate 395 120 @ LF # asc ''MODEL''"
proof -
  let ?x = "replicate 395 (120 :: nat)"
  let ?t = "?x @ LF # asc ''MODEL''"
  have "\<forall>c\<in>set ?t. c < 128 \<and> c \<noteq> 45 \<and> \<not> is_newline_like c \<and> c \<noteq> 60"
    by (simp add: is_newline_like_def ball_Un)
  moreover have "split_on LF ?t = [?x, asc ''MODEL'']"
    using split_on_append [of LF ?x] split_on_free [of LF "asc ''MODEL''"] by simp
  moreover have "header_split ?x = None"
    by (simp add: header_split_def Let_def keyword_at_def is_ascii_alpha_def ends_with_def starts_with_iff
        numeral_eq_Suc)
  moreover have "header_split (asc ''MODEL'') = None"
    by (simp add: header_split_def Let_def keyword_at_def boundary_def is_ascii_alpha_def ends_with_def)
  ultimately have e: "sanitize_error_for_retry_feedback ascii_tables ?t =
     fold (\<lambda>v r. if contains r v then replace_all v ([SPC, SPC] @ v) r else r) VERDICT_MARKER_TOKENS ?t"
    and no: "60 \<notin> set ?t"
    by (auto intro!: sanitize_error_plain simp del: replicate.simps)
  have "\<not> contains ?t v" if "v \<in> set VERDICT_MARKER_TOKENS" for v
    by (rule not_contains_hd) (use that no in \<open>auto simp: VERDICT_MARKER_TOKENS_def VERDICT_OPEN_def VERDICT_CLOSE_def\<close>)
  then show ?thesis unfolding e by (intro fold_absent) blast
qed
text \<open>A marker token reported back to the model survives: a verdict open marker alone on its line of
  the error text is still a marker line for the parser after the feedback was sanitised, because
  the token is prefixed with two spaces and not broken.\<close>

theorem marker_token_survives:
  "is_marker_line ascii_tables (sanitize_error_for_retry_feedback ascii_tables VERDICT_OPEN) VERDICT_OPEN"
  unfolding sanitize_marker
proof (rule strict_permissive [OF ascii_tables_ok])
  have "trim ([SPC, SPC] @ VERDICT_OPEN) = trim VERDICT_OPEN"
    by (rule trim_ws_left) (simp add: is_ws_def)
  with exact_markers(1) show "is_exact_marker_line ([SPC, SPC] @ VERDICT_OPEN) VERDICT_OPEN"
    by (simp only: is_exact_marker_line_def)
qed simp

text \<open>The feedback is cut after its headers were neutralised, and the cut can end a word so that a
  protected keyword stands at the start of a line again: the sanitised text of 395 letters, a
  newline and the word MODEL has no header line, its truncation has one.\<close>

theorem truncation_recreates_header:
  "\<not> list_ex header_line
       (split_on LF (sanitize_error_for_retry_feedback ascii_tables (replicate 395 120 @ LF # asc ''MODEL'')))
   \<and> list_ex header_line
       (split_on LF (truncate_error_for_retry
          (sanitize_error_for_retry_feedback ascii_tables (replicate 395 120 @ LF # asc ''MODEL''))))"
proof -
  let ?x = "replicate 395 (120 :: nat)" and ?m = "asc ''MODEL''"
  have x: "split_on LF (?x @ LF # r) = ?x # split_on LF r" for r by (rule split_on_append) simp
  have "\<not> header_line ?x"
    by (auto simp: header_line_def PROTECTED_def keyword_at_def starts_with_iff numeral_eq_Suc)
  moreover have "\<not> header_line ?m"
    by (simp add: header_line_def PROTECTED_def keyword_at_def boundary_def is_ascii_alpha_def)
  moreover have "truncate_error_for_retry (?x @ LF # ?m) = ?x @ LF # (asc ''MODE'' @ asc ''... [truncated]'')"
    by (simp add: truncate_error_for_retry_def MAX_ERROR_CHARS_def)
  moreover have "header_line (asc ''MODE'' @ asc ''... [truncated]'')"
    by (simp add: header_line_def PROTECTED_def keyword_at_def boundary_def is_ascii_alpha_def)
  ultimately show ?thesis
    unfolding sanitize_model by (simp add: x split_on_free del: replicate.simps)
qed

end
