(* ===== verification/Parsing.thy ===== *)
theory Parsing
  imports User_Prompt
begin

text \<open>
  System prompts (\<open>src/src/prompts/mod.rs\<close>) and the path from raw model output to an accepted
  verdict (the parsing part of \<open>src/src/orchestrator.rs\<close>). The embedded prompts are the text
  files of \<open>src/src/prompts_md\<close>: a parameter. \<open>serde_json::from_str::<AgentOutput>\<close> is a
  parameter too: it decodes a block or fails with a message and an error category.
\<close>

section \<open>Prompts\<close>

type_synonym prompt_overrides = "agent_name \<times> mode option \<rightharpoonup> ustr"

definition embedded_prompt_for :: "(agent_name \<Rightarrow> ustr) \<Rightarrow> agent_name \<Rightarrow> ustr" where
  "embedded_prompt_for embedded name = embedded name"

definition lookup_prompt ::
  "(agent_name \<Rightarrow> ustr) \<Rightarrow> agent_name \<Rightarrow> mode \<Rightarrow> prompt_overrides \<Rightarrow> ustr" where
  "lookup_prompt embedded agent m overrides =
     (case overrides (agent, Some m) of
        Some s \<Rightarrow> s
      | None \<Rightarrow> (case overrides (agent, None) of
                  Some s \<Rightarrow> s
                | None \<Rightarrow> embedded_prompt_for embedded agent))"

definition ECHO_CANARY_SUMMARY :: ustr where "ECHO_CANARY_SUMMARY = asc ''One-line verdict''"
definition ECHO_CANARY_RECOMMENDATION :: ustr where
  "ECHO_CANARY_RECOMMENDATION = asc ''What you recommend''"

datatype 'a serde = Decoded 'a | DataError ustr | SyntaxError ustr

definition BOM :: nat where "BOM = 0xFEFF"

definition strip_bom :: "ustr \<Rightarrow> ustr" where
  "strip_bom p = (case p of c # t \<Rightarrow> if c = BOM then t else p | [] \<Rightarrow> p)"

definition validate_prompt_for ::
  "(ustr \<Rightarrow> agent_output serde) \<Rightarrow> agent_name option \<Rightarrow> mode option \<Rightarrow> ustr \<Rightarrow> (unit, magi_error) result" where
  "validate_prompt_for serde agent m prompt =
     (let body = strip_bom prompt
      in case locate_block body is_exact_marker_line of
        Err e \<Rightarrow> Err (PromptContract agent m
          (xe_message e @ asc ''. Start from prompts::caspar_prompt() (or copy its `## Output format` section verbatim) and check with prompts::validate_prompt before deploying''))
      | Ok block \<Rightarrow>
          (case serde block of
             Decoded _ \<Rightarrow> Err (PromptContract agent m
               (asc ''the block between the verdict markers deserializes as a complete verdict, so an agent echoing its instructions would fabricate one. Put the worked example OUTSIDE the markers and leave a non-JSON placeholder inside, as prompts::caspar_prompt() does''))
           | _ \<Rightarrow> Ok ()))"

definition validate_prompt :: "(ustr \<Rightarrow> agent_output serde) \<Rightarrow> ustr \<Rightarrow> (unit, magi_error) result" where
  "validate_prompt serde prompt = validate_prompt_for serde None None prompt"

section \<open>From raw output to a verdict\<close>

fun magi_error_for :: "extraction_cause \<Rightarrow> ustr \<Rightarrow> magi_error" where
  "magi_error_for SchemaViolation m = Validation m"
| "magi_error_for EchoedExample m = Validation m"
| "magi_error_for AgentIdentity m = Validation m"
| "magi_error_for MissingMarkers m = Deserialization m"
| "magi_error_for Unterminated m = Deserialization m"
| "magi_error_for Ambiguous m = Deserialization m"
| "magi_error_for InvalidJson m = Deserialization m"
| "magi_error_for MalformedObject m = Deserialization m"
| "magi_error_for OtherCause m = Deserialization m"

record parse_failure =
  pf_cause :: extraction_cause
  pf_error :: magi_error

definition parse_failure_new :: "extraction_cause \<Rightarrow> ustr \<Rightarrow> parse_failure" where
  "parse_failure_new cause m = \<lparr> pf_cause = cause, pf_error = magi_error_for cause m \<rparr>"

definition parse_agent_response ::
  "unicode \<Rightarrow> (ustr \<Rightarrow> agent_output serde) \<Rightarrow> ustr \<Rightarrow> (agent_output, parse_failure) result" where
  "parse_agent_response U serde raw =
     (case extract_block U raw of
        Err e \<Rightarrow> Err (parse_failure_new (xe_cause e) (xe_message e))
      | Ok block \<Rightarrow>
          (case serde block of
             Decoded out \<Rightarrow> Ok out
           | DataError e \<Rightarrow> Err (parse_failure_new MalformedObject
               (asc ''the delimited verdict block is valid JSON but not a verdict object: '' @ e))
           | SyntaxError e \<Rightarrow> Err (parse_failure_new InvalidJson
               (asc ''the delimited verdict block is not valid JSON: '' @ e))))"

definition parse_and_validate ::
  "unicode \<Rightarrow> rust_fmt \<Rightarrow> (ustr \<Rightarrow> agent_output serde) \<Rightarrow> ustr \<Rightarrow> limits
     \<Rightarrow> (agent_output, parse_failure) result" where
  "parse_and_validate U F serde raw L =
     and_then (parse_agent_response U serde raw) (\<lambda>output.
       case validate_mut U F L output of
         (Ok _, output') \<Rightarrow> Ok output'
       | (Err e, _) \<Rightarrow> Err (parse_failure_new SchemaViolation (show_magi_error F e)))"

definition parse_validate_and_check ::
  "unicode \<Rightarrow> rust_fmt \<Rightarrow> (ustr \<Rightarrow> agent_output serde) \<Rightarrow> ustr \<Rightarrow> agent_name \<Rightarrow> limits
     \<Rightarrow> (agent_output, parse_failure) result" where
  "parse_validate_and_check U F serde raw dispatched_to L =
     and_then (parse_and_validate U F serde raw L) (\<lambda>output.
       if ao_summary output = ECHO_CANARY_SUMMARY \<and> ao_recommendation output = ECHO_CANARY_RECOMMENDATION
       then Err (parse_failure_new EchoedExample
         (asc ''the verdict reproduces the worked example from the instructions verbatim, so it is not an analysis''))
       else if ao_agent output \<noteq> dispatched_to
       then Err (parse_failure_new AgentIdentity
         (asc ''verdict claims to come from '' @ display_name (ao_agent output)
          @ asc '' but was dispatched to '' @ display_name dispatched_to))
       else Ok output)"

section \<open>Lemmas\<close>

lemma parse_agent_response_Ok:
  "parse_agent_response U serde raw = Ok out \<longleftrightarrow>
     (\<exists>b. extract_block U raw = Ok b \<and> serde b = Decoded out)"
  by (auto simp: parse_agent_response_def split: result.splits serde.splits)

lemma no_err_iff: "(\<forall>e. r \<noteq> Err e) \<longleftrightarrow> r = Ok ()" for r :: "(unit, 'e) result"
  by (cases r) auto

lemma parse_and_validate_Ok:
  "parse_and_validate U F serde raw L = Ok out \<longleftrightarrow>
     (\<exists>b o'. extract_block U raw = Ok b \<and> serde b = Decoded o' \<and> output_valid U L o'
        \<and> out = o'\<lparr> ao_findings := map (clean_finding U) (ao_findings o') \<rparr>)"
  unfolding validate_Ok [of U F L, symmetric]
  by (auto simp: parse_and_validate_def res_simps parse_agent_response_Ok validate_mut_eq no_err_iff
      split: result.splits if_splits)

definition is_canary :: "agent_output \<Rightarrow> bool" where
  "is_canary out \<longleftrightarrow>
     ao_summary out = ECHO_CANARY_SUMMARY \<and> ao_recommendation out = ECHO_CANARY_RECOMMENDATION"

lemma parse_check_Ok:
  "parse_validate_and_check U F serde raw a L = Ok out \<longleftrightarrow>
     parse_and_validate U F serde raw L = Ok out \<and> \<not> is_canary out \<and> ao_agent out = a"
  by (auto simp: parse_validate_and_check_def res_simps is_canary_def)

lemma magi_error_for_Validation:
  "(\<exists>t. magi_error_for c m = Validation t) \<longleftrightarrow> c \<in> {SchemaViolation, EchoedExample, AgentIdentity}"
  by (cases c) auto

text \<open>The lines of a text behind a byte order mark.\<close>

lemma spans_cons:
  assumes "c \<noteq> CR" "c \<noteq> LF"
  shows "spans (c # s) = (0, snd (hd (spans s)) + 1) # map (\<lambda>(x, y). (x + 1, y + 1)) (tl (spans s))"
proof -
  have b: "breaks 0 (c # s) = map (\<lambda>(x, y). (x + 1, y + 1)) (breaks 0 s)"
    using breaks_shift [of 0 1 s] assms by simp
  have "line_spans d (map (\<lambda>(x, y). (x + 1, y + 1)) bs) (l + 1) =
      (d, snd (hd (line_spans e bs l)) + 1) # map (\<lambda>(x, y). (x + 1, y + 1)) (tl (line_spans e bs l))" for d e bs l
  proof (cases bs)
    case (Cons q qs)
    obtain u v where q: "q = (u, v)" by (cases q)
    show ?thesis using line_spans_shift [of v 1 qs l] by (simp add: Cons q)
  qed simp
  from this [of 0 "breaks 0 s" "length s" 0] show ?thesis
    by (simp add: spans_def b del: breaks.simps)
qed

lemma spans_ne [simp]: "spans s \<noteq> []"
  by (cases "breaks 0 s") (auto simp: spans_def)

lemma hd_spans: "fst (hd (spans s)) = 0"
  by (cases "breaks 0 s") (auto simp: spans_def)

lemma spans_cons_nth:
  assumes "c \<noteq> CR" "c \<noteq> LF" "i < length (spans s)"
  shows "spans (c # s) ! i = (if i = 0 then (0, snd (spans s ! 0) + 1)
      else (fst (spans s ! i) + 1, snd (spans s ! i) + 1))"
proof (cases i)
  case 0
  then show ?thesis by (simp add: spans_cons [OF assms(1,2)] hd_conv_nth)
next
  case (Suc k)
  then have "tl (spans s) ! k = spans s ! Suc k" using assms(3) by (simp add: nth_tl)
  moreover have "k < length (tl (spans s))" using assms(3) Suc by simp
  ultimately show ?thesis using Suc by (simp add: spans_cons [OF assms(1,2)] case_prod_unfold)
qed

lemma length_spans_cons: "c \<noteq> CR \<Longrightarrow> c \<noteq> LF \<Longrightarrow> length (spans (c # s)) = length (spans s)"
  by (simp add: spans_cons Suc_diff_1)

lemma line_list_cons:
  assumes "c \<noteq> CR" "c \<noteq> LF" "i < length (spans s)"
  shows "line_list (c # s) ! i = (if i = 0 then c # line_list s ! 0 else line_list s ! i)"
proof (cases "i = 0")
  case True
  have "fst (spans s ! 0) = 0" using hd_spans [of s] by (simp add: hd_conv_nth)
  with True show ?thesis using assms(3)
    by (simp add: line_list_spans length_spans_cons assms spans_cons_nth subtext_def case_prod_unfold)
next
  case False
  with assms(3) show ?thesis
    by (simp add: line_list_spans length_spans_cons assms spans_cons_nth subtext_def case_prod_unfold)
qed

text \<open>A permissive marker line stays one behind a byte order mark.\<close>

lemma bom_marker:
  assumes "tables_ok U"
  shows "is_marker_line U (BOM # l) m \<longleftrightarrow> is_marker_line U l m"
  using assms by (simp add: is_marker_line_def normalize_line_def tables_ok_def BOM_def)

lemma bom_marker_lines:
  assumes "tables_ok U"
  shows "marker_lines (is_marker_line U) m (BOM # s) = marker_lines (is_marker_line U) m s"
proof -
  have "is_marker_line U (line_list (BOM # s) ! i) m \<longleftrightarrow> is_marker_line U (line_list s ! i) m"
    if "i < length (spans s)" for i
    using line_list_cons [of BOM i s] that bom_marker [OF assms] by (simp add: BOM_def)
  then show ?thesis
    by (auto simp: marker_lines_def length_spans_cons BOM_def intro: filter_cong)
qed

lemma bom_block:
  assumes "i < j" "j < length (spans s)"
  shows "subtext (snd (spans (BOM # s) ! i)) (fst (spans (BOM # s) ! j)) (BOM # s)
       = subtext (snd (spans s ! i)) (fst (spans s ! j)) s"
  using assms by (auto simp: spans_cons_nth BOM_def subtext_def)

lemma extract_bom:
  assumes "tables_ok U"
  shows "extract_block U (BOM # s) = Ok b \<longleftrightarrow> extract_block U s = Ok b"
proof -
  have lt: "j < length (spans s)" if "marker_lines (is_marker_line U) m s = [j]" for j m
    using that by (metis (no_types, lifting) atLeastLessThan_iff length_line_list list.set_intros(1)
        marker_lines_def mem_Collect_eq set_filter set_upt)
  show ?thesis
    unfolding extract_block_def permissive.locate_Ok_iff bom_marker_lines [OF assms]
    using bom_block lt by (metis (no_types, lifting))
qed

lemma extract_strip_bom:
  assumes "tables_ok U"
  shows "extract_block U p = Ok b \<longleftrightarrow> extract_block U (strip_bom p) = Ok b"
  using extract_bom [OF assms] by (auto simp: strip_bom_def split: list.splits)

lemma strict_marker_lines_subset:
  assumes "tables_ok U" "m = VERDICT_OPEN \<or> m = VERDICT_CLOSE"
  shows "set (marker_lines is_exact_marker_line m s) \<subseteq> set (marker_lines (is_marker_line U) m s)"
  using strict_permissive [OF assms(1) _ assms(2)] by (auto simp: marker_lines_def)

lemma strict_block_is_permissive:
  assumes "tables_ok U" "locate_block s is_exact_marker_line = Ok b" "extract_block U s = Ok b'"
  shows "b' = b"
proof -
  obtain i j where s: "marker_lines is_exact_marker_line VERDICT_OPEN s = [i]"
    "marker_lines is_exact_marker_line VERDICT_CLOSE s = [j]"
    "b = strip_fence (trim (subtext (snd (spans s ! i)) (fst (spans s ! j)) s))"
    using assms(2) strict.locate_Ok_iff by blast
  obtain i' j' where p: "marker_lines (is_marker_line U) VERDICT_OPEN s = [i']"
    "marker_lines (is_marker_line U) VERDICT_CLOSE s = [j']"
    "b' = strip_fence (trim (subtext (snd (spans s ! i')) (fst (spans s ! j')) s))"
    using assms(3) permissive.locate_Ok_iff unfolding extract_block_def by blast
  have "i = i'" "j = j'"
    using strict_marker_lines_subset [OF assms(1), of VERDICT_OPEN s]
      strict_marker_lines_subset [OF assms(1), of VERDICT_CLOSE s] s p by auto
  with s(3) p(3) show ?thesis by simp
qed

lemma validate_prompt_Ok:
  "validate_prompt_for serde a m p = Ok () \<longleftrightarrow>
     (\<exists>b. locate_block (strip_bom p) is_exact_marker_line = Ok b \<and> (\<forall>o'. serde b \<noteq> Decoded o'))"
  by (auto simp: validate_prompt_for_def Let_def split: result.splits serde.splits)

text \<open>A decoder for concrete evaluations.\<close>

definition demo_serde :: "ustr \<Rightarrow> agent_output serde" where
  "demo_serde b = (if b = asc ''v'' then Decoded (vote Caspar Approve [finding_new Info (asc '' t'') (asc ''d'')])
                   else SyntaxError (asc ''expected value''))"

lemma short_block: "is_ws c = False \<Longrightarrow> c \<noteq> CR \<Longrightarrow> c \<noteq> LF \<Longrightarrow> strip_fence (trim [c]) = [c]"
  by (simp add: strip_fence_def trim_id)

lemma framed_demo_asc:
  "extract_block ascii_tables (framed (asc ''v'')) = Ok (asc ''v'')"
  "extract_block ascii_tables (framed (asc ''p'')) = Ok (asc ''p'')"
  "locate_block (framed (asc ''p'')) is_exact_marker_line = Ok (asc ''p'')"
  using framed_extract [of "asc ''v''"] framed_extract [of "asc ''p''"]
  by (simp_all add: one_line_def short_block is_ws_def)

lemmas framed_demo = framed_demo_asc [simplified]

lemma demo_parse:
  "parse_validate_and_check ascii_tables plain_fmt demo_serde (framed (asc ''v'')) Caspar limits_default =
     Ok (vote Caspar Approve [finding_new Info (asc ''t'') (asc ''d'')])"
proof -
  have "clean_title ascii_tables (asc '' t'') = asc ''t''"
    by (simp add: clean_title_def is_control_ws_def is_invisible_def ascii_tables_def trim_def
        trim_start_def trim_end_def is_ws_def)
  then show ?thesis
    unfolding parse_check_Ok parse_and_validate_Ok
    by (auto simp: framed_demo demo_serde_def output_valid_def scalars_valid_def fields_valid_def
        limits_default_def vote_def finding_new_def f_le_def is_canary_def ECHO_CANARY_SUMMARY_def
        clean_finding_def)
qed

section \<open>Properties\<close>

text \<open>C8: A system prompt that passes validation can never be parsed as a verdict: a mage that echoes
  its instructions verbatim, byte order mark or not, produces a failure and no verdict, although
  validation recognises markers strictly and the parser permissively.\<close>

theorem accepted_prompt_never_a_verdict:
  assumes "tables_ok U" and "validate_prompt_for serde a m prompt = Ok ()"
  shows "\<exists>pf. parse_agent_response U serde prompt = Err pf"
proof -
  obtain b where b: "locate_block (strip_bom prompt) is_exact_marker_line = Ok b"
    "\<forall>o'. serde b \<noteq> Decoded o'" using assms(2) validate_prompt_Ok by blast
  have "parse_agent_response U serde prompt \<noteq> Ok out" for out
  proof
    assume "parse_agent_response U serde prompt = Ok out"
    then obtain b' where b': "extract_block U prompt = Ok b'" "serde b' = Decoded out"
      by (auto simp: parse_agent_response_Ok)
    from b'(1) have "extract_block U (strip_bom prompt) = Ok b'"
      using extract_strip_bom [OF assms(1)] by blast
    with strict_block_is_permissive [OF assms(1) b(1)] have "b' = b" by blast
    with b(2) b'(2) show False by simp
  qed
  then show ?thesis by (cases "parse_agent_response U serde prompt") auto
qed

theorem accepted_prompt_never_a_verdict_witness:
  "\<exists>pf. parse_agent_response ascii_tables demo_serde (BOM # framed (asc ''p'')) = Err pf"
  by (rule accepted_prompt_never_a_verdict [OF ascii_tables_ok, where a = None and m = None])
    (simp add: validate_prompt_Ok strip_bom_def framed_demo demo_serde_def)

text \<open>C6: What the parser accepts for a seat is exactly what the backend put between the markers: it
  decodes there, names the seat it was dispatched to, is not the worked example of the prompt,
  satisfies every limit, and all its finding titles are clean and non-empty; apart from the
  cleaned titles nothing was changed.\<close>

theorem accepted_verdict:
  assumes "parse_validate_and_check U F serde raw a L = Ok out"
  shows "(\<exists>b o'. extract_block U raw = Ok b \<and> serde b = Decoded o'
        \<and> out = o'\<lparr> ao_findings := map (clean_finding U) (ao_findings o') \<rparr>)
    \<and> ao_agent out = a \<and> \<not> is_canary out \<and> output_valid U L out
    \<and> (\<forall>f\<in>set (ao_findings out). clean U (fi_title f) \<and> fi_title f \<noteq> [])"
proof -
  obtain b o' where o': "extract_block U raw = Ok b" "serde b = Decoded o'" "output_valid U L o'"
    "out = o'\<lparr> ao_findings := map (clean_finding U) (ao_findings o') \<rparr>"
    using assms by (auto simp: parse_check_Ok parse_and_validate_Ok)
  have v: "output_valid U L out" using o'(3) by (simp add: o'(4) output_valid_cleaned)
  have "clean U (fi_title f) \<and> fi_title f \<noteq> []" if "f \<in> set (ao_findings out)" for f
  proof -
    from that have c: "clean U (fi_title f)" by (auto simp: o'(4) clean_finding_def clean_title_clean)
    moreover have "fields_valid L (clean_title U (fi_title f)) (fi_detail f)"
      using v that by (simp add: output_valid_def)
    ultimately show ?thesis by (simp add: fields_valid_def clean_title_id)
  qed
  with o' v assms show ?thesis by (auto simp: parse_check_Ok)
qed

theorem accepted_verdict_witness:
  "clean ascii_tables (asc ''t'') \<and> ao_agent (vote Caspar Approve [finding_new Info (asc ''t'') (asc ''d'')]) = Caspar"
  using accepted_verdict [OF demo_parse] by (simp add: finding_new_def)

text \<open>Every rejection names the first check that failed, in the order delimiting, decoding,
  limits, worked example, identity; and it is reported as a validation error exactly for the last
  three, as a deserialisation error otherwise.\<close>

theorem rejection_cause:
  assumes "parse_validate_and_check U F serde raw a L = Err pf"
  shows "(case extract_block U raw of
        Err e \<Rightarrow> pf_cause pf = xe_cause e
      | Ok b \<Rightarrow> (case serde b of
           DataError m \<Rightarrow> pf_cause pf = MalformedObject
         | SyntaxError m \<Rightarrow> pf_cause pf = InvalidJson
         | Decoded out \<Rightarrow> pf_cause pf =
             (if \<not> output_valid U L out then SchemaViolation
              else if is_canary out then EchoedExample else AgentIdentity)
             \<and> (pf_cause pf = AgentIdentity \<longrightarrow> ao_agent out \<noteq> a)))
    \<and> ((\<exists>t. pf_error pf = Validation t) \<longleftrightarrow>
        (\<exists>b out. extract_block U raw = Ok b \<and> serde b = Decoded out))"
proof (cases "extract_block U raw")
  case (Err e)
  have "xe_cause e \<notin> {SchemaViolation, EchoedExample, AgentIdentity}"
    using extract_characterised_cause [OF Err] by auto
  with assms Err show ?thesis
    using magi_error_for_Validation [of "xe_cause e" "xe_message e"]
    by (auto simp: parse_validate_and_check_def parse_and_validate_def parse_agent_response_def parse_failure_new_def)
next
  case (Ok b)
  show ?thesis
  proof (cases "serde b")
    case (Decoded out)
    with Ok have r: "parse_agent_response U serde raw = Ok out" by (auto simp: parse_agent_response_Ok)
    show ?thesis
    proof (cases "output_valid U L out")
      case True
      then have "parse_and_validate U F serde raw L =
          Ok (out\<lparr> ao_findings := map (clean_finding U) (ao_findings out) \<rparr>)"
        using Ok Decoded parse_and_validate_Ok by blast
      with assms Ok Decoded True show ?thesis
        by (auto simp: parse_validate_and_check_def parse_failure_new_def is_canary_def split: if_splits)
    next
      case False
      then obtain e where "validate U F L out = Err e" using validate_Ok no_err_iff by blast
      with assms Ok Decoded False r show ?thesis
        by (auto simp: parse_validate_and_check_def parse_and_validate_def validate_mut_eq parse_failure_new_def)
    qed
  qed (use assms Ok in \<open>auto simp: parse_validate_and_check_def parse_and_validate_def
      parse_agent_response_def parse_failure_new_def\<close>)
qed

theorem rejection_cause_witness:
  "\<exists>pf. parse_validate_and_check ascii_tables plain_fmt demo_serde (framed (asc ''v'')) Melchior limits_default = Err pf
     \<and> pf_cause pf = AgentIdentity"
proof -
  let ?r = "parse_validate_and_check ascii_tables plain_fmt demo_serde (framed (asc ''v'')) Melchior limits_default"
  have v: "output_valid ascii_tables limits_default (vote Caspar Approve [finding_new Info (asc '' t'') (asc ''d'')])"
    "\<not> is_canary (vote Caspar Approve [finding_new Info (asc '' t'') (asc ''d'')])"
    using demo_parse by (auto simp: parse_check_Ok parse_and_validate_Ok framed_demo demo_serde_def
        is_canary_def vote_def ECHO_CANARY_SUMMARY_def)
  obtain pf where pf: "?r = Err pf"
    using demo_parse by (cases ?r) (auto simp: parse_check_Ok)
  from rejection_cause [OF pf] v have "pf_cause pf = AgentIdentity"
    by (simp add: framed_demo demo_serde_def)
  with pf show ?thesis by blast
qed

end
