(* ===== verification/Backoff.thy ===== *)
theory Backoff
  imports Errors
begin

text \<open>
  Retry pacing (\<open>src/src/backoff.rs\<close>): the interpretation of \<open>Retry-After\<close> headers, the failure
  classes, and the wait before the next attempt. Scaling a duration goes through binary64 as in
  \<open>std::time::Duration\<close>: seconds as a float, and back by rounding to the nearest nanosecond. A
  conversion that would panic is \<open>None\<close>.
\<close>

section \<open>Durations through binary64\<close>

definition as_secs_f64 :: "duration \<Rightarrow> f64" where
  "as_secs_f64 d = f_add (f_of_nat (d div NANOS)) (f_div (f_of_nat (d mod NANOS)) (f_of_nat NANOS))"

definition try_from_secs_f64 :: "f64 \<Rightarrow> duration option" where
  "try_from_secs_f64 v =
     (case v of
        Fin x \<Rightarrow>
          if x < 0 then None
          else let n = nat (round_half_even (x * of_nat NANOS))
               in if n \<le> DURATION_MAX then Some n else None
      | _ \<Rightarrow> None)"

definition mul_f64 :: "duration \<Rightarrow> f64 \<Rightarrow> duration option" where
  "mul_f64 d f = try_from_secs_f64 (f_mul f (as_secs_f64 d))"

section \<open>Retry-After\<close>

datatype retry_after = Absent | Honor duration | TooLong duration | Unintelligible ustr

text \<open>The value of one header: a number, or several equal numbers merged by an intermediary.\<close>

fun all_equal_to :: "nat \<Rightarrow> ustr list \<Rightarrow> bool" where
  "all_equal_to n [] = True"
| "all_equal_to n (seg # segs) =
     (if seg = [] then False
      else case parse_u64 seg of
             Some k \<Rightarrow> if k = n then all_equal_to n segs else False
           | None \<Rightarrow> False)"

definition COMMA :: nat where "COMMA = 44"

definition header_value :: "ustr \<Rightarrow> nat option" where
  "header_value t =
     (if COMMA \<in> set t then
        (case map trim (split_on COMMA t) of
           [] \<Rightarrow> None
         | f # segs \<Rightarrow>
             (case parse_u64 f of
                None \<Rightarrow> None
              | Some n \<Rightarrow> if all_equal_to n segs then Some n else None))
      else parse_u64 t)"

fun first_valid :: "duration \<Rightarrow> ustr list \<Rightarrow> retry_after option" where
  "first_valid cap [] = None"
| "first_valid cap (raw # values) =
     (let t = trim raw
      in if t = [] then first_valid cap values
         else case header_value t of
           None \<Rightarrow> first_valid cap values
         | Some n \<Rightarrow>
             if n = 0 then Some Absent
             else if n > as_secs cap then Some (TooLong (secs n))
             else Some (Honor (secs n)))"

definition parse_retry_after :: "ustr list \<Rightarrow> duration \<Rightarrow> retry_after" where
  "parse_retry_after values cap =
     (if cap = 0 then Absent
      else if values = [] then Absent
      else case first_valid cap values of
             Some r \<Rightarrow> r
           | None \<Rightarrow> Unintelligible (join (asc '', '') values))"

section \<open>Failure classes\<close>

datatype retry_class = CTimeout | CNetwork | CHttp | CAuth | CProcess | CNestedSession
  | CRetryAbandoned | CResponseTooLarge | CResponseContract | CEmptyCompletion | CNoGeneration | CExternal

section \<open>The wait\<close>

definition RETRY_AFTER_JITTER :: duration where "RETRY_AFTER_JITTER = secs 1"

definition sanitize :: "f64 \<Rightarrow> f64" where
  "sanitize v = (if \<not> is_finite v then Fin 0 else f_clamp (Fin 0) (Fin 1) v)"

definition next_backoff ::
  "nat \<Rightarrow> retry_class \<Rightarrow> duration \<Rightarrow> duration \<Rightarrow> retry_class list \<Rightarrow> duration option \<Rightarrow> f64
     \<Rightarrow> duration option" where
  "next_backoff attempt cls base cap flat retry_after rnd =
     (case retry_after of
        Some asked \<Rightarrow>
          let factor = sanitize rnd
          in (case mul_f64 RETRY_AFTER_JITTER factor of
                None \<Rightarrow> None
              | Some j \<Rightarrow> Some (dur_add asked j))
      | None \<Rightarrow>
          let raw = (if cls \<in> set flat then base
                     else dur_mul base (sat_pow U32_MAX 2 (min attempt 31)));
              bounded = min raw cap;
              factor = sanitize rnd
          in Some (min (case try_from_secs_f64 (f_mul (as_secs_f64 bounded) factor) of
                          Some w \<Rightarrow> w | None \<Rightarrow> bounded) cap))"

section \<open>Lemmas\<close>

lemma sanitize_unit: "\<exists>x. sanitize v = Fin x \<and> 0 \<le> x \<and> x \<le> 1"
  by (cases v) (auto simp: sanitize_def f_clamp_def)

lemma as_secs_f64_one: "as_secs_f64 (secs 1) = Fin 1"
  using to_f64_int [of 0] to_f64_int [of 1] to_f64_int [of "10 ^ 9"]
  by (simp add: as_secs_f64_def secs_def NANOS_def f_of_nat_def)

lemma NANOS_pos [simp]: "0 < NANOS"
  by (simp add: NANOS_def)

lemma try_from_unit:
  assumes "0 \<le> x" "x \<le> 1"
  shows "\<exists>n. try_from_secs_f64 (Fin x) = Some n \<and> n \<le> NANOS"
proof -
  have "round_half_even (of_int 0) \<le> round_half_even (x * of_nat NANOS)"
    using assms by (intro round_half_even_mono) simp
  moreover have "round_half_even (x * of_nat NANOS) \<le> round_half_even (of_int (int NANOS))"
    using assms by (intro round_half_even_mono) (simp add: mult_left_le_one_le)
  ultimately have "0 \<le> round_half_even (x * of_nat NANOS)" "round_half_even (x * of_nat NANOS) \<le> int NANOS"
    by (simp_all only: round_half_even_int)
  then have n: "nat (round_half_even (x * of_nat NANOS)) \<le> NANOS" by linarith
  moreover have "NANOS \<le> DURATION_MAX" by (simp add: NANOS_def DURATION_MAX_def U64_MAX_def)
  ultimately show ?thesis using assms by (simp add: try_from_secs_f64_def Let_def)
qed

lemma jitter_bounds: "\<exists>j. mul_f64 RETRY_AFTER_JITTER (sanitize v) = Some j \<and> j \<le> RETRY_AFTER_JITTER"
proof -
  obtain x where x: "sanitize v = Fin x" "0 \<le> x" "x \<le> 1" using sanitize_unit by blast
  have "f_mul (Fin x) (Fin 1) = Fin (rnd64 x)" using to_f64_bounded [of x 1] x by simp
  moreover have "0 \<le> rnd64 x \<and> rnd64 x \<le> 1" using x by (intro ieee.rnd_unit)
  ultimately have "\<exists>j. mul_f64 (secs 1) (sanitize v) = Some j \<and> j \<le> NANOS"
    using try_from_unit [of "rnd64 x"] by (simp only: mul_f64_def as_secs_f64_one x(1))
  then show ?thesis by (simp add: RETRY_AFTER_JITTER_def secs_def)
qed

lemma secs_le_cap: "n \<le> as_secs cap \<Longrightarrow> secs n \<le> cap"
  by (metis as_secs_def div_times_less_eq_dividend mult_le_mono1 order_trans secs_def)

lemma secs_gt_cap: "as_secs cap < n \<Longrightarrow> cap < secs n"
proof -
  assume "as_secs cap < n"
  then have "cap div NANOS < n" by (simp add: as_secs_def)
  moreover have "NANOS > 0" by (simp add: NANOS_def)
  ultimately show ?thesis by (simp add: secs_def div_less_iff_less_mult)
qed

lemma first_valid_bounds:
  "first_valid cap vs = Some (Honor d) \<Longrightarrow> 0 < d \<and> d \<le> cap"
  "first_valid cap vs = Some (TooLong d) \<Longrightarrow> cap < d"
  "first_valid cap vs \<noteq> Some (Unintelligible r)"
  by (induction cap vs rule: first_valid.induct)
    (auto simp: Let_def split: if_splits option.splits intro: secs_le_cap secs_gt_cap, simp add: secs_def)

lemma first_valid_skip:
  assumes "\<forall>g\<in>set gs. trim g = [] \<or> header_value (trim g) = None"
  shows "first_valid cap (gs @ vs) = first_valid cap vs"
  using assms by (induction gs) (auto simp: Let_def)

lemma trim_digits: "trim (digits_of n) = digits_of n"
proof (rule trim_id)
  have "\<not> is_ws c" if "is_ascii_digit c" for c
    using that by (auto simp: is_ascii_digit_def is_ws_def)
  moreover obtain c t where "digits_of n = c # t" using digits_of_hd by blast
  ultimately show "digits_of n = [] \<or> \<not> is_ws (hd (digits_of n)) \<and> \<not> is_ws (last (digits_of n))"
    using digits_of_digit by (metis hd_in_set last_in_set list.distinct(1))
qed

lemma header_value_digits: "n \<le> U64_MAX \<Longrightarrow> header_value (digits_of n) = Some n"
proof -
  assume n: "n \<le> U64_MAX"
  have "COMMA \<notin> set (digits_of n)"
    using digits_of_digit by (force simp: COMMA_def is_ascii_digit_def)
  with n show ?thesis by (simp add: header_value_def parse_u64_digits_of)
qed

section \<open>Properties\<close>

text \<open>C38: The wait before a retry is always computed (no conversion panics, whatever the random source
  yields), never exceeds the configured cap, and a server's Retry-After is honoured from below and
  exceeded by at most the one-second jitter.\<close>

theorem next_backoff_bounds:
  "(\<exists>w. next_backoff attempt cls base cap flat None rnd = Some w \<and> w \<le> cap)
   \<and> (asked \<le> DURATION_MAX \<longrightarrow>
        (\<exists>w. next_backoff attempt cls base cap flat (Some asked) rnd = Some w
           \<and> asked \<le> w \<and> w \<le> asked + RETRY_AFTER_JITTER))"
proof
  show "\<exists>w. next_backoff attempt cls base cap flat None rnd = Some w \<and> w \<le> cap"
    by (simp add: next_backoff_def Let_def)
  obtain j where j: "mul_f64 RETRY_AFTER_JITTER (sanitize rnd) = Some j" "j \<le> RETRY_AFTER_JITTER"
    using jitter_bounds by blast
  show "asked \<le> DURATION_MAX \<longrightarrow>
        (\<exists>w. next_backoff attempt cls base cap flat (Some asked) rnd = Some w
           \<and> asked \<le> w \<and> w \<le> asked + RETRY_AFTER_JITTER)"
    using j by (simp add: next_backoff_def dur_add_def sat_add_def min_def)
qed

theorem next_backoff_bounds_witness:
  "\<exists>w. next_backoff 0 CHttp 0 0 [] (Some (secs 5)) NaN = Some w \<and> secs 5 \<le> w \<and> w \<le> secs 5 + RETRY_AFTER_JITTER"
  using next_backoff_bounds [of 0 CHttp 0 0 "[]" NaN "secs 5"]
  by (simp add: secs_le_max U64_MAX_def)

text \<open>Retry-After is decided by the first header value that is intelligible: malformed values
  before it are skipped, it is honoured exactly when it fits the cap and refused exactly when it
  exceeds it, and an accepted wait is positive and never longer than the cap.\<close>

theorem retry_after_decision:
  assumes "\<forall>g\<in>set gs. trim g = [] \<or> header_value (trim g) = None" "0 < n" "n \<le> U64_MAX" "0 < cap"
  shows "parse_retry_after (gs @ digits_of n # rest) cap =
      (if as_secs cap < n then TooLong (secs n) else Honor (secs n))
    \<and> (\<forall>vs d. parse_retry_after vs cap = Honor d \<longrightarrow> 0 < d \<and> d \<le> cap)
    \<and> (\<forall>vs d. parse_retry_after vs cap = TooLong d \<longrightarrow> cap < d)"
proof (intro conjI allI impI)
  have ct: "digits_of n \<noteq> []" using digits_of_hd [of n] by auto
  have "first_valid cap (gs @ digits_of n # rest) =
      Some (if as_secs cap < n then TooLong (secs n) else Honor (secs n))"
    using assms(2,3) ct by (simp add: first_valid_skip [OF assms(1)] trim_digits header_value_digits Let_def)
  then show "parse_retry_after (gs @ digits_of n # rest) cap =
      (if as_secs cap < n then TooLong (secs n) else Honor (secs n))"
    using assms(4) by (simp add: parse_retry_after_def)
qed (auto simp: parse_retry_after_def dest: first_valid_bounds(1,2) split: if_splits option.splits)

theorem retry_after_decision_witness:
  "parse_retry_after ([asc ''soon''] @ digits_of 7 # []) (secs 60) = Honor (secs 7)"
proof -
  have "header_value (trim (asc ''soon'')) = None"
    by (simp add: trim_id is_ws_def header_value_def COMMA_def parse_u64_def is_ascii_digit_def)
  then show ?thesis
    using retry_after_decision [of "[asc ''soon'']" 7 "secs 60" "[]"]
    by (simp add: U64_MAX_def secs_def as_secs_def NANOS_def del: asc_Cons digits_of.simps)
qed

end
