(* ===== verification/Retry.thy ===== *)
theory Retry
  imports Backoff
begin

text \<open>
  The retrying provider (\<open>RetryProvider\<close> in \<open>src/src/provider.rs\<close>): its configuration and
  warnings, the classification of provider failures, and the attempt loop. The wrapped provider
  is a script: for the call number \<open>k\<close> the time it takes and what it returns. The clock is
  explicit, starts at the call, and is moved by the inner calls and by the sleeps; the random
  source gives one value per attempt. The loop returns its result with the times at which the
  attempts started, or \<open>None\<close> where a conversion of the code would panic.
\<close>

section \<open>Configuration\<close>

definition DEFAULT_MAX_RETRIES :: nat where "DEFAULT_MAX_RETRIES = 3"
definition DEFAULT_LIMITED_MAX_RETRIES :: nat where "DEFAULT_LIMITED_MAX_RETRIES = 1"
definition DEFAULT_BASE_DELAY :: duration where "DEFAULT_BASE_DELAY = secs 1"
definition DEFAULT_CAP :: duration where "DEFAULT_CAP = secs 60"
definition DEFAULT_RETRY_AFTER_CAP :: duration where "DEFAULT_RETRY_AFTER_CAP = secs 300"
definition DEFAULT_OPERATION_BUDGET :: duration where "DEFAULT_OPERATION_BUDGET = secs 450"
definition DEFAULT_CLIENT_TIMEOUT :: duration where "DEFAULT_CLIENT_TIMEOUT = secs 300"
definition WINDOW_STRICTNESS_MARGIN :: duration where "WINDOW_STRICTNESS_MARGIN = secs 1"

record retry_config =
  max_retries :: nat
  base_delay :: duration
  backoff_cap :: duration
  retry_after_cap :: duration
  operation_budget :: duration
  flat_classes :: "retry_class list"
  limited_retry_classes :: "retry_class list"
  limited_max_retries :: nat

definition retry_config_default :: retry_config where
  "retry_config_default = \<lparr> max_retries = DEFAULT_MAX_RETRIES, base_delay = DEFAULT_BASE_DELAY,
     backoff_cap = DEFAULT_CAP, retry_after_cap = DEFAULT_RETRY_AFTER_CAP,
     operation_budget = DEFAULT_OPERATION_BUDGET, flat_classes = [CTimeout, CNetwork],
     limited_retry_classes = [CTimeout, CNetwork],
     limited_max_retries = DEFAULT_LIMITED_MAX_RETRIES \<rparr>"

definition budget_window :: "duration \<Rightarrow> duration \<Rightarrow> duration \<times> duration" where
  "budget_window client_timeout bd =
     (let floor = dur_add (dur_add client_timeout bd) WINDOW_STRICTNESS_MARGIN;
          ceiling = dur_add (dur_add (dur_mul client_timeout 2) (dur_mul bd 2)) WINDOW_STRICTNESS_MARGIN
      in (floor, max ceiling floor))"

definition dangerous_settings :: "rust_fmt \<Rightarrow> retry_config \<Rightarrow> ustr list" where
  "dangerous_settings F C =
     (if base_delay C = 0 then
        [asc ''base_delay = 0: '' @ show_nat (max_retries C)
         @ asc '' consecutive retries with no pause and NO JITTER''] else [])
     @ (if retry_after_cap C = 0 then
        [asc ''retry_after_cap = 0: the `Retry-After` header is ignored entirely''] else [])
     @ (if backoff_cap C = 0 then
        [asc ''cap = 0: every wait is zero, no pause and NO JITTER''] else [])
     @ (if retry_after_cap C \<ge> operation_budget C then
        [asc ''retry_after_cap ('' @ dbg_dur F (retry_after_cap C) @ asc '') >= operation_budget (''
         @ dbg_dur F (operation_budget C)
         @ asc ''): one honored Retry-After runs in full and overruns the budget, so the chain gets at most one of them before abandoning'']
        else [])
     @ (let ct = DEFAULT_CLIENT_TIMEOUT; bd = base_delay C; window = budget_window ct bd;
            budget = operation_budget C
        in if budget \<noteq> DURATION_MAX \<and> budget < fst window then
          [asc ''operation_budget ('' @ dbg_dur F budget @ asc '') is below '' @ dbg_dur F (fst window)
           @ asc '', the floor for the DEFAULT client timeout of '' @ dbg_dur F ct
           @ asc '': the budget cuts before the second attempt of a hang starts. If you set a different client timeout ct, your floor is ct + ''
           @ dbg_dur F bd @ asc '' + '' @ dbg_dur F WINDOW_STRICTNESS_MARGIN] else [])
     @ (if limited_max_retries C > max_retries C then
        [asc ''limited_max_retries ('' @ show_nat (limited_max_retries C) @ asc '') is above max_retries (''
         @ show_nat (max_retries C)
         @ asc ''): the retry loop is bounded by max_retries, so the limited classes get ''
         @ show_nat (sat_add U32_MAX (max_retries C) 1) @ asc '' attempts rather than the ''
         @ show_nat (sat_add U32_MAX (limited_max_retries C) 1) @ asc '' asked for''] else [])"

section \<open>Classification of failures\<close>

definition TRANSIENT_STATUSES :: "nat list" where
  "TRANSIENT_STATUSES = [408, 429, 500, 502, 503, 504, 529]"

fun is_retryable :: "provider_error \<Rightarrow> bool" where
  "is_retryable (Timeout _) = True"
| "is_retryable (Network _) = True"
| "is_retryable (Http status _ _ _) = (status \<in> set TRANSIENT_STATUSES)"
| "is_retryable (Auth _) = False"
| "is_retryable (Process _ _) = False"
| "is_retryable NestedSession = False"
| "is_retryable (RetryAbandoned _ _) = False"
| "is_retryable (ResponseTooLarge _) = False"
| "is_retryable (External _ kind) =
     (case kind of XNetwork \<Rightarrow> True | XTimeout \<Rightarrow> True | XRateLimit \<Rightarrow> True | XServerError \<Rightarrow> True
      | XAuth \<Rightarrow> False | XOther \<Rightarrow> False)"
| "is_retryable (EmptyCompletion _ _) = False"
| "is_retryable (NoGeneration _) = False"
| "is_retryable (ResponseContract reason _) =
     (case reason of Unreadable \<Rightarrow> True | NoMessage \<Rightarrow> False | RedirectRefused \<Rightarrow> False)"

fun is_mage_local :: "provider_error \<Rightarrow> bool" where
  "is_mage_local (External _ _) = True"
| "is_mage_local (ResponseContract _ _) = True"
| "is_mage_local (ResponseTooLarge _) = True"
| "is_mage_local (EmptyCompletion _ _) = True"
| "is_mage_local (Http _ _ _ _) = False"
| "is_mage_local (Network _) = False"
| "is_mage_local (Timeout _) = False"
| "is_mage_local (Auth _) = False"
| "is_mage_local (Process _ _) = False"
| "is_mage_local NestedSession = False"
| "is_mage_local (RetryAbandoned _ _) = False"
| "is_mage_local (NoGeneration _) = False"

fun classify_provider_error :: "provider_error \<Rightarrow> retry_class" where
  "classify_provider_error (Timeout _) = CTimeout"
| "classify_provider_error (Network _) = CNetwork"
| "classify_provider_error (Http _ _ _ _) = CHttp"
| "classify_provider_error (Auth _) = CAuth"
| "classify_provider_error (Process _ _) = CProcess"
| "classify_provider_error NestedSession = CNestedSession"
| "classify_provider_error (RetryAbandoned _ _) = CRetryAbandoned"
| "classify_provider_error (ResponseTooLarge _) = CResponseTooLarge"
| "classify_provider_error (External _ _) = CExternal"
| "classify_provider_error (ResponseContract _ _) = CResponseContract"
| "classify_provider_error (EmptyCompletion _ _) = CEmptyCompletion"
| "classify_provider_error (NoGeneration _) = CNoGeneration"

definition abandon :: "provider_error option \<Rightarrow> abandon_reason \<Rightarrow> nat \<Rightarrow> provider_error" where
  "abandon orig reason attempts =
     (case orig of
        Some e \<Rightarrow> if is_mage_local e then e else RetryAbandoned reason attempts
      | None \<Rightarrow> RetryAbandoned reason attempts)"

section \<open>Model names\<close>

definition resolve_claude_alias :: "ustr \<Rightarrow> (ustr, provider_error) result" where
  "resolve_claude_alias model =
     (if model = asc ''sonnet'' then Ok (asc ''claude-sonnet-4-6'')
      else if model = asc ''opus'' then Ok (asc ''claude-opus-4-7'')
      else if model = asc ''haiku'' then Ok (asc ''claude-haiku-4-5-20251001'')
      else if contains model (asc ''claude-'') then Ok model
      else Err (Auth (asc ''unknown model alias: '' @ model)))"

fun default_model_for_mode :: "mode \<Rightarrow> ustr" where
  "default_model_for_mode CodeReview = asc ''opus''"
| "default_model_for_mode Design = asc ''opus''"
| "default_model_for_mode Analysis = asc ''opus''"

lemma default_model_resolves: "is_ok (resolve_claude_alias (default_model_for_mode m))"
  by (cases m) (simp_all add: resolve_claude_alias_def)

section \<open>Transport messages\<close>

definition MAX_TRANSPORT_MESSAGE_BYTES :: nat where "MAX_TRANSPORT_MESSAGE_BYTES = 2000"

definition compose_transport_message :: "ustr \<Rightarrow> ustr \<Rightarrow> ustr \<Rightarrow> ustr" where
  "compose_transport_message op redacted_url cause_chain =
     (let head = op @ asc '' for '' @ redacted_url;
          full = (if cause_chain = [] then head else head @ asc '': '' @ cause_chain)
      in if utf8_len full \<le> MAX_TRANSPORT_MESSAGE_BYTES then full
         else mark_within_cap full MAX_TRANSPORT_MESSAGE_BYTES)"

text \<open>What the transport library reports of its error: its chain of causes and two predicates.\<close>

record transport_error =
  te_causes :: "ustr list"
  te_is_timeout :: bool
  te_is_redirect :: bool

definition cause_chain :: "transport_error \<Rightarrow> ustr" where
  "cause_chain e = join (asc '': '') (te_causes e)"

definition client_build_error :: "transport_error \<Rightarrow> provider_error" where
  "client_build_error e = Network (asc ''failed to build HTTP client: '' @ cause_chain e)"

definition to_provider_error :: "ustr \<Rightarrow> ustr \<Rightarrow> transport_error \<Rightarrow> provider_error" where
  "to_provider_error op redacted_url e =
     (let message = compose_transport_message op redacted_url (cause_chain e)
      in if te_is_timeout e then Timeout message
         else if te_is_redirect e then response_contract RedirectRefused message
         else Network message)"

section \<open>The attempt loop\<close>

type_synonym inner_script = "nat \<Rightarrow> duration \<times> (completion, provider_error) result"

datatype wait_decision = GiveUp abandon_reason | WaitFor "duration option"

definition retry_after_of :: "retry_config \<Rightarrow> nat \<Rightarrow> provider_error \<Rightarrow> wait_decision" where
  "retry_after_of C now err =
     (case err of
        Http _ _ raw received_at \<Rightarrow>
          (case parse_retry_after raw (retry_after_cap C) of
             Absent \<Rightarrow> WaitFor None
           | Honor asked \<Rightarrow>
               WaitFor (Some (case received_at of Some t \<Rightarrow> dur_sub asked (now - t) | None \<Rightarrow> asked))
           | TooLong requested \<Rightarrow> GiveUp (RetryAfterTooLong requested (retry_after_cap C))
           | Unintelligible raw \<Rightarrow> GiveUp (RetryAfterUnintelligible raw))
      | _ \<Rightarrow> WaitFor None)"

definition attempt_limit :: "retry_config \<Rightarrow> provider_error \<Rightarrow> nat" where
  "attempt_limit C err =
     (if classify_provider_error err \<in> set (limited_retry_classes C) then limited_max_retries C
      else max_retries C)"

function retry_loop ::
  "retry_config \<Rightarrow> inner_script \<Rightarrow> (nat \<Rightarrow> f64) \<Rightarrow> nat \<Rightarrow> nat \<Rightarrow> provider_error option
     \<Rightarrow> ((completion, provider_error) result \<times> nat list) option" where
  "retry_loop C inner rnd attempt now last_error =
     (if attempt > max_retries C then
        Some (Err (case last_error of Some e \<Rightarrow> e
                   | None \<Rightarrow> Network (asc ''retry loop ended without an attempt'')), [])
      else if attempt > 0 \<and> now \<ge> operation_budget C then
        Some (Err (abandon last_error (OperationBudgetExhausted now (operation_budget C)) attempt), [])
      else
        (let (cost, outcome) = inner attempt; now1 = now + cost in
         case outcome of
           Ok response \<Rightarrow> Some (Ok response, [now])
         | Err err \<Rightarrow>
             if \<not> is_retryable err \<or> attempt = max_retries C then Some (Err err, [now])
             else case retry_after_of C now1 err of
               GiveUp reason \<Rightarrow> Some (Err (abandon (Some err) reason (attempt + 1)), [now])
             | WaitFor retry_after \<Rightarrow>
                 if attempt \<ge> attempt_limit C err then Some (Err err, [now])
                 else case next_backoff attempt (classify_provider_error err) (base_delay C) (backoff_cap C)
                             (flat_classes C) retry_after (rnd attempt) of
                   None \<Rightarrow> None
                 | Some wait \<Rightarrow>
                     map_option (\<lambda>(r, starts). (r, now # starts))
                       (retry_loop C inner rnd (attempt + 1) (now1 + wait) (Some err))))"
  by pat_completeness auto
termination
  by (relation "measure (\<lambda>(C, inner, rnd, attempt, now, last). max_retries C + 1 - attempt)") auto

declare retry_loop.simps [simp del]

definition retry_complete ::
  "retry_config \<Rightarrow> inner_script \<Rightarrow> (nat \<Rightarrow> f64)
     \<Rightarrow> ((completion, provider_error) result \<times> nat list) option" where
  "retry_complete C inner rnd = retry_loop C inner rnd 0 0 None"

section \<open>What a run of the loop is\<close>

lemma next_backoff_total: "next_backoff attempt cls base cap flat retry_after rnd \<noteq> None"
  using jitter_bounds [of rnd] by (auto simp: next_backoff_def Let_def split: option.splits)

lemma abandon_cases:
  "abandon (Some e) reason n = e \<or> \<not> is_mage_local e \<and> abandon (Some e) reason n = RetryAbandoned reason n"
  by (simp add: abandon_def)

text \<open>The error that was current when the loop ended: the one of the last call, or the recorded one
  when no call was made.\<close>

definition final_error :: "inner_script \<Rightarrow> nat \<Rightarrow> provider_error option \<Rightarrow> nat list \<Rightarrow> provider_error option" where
  "final_error inner a last_error starts =
     (if starts = [] then last_error
      else case snd (inner (a + length starts - 1)) of Err e \<Rightarrow> Some e | Ok _ \<Rightarrow> None)"

text \<open>A run that made its calls from number \<open>a\<close> on: bounded, inside the budget, retried only where
  the class allows another attempt, and ending in the last call's success, in the current error
  itself, or in an abandonment of a current error that is not mage-local.\<close>

definition good_run ::
  "retry_config \<Rightarrow> inner_script \<Rightarrow> nat \<Rightarrow> provider_error option
     \<Rightarrow> (completion, provider_error) result \<Rightarrow> nat list \<Rightarrow> bool" where
  "good_run C inner a last_error r starts \<longleftrightarrow>
     length starts \<le> max_retries C + 1 - a
     \<and> (\<forall>i<length starts. 0 < a + i \<longrightarrow> starts ! i < operation_budget C)
     \<and> (\<forall>i. Suc i < length starts \<longrightarrow>
          (\<exists>e. snd (inner (a + i)) = Err e \<and> is_retryable e \<and> a + i < attempt_limit C e))
     \<and> (case r of
          Ok c \<Rightarrow> starts \<noteq> [] \<and> snd (inner (a + length starts - 1)) = Ok c
        | Err e \<Rightarrow> (\<exists>e0. final_error inner a last_error starts = Some e0
            \<and> (e = e0 \<or> \<not> is_mage_local e0 \<and> is_retryable e0 \<and> (\<exists>q n. e = RetryAbandoned q n))))"

lemma good_run_step:
  assumes run: "good_run C inner (a + 1) (Some err) r starts"
    and "snd (inner a) = Err err" "is_retryable err" "a < attempt_limit C err" "a < max_retries C"
    and "0 < a \<longrightarrow> now < operation_budget C"
  shows "good_run C inner a last_error r (now # starts)"
proof -
  have fe: "final_error inner a last_error (now # starts) = final_error inner (a + 1) (Some err) starts"
    using assms(2) by (auto simp: final_error_def)
  have "(now # starts) ! i < operation_budget C" if "i < Suc (length starts)" "0 < a + i" for i
    using that run assms(6) by (cases i) (auto simp: good_run_def)
  moreover have "\<exists>e. snd (inner (a + i)) = Err e \<and> is_retryable e \<and> a + i < attempt_limit C e"
    if "i < length starts" for i
    using that run assms(2-4) by (cases i) (auto simp: good_run_def)
  ultimately show ?thesis
    using run assms(5) unfolding good_run_def fe
    by (auto split: result.splits)
qed

lemma good_run_stop:
  assumes "a \<le> max_retries C" "0 < a \<longrightarrow> now < operation_budget C"
    and "case snd (inner a) of
        Ok c \<Rightarrow> r = Ok c
      | Err e0 \<Rightarrow> (\<exists>e. r = Err e \<and> (e = e0 \<or> \<not> is_mage_local e0 \<and> is_retryable e0 \<and> (\<exists>q n. e = RetryAbandoned q n)))"
  shows "good_run C inner a last_error r [now]"
  using assms by (auto simp: good_run_def final_error_def split: result.splits)

lemma retry_loop_good:
  assumes "a = 0 \<or> (\<exists>e. last_error = Some e \<and> is_retryable e)"
  shows "\<exists>r starts. retry_loop C inner rnd a now last_error = Some (r, starts)
    \<and> good_run C inner a last_error r starts"
  using assms
proof (induction C inner rnd a now last_error rule: retry_loop.induct)
  case (1 C inner rnd a now last_error)
  let ?loop = "retry_loop C inner rnd a now last_error"
  show ?case
  proof (cases "a > max_retries C \<or> a > 0 \<and> now \<ge> operation_budget C")
    case True
    then obtain e0 where e0: "last_error = Some e0" "is_retryable e0" using "1.prems" by auto
    show ?thesis
    proof (cases "a > max_retries C")
      case True
      with e0 show ?thesis by (simp add: retry_loop.simps [of C] good_run_def final_error_def)
    next
      case False
      with True have b: "a > 0 \<and> now \<ge> operation_budget C" by simp
      have "good_run C inner a last_error
          (Err (abandon last_error (OperationBudgetExhausted now (operation_budget C)) a)) []"
        using abandon_cases [of e0] by (auto simp: good_run_def final_error_def e0)
      with False b show ?thesis by (simp add: retry_loop.simps [of C])
    qed
  next
    case False
    then have a: "a \<le> max_retries C" "0 < a \<longrightarrow> now < operation_budget C" by auto
    obtain cost outcome where io: "inner a = (cost, outcome)" by (cases "inner a")
    note stop = good_run_stop [OF a, where inner = inner and last_error = last_error]
    have c: "(a > max_retries C) = False" "(a > 0 \<and> now \<ge> operation_budget C) = False"
      using False by auto
    have unf: "?loop = (case outcome of
           Ok response \<Rightarrow> Some (Ok response, [now])
         | Err err \<Rightarrow>
             if \<not> is_retryable err \<or> a = max_retries C then Some (Err err, [now])
             else case retry_after_of C (now + cost) err of
               GiveUp reason \<Rightarrow> Some (Err (abandon (Some err) reason (a + 1)), [now])
             | WaitFor retry_after \<Rightarrow>
                 if a \<ge> attempt_limit C err then Some (Err err, [now])
                 else case next_backoff a (classify_provider_error err) (base_delay C) (backoff_cap C)
                             (flat_classes C) retry_after (rnd a) of
                   None \<Rightarrow> None
                 | Some wait \<Rightarrow>
                     map_option (\<lambda>(r, starts). (r, now # starts))
                       (retry_loop C inner rnd (a + 1) (now + cost + wait) (Some err)))"
      by (subst retry_loop.simps) (simp only: c if_False io prod.case Let_def)
    show ?thesis
    proof (cases outcome)
      case (Ok c)
      with stop [of "Ok c"] show ?thesis by (simp add: unf io)
    next
      case (Err err)
      show ?thesis
      proof (cases "\<not> is_retryable err \<or> a = max_retries C")
        case True
        with stop [of "Err err"] Err show ?thesis by (simp add: unf io)
      next
        case retry: False
        show ?thesis
        proof (cases "retry_after_of C (now + cost) err")
          case (GiveUp reason)
          with stop [of "Err (abandon (Some err) reason (a + 1))"] Err retry abandon_cases [of err reason "a + 1"]
          show ?thesis by (simp add: unf io) blast
        next
          case (WaitFor ra)
          show ?thesis
          proof (cases "a \<ge> attempt_limit C err")
            case True
            with stop [of "Err err"] Err retry WaitFor show ?thesis by (simp add: unf io)
          next
            case lim: False
            obtain w where w: "next_backoff a (classify_provider_error err) (base_delay C) (backoff_cap C)
                (flat_classes C) ra (rnd a) = Some w"
              using next_backoff_total by blast
            have "\<exists>r starts. retry_loop C inner rnd (a + 1) (now + cost + w) (Some err) = Some (r, starts)
                \<and> good_run C inner (a + 1) (Some err) r starts"
              using "1.IH" [OF _ _ refl io [symmetric] refl Err retry WaitFor lim w] c retry by auto
            then obtain r starts where rs:
              "retry_loop C inner rnd (a + 1) (now + cost + w) (Some err) = Some (r, starts)"
              "good_run C inner (a + 1) (Some err) r starts" by blast
            have "good_run C inner a last_error r (now # starts)"
              by (rule good_run_step [OF rs(2)]) (use io Err retry lim a in auto)
            with rs(1) Err retry WaitFor lim w show ?thesis by (simp add: unf)
          qed
        qed
      qed
    qed
  qed
qed

lemma retry_complete_good:
  "\<exists>r starts. retry_complete C inner rnd = Some (r, starts) \<and> good_run C inner 0 None r starts"
  unfolding retry_complete_def by (rule retry_loop_good) simp

lemma good_run_limited:
  assumes "good_run C inner 0 None r starts"
    and "\<And>k e. snd (inner k) = Err e \<Longrightarrow> classify_provider_error e \<in> set (limited_retry_classes C)"
  shows "length starts \<le> limited_max_retries C + 1"
proof (rule ccontr)
  assume "\<not> length starts \<le> limited_max_retries C + 1"
  then have "Suc (limited_max_retries C) < length starts" by simp
  then obtain e where "snd (inner (0 + limited_max_retries C)) = Err e"
    "0 + limited_max_retries C < attempt_limit C e"
    using assms(1) unfolding good_run_def by blast
  with assms(2) show False by (auto simp: attempt_limit_def)
qed

lemma good_run_calls:
  assumes "good_run C inner 0 None r starts"
  shows "starts \<noteq> []"
  using assms by (auto simp: good_run_def final_error_def split: result.splits)

section \<open>Properties\<close>

text \<open>A backend that times out on every call, for concrete evaluations.\<close>

definition always_timeout :: inner_script where
  "always_timeout k = (secs 2, Err (Timeout (asc ''t'')))"



text \<open>Retrying never changes what a failure is about: a success of the last call is returned as it
  is, and an error of the last call that is mage-local or not retryable is returned itself; only a
  retryable error that may condemn a lineage can be replaced by an abandonment.\<close>

theorem retry_preserves_outcome:
  assumes "retry_complete C inner rnd = Some (r, starts)"
  shows "(case snd (inner (length starts - 1)) of
        Ok c \<Rightarrow> r = Ok c
      | Err e0 \<Rightarrow> (r = Err e0 \<or> \<not> is_mage_local e0 \<and> is_retryable e0 \<and> (\<exists>q n. r = Err (RetryAbandoned q n))))"
proof -
  have g: "good_run C inner 0 None r starts" using retry_complete_good [of C inner rnd] assms by auto
  then show ?thesis using good_run_calls [OF g]
    by (auto simp: good_run_def final_error_def split: result.splits)
qed

text \<open>A backend whose answer is over the buffering cap: mage-local and not retried.\<close>

definition too_large_script :: inner_script where
  "too_large_script k = (secs 1, Err (ResponseTooLarge 5))"

theorem retry_preserves_outcome_witness:
  "retry_complete retry_config_default too_large_script (\<lambda>_. Fin 0) = Some (Err (ResponseTooLarge 5), [0])"
proof -
  obtain r starts where rs: "retry_complete retry_config_default too_large_script (\<lambda>_. Fin 0) = Some (r, starts)"
    using retry_complete_good by blast
  have "starts = [0]" using rs
    by (simp add: retry_complete_def retry_loop.simps too_large_script_def)
  with rs retry_preserves_outcome [OF rs] show ?thesis by (simp add: too_large_script_def)
qed

text \<open>When every failure of a chain is of a limited class (timeouts and connection failures by
  default), the chain makes at most \<open>limited_max_retries + 1\<close> calls, however large
  \<open>max_retries\<close> is: two calls with the shipped configuration.\<close>

lemma retry_limited_classes:
  assumes "retry_complete C inner rnd = Some (r, starts)"
    and "\<And>k e. snd (inner k) = Err e \<Longrightarrow> classify_provider_error e \<in> set (limited_retry_classes C)"
  shows "length starts \<le> min (max_retries C) (limited_max_retries C) + 1"
proof -
  have g: "good_run C inner 0 None r starts" using retry_complete_good [of C inner rnd] assms(1) by auto
  have "length starts \<le> limited_max_retries C + 1" by (rule good_run_limited [OF g assms(2)])
  moreover have "length starts \<le> max_retries C + 1" using g by (simp add: good_run_def)
  ultimately show ?thesis by simp
qed

lemma retry_limited_default:
  "\<exists>r starts. retry_complete retry_config_default always_timeout (\<lambda>_. Fin 1) = Some (r, starts)
     \<and> length starts \<le> 2"
proof -
  obtain r starts where rs: "retry_complete retry_config_default always_timeout (\<lambda>_. Fin 1) = Some (r, starts)"
    using retry_complete_good by blast
  have "length starts \<le> min (max_retries retry_config_default) (limited_max_retries retry_config_default) + 1"
    by (rule retry_limited_classes [OF rs]) (auto simp: always_timeout_def retry_config_default_def)
  with rs show ?thesis
    by (auto simp: retry_config_default_def DEFAULT_MAX_RETRIES_def DEFAULT_LIMITED_MAX_RETRIES_def)
qed

end
