(* ===== verification/Rotation.thy ===== *)
theory Rotation
  imports Retry Validate
begin

text \<open>
  Lineages, the rotation policy and the fallback pool (\<open>src/src/rotation.rs\<close>): which
  candidate a mage may rotate to, the snapshot of why it may not, the digest and window checks,
  the rotation events and the state one mage keeps. A lineage is its trimmed text; a provider is
  known by its model.
\<close>

section \<open>Lineages and candidates\<close>

type_synonym lineage = ustr
type_synonym model = ustr

definition lineage_new :: "ustr \<Rightarrow> lineage" where "lineage_new s = trim s"

record candidate =
  ca_provider_ix :: nat
  ca_lineage :: lineage
  ca_model :: model

record model_capability =
  mc_window :: "nat option"
  mc_digest :: "ustr option"
  mc_supports_completion :: bool

type_synonym capabilities = "model \<rightharpoonup> model_capability"

definition window_of :: "capabilities \<Rightarrow> model \<Rightarrow> nat option" where
  "window_of caps m = (case caps m of Some c \<Rightarrow> mc_window c | None \<Rightarrow> None)"

definition digest_in :: "capabilities \<Rightarrow> model \<Rightarrow> ustr option" where
  "digest_in caps m = (case caps m of Some c \<Rightarrow> mc_digest c | None \<Rightarrow> None)"

definition window_ok :: "nat option \<Rightarrow> nat \<Rightarrow> bool \<Rightarrow> bool" where
  "window_ok window min_window strict =
     (case window of Some w \<Rightarrow> w \<ge> min_window | None \<Rightarrow> \<not> strict)"

section \<open>The policy\<close>

record rotation_policy =
  rp_fallback :: "candidate list"
  rp_max_rotations :: nat
  rp_capabilities :: capabilities
  rp_strict_context_guard :: bool
  rp_min_window_tokens :: nat

definition window_admits :: "rotation_policy \<Rightarrow> model \<Rightarrow> bool" where
  "window_admits P m =
     window_ok (window_of (rp_capabilities P) m) (rp_min_window_tokens P) (rp_strict_context_guard P)"

definition digest_of :: "rotation_policy \<Rightarrow> model \<Rightarrow> ustr option" where
  "digest_of P m = digest_in (rp_capabilities P) m"

definition next_model ::
  "rotation_policy \<Rightarrow> lineage set \<Rightarrow> lineage set \<Rightarrow> lineage set \<Rightarrow> model set
     \<Rightarrow> (model \<rightharpoonup> ustr) \<Rightarrow> nat \<Rightarrow> candidate option" where
  "next_model P failed run_failed in_play used collisions rotations_done =
     (if rotations_done \<ge> rp_max_rotations P then None
      else find (\<lambda>c. ca_lineage c \<notin> in_play \<and> ca_lineage c \<notin> failed \<and> ca_lineage c \<notin> run_failed
                   \<and> ca_model c \<notin> used \<and> collisions (ca_model c) = None
                   \<and> window_admits P (ca_model c))
             (rp_fallback P))"

section \<open>Why a candidate is not eligible\<close>

datatype ineligibility_cause =
    RotationBudgetExhausted nat nat
  | LineageHeldByAnotherMage
  | LineageFailedForThisMage
  | LineageCondemnedRunWide
  | ModelAlreadyUsedByThisMage
  | DigestCollision
  | WindowBelowCoarseEstimate nat nat
  | WindowUnmeasuredUnderStrictGuard

record seat_progress =
  sp_failed_lineages :: "lineage set"
  sp_used_models :: "model set option"
  sp_digest_collisions :: "model set"
  sp_rotations_done :: nat

definition seat_progress_default :: seat_progress where
  "seat_progress_default = \<lparr> sp_failed_lineages = {}, sp_used_models = None,
     sp_digest_collisions = {}, sp_rotations_done = 0 \<rparr>"

record active_entry =
  ae_lineage :: lineage
  ae_model :: model

text \<open>A probe is known by the model it declares, if it declares one; what it measures is an argument
  of the preflight. A pool entry is its provider's model, its lineage and its probe, if any.\<close>

record provider_probe =
  pb_declared_model :: "ustr option"

record fallback_candidate =
  fc_model :: model
  fc_lineage :: lineage
  fc_probe :: "provider_probe option"

record eligibility_inputs =
  ei_seats :: "agent_name \<rightharpoonup> active_entry"
  ei_progress :: "agent_name \<rightharpoonup> seat_progress"
  ei_run_failed :: "lineage set"
  ei_capabilities :: capabilities
  ei_candidates :: "fallback_candidate list"
  ei_max_rotations :: nat
  ei_min_window_tokens :: nat
  ei_strict_context_guard :: bool

record candidate_eligibility =
  ce_model :: model
  ce_causes :: "ineligibility_cause list"

definition eligibility_causes ::
  "eligibility_inputs \<Rightarrow> agent_name \<Rightarrow> active_entry \<Rightarrow> fallback_candidate \<Rightarrow> ineligibility_cause list" where
  "eligibility_causes I seat entry c =
     (let progress = (case ei_progress I seat of Some p \<Rightarrow> p | None \<Rightarrow> seat_progress_default);
          m = fc_model c;
          already_used = (case sp_used_models progress of Some used \<Rightarrow> m \<in> used | None \<Rightarrow> ae_model entry = m)
      in (if sp_rotations_done progress \<ge> ei_max_rotations I
          then [RotationBudgetExhausted (sp_rotations_done progress) (ei_max_rotations I)] else [])
         @ (if list_ex (\<lambda>other. other \<noteq> seat \<and>
                 (case ei_seats I other of Some e \<Rightarrow> ae_lineage e = fc_lineage c | None \<Rightarrow> False)) agents_asc
            then [LineageHeldByAnotherMage] else [])
         @ (if fc_lineage c \<in> sp_failed_lineages progress then [LineageFailedForThisMage] else [])
         @ (if fc_lineage c \<in> ei_run_failed I then [LineageCondemnedRunWide] else [])
         @ (if already_used then [ModelAlreadyUsedByThisMage] else [])
         @ (if m \<in> sp_digest_collisions progress then [DigestCollision] else [])
         @ (case window_of (ei_capabilities I) m of
              Some w \<Rightarrow> if w < ei_min_window_tokens I
                        then [WindowBelowCoarseEstimate w (ei_min_window_tokens I)] else []
            | None \<Rightarrow> if ei_strict_context_guard I then [WindowUnmeasuredUnderStrictGuard] else []))"

definition pool_eligibility_snapshot ::
  "eligibility_inputs \<Rightarrow> (agent_name \<rightharpoonup> candidate_eligibility list)" where
  "pool_eligibility_snapshot I =
     (\<lambda>seat. case ei_seats I seat of
        None \<Rightarrow> None
      | Some entry \<Rightarrow> Some (map (\<lambda>c. \<lparr> ce_model = fc_model c,
                                      ce_causes = eligibility_causes I seat entry c \<rparr>)
                              (ei_candidates I)))"

section \<open>Digests and windows\<close>

fun index_of :: "('a \<Rightarrow> bool) \<Rightarrow> 'a list \<Rightarrow> nat option" where
  "index_of P [] = None"
| "index_of P (x # xs) = (if P x then Some 0 else map_option Suc (index_of P xs))"

fun digest_collision_from :: "nat \<Rightarrow> ustr option list \<Rightarrow> (nat \<times> nat) option" where
  "digest_collision_from i [] = None"
| "digest_collision_from i (None # ds) = digest_collision_from (Suc i) ds"
| "digest_collision_from i (Some d # ds) =
     (case index_of (\<lambda>dj. dj = Some d) ds of
        Some k \<Rightarrow> Some (i, Suc i + k)
      | None \<Rightarrow> digest_collision_from (Suc i) ds)"

definition digest_collision :: "ustr option list \<Rightarrow> (nat \<times> nat) option" where
  "digest_collision ds = digest_collision_from 0 ds"

definition strict_guard_is_inert :: "bool \<Rightarrow> model list \<Rightarrow> capabilities \<Rightarrow> bool" where
  "strict_guard_is_inert strict models caps \<longleftrightarrow>
     strict \<and> models \<noteq> [] \<and> \<not> list_ex (\<lambda>m. window_of caps m \<noteq> None) models"

section \<open>Probing before the run\<close>

text \<open>What one probe call came to within its deadline, and one finished preflight task (a task that
  panicked leaves no entry). The tasks are listed in the order they finish.\<close>

datatype 'a probed = ProbeTimeout | ProbeFailed provider_error | Probed "'a option"

fun measured :: "'a probed \<Rightarrow> 'a option" where
  "measured (Probed v) = v"
| "measured _ = None"

definition run_preflight_within :: "(model \<times> (nat probed \<times> ustr probed) option) list \<Rightarrow> capabilities" where
  "run_preflight_within tasks =
     fold (\<lambda>(m, joined) caps.
        case joined of
          Some (w, d) \<Rightarrow> caps(m \<mapsto> \<lparr> mc_window = measured w, mc_digest = measured d,
                                    mc_supports_completion = True \<rparr>)
        | None \<Rightarrow> caps) tasks (\<lambda>_. None)"

section \<open>Rotation events\<close>

definition MAX_ROTATION_DETAIL_CHARS :: nat where "MAX_ROTATION_DETAIL_CHARS = 256"

datatype rotation_kind = KTransport | KTimeout | KSchema | KOversizedResponse | KExternalFailure
  | KEmptyCompletion | KResponseContract

fun kind_is_mage_local :: "rotation_kind \<Rightarrow> bool" where
  "kind_is_mage_local KTransport = False"
| "kind_is_mage_local KTimeout = False"
| "kind_is_mage_local KSchema = True"
| "kind_is_mage_local KOversizedResponse = True"
| "kind_is_mage_local KExternalFailure = True"
| "kind_is_mage_local KEmptyCompletion = True"
| "kind_is_mage_local KResponseContract = True"

fun show_kind :: "rotation_kind \<Rightarrow> ustr" where
  "show_kind KTransport = asc ''transport''"
| "show_kind KTimeout = asc ''timeout''"
| "show_kind KSchema = asc ''schema''"
| "show_kind KOversizedResponse = asc ''oversized_response''"
| "show_kind KExternalFailure = asc ''external_failure''"
| "show_kind KEmptyCompletion = asc ''empty_completion''"
| "show_kind KResponseContract = asc ''response_contract''"

record rotation_event =
  re_from :: lineage
  re_to :: lineage
  re_model_resolved :: model
  re_kind :: rotation_kind
  re_detail :: ustr

definition rotation_event_new ::
  "unicode \<Rightarrow> lineage \<Rightarrow> lineage \<Rightarrow> model \<Rightarrow> rotation_kind \<Rightarrow> ustr \<Rightarrow> rotation_event" where
  "rotation_event_new U frm to' m k detail =
     \<lparr> re_from = frm, re_to = to', re_model_resolved = m, re_kind = k,
       re_detail = take MAX_ROTATION_DETAIL_CHARS (clean_title U detail) \<rparr>"

record agent_rotation =
  ar_model_configured :: model
  ar_model_used :: model
  ar_chain :: "rotation_event list"
  ar_ran_unmeasured :: bool

section \<open>The state of one mage\<close>

definition DIGEST_COLLISION_REASON :: ustr where "DIGEST_COLLISION_REASON = asc ''digest_collision''"

record rotation_state =
  rs_model_configured :: model
  rs_model_used :: model
  rs_chain :: "rotation_event list"
  rs_used :: "model set"
  rs_failed_lineages :: "lineage set"
  rs_digest_collisions :: "model \<rightharpoonup> ustr"
  rs_rotations_done :: nat
  rs_ran_unmeasured :: bool
  rs_degenerate_pool :: bool

definition rotation_state_new :: "model \<Rightarrow> rotation_state" where
  "rotation_state_new m = \<lparr> rs_model_configured = m, rs_model_used = m, rs_chain = [],
     rs_used = {m}, rs_failed_lineages = {}, rs_digest_collisions = (\<lambda>_. None),
     rs_rotations_done = 0, rs_ran_unmeasured = False, rs_degenerate_pool = False \<rparr>"

definition record_digest_collision :: "model \<Rightarrow> rotation_state \<Rightarrow> rotation_state" where
  "record_digest_collision m st =
     st\<lparr> rs_digest_collisions := (rs_digest_collisions st)(m \<mapsto> DIGEST_COLLISION_REASON) \<rparr>"

definition record_degenerate_pool :: "rotation_state \<Rightarrow> rotation_state" where
  "record_degenerate_pool st = st\<lparr> rs_degenerate_pool := True \<rparr>"

definition to_rotation :: "rotation_state \<Rightarrow> agent_rotation" where
  "to_rotation st = \<lparr> ar_model_configured = rs_model_configured st, ar_model_used = rs_model_used st,
     ar_chain = rs_chain st, ar_ran_unmeasured = rs_ran_unmeasured st \<rparr>"

section \<open>The fallback pool\<close>

definition DEFAULT_MAX_ROTATIONS :: nat where "DEFAULT_MAX_ROTATIONS = 2"

record fallback_pool =
  fp_candidates :: "fallback_candidate list"
  fp_max_rotations :: nat

definition pool_builder :: fallback_pool where
  "pool_builder = \<lparr> fp_candidates = [], fp_max_rotations = DEFAULT_MAX_ROTATIONS \<rparr>"

definition pool_push :: "model \<Rightarrow> lineage \<Rightarrow> fallback_pool \<Rightarrow> fallback_pool" where
  "pool_push m l P =
     P\<lparr> fp_candidates := fp_candidates P @ [\<lparr> fc_model = m, fc_lineage = l, fc_probe = None \<rparr>] \<rparr>"

definition pool_push_with_probe :: "model \<Rightarrow> lineage \<Rightarrow> provider_probe \<Rightarrow> fallback_pool \<Rightarrow> fallback_pool" where
  "pool_push_with_probe m l p P =
     P\<lparr> fp_candidates := fp_candidates P @ [\<lparr> fc_model = m, fc_lineage = l, fc_probe = Some p \<rparr>] \<rparr>"

definition pool_max_rotations :: "nat \<Rightarrow> fallback_pool \<Rightarrow> fallback_pool" where
  "pool_max_rotations n P = P\<lparr> fp_max_rotations := n \<rparr>"

definition to_candidates :: "fallback_pool \<Rightarrow> candidate list" where
  "to_candidates P =
     map (\<lambda>(i, fc). \<lparr> ca_provider_ix = i, ca_lineage = fc_lineage fc, ca_model = fc_model fc \<rparr>)
       (enumerate 0 (fp_candidates P))"

section \<open>Lemmas\<close>

definition eligible ::
  "rotation_policy \<Rightarrow> lineage set \<Rightarrow> lineage set \<Rightarrow> lineage set \<Rightarrow> model set
     \<Rightarrow> (model \<rightharpoonup> ustr) \<Rightarrow> candidate \<Rightarrow> bool" where
  "eligible P failed run_failed in_play used collisions c \<longleftrightarrow>
     ca_lineage c \<notin> in_play \<and> ca_lineage c \<notin> failed \<and> ca_lineage c \<notin> run_failed
     \<and> ca_model c \<notin> used \<and> collisions (ca_model c) = None \<and> window_admits P (ca_model c)"

lemma next_model_eq:
  "next_model P failed run_failed in_play used collisions n =
     (if n \<ge> rp_max_rotations P then None
      else find (eligible P failed run_failed in_play used collisions) (rp_fallback P))"
  by (simp add: next_model_def eligible_def [abs_def])

lemma next_model_Some:
  "next_model P failed run_failed in_play used collisions n = Some c \<Longrightarrow>
     n < rp_max_rotations P \<and> c \<in> set (rp_fallback P) \<and> eligible P failed run_failed in_play used collisions c"
  by (auto simp: next_model_eq split: if_splits dest: find_SomeD)

lemma next_model_None:
  "next_model P failed run_failed in_play used collisions n = None \<longleftrightarrow>
     n \<ge> rp_max_rotations P \<or> (\<forall>c\<in>set (rp_fallback P). \<not> eligible P failed run_failed in_play used collisions c)"
  by (simp add: next_model_eq find_None_iff_all)

lemma index_of_None: "index_of P xs = None \<longleftrightarrow> (\<forall>x\<in>set xs. \<not> P x)"
  by (induction xs) auto

lemma digest_collision_from_ge: "digest_collision_from i ds = Some (a, b) \<Longrightarrow> i \<le> a"
  by (induction i ds rule: digest_collision_from.induct) (fastforce split: option.splits)+

lemma digest_collision_head:
  "(\<exists>j. digest_collision (d # ds) = Some (0, j)) \<longleftrightarrow> d \<noteq> None \<and> d \<in> set ds"
proof (cases d)
  case None
  then show ?thesis using digest_collision_from_ge [of "Suc 0" ds 0] by (auto simp: digest_collision_def)
next
  case (Some x)
  show ?thesis
  proof (cases "index_of (\<lambda>dj. dj = Some x) ds")
    case None
    then have "Some x \<notin> set ds" by (auto simp: index_of_None)
    with Some None digest_collision_from_ge [of "Suc 0" ds 0] show ?thesis by (auto simp: digest_collision_def)
  next
    case k: (Some k)
    have "index_of (\<lambda>dj. dj = Some x) ds \<noteq> None" using k by simp
    then have "Some x \<in> set ds" unfolding index_of_None by blast
    moreover have "digest_collision (Some x # ds) = Some (0, Suc 0 + k)"
      by (simp add: digest_collision_def k)
    ultimately show ?thesis by (simp add: Some)
  qed
qed

lemma rotation_detail_bounded: "length (re_detail (rotation_event_new U f t m k d)) \<le> MAX_ROTATION_DETAIL_CHARS"
  by (simp add: rotation_event_new_def)

lemma to_candidates_nth:
  "i < length (fp_candidates P) \<Longrightarrow>
     to_candidates P ! i = \<lparr> ca_provider_ix = i, ca_lineage = fc_lineage (fp_candidates P ! i),
       ca_model = fc_model (fp_candidates P ! i) \<rparr>"
  by (simp add: to_candidates_def nth_enumerate_eq)

end
