(* ===== verification/Registry.thy ===== *)
theory Registry
  imports Rotation
begin

text \<open>
  The lineage registry shared by the mages of a run (\<open>LineageRegistry\<close> in
  \<open>src/src/rotation.rs\<close>). Every operation holds the single lock for its whole body, so an
  operation is one atomic function on the registry and an interleaving of the mages is a sequence
  of such steps: the relation \<open>registry_step\<close>. What the steps guarantee to each seat is stated
  as the locale \<open>seat_pool\<close> and proved once for any view of the seats; it is interpreted for the
  lineage and for the model digest a seat holds.
\<close>

section \<open>State\<close>

record crate_defect_record =
  cdr_observation :: ustr
  cdr_hypothesis :: ustr
  cdr_agent :: agent_name
  cdr_model :: model

record registry =
  rg_active :: "agent_name \<rightharpoonup> active_entry"
  rg_run_failed :: "lineage set"
  rg_connection_failed :: "lineage set"
  rg_endpoint_down_signalled :: bool
  rg_crate_defect :: "crate_defect_record option"

definition ENDPOINT_DOWN_LINEAGE_THRESHOLD :: nat where "ENDPOINT_DOWN_LINEAGE_THRESHOLD = 2"

definition registry_new :: "(agent_name \<rightharpoonup> active_entry) \<Rightarrow> registry" where
  "registry_new initial = \<lparr> rg_active = initial, rg_run_failed = {}, rg_connection_failed = {},
     rg_endpoint_down_signalled = False, rg_crate_defect = None \<rparr>"

section \<open>Operations\<close>

definition register_transport_failure :: "lineage \<Rightarrow> bool \<Rightarrow> registry \<Rightarrow> bool \<times> registry" where
  "register_transport_failure l connection R =
     (let R1 = R\<lparr> rg_run_failed := insert l (rg_run_failed R) \<rparr> in
      if \<not> connection then (False, R1)
      else
        let R2 = R1\<lparr> rg_connection_failed := insert l (rg_connection_failed R1) \<rparr> in
        if card (rg_connection_failed R2) < ENDPOINT_DOWN_LINEAGE_THRESHOLD then (False, R2)
        else if rg_endpoint_down_signalled R2 then (False, R2)
        else (True, R2\<lparr> rg_endpoint_down_signalled := True \<rparr>))"

definition release :: "agent_name \<Rightarrow> registry \<Rightarrow> registry" where
  "release a R = R\<lparr> rg_active := (rg_active R)(a := None) \<rparr>"

definition latch_crate_defect :: "crate_defect_record \<Rightarrow> registry \<Rightarrow> bool \<times> registry" where
  "latch_crate_defect d R =
     (case rg_crate_defect R of
        Some _ \<Rightarrow> (False, R)
      | None \<Rightarrow> (True, R\<lparr> rg_crate_defect := Some d \<rparr>))"

definition lineages_in_play :: "agent_name \<Rightarrow> registry \<Rightarrow> lineage set" where
  "lineages_in_play a R = {l. \<exists>b e. b \<noteq> a \<and> rg_active R b = Some e \<and> ae_lineage e = l}"

definition other_digests :: "rotation_policy \<Rightarrow> agent_name \<Rightarrow> registry \<Rightarrow> ustr option list" where
  "other_digests P a R =
     map (\<lambda>b. digest_of P (ae_model (the (rg_active R b))))
       (filter (\<lambda>b. b \<noteq> a) (map_keys (rg_active R)))"

definition head_collides :: "ustr option list \<Rightarrow> bool" where
  "head_collides digests = (case digest_collision digests of Some (i, j) \<Rightarrow> i = 0 | None \<Rightarrow> False)"

definition entry_of :: "candidate \<Rightarrow> active_entry" where
  "entry_of c = \<lparr> ae_lineage = ca_lineage c, ae_model = ca_model c \<rparr>"

function claim_loop ::
  "rotation_policy \<Rightarrow> agent_name \<Rightarrow> registry \<Rightarrow> rotation_state
     \<Rightarrow> candidate option \<times> registry \<times> rotation_state" where
  "claim_loop P a R st =
     (case next_model P (rs_failed_lineages st) (rg_run_failed R) (lineages_in_play a R)
             (rs_used st) (rs_digest_collisions st) (rs_rotations_done st) of
        None \<Rightarrow>
          let evaluated = length (rp_fallback P);
              collided = card (dom (rs_digest_collisions st))
          in (None, R, if collided = evaluated \<and> evaluated > 1 then record_degenerate_pool st else st)
      | Some chosen \<Rightarrow>
          if head_collides (digest_of P (ca_model chosen) # other_digests P a R)
          then claim_loop P a R (record_digest_collision (ca_model chosen) st)
          else (Some chosen, R\<lparr> rg_active := (rg_active R)(a \<mapsto> entry_of chosen) \<rparr>, st))"
  by pat_completeness auto
termination
proof (relation "measure (\<lambda>(P, a, R, st).
    length (filter (\<lambda>c. rs_digest_collisions st (ca_model c) = None) (rp_fallback P)))", goal_cases)
  case (2 P a R st chosen)
  then have c: "chosen \<in> set (rp_fallback P)" "rs_digest_collisions st (ca_model chosen) = None"
    by (auto simp: eligible_def dest: next_model_Some)
  let ?f = "\<lambda>c. rs_digest_collisions st (ca_model c) = None"
  let ?g = "\<lambda>c. rs_digest_collisions (record_digest_collision (ca_model chosen) st) (ca_model c) = None"
  have g: "?g c \<longleftrightarrow> ?f c \<and> ca_model c \<noteq> ca_model chosen" for c
    by (simp add: record_digest_collision_def)
  have "length (filter ?g (rp_fallback P)) = length (filter (\<lambda>c. ca_model c \<noteq> ca_model chosen) (filter ?f (rp_fallback P)))"
    by (simp add: g conj_commute)
  also have "\<dots> < length (filter ?f (rp_fallback P))"
    by (rule length_filter_less [of chosen]) (use c in auto)
  finally show ?case by simp
qed simp

declare claim_loop.simps [simp del]

definition claim_next ::
  "rotation_policy \<Rightarrow> agent_name \<Rightarrow> registry \<Rightarrow> rotation_state
     \<Rightarrow> candidate option \<times> registry \<times> rotation_state" where
  "claim_next P a R st = claim_loop P a R (st\<lparr> rs_digest_collisions := (\<lambda>_. None) \<rparr>)"

section \<open>The slot guard\<close>

text \<open>What the guard of a seat does when its task ends, by success, failure, panic or cancellation:
  nothing when the seat succeeded or was released, otherwise it releases the slot (at once, or
  as soon as the lock is free).\<close>

record slot_guard =
  sg_agent :: agent_name
  sg_succeeded :: bool
  sg_released :: bool

definition guard_new :: "agent_name \<Rightarrow> slot_guard" where
  "guard_new a = \<lparr> sg_agent = a, sg_succeeded = False, sg_released = False \<rparr>"

definition mark_succeeded :: "slot_guard \<Rightarrow> slot_guard" where
  "mark_succeeded g = g\<lparr> sg_succeeded := True \<rparr>"

definition mark_released :: "slot_guard \<Rightarrow> slot_guard" where
  "mark_released g = g\<lparr> sg_released := True \<rparr>"

definition guard_drop :: "slot_guard \<Rightarrow> registry \<Rightarrow> registry" where
  "guard_drop g R = (if sg_succeeded g \<or> sg_released g then R else release (sg_agent g) R)"

section \<open>What claiming guarantees\<close>

definition clash :: "rotation_policy \<Rightarrow> agent_name \<Rightarrow> registry \<Rightarrow> model \<Rightarrow> bool" where
  "clash P a R m \<longleftrightarrow> digest_of P m \<noteq> None \<and>
     (\<exists>b e. b \<noteq> a \<and> rg_active R b = Some e \<and> digest_of P (ae_model e) = digest_of P m)"

lemma head_collides_clash: "head_collides (digest_of P m # other_digests P a R) \<longleftrightarrow> clash P a R m"
proof -
  have "head_collides (d # ds) \<longleftrightarrow> d \<noteq> None \<and> d \<in> set ds" for d ds
    using digest_collision_head [of d ds] by (auto simp: head_collides_def split: option.splits)
  then show ?thesis
    by (force simp: clash_def other_digests_def image_iff dom_def)
qed

text \<open>Admissible for the seat right now: eligible by the policy, and no proven digest collision.\<close>

definition admissible :: "rotation_policy \<Rightarrow> agent_name \<Rightarrow> registry \<Rightarrow> rotation_state \<Rightarrow> candidate \<Rightarrow> bool" where
  "admissible P a R st c \<longleftrightarrow>
     rs_rotations_done st < rp_max_rotations P
     \<and> eligible P (rs_failed_lineages st) (rg_run_failed R) (lineages_in_play a R) (rs_used st) (\<lambda>_. None) c
     \<and> \<not> clash P a R (ca_model c)"

lemma claim_loop_result:
  assumes "claim_loop P a R st = (r, R', st')"
  shows "(case r of
        Some c \<Rightarrow> c \<in> set (rp_fallback P) \<and> admissible P a R st c
          \<and> R' = R\<lparr> rg_active := (rg_active R)(a \<mapsto> entry_of c) \<rparr>
      | None \<Rightarrow> R' = R \<and> ((\<forall>m. rs_digest_collisions st m \<noteq> None \<longrightarrow> clash P a R m) \<longrightarrow>
          (\<forall>c\<in>set (rp_fallback P). \<not> admissible P a R st c)))
    \<and> rs_failed_lineages st' = rs_failed_lineages st \<and> rs_used st' = rs_used st
    \<and> rs_rotations_done st' = rs_rotations_done st \<and> rs_chain st' = rs_chain st
    \<and> rs_model_used st' = rs_model_used st \<and> rs_model_configured st' = rs_model_configured st"
  using assms
proof (induction P a R st rule: claim_loop.induct)
  case (1 P a R st)
  let ?n = "next_model P (rs_failed_lineages st) (rg_run_failed R) (lineages_in_play a R)
      (rs_used st) (rs_digest_collisions st) (rs_rotations_done st)"
  show ?case
  proof (cases ?n)
    case None
    then have "\<not> admissible P a R st c" if "c \<in> set (rp_fallback P)"
      "\<forall>m. rs_digest_collisions st m \<noteq> None \<longrightarrow> clash P a R m" for c
      using that by (auto simp: next_model_None admissible_def eligible_def)
    with None "1.prems" show ?thesis
      by (auto simp: claim_loop.simps [of P] Let_def record_degenerate_pool_def split: if_splits)
  next
    case (Some chosen)
    have el: "rs_rotations_done st < rp_max_rotations P" "chosen \<in> set (rp_fallback P)"
      "eligible P (rs_failed_lineages st) (rg_run_failed R) (lineages_in_play a R) (rs_used st)
         (rs_digest_collisions st) chosen"
      using next_model_Some [OF Some] by blast+
    show ?thesis
    proof (cases "clash P a R (ca_model chosen)")
      case False
      have "claim_loop P a R st = (Some chosen, R\<lparr> rg_active := (rg_active R)(a \<mapsto> entry_of chosen) \<rparr>, st)"
        by (subst claim_loop.simps) (simp add: Some head_collides_clash False)
      with "1.prems" have eqs: "r = Some chosen"
        "R' = R\<lparr> rg_active := (rg_active R)(a \<mapsto> entry_of chosen) \<rparr>" "st' = st" by simp_all
      have "admissible P a R st chosen" using el False by (simp add: admissible_def eligible_def)
      with el(2) show ?thesis by (simp add: eqs)
    next
      case True
      let ?st = "record_digest_collision (ca_model chosen) st"
      have rec: "claim_loop P a R ?st = (r, R', st')"
        using Some True "1.prems" by (simp add: claim_loop.simps [of P a R st] head_collides_clash)
      have adm: "admissible P a R ?st c \<longleftrightarrow> admissible P a R st c" for c
        by (simp add: admissible_def record_digest_collision_def)
      have col: "(\<forall>m. rs_digest_collisions st m \<noteq> None \<longrightarrow> clash P a R m) \<Longrightarrow>
          (\<forall>m. rs_digest_collisions ?st m \<noteq> None \<longrightarrow> clash P a R m)"
        using True by (simp add: record_digest_collision_def)
      from "1.IH" [OF Some _ rec] True show ?thesis
        unfolding adm head_collides_clash using col
        by (auto simp: record_digest_collision_def split: option.splits)
    qed
  qed
qed

lemma claim_next_Some:
  assumes "claim_next P a R st = (Some c, R', st')"
  shows "c \<in> set (rp_fallback P)" "admissible P a R st c"
    "R' = R\<lparr> rg_active := (rg_active R)(a \<mapsto> entry_of c) \<rparr>"
  using claim_loop_result [of P a R "st\<lparr> rs_digest_collisions := (\<lambda>_. None) \<rparr>"] assms
  by (auto simp: claim_next_def admissible_def)

lemma claim_next_None:
  assumes "claim_next P a R st = (None, R', st')"
  shows "R' = R" "c \<in> set (rp_fallback P) \<Longrightarrow> \<not> admissible P a R st c"
  using claim_loop_result [of P a R "st\<lparr> rs_digest_collisions := (\<lambda>_. None) \<rparr>"] assms
  by (auto simp: claim_next_def admissible_def)

lemma claim_next_state:
  assumes "claim_next P a R st = (r, R', st')"
  shows "rs_failed_lineages st' = rs_failed_lineages st" "rs_used st' = rs_used st"
    "rs_rotations_done st' = rs_rotations_done st" "rs_chain st' = rs_chain st"
    "rs_model_used st' = rs_model_used st" "rs_model_configured st' = rs_model_configured st"
  using claim_loop_result [of P a R "st\<lparr> rs_digest_collisions := (\<lambda>_. None) \<rparr>"] assms
  by (auto simp: claim_next_def)

section \<open>Interleavings\<close>

inductive registry_step :: "rotation_policy \<Rightarrow> registry \<Rightarrow> registry \<Rightarrow> bool" for P where
  claim: "claim_next P a R st = (r, R', st') \<Longrightarrow> registry_step P R R'"
| transport: "register_transport_failure l connection R = (fired, R') \<Longrightarrow> registry_step P R R'"
| release: "registry_step P R (release a R)"
| drop: "registry_step P R (guard_drop g R)"
| defect: "latch_crate_defect d R = (won, R') \<Longrightarrow> registry_step P R R'"

inductive_cases registry_stepE: "registry_step P R R'"

inductive reachable :: "rotation_policy \<Rightarrow> registry \<Rightarrow> registry \<Rightarrow> bool" for P R0 where
  start: "reachable P R0 R0"
| step: "reachable P R0 R \<Longrightarrow> registry_step P R R' \<Longrightarrow> reachable P R0 R'"

lemma transport_fields:
  assumes "register_transport_failure l connection R = (fired, R')"
  shows "rg_active R' = rg_active R" "rg_run_failed R' = insert l (rg_run_failed R)"
    "rg_crate_defect R' = rg_crate_defect R"
  using assms by (auto simp: register_transport_failure_def Let_def split: if_splits)

lemma latch_fields:
  assumes "latch_crate_defect d R = (won, R')"
  shows "rg_active R' = rg_active R" "rg_run_failed R' = rg_run_failed R"
    "rg_connection_failed R' = rg_connection_failed R"
    "rg_endpoint_down_signalled R' = rg_endpoint_down_signalled R"
  using assms by (auto simp: latch_crate_defect_def split: option.splits)

text \<open>The contract of the seats: a step touches one seat, and what that seat shows afterwards is what
  it showed before, nothing, or something no other seat shows.\<close>

locale seat_pool =
  fixes view :: "'r \<Rightarrow> agent_name \<Rightarrow> 'v option"
    and step :: "'r \<Rightarrow> 'r \<Rightarrow> bool"
  assumes frame: "step r r' \<Longrightarrow> \<exists>a. (\<forall>b. b \<noteq> a \<longrightarrow> view r' b = view r b)
      \<and> (view r' a = view r a \<or> view r' a = None \<or> (\<forall>b. b \<noteq> a \<longrightarrow> view r b \<noteq> view r' a))"
begin

lemma step_exclusive:
  assumes "step r r'" "\<And>a b. a \<noteq> b \<Longrightarrow> view r a \<noteq> None \<Longrightarrow> view r a \<noteq> view r b"
    and "a \<noteq> b" "view r' a \<noteq> None"
  shows "view r' a \<noteq> view r' b"
proof -
  obtain c where c: "\<And>b. b \<noteq> c \<Longrightarrow> view r' b = view r b"
    "view r' c = view r c \<or> view r' c = None \<or> (\<forall>b. b \<noteq> c \<longrightarrow> view r b \<noteq> view r' c)"
    using frame [OF assms(1)] by blast
  consider "a = c" | "b = c" | "a \<noteq> c" "b \<noteq> c" by blast
  then show ?thesis
  proof cases
    case 1
    then show ?thesis using c assms(2-4) by metis
  next
    case 2
    then show ?thesis using c assms(2-4) by metis
  next
    case 3
    then show ?thesis using c(1) assms(2-4) by metis
  qed
qed

lemma steps_exclusive:
  assumes "step\<^sup>*\<^sup>* r r'" "\<And>a b. a \<noteq> b \<Longrightarrow> view r a \<noteq> None \<Longrightarrow> view r a \<noteq> view r b"
    and "a \<noteq> b" "view r' a \<noteq> None"
  shows "view r' a \<noteq> view r' b"
  using assms(1,3,4)
proof (induction arbitrary: a b rule: rtranclp_induct)
  case base
  then show ?case using assms(2) by blast
next
  case (step y z)
  show ?case by (rule step_exclusive [OF step.hyps(2) step.IH step.prems])
qed

end

definition lineage_view :: "registry \<Rightarrow> agent_name \<Rightarrow> lineage option" where
  "lineage_view R a = map_option ae_lineage (rg_active R a)"

definition digest_view :: "rotation_policy \<Rightarrow> registry \<Rightarrow> agent_name \<Rightarrow> ustr option" where
  "digest_view P R a = (case rg_active R a of Some e \<Rightarrow> digest_of P (ae_model e) | None \<Rightarrow> None)"

text \<open>Every step leaves the seats alone, empties one seat, or gives one seat an admissible candidate.\<close>

lemma registry_step_active:
  assumes "registry_step P R R'"
  shows "rg_active R' = rg_active R
    \<or> (\<exists>a. rg_active R' = (rg_active R)(a := None))
    \<or> (\<exists>a c st. rg_active R' = (rg_active R)(a \<mapsto> entry_of c) \<and> admissible P a R st c)"
  using assms
proof (induction rule: registry_step.induct)
  case (claim a R st r R' st')
  then show ?case
  proof (cases r)
    case None
    with claim claim_next_None(1) show ?thesis by blast
  next
    case (Some c)
    with claim have "claim_next P a R st = (Some c, R', st')" by simp
    from claim_next_Some [OF this] show ?thesis by auto
  qed
next
  case (transport l connection R fired R')
  with transport_fields(1) show ?case by blast
next
  case (release R a)
  then show ?case by (auto simp: release_def)
next
  case (drop R g)
  then show ?case by (auto simp: guard_drop_def release_def)
next
  case (defect d R won R')
  with latch_fields(1) show ?case by blast
qed

lemma admissible_fresh:
  assumes "admissible P a R st c" "b \<noteq> a"
  shows "lineage_view R b \<noteq> Some (ca_lineage c)"
    "digest_of P (ca_model c) \<noteq> None \<Longrightarrow> digest_view P R b \<noteq> digest_of P (ca_model c)"
  using assms by (auto simp: admissible_def eligible_def lineages_in_play_def lineage_view_def
      digest_view_def clash_def split: option.splits)

interpretation lineages: seat_pool lineage_view "registry_step P" for P
proof
  fix R R' assume "registry_step P R R'"
  from registry_step_active [OF this] show "\<exists>a. (\<forall>b. b \<noteq> a \<longrightarrow> lineage_view R' b = lineage_view R b)
      \<and> (lineage_view R' a = lineage_view R a \<or> lineage_view R' a = None
         \<or> (\<forall>b. b \<noteq> a \<longrightarrow> lineage_view R b \<noteq> lineage_view R' a))"
  proof (elim disjE exE conjE)
    fix a c st assume c: "rg_active R' = (rg_active R)(a \<mapsto> entry_of c)" "admissible P a R st c"
    have "lineage_view R b \<noteq> lineage_view R' a" if "b \<noteq> a" for b
      using admissible_fresh(1) [OF c(2) that] by (simp add: lineage_view_def c(1) entry_of_def)
    then show ?thesis by (intro exI [of _ a]) (simp add: lineage_view_def c(1))
  qed (auto simp: lineage_view_def)
qed

interpretation digests: seat_pool "digest_view P" "registry_step P" for P
proof
  fix R R' assume "registry_step P R R'"
  from registry_step_active [OF this] show "\<exists>a. (\<forall>b. b \<noteq> a \<longrightarrow> digest_view P R' b = digest_view P R b)
      \<and> (digest_view P R' a = digest_view P R a \<or> digest_view P R' a = None
         \<or> (\<forall>b. b \<noteq> a \<longrightarrow> digest_view P R b \<noteq> digest_view P R' a))"
  proof (elim disjE exE conjE)
    fix a c st assume c: "rg_active R' = (rg_active R)(a \<mapsto> entry_of c)" "admissible P a R st c"
    have v: "digest_view P R' a = digest_of P (ca_model c)" by (simp add: digest_view_def c(1) entry_of_def)
    have fr: "digest_view P R' a = None \<or> (\<forall>b. b \<noteq> a \<longrightarrow> digest_view P R b \<noteq> digest_view P R' a)"
      using admissible_fresh(2) [OF c(2)] by (auto simp: v)
    have same: "\<forall>b. b \<noteq> a \<longrightarrow> digest_view P R' b = digest_view P R b"
      by (simp add: digest_view_def c(1))
    from fr same show ?thesis by blast
  qed (auto simp: digest_view_def)
qed

lemma reachable_steps: "reachable P R0 R \<longleftrightarrow> (registry_step P)\<^sup>*\<^sup>* R0 R"
proof
  assume "reachable P R0 R"
  then show "(registry_step P)\<^sup>*\<^sup>* R0 R" by induction auto
next
  assume "(registry_step P)\<^sup>*\<^sup>* R0 R"
  then show "reachable P R0 R" by induction (auto intro: reachable.intros)
qed

text \<open>What a run only ever adds to.\<close>

definition grows :: "registry \<Rightarrow> registry \<Rightarrow> bool" where
  "grows R R' \<longleftrightarrow> rg_run_failed R \<subseteq> rg_run_failed R' \<and> rg_connection_failed R \<subseteq> rg_connection_failed R'
     \<and> (rg_endpoint_down_signalled R \<longrightarrow> rg_endpoint_down_signalled R')
     \<and> (\<forall>d. rg_crate_defect R = Some d \<longrightarrow> rg_crate_defect R' = Some d)"

lemma registry_step_grows: "registry_step P R R' \<Longrightarrow> grows R R'"
proof (induction rule: registry_step.induct)
  case (claim a R st r R' st')
  then show ?case using claim_next_None(1) [of P a R st R' st'] claim_next_Some(3) [of P a R st _ R' st']
    by (cases r) (auto simp: grows_def)
next
  case (transport l connection R fired R')
  then show ?case by (auto simp: grows_def register_transport_failure_def Let_def split: if_splits)
next
  case (defect d R won R')
  then show ?case by (auto simp: grows_def latch_crate_defect_def split: option.splits)
qed (auto simp: grows_def release_def guard_drop_def)

lemma reachable_grows: "reachable P R0 R \<Longrightarrow> grows R0 R"
proof (induction rule: reachable.induct)
  case (step R R')
  then show ?case using registry_step_grows [of P R R'] unfolding grows_def by blast
qed (simp add: grows_def)

section \<open>Claiming is a search for the first admissible candidate\<close>

lemma find_first:
  assumes "find P xs = Some x" "Q x" "\<And>y. y \<in> set xs \<Longrightarrow> Q y \<Longrightarrow> P y"
  shows "find Q xs = Some x"
  using assms by (induction xs) (auto split: if_splits)

lemma claim_loop_find:
  assumes "\<And>m. rs_digest_collisions st m \<noteq> None \<Longrightarrow> clash P a R m"
  shows "fst (claim_loop P a R st) = find (admissible P a R st) (rp_fallback P)"
  using assms
proof (induction P a R st rule: claim_loop.induct)
  case (1 P a R st)
  let ?n = "next_model P (rs_failed_lineages st) (rg_run_failed R) (lineages_in_play a R)
      (rs_used st) (rs_digest_collisions st) (rs_rotations_done st)"
  show ?case
  proof (cases ?n)
    case None
    then have "find (admissible P a R st) (rp_fallback P) = None"
      using "1.prems" by (auto simp: find_None_iff_all next_model_None admissible_def eligible_def)
    with None show ?thesis by (simp add: claim_loop.simps [of P] Let_def)
  next
    case (Some chosen)
    show ?thesis
    proof (cases "clash P a R (ca_model chosen)")
      case False
      have none: "rs_digest_collisions st m = None" if "\<not> clash P a R m" for m
        using "1.prems" [of m] that by blast
      have el: "rs_rotations_done st < rp_max_rotations P"
        "find (eligible P (rs_failed_lineages st) (rg_run_failed R) (lineages_in_play a R) (rs_used st)
           (rs_digest_collisions st)) (rp_fallback P) = Some chosen"
        "eligible P (rs_failed_lineages st) (rg_run_failed R) (lineages_in_play a R) (rs_used st)
           (rs_digest_collisions st) chosen"
        using Some next_model_Some [OF Some] by (auto simp: next_model_eq split: if_splits)
      have "find (admissible P a R st) (rp_fallback P) = Some chosen"
        by (rule find_first [OF el(2)]) (use el(1,3) False none in \<open>auto simp: admissible_def eligible_def\<close>)
      moreover have "claim_loop P a R st = (Some chosen, R\<lparr> rg_active := (rg_active R)(a \<mapsto> entry_of chosen) \<rparr>, st)"
        by (subst claim_loop.simps) (simp add: Some head_collides_clash False)
      ultimately show ?thesis by simp
    next
      case True
      let ?st = "record_digest_collision (ca_model chosen) st"
      have "claim_loop P a R st = claim_loop P a R ?st"
        by (subst claim_loop.simps) (simp add: Some head_collides_clash True)
      moreover have "fst (claim_loop P a R ?st) = find (admissible P a R ?st) (rp_fallback P)"
      proof (rule "1.IH" [OF Some])
        show "head_collides (digest_of P (ca_model chosen) # other_digests P a R)"
          by (simp add: head_collides_clash True)
        fix m assume "rs_digest_collisions ?st m \<noteq> None"
        then show "clash P a R m"
          using "1.prems" [of m] True by (auto simp: record_digest_collision_def split: if_splits)
      qed
      moreover have "admissible P a R ?st = admissible P a R st"
        by (simp add: fun_eq_iff admissible_def record_digest_collision_def)
      ultimately show ?thesis by simp
    qed
  qed
qed

lemma claim_next_find: "fst (claim_next P a R st) = find (admissible P a R st) (rp_fallback P)"
proof -
  have "admissible P a R (st\<lparr> rs_digest_collisions := (\<lambda>_. None) \<rparr>) = admissible P a R st"
    by (simp add: fun_eq_iff admissible_def)
  moreover have "fst (claim_loop P a R (st\<lparr> rs_digest_collisions := (\<lambda>_. None) \<rparr>)) =
      find (admissible P a R (st\<lparr> rs_digest_collisions := (\<lambda>_. None) \<rparr>)) (rp_fallback P)"
    by (rule claim_loop_find) simp
  ultimately show ?thesis by (simp add: claim_next_def)
qed

lemma claim_next_registry:
  "fst (snd (claim_next P a R st)) =
     (case fst (claim_next P a R st) of
        Some c \<Rightarrow> R\<lparr> rg_active := (rg_active R)(a \<mapsto> entry_of c) \<rparr> | None \<Rightarrow> R)"
proof -
  obtain r R' st' where e: "claim_next P a R st = (r, R', st')" by (cases "claim_next P a R st")
  show ?thesis
    using claim_next_None(1) [of P a R st R' st'] claim_next_Some(3) [of P a R st _ R' st']
    by (cases r) (simp_all add: e)
qed

text \<open>C7: the claim loop, with its restarts after each digest collision, always terminates and grants
  exactly the first candidate of the pool that is admissible for the seat (budget left; lineage not
  held by another mage, not failed here, not condemned for the run; model unused; window admitted;
  digest not shared with a live mage); it registers that candidate in the seat's own slot and nowhere
  else, and leaves the registry untouched when no candidate is admissible.\<close>

theorem claim_next_exact:
  "fst (claim_next P a R st) = find (admissible P a R st) (rp_fallback P)
   \<and> fst (snd (claim_next P a R st)) =
       (case find (admissible P a R st) (rp_fallback P) of
          Some c \<Rightarrow> R\<lparr> rg_active := (rg_active R)(a \<mapsto> entry_of c) \<rparr> | None \<Rightarrow> R)
   \<and> rs_failed_lineages (snd (snd (claim_next P a R st))) = rs_failed_lineages st
   \<and> rs_used (snd (snd (claim_next P a R st))) = rs_used st
   \<and> rs_rotations_done (snd (snd (claim_next P a R st))) = rs_rotations_done st
   \<and> rs_chain (snd (snd (claim_next P a R st))) = rs_chain st"
proof -
  obtain r R' st' where e: "claim_next P a R st = (r, R', st')" by (cases "claim_next P a R st")
  show ?thesis
    using claim_next_find [of P a R st] claim_next_registry [of P a R st] claim_next_state [OF e]
    by (simp add: e)
qed

section \<open>What holds along every interleaving\<close>

definition seats_distinct :: "(agent_name \<rightharpoonup> active_entry) \<Rightarrow> bool" where
  "seats_distinct seats \<longleftrightarrow>
     (\<forall>a b e e'. a \<noteq> b \<longrightarrow> seats a = Some e \<longrightarrow> seats b = Some e' \<longrightarrow> ae_lineage e \<noteq> ae_lineage e')"

definition digests_distinct :: "rotation_policy \<Rightarrow> (agent_name \<rightharpoonup> active_entry) \<Rightarrow> bool" where
  "digests_distinct P seats \<longleftrightarrow>
     (\<forall>a b e e' d. a \<noteq> b \<longrightarrow> seats a = Some e \<longrightarrow> seats b = Some e'
        \<longrightarrow> digest_of P (ae_model e) = Some d \<longrightarrow> digest_of P (ae_model e') \<noteq> Some d)"

lemma seats_distinct_view:
  "seats_distinct (rg_active R) \<longleftrightarrow>
     (\<forall>a b. a \<noteq> b \<longrightarrow> lineage_view R a \<noteq> None \<longrightarrow> lineage_view R a \<noteq> lineage_view R b)"
proof -
  have v: "lineage_view R a = Some l \<longleftrightarrow> (\<exists>e. rg_active R a = Some e \<and> ae_lineage e = l)" for a l
    by (simp add: lineage_view_def)
  have "(lineage_view R a \<noteq> None \<longrightarrow> lineage_view R a \<noteq> lineage_view R b) \<longleftrightarrow>
      (\<forall>l. lineage_view R a = Some l \<longrightarrow> lineage_view R b \<noteq> Some l)" for a b
    by (cases "lineage_view R a") auto
  then show ?thesis unfolding seats_distinct_def v by metis
qed

lemma digests_distinct_view:
  "digests_distinct P (rg_active R) \<longleftrightarrow>
     (\<forall>a b. a \<noteq> b \<longrightarrow> digest_view P R a \<noteq> None \<longrightarrow> digest_view P R a \<noteq> digest_view P R b)"
proof -
  have v: "digest_view P R a = Some d \<longleftrightarrow> (\<exists>e. rg_active R a = Some e \<and> digest_of P (ae_model e) = Some d)" for a d
    by (simp add: digest_view_def split: option.split)
  have "(digest_view P R a \<noteq> None \<longrightarrow> digest_view P R a \<noteq> digest_view P R b) \<longleftrightarrow>
      (\<forall>d. digest_view P R a = Some d \<longrightarrow> digest_view P R b \<noteq> Some d)" for a b
    by (cases "digest_view P R a") auto
  then show ?thesis unfolding digests_distinct_def v by metis
qed

text \<open>C4: model diversity between live mages. If the seats of a run start on pairwise different
  lineages, then along every interleaving of claims, transport failures, releases, guard drops and
  crate-defect latches no two live mages ever hold the same lineage.\<close>

theorem live_lineages_distinct:
  assumes "seats_distinct seats" "reachable P (registry_new seats) R"
  shows "seats_distinct (rg_active R)"
proof -
  have "seats_distinct (rg_active (registry_new seats))" using assms(1) by (simp add: registry_new_def)
  then show ?thesis
    using lineages.steps_exclusive assms(2) unfolding seats_distinct_view reachable_steps by metis
qed

text \<open>the same for measured digests. If no two seats start on models whose digests are known and
  equal, no interleaving of the registry operations ever makes two live mages share a known digest,
  whatever the names the models go by.\<close>

theorem live_digests_distinct:
  assumes "digests_distinct P seats" "reachable P (registry_new seats) R"
  shows "digests_distinct P (rg_active R)"
proof -
  have "digests_distinct P (rg_active (registry_new seats))" using assms(1) by (simp add: registry_new_def)
  then show ?thesis
    using digests.steps_exclusive assms(2) unfolding digests_distinct_view reachable_steps by metis
qed

text \<open>the run-wide records only grow. Along every interleaving a condemned lineage stays condemned,
  a signalled endpoint stays signalled, and the first crate defect latched is never replaced.\<close>

theorem registry_latches:
  assumes "reachable P R0 R"
  shows "grows R0 R"
  using assms by (rule reachable_grows)

section \<open>The endpoint-down signal\<close>

fun transport_run :: "(lineage \<times> bool) list \<Rightarrow> registry \<Rightarrow> bool list \<times> registry" where
  "transport_run [] R = ([], R)"
| "transport_run ((l, connection) # fs) R =
     (let (fired, R1) = register_transport_failure l connection R; (rest, R2) = transport_run fs R1
      in (fired # rest, R2))"

definition connection_lineages :: "(lineage \<times> bool) list \<Rightarrow> lineage set" where
  "connection_lineages fs = {l. (l, True) \<in> set fs}"

definition endpoint_down :: "lineage set \<Rightarrow> bool" where
  "endpoint_down ls \<longleftrightarrow> card ls \<ge> ENDPOINT_DOWN_LINEAGE_THRESHOLD"

text \<open>The latch agrees with what it stands for.\<close>

definition latch_ok :: "registry \<Rightarrow> bool" where
  "latch_ok R \<longleftrightarrow> finite (rg_connection_failed R)
     \<and> (rg_endpoint_down_signalled R \<longleftrightarrow> endpoint_down (rg_connection_failed R))"

lemma connection_lineages_finite [simp]: "finite (connection_lineages fs)"
  by (rule finite_subset [of _ "fst ` set fs"]) (force simp: connection_lineages_def)+

lemma connection_lineages_simps [simp]:
  "connection_lineages [] = {}"
  "connection_lineages ((l, c) # fs) = (if c then insert l (connection_lineages fs) else connection_lineages fs)"
  by (auto simp: connection_lineages_def)

lemma endpoint_down_mono: "finite B \<Longrightarrow> A \<subseteq> B \<Longrightarrow> endpoint_down A \<Longrightarrow> endpoint_down B"
  using card_mono [of B A] by (auto simp: endpoint_down_def)

lemma transport_step:
  assumes "latch_ok R" "register_transport_failure l c R = (fired, R')"
  shows "latch_ok R'"
    "rg_connection_failed R' = (if c then insert l (rg_connection_failed R) else rg_connection_failed R)"
    "fired \<longleftrightarrow> endpoint_down (rg_connection_failed R') \<and> \<not> endpoint_down (rg_connection_failed R)"
  using assms endpoint_down_mono [of "insert l (rg_connection_failed R)" "rg_connection_failed R"]
  by (auto simp: register_transport_failure_def latch_ok_def Let_def endpoint_down_def split: if_splits)

lemma transport_run_exact:
  assumes "latch_ok R" "transport_run fs R = (fired, R')"
  shows "fired = map (\<lambda>i. endpoint_down (rg_connection_failed R \<union> connection_lineages (take (Suc i) fs))
           \<and> \<not> endpoint_down (rg_connection_failed R \<union> connection_lineages (take i fs))) [0..<length fs]
    \<and> rg_run_failed R' = rg_run_failed R \<union> fst ` set fs \<and> latch_ok R'
    \<and> rg_connection_failed R' = rg_connection_failed R \<union> connection_lineages fs
    \<and> rg_active R' = rg_active R"
  using assms
proof (induction fs R arbitrary: fired R' rule: transport_run.induct)
  case (1 R)
  then show ?case by simp
next
  case (2 l c fs R)
  obtain f R1 where e1: "register_transport_failure l c R = (f, R1)" by (cases "register_transport_failure l c R")
  obtain rest R2 where e2: "transport_run fs R1 = (rest, R2)" by (cases "transport_run fs R1")
  have eqs: "fired = f # rest" "R' = R2" using 2 by (simp_all add: e1 e2)
  note st = transport_step [OF "2.prems"(1) e1] transport_fields [OF e1]
  have un: "rg_connection_failed R1 \<union> connection_lineages gs = rg_connection_failed R \<union> connection_lineages ((l, c) # gs)" for gs
    using st(2) by simp
  have ih: "rest = map (\<lambda>i. endpoint_down (rg_connection_failed R1 \<union> connection_lineages (take (Suc i) fs))
           \<and> \<not> endpoint_down (rg_connection_failed R1 \<union> connection_lineages (take i fs))) [0..<length fs]"
    "rg_run_failed R2 = rg_run_failed R1 \<union> fst ` set fs" "latch_ok R2"
    "rg_connection_failed R2 = rg_connection_failed R1 \<union> connection_lineages fs" "rg_active R2 = rg_active R1"
    using "2.IH" [OF e1 [symmetric] HOL.refl st(1) e2] by blast+
  have head: "f \<longleftrightarrow> endpoint_down (rg_connection_failed R \<union> connection_lineages (take (Suc 0) ((l, c) # fs)))
      \<and> \<not> endpoint_down (rg_connection_failed R \<union> connection_lineages (take 0 ((l, c) # fs)))"
    using st(2,3) un [of "[]"] by simp
  have "fired = map (\<lambda>i. endpoint_down (rg_connection_failed R \<union> connection_lineages (take (Suc i) ((l, c) # fs)))
           \<and> \<not> endpoint_down (rg_connection_failed R \<union> connection_lineages (take i ((l, c) # fs)))) [0..<length ((l, c) # fs)]"
    unfolding eqs(1) list.size(4) map_upt_Suc add_Suc_right add_0_right ih(1) un take_Suc_Cons [symmetric] head ..
  with ih st show ?case by (simp add: eqs)
qed

text \<open>the endpoint-down signal. Over any sequence of transport failures reported to the registry of
  a run, the report that returns true is exactly the one that raises the number of distinct lineages
  with connection failures from below two to two, so the signal fires at most once, and never for
  failures that are not connection failures or repeat one lineage; every reported lineage is
  condemned for the run, and no seat moves.\<close>

theorem endpoint_down_once:
  "fst (transport_run fs (registry_new seats)) =
     map (\<lambda>i. card (connection_lineages (take (Suc i) fs)) \<ge> 2
          \<and> card (connection_lineages (take i fs)) < 2) [0..<length fs]
   \<and> rg_run_failed (snd (transport_run fs (registry_new seats))) = fst ` set fs
   \<and> (rg_endpoint_down_signalled (snd (transport_run fs (registry_new seats)))
        \<longleftrightarrow> card (connection_lineages fs) \<ge> 2)
   \<and> rg_active (snd (transport_run fs (registry_new seats))) = seats"
proof -
  obtain fired R' where e: "transport_run fs (registry_new seats) = (fired, R')"
    by (cases "transport_run fs (registry_new seats)")
  have "latch_ok (registry_new seats)"
    by (simp add: latch_ok_def registry_new_def endpoint_down_def ENDPOINT_DOWN_LINEAGE_THRESHOLD_def)
  from transport_run_exact [OF this e] show ?thesis
    unfolding e fst_conv snd_conv
    by (simp add: registry_new_def latch_ok_def endpoint_down_def ENDPOINT_DOWN_LINEAGE_THRESHOLD_def not_le)
qed

section \<open>The eligibility snapshot agrees with the claim\<close>

text \<open>The inputs assembled for the snapshot of a seat agree with the policy, the registry and the
  state of the mage: either its progress is recorded, or it has made none, as at the start of a run,
  when the orchestrator takes the snapshot.\<close>

definition snapshot_inputs ::
  "eligibility_inputs \<Rightarrow> rotation_policy \<Rightarrow> registry \<Rightarrow> agent_name \<Rightarrow> active_entry \<Rightarrow> rotation_state \<Rightarrow> bool" where
  "snapshot_inputs I P R a entry st \<longleftrightarrow>
     ei_seats I = rg_active R \<and> ei_run_failed I = rg_run_failed R
     \<and> ei_capabilities I = rp_capabilities P \<and> ei_max_rotations I = rp_max_rotations P
     \<and> ei_min_window_tokens I = rp_min_window_tokens P
     \<and> ei_strict_context_guard I = rp_strict_context_guard P
     \<and> (ei_progress I a = Some \<lparr> sp_failed_lineages = rs_failed_lineages st,
          sp_used_models = Some (rs_used st), sp_digest_collisions = dom (rs_digest_collisions st),
          sp_rotations_done = rs_rotations_done st \<rparr>
        \<or> ei_progress I a = None \<and> rs_failed_lineages st = {} \<and> rs_used st = {ae_model entry}
          \<and> rs_digest_collisions st = (\<lambda>_. None) \<and> rs_rotations_done st = 0)"

definition candidate_of :: "fallback_candidate \<Rightarrow> nat \<Rightarrow> candidate" where
  "candidate_of c i = \<lparr> ca_provider_ix = i, ca_lineage = fc_lineage c, ca_model = fc_model c \<rparr>"

lemma held_by_other:
  "list_ex (\<lambda>other. other \<noteq> seat \<and>
       (case seats other of Some e \<Rightarrow> ae_lineage e = l | None \<Rightarrow> False)) agents_asc
   \<longleftrightarrow> (\<exists>b e. b \<noteq> seat \<and> seats b = Some e \<and> ae_lineage e = l)"
  by (fastforce simp: list_ex_iff split: option.splits)

lemma fresh_progress [simp]:
  "sp_failed_lineages seat_progress_default = {}" "sp_used_models seat_progress_default = None"
  "sp_digest_collisions seat_progress_default = {}" "sp_rotations_done seat_progress_default = 0"
  by (simp_all add: seat_progress_default_def)

lemma no_causes:
  assumes "snapshot_inputs I P R a entry st"
  shows "eligibility_causes I a entry c = [] \<longleftrightarrow>
    rs_rotations_done st < rp_max_rotations P
    \<and> eligible P (rs_failed_lineages st) (rg_run_failed R) (lineages_in_play a R)
        (rs_used st) (rs_digest_collisions st) (candidate_of c i)"
proof -
  have w: "window_admits P m \<longleftrightarrow>
      (case window_of (ei_capabilities I) m of
              Some w \<Rightarrow> if w < ei_min_window_tokens I
                        then [WindowBelowCoarseEstimate w (ei_min_window_tokens I)] else []
            | None \<Rightarrow> if ei_strict_context_guard I then [WindowUnmeasuredUnderStrictGuard] else []) = []" for m
    using assms by (auto simp: snapshot_inputs_def window_admits_def window_ok_def split: option.splits)
  show ?thesis
    using assms unfolding eligibility_causes_def eligible_def Let_def append_is_Nil_conv w held_by_other
    by (auto simp: snapshot_inputs_def candidate_of_def lineages_in_play_def domIff not_le split: if_splits)
qed


section \<open>A run with one rotation\<close>

definition sample_seats :: "agent_name \<rightharpoonup> active_entry" where
  "sample_seats = [Balthasar \<mapsto> \<lparr> ae_lineage = asc ''a'', ae_model = asc ''ma'' \<rparr>,
     Melchior \<mapsto> \<lparr> ae_lineage = asc ''b'', ae_model = asc ''mb'' \<rparr>]"

definition sample_policy :: rotation_policy where
  "sample_policy = \<lparr> rp_fallback = [candidate_of \<lparr> fc_model = asc ''mb2'', fc_lineage = asc ''b2'', fc_probe = None \<rparr> 0,
       candidate_of \<lparr> fc_model = asc ''mc'', fc_lineage = asc ''c'', fc_probe = None \<rparr> 1],
     rp_max_rotations = 2,
     rp_capabilities = [asc ''mb'' \<mapsto> \<lparr> mc_window = Some 9, mc_digest = Some (asc ''d''), mc_supports_completion = True \<rparr>,
       asc ''mb2'' \<mapsto> \<lparr> mc_window = Some 9, mc_digest = Some (asc ''d''), mc_supports_completion = True \<rparr>],
     rp_strict_context_guard = False, rp_min_window_tokens = 4 \<rparr>"

definition sample_pool :: fallback_pool where
  "sample_pool = pool_push (asc ''mc'') (asc ''c'') (pool_push (asc ''mb2'') (asc ''b2'') pool_builder)"

definition sample_inputs :: eligibility_inputs where
  "sample_inputs = \<lparr> ei_seats = sample_seats,
     ei_progress = (\<lambda>_. None),
     ei_run_failed = {}, ei_capabilities = rp_capabilities sample_policy,
     ei_candidates = fp_candidates sample_pool, ei_max_rotations = 2, ei_min_window_tokens = 4,
     ei_strict_context_guard = False \<rparr>"

text \<open>The first candidate carries the digest of a live mage, so the claim goes to the second.\<close>

lemma sample_claim:
  "fst (claim_next sample_policy Balthasar (registry_new sample_seats) (rotation_state_new (asc ''ma'')))
     = Some (candidate_of \<lparr> fc_model = asc ''mc'', fc_lineage = asc ''c'', fc_probe = None \<rparr> 1)"
proof -
  let ?p = sample_policy and ?R = "registry_new sample_seats" and ?st = "rotation_state_new (asc ''ma'')"
  have live: "rg_active ?R b = Some e \<longleftrightarrow>
      b = Balthasar \<and> e = \<lparr> ae_lineage = asc ''a'', ae_model = asc ''ma'' \<rparr>
      \<or> b = Melchior \<and> e = \<lparr> ae_lineage = asc ''b'', ae_model = asc ''mb'' \<rparr>" for b e
    by (auto simp: registry_new_def sample_seats_def)
  have play: "lineages_in_play Balthasar ?R = {asc ''b''}" unfolding lineages_in_play_def live by auto
  have clash1: "clash ?p Balthasar ?R (asc ''mb2'')"
    unfolding clash_def live digest_of_def digest_in_def sample_policy_def
    by (intro conjI exI [of _ Melchior] exI [of _ "\<lparr> ae_lineage = asc ''b'', ae_model = asc ''mb'' \<rparr>"]) simp_all
  have clash2: "\<not> clash ?p Balthasar ?R (asc ''mc'')"
    by (simp add: clash_def digest_of_def digest_in_def sample_policy_def)
  have rf: "rg_run_failed ?R = {}" by (simp add: registry_new_def)
  have pol: "rp_max_rotations ?p = 2" "window_admits ?p (asc ''mc'')"
    "rp_fallback ?p = [candidate_of \<lparr> fc_model = asc ''mb2'', fc_lineage = asc ''b2'', fc_probe = None \<rparr> 0,
       candidate_of \<lparr> fc_model = asc ''mc'', fc_lineage = asc ''c'', fc_probe = None \<rparr> 1]"
    by (simp_all add: sample_policy_def window_admits_def window_ok_def window_of_def)
  have "find (admissible ?p Balthasar ?R ?st) (rp_fallback ?p) =
      Some (candidate_of \<lparr> fc_model = asc ''mc'', fc_lineage = asc ''c'', fc_probe = None \<rparr> 1)"
    using clash1 clash2 rf pol by (simp add: admissible_def eligible_def candidate_of_def play rotation_state_new_def)
  then show ?thesis by (simp add: claim_next_find)
qed

lemma sample_claim_step:
  obtains R where "registry_step sample_policy (registry_new sample_seats) R"
    "rg_active R Balthasar = Some \<lparr> ae_lineage = asc ''c'', ae_model = asc ''mc'' \<rparr>"
proof -
  let ?c = "claim_next sample_policy Balthasar (registry_new sample_seats) (rotation_state_new (asc ''ma''))"
  have "registry_step sample_policy (registry_new sample_seats) (fst (snd ?c))"
    by (rule registry_step.claim [of _ Balthasar _ "rotation_state_new (asc ''ma'')" "fst ?c" _ "snd (snd ?c)"]) simp
  moreover have "rg_active (fst (snd ?c)) Balthasar = Some \<lparr> ae_lineage = asc ''c'', ae_model = asc ''mc'' \<rparr>"
    unfolding claim_next_registry sample_claim by (simp add: entry_of_def candidate_of_def)
  ultimately show ?thesis using that by blast
qed

theorem live_lineages_distinct_witness:
  "\<exists>R::registry. rg_active R Balthasar = Some \<lparr> ae_lineage = asc ''c'', ae_model = asc ''mc'' \<rparr> \<and> seats_distinct (rg_active R)"
proof -
  obtain R where R: "registry_step sample_policy (registry_new sample_seats) R"
    "rg_active R Balthasar = Some \<lparr> ae_lineage = asc ''c'', ae_model = asc ''mc'' \<rparr>"
    using sample_claim_step .
  have "seats_distinct (rg_active R)"
    by (rule live_lineages_distinct [OF _ reachable.step [OF reachable.start R(1)]])
      (auto simp: seats_distinct_def sample_seats_def split: if_splits)
  with R(2) show ?thesis by blast
qed

theorem live_digests_distinct_witness:
  "\<exists>R::registry. rg_active R Balthasar = Some \<lparr> ae_lineage = asc ''c'', ae_model = asc ''mc'' \<rparr>
     \<and> digests_distinct sample_policy (rg_active R)"
proof -
  obtain R where R: "registry_step sample_policy (registry_new sample_seats) R"
    "rg_active R Balthasar = Some \<lparr> ae_lineage = asc ''c'', ae_model = asc ''mc'' \<rparr>"
    using sample_claim_step .
  have "digests_distinct sample_policy (rg_active R)"
    by (rule live_digests_distinct [OF _ reachable.step [OF reachable.start R(1)]])
      (auto simp: digests_distinct_def sample_seats_def sample_policy_def digest_of_def digest_in_def
        split: if_splits)
  with R(2) show ?thesis by blast
qed

theorem registry_latches_witness:
  "grows (registry_new sample_seats) (snd (register_transport_failure (asc ''a'') True (registry_new sample_seats)))"
  by (rule registry_latches [of sample_policy])
    (rule reachable.step [OF reachable.start], rule registry_step.transport, rule prod.collapse [symmetric])


end
