(* ===== verification/Reporting.thy ===== *)
theory Reporting
  imports Consensus Parsing Registry
begin

text \<open>
  The report of a run (\<open>src/src/reporting.rs\<close>): the records a seat leaves of its completions
  and rejected answers, the configuration of the formatter and its check, the fixed-width
  banner and the sections of the report.
\<close>

section \<open>Records of a run\<close>

definition TOKENS_PER_BYTE_DIVISOR :: nat where "TOKENS_PER_BYTE_DIVISOR = 4"

definition estimate_tokens :: "ustr \<Rightarrow> nat" where
  "estimate_tokens content = utf8_len content div TOKENS_PER_BYTE_DIVISOR"

record input_size =
  is_estimated_tokens :: nat
  is_warn_threshold :: nat
  is_exceeded :: bool

record completion_record =
  co_model :: ustr
  co_cap :: nat
  co_finish :: "finish_reason option"
  co_completion_tokens :: "nat option"
  co_prompt_tokens :: "nat option"
  co_reasoning :: reasoning_state

definition record_new :: "ustr \<Rightarrow> nat \<Rightarrow> completion_record" where
  "record_new m cap = \<lparr> co_model = m, co_cap = cap, co_finish = None, co_completion_tokens = None,
     co_prompt_tokens = None, co_reasoning = NotMeasured \<rparr>"

definition from_telemetry :: "ustr \<Rightarrow> nat \<Rightarrow> telemetry \<Rightarrow> completion_record" where
  "from_telemetry m cap t =
     (let r0 = (record_new m cap)\<lparr> co_reasoning := tm_reasoning t \<rparr>;
          r1 = (case tm_finish t of Some f \<Rightarrow> r0\<lparr> co_finish := Some f \<rparr> | None \<Rightarrow> r0);
          r2 = (case tm_completion_tokens t of Some n \<Rightarrow> r1\<lparr> co_completion_tokens := Some n \<rparr> | None \<Rightarrow> r1)
      in (case tm_prompt_tokens t of Some n \<Rightarrow> r2\<lparr> co_prompt_tokens := Some n \<rparr> | None \<Rightarrow> r2))"

record extraction_failure =
  ef_model :: ustr
  ef_attempt :: nat
  ef_cause :: extraction_cause

fun cause_label :: "extraction_cause \<Rightarrow> ustr" where
  "cause_label MissingMarkers = asc ''missing markers''"
| "cause_label Unterminated = asc ''unterminated block''"
| "cause_label Ambiguous = asc ''ambiguous markers''"
| "cause_label InvalidJson = asc ''invalid JSON''"
| "cause_label MalformedObject = asc ''malformed object''"
| "cause_label SchemaViolation = asc ''schema mismatch''"
| "cause_label EchoedExample = asc ''echoed example''"
| "cause_label AgentIdentity = asc ''agent identity mismatch''"
| "cause_label OtherCause = asc ''other''"

lemma from_telemetry_fields:
  "from_telemetry m cap t = \<lparr> co_model = m, co_cap = cap, co_finish = tm_finish t,
     co_completion_tokens = tm_completion_tokens t, co_prompt_tokens = tm_prompt_tokens t,
     co_reasoning = tm_reasoning t \<rparr>"
  by (simp add: from_telemetry_def record_new_def Let_def split: option.split)

section \<open>Configuration\<close>

datatype report_error =
    NonAsciiTitle agent_name ustr ustr
  | BannerTooSmall nat nat

definition show_report_error :: "rust_fmt \<Rightarrow> report_error \<Rightarrow> ustr" where
  "show_report_error F e =
     (case e of
        NonAsciiTitle a field v \<Rightarrow>
          asc ''agent_titles['' @ display_name a @ asc ''].'' @ field
          @ asc '' contains non-ASCII characters: '' @ dbg_str F v
      | BannerTooSmall requested minimum \<Rightarrow>
          asc ''banner_width '' @ show_nat requested @ asc '' is below the minimum of '' @ show_nat minimum)"

record report_config =
  rc_banner_width :: nat
  rc_agent_titles :: "agent_name \<rightharpoonup> ustr \<times> ustr"

definition MIN_BANNER_WIDTH :: nat where "MIN_BANNER_WIDTH = 8"

definition is_ascii :: "ustr \<Rightarrow> bool" where "is_ascii s \<longleftrightarrow> (\<forall>c\<in>set s. c < 128)"

definition check_title :: "(agent_name \<rightharpoonup> ustr \<times> ustr) \<Rightarrow> agent_name \<Rightarrow> (unit, report_error) result" where
  "check_title titles a =
     (case titles a of
        None \<Rightarrow> Ok ()
      | Some (dn, t) \<Rightarrow>
          if \<not> is_ascii dn then Err (NonAsciiTitle a (asc ''display_name'') dn)
          else if \<not> is_ascii t then Err (NonAsciiTitle a (asc ''title'') t)
          else Ok ())"

definition check_parts :: "nat \<Rightarrow> (agent_name \<rightharpoonup> ustr \<times> ustr) \<Rightarrow> (unit, report_error) result" where
  "check_parts banner_width titles =
     (if banner_width < MIN_BANNER_WIDTH then Err (BannerTooSmall banner_width MIN_BANNER_WIDTH)
      else check_all (check_title titles) (map_keys titles))"

definition report_config_checked ::
  "nat \<Rightarrow> (agent_name \<rightharpoonup> ustr \<times> ustr) \<Rightarrow> (report_config, report_error) result" where
  "report_config_checked w titles =
     and_then (check_parts w titles) (\<lambda>_. Ok \<lparr> rc_banner_width = w, rc_agent_titles = titles \<rparr>)"

definition report_config_default :: report_config where
  "report_config_default = \<lparr> rc_banner_width = 52,
     rc_agent_titles = [Melchior \<mapsto> (asc ''Melchior'', asc ''Scientist''),
       Balthasar \<mapsto> (asc ''Balthasar'', asc ''Pragmatist''),
       Caspar \<mapsto> (asc ''Caspar'', asc ''Critic'')] \<rparr>"

record report_formatter =
  rf_config :: report_config
  rf_banner_inner :: nat

definition from_valid_config :: "report_config \<Rightarrow> report_formatter" where
  "from_valid_config C = \<lparr> rf_config = C, rf_banner_inner = rc_banner_width C - 2 \<rparr>"

definition formatter_with_config :: "report_config \<Rightarrow> (report_formatter, report_error) result" where
  "formatter_with_config C =
     and_then (check_parts (rc_banner_width C) (rc_agent_titles C)) (\<lambda>_. Ok (from_valid_config C))"

section \<open>Fitting and padding\<close>

definition DOTS :: ustr where "DOTS = asc ''...''"

definition pad_right :: "nat \<Rightarrow> ustr \<Rightarrow> ustr" where
  "pad_right w s = s @ replicate (w - length s) SPC"

definition tail_cut :: "ustr \<Rightarrow> nat \<Rightarrow> ustr \<Rightarrow> ustr" where
  "tail_cut content width dots =
     floor_prefix (max (sat_sub width (utf8_len dots)) 1) content @ dots"

definition strip_suffix :: "ustr \<Rightarrow> ustr \<Rightarrow> ustr option" where
  "strip_suffix s p =
     (if ends_with s p then Some (take (length s - length p) s) else None)"

definition fit_content :: "ustr \<Rightarrow> nat \<Rightarrow> ustr \<Rightarrow> ustr" where
  "fit_content content width preserve_suffix =
     (if utf8_len content \<le> width then content
      else if preserve_suffix = [] \<or> utf8_len preserve_suffix + utf8_len DOTS \<ge> width
      then tail_cut content width DOTS
      else case strip_suffix content preserve_suffix of
        None \<Rightarrow> tail_cut content width DOTS
      | Some prefix_source \<Rightarrow>
          floor_prefix (width - utf8_len DOTS - utf8_len preserve_suffix) prefix_source
          @ DOTS @ preserve_suffix)"

definition agent_display :: "report_formatter \<Rightarrow> agent_name \<Rightarrow> ustr \<times> ustr" where
  "agent_display fm a =
     (case rc_agent_titles (rf_config fm) a of
        Some p \<Rightarrow> p
      | None \<Rightarrow> (display_name a, agent_title a))"

definition format_separator :: "report_formatter \<Rightarrow> ustr" where
  "format_separator fm = asc ''+'' @ replicate (rf_banner_inner fm) 61 @ asc ''+''"

definition boxed :: "report_formatter \<Rightarrow> ustr \<Rightarrow> ustr" where
  "boxed fm s = asc ''|'' @ pad_right (rf_banner_inner fm) s @ asc ''|''"

definition format_line :: "report_formatter \<Rightarrow> ustr \<Rightarrow> ustr" where
  "format_line fm content =
     (if utf8_len content > rf_banner_inner fm
      then boxed fm (floor_prefix (rf_banner_inner fm) content)
      else boxed fm content)"

section \<open>The banner\<close>

text \<open>\<open>as u32\<close> on an \<open>f64\<close>: truncation, saturating, a NaN becomes 0.\<close>

fun f_as_u32 :: "f64 \<Rightarrow> nat" where
  "f_as_u32 (Fin x) = min U32_MAX (nat \<lfloor>x\<rfloor>)"
| "f_as_u32 PosInf = U32_MAX"
| "f_as_u32 NegInf = 0"
| "f_as_u32 NaN = 0"

definition banner_label :: "report_formatter \<Rightarrow> agent_output \<Rightarrow> ustr" where
  "banner_label fm a =
     fst (agent_display fm (ao_agent a)) @ asc '' ('' @ snd (agent_display fm (ao_agent a)) @ asc ''):''"

definition verdict_suffix :: "agent_output \<Rightarrow> ustr" where
  "verdict_suffix a =
     asc '' '' @ show_verdict (ao_verdict a) @ asc '' (''
     @ show_nat (f_as_u32 (f_round (f_mul (ao_confidence a) (Fin 100)))) @ asc ''%)''"

definition max_label_len :: "report_formatter \<Rightarrow> agent_output list \<Rightarrow> nat" where
  "max_label_len fm agents = fold max (map (\<lambda>a. length (banner_label fm a)) agents) 0"

definition agent_row :: "report_formatter \<Rightarrow> nat \<Rightarrow> agent_output \<Rightarrow> ustr" where
  "agent_row fm w a =
     boxed fm (fit_content (asc ''  '' @ pad_right w (banner_label fm a) @ verdict_suffix a)
                 (rf_banner_inner fm) (verdict_suffix a))"

definition consensus_row :: "report_formatter \<Rightarrow> consensus_result \<Rightarrow> ustr" where
  "consensus_row fm c =
     boxed fm (fit_content (asc ''  CONSENSUS: '' @ cr_consensus c) (rf_banner_inner fm) [])"

definition format_banner :: "report_formatter \<Rightarrow> agent_output list \<Rightarrow> consensus_result \<Rightarrow> ustr" where
  "format_banner fm agents c =
     (let sep = format_separator fm in
      sep @ [LF]
      @ format_line fm (asc ''        MAGI SYSTEM -- VERDICT'') @ [LF]
      @ sep @ [LF]
      @ concat (map (\<lambda>a. agent_row fm (max_label_len fm agents) a @ [LF]) agents)
      @ sep @ [LF]
      @ consensus_row fm c @ [LF]
      @ sep)"

definition format_init_banner :: "report_formatter \<Rightarrow> mode \<Rightarrow> ustr \<Rightarrow> nat \<Rightarrow> ustr" where
  "format_init_banner fm m model_name timeout_secs =
     (let sep = format_separator fm in
      sep @ [LF]
      @ format_line fm (asc ''        MAGI SYSTEM -- INITIALIZING'') @ [LF]
      @ sep @ [LF]
      @ format_line fm (asc ''  Mode:     '' @ show_mode m) @ [LF]
      @ format_line fm (asc ''  Model:    '' @ model_name) @ [LF]
      @ format_line fm (asc ''  Timeout:  '' @ show_nat timeout_secs @ asc ''s'') @ [LF]
      @ sep)"

section \<open>Sections of the report\<close>

definition line_of :: "ustr \<Rightarrow> ustr" where "line_of s = s @ [LF]"

definition failure_line :: "report_formatter \<Rightarrow> agent_name \<Rightarrow> extraction_failure \<Rightarrow> ustr" where
  "failure_line fm a f =
     line_of ([0x2717, SPC] @ fst (agent_display fm a) @ asc '': '' @ ef_model f @ asc '' (attempt ''
       @ show_nat (ef_attempt f) @ asc '') '' @ [0x2014, SPC] @ cause_label (ef_cause f))"

definition format_extraction_failures ::
  "report_formatter \<Rightarrow> (agent_name \<rightharpoonup> extraction_failure list) \<Rightarrow> ustr" where
  "format_extraction_failures fm failures =
     (if \<not> list_ex (\<lambda>a. the (failures a) \<noteq> []) (map_keys failures) then []
      else asc ''## Extraction Failures'' @ [LF, LF]
        @ concat (map (\<lambda>a. concat (map (failure_line fm a) (the (failures a)))) (map_keys failures))
        @ [LF])"

definition rotation_line :: "report_formatter \<Rightarrow> agent_name \<Rightarrow> rotation_event \<Rightarrow> ustr" where
  "rotation_line fm a e =
     line_of ([0x27F2, SPC] @ fst (agent_display fm a) @ asc '' rotated: '' @ re_from e
       @ [SPC, 0x2192, SPC] @ re_to e @ asc '' ('' @ show_kind (re_kind e) @ asc '')'')"

definition format_model_rotations :: "report_formatter \<Rightarrow> (agent_name \<rightharpoonup> agent_rotation) \<Rightarrow> ustr" where
  "format_model_rotations fm rotations =
     (if \<not> list_ex (\<lambda>a. ar_chain (the (rotations a)) \<noteq> []) (map_keys rotations) then []
      else asc ''## Model Rotations'' @ [LF, LF]
        @ concat (map (\<lambda>a. concat (map (rotation_line fm a) (ar_chain (the (rotations a))))) (map_keys rotations))
        @ [LF])"

definition format_input_size :: "input_size option \<Rightarrow> ustr" where
  "format_input_size isz =
     (case isz of
        None \<Rightarrow> []
      | Some s \<Rightarrow>
          if \<not> is_exceeded s then []
          else asc ''## Input Size'' @ [LF, LF]
            @ line_of (asc ''Estimated '' @ show_nat (is_estimated_tokens s)
                @ asc '' tokens, above the configured warning threshold of ''
                @ show_nat (is_warn_threshold s) @ asc ''.'')
            @ line_of (asc ''This is an ESTIMATE (bytes/4) and a warning only - the analysis ran to completion.'')
            @ [LF])"

definition format_estimated_note :: "bool \<Rightarrow> ustr" where
  "format_estimated_note estimated =
     (if estimated
      then asc ''> Note: at least one surviving model ran on an estimated (unmeasured) context window.'' @ [LF, LF]
      else [])"

definition FINDING_MARKER_WIDTH :: nat where "FINDING_MARKER_WIDTH = 5"
definition FINDING_SEVERITY_WIDTH :: nat where "FINDING_SEVERITY_WIDTH = 14"

definition finding_line :: "report_formatter \<Rightarrow> dedup_finding \<Rightarrow> ustr" where
  "finding_line fm f =
     line_of (pad_right FINDING_MARKER_WIDTH (icon (dd_severity f)) @ asc '' ''
       @ pad_right FINDING_SEVERITY_WIDTH (asc ''**['' @ show_severity (dd_severity f) @ asc '']**'')
       @ asc '' '' @ dd_title f @ asc '' _(from ''
       @ join (asc '', '') (map (\<lambda>s. fst (agent_display fm s)) (dd_sources f)) @ asc '')_'')"

definition format_findings :: "report_formatter \<Rightarrow> dedup_finding list \<Rightarrow> ustr" where
  "format_findings fm fs =
     [LF] @ asc ''## Key Findings'' @ [LF, LF] @ concat (map (finding_line fm) fs) @ [LF]"

definition dissent_line :: "report_formatter \<Rightarrow> dissent \<Rightarrow> ustr" where
  "dissent_line fm d =
     line_of (asc ''**'' @ fst (agent_display fm (ds_agent d)) @ asc '' (''
       @ snd (agent_display fm (ds_agent d)) @ asc '')**: '' @ ds_summary d)"

definition format_dissent :: "report_formatter \<Rightarrow> dissent list \<Rightarrow> ustr" where
  "format_dissent fm ds =
     [LF] @ asc ''## Dissenting Opinion'' @ [LF, LF] @ concat (map (dissent_line fm) ds) @ [LF]"

definition condition_line :: "report_formatter \<Rightarrow> condition \<Rightarrow> ustr" where
  "condition_line fm c =
     line_of (asc ''- **'' @ fst (agent_display fm (cd_agent c)) @ asc ''**: '' @ cd_condition c)"

definition format_conditions :: "report_formatter \<Rightarrow> condition list \<Rightarrow> ustr" where
  "format_conditions fm cs =
     [LF] @ asc ''## Conditions for Approval'' @ [LF, LF] @ concat (map (condition_line fm) cs) @ [LF]"

definition recommendation_line :: "report_formatter \<Rightarrow> agent_name \<Rightarrow> ustr \<Rightarrow> ustr" where
  "recommendation_line fm a rec =
     line_of (asc ''- **'' @ fst (agent_display fm a) @ asc ''** ('' @ snd (agent_display fm a)
       @ asc ''): '' @ rec)"

definition format_recommendations :: "report_formatter \<Rightarrow> (agent_name \<rightharpoonup> ustr) \<Rightarrow> ustr" where
  "format_recommendations fm recs =
     [LF] @ asc ''## Recommended Actions'' @ [LF, LF]
     @ concat (map (\<lambda>a. recommendation_line fm a (the (recs a))) (map_keys recs))"

definition format_report_with_input_size ::
  "report_formatter \<Rightarrow> agent_output list \<Rightarrow> consensus_result \<Rightarrow> (agent_name \<rightharpoonup> agent_rotation) \<Rightarrow> bool
     \<Rightarrow> (agent_name \<rightharpoonup> extraction_failure list) \<Rightarrow> input_size option \<Rightarrow> ustr" where
  "format_report_with_input_size fm agents c rotations estimated failures isz =
     format_banner fm agents c @ [LF]
     @ format_model_rotations fm rotations
     @ format_estimated_note estimated
     @ format_extraction_failures fm failures
     @ format_input_size isz
     @ (if cr_findings c \<noteq> [] then format_findings fm (cr_findings c) else [])
     @ (if cr_dissent c \<noteq> [] then format_dissent fm (cr_dissent c) else [])
     @ (if cr_conditions c \<noteq> [] then format_conditions fm (cr_conditions c) else [])
     @ format_recommendations fm (cr_recommendations c)"

definition format_report_with_telemetry ::
  "report_formatter \<Rightarrow> agent_output list \<Rightarrow> consensus_result \<Rightarrow> (agent_name \<rightharpoonup> agent_rotation) \<Rightarrow> bool
     \<Rightarrow> (agent_name \<rightharpoonup> extraction_failure list) \<Rightarrow> ustr" where
  "format_report_with_telemetry fm agents c rotations estimated failures =
     format_report_with_input_size fm agents c rotations estimated failures None"

definition format_report_with_rotations ::
  "report_formatter \<Rightarrow> agent_output list \<Rightarrow> consensus_result \<Rightarrow> (agent_name \<rightharpoonup> agent_rotation) \<Rightarrow> bool \<Rightarrow> ustr" where
  "format_report_with_rotations fm agents c rotations estimated =
     format_report_with_telemetry fm agents c rotations estimated (\<lambda>_. None)"

definition format_report :: "report_formatter \<Rightarrow> agent_output list \<Rightarrow> consensus_result \<Rightarrow> ustr" where
  "format_report fm agents c = format_report_with_rotations fm agents c (\<lambda>_. None) False"

section \<open>Widths\<close>

lemma length_le_utf8: "length s \<le> utf8_len s"
proof (induction s)
  case (Cons c s)
  then show ?case by (simp add: utf8_len_def utf8_len1_def)
qed simp

lemma floor_prefix_length: "length (floor_prefix n s) \<le> n"
  using length_le_utf8 [of "floor_prefix n s"] floor_prefix_le [of n s] by simp

lemma utf8_len_dots [simp]: "utf8_len DOTS = 3" "length DOTS = 3"
  by (simp_all add: DOTS_def utf8_len1_def)

lemma tail_cut_length: "4 \<le> w \<Longrightarrow> length (tail_cut s w DOTS) \<le> w"
  using floor_prefix_length [of "max (w - 3) 1" s] by (simp add: tail_cut_def sat_sub_def)

lemma fit_content_length:
  assumes "4 \<le> w"
  shows "length (fit_content s w p) \<le> w"
proof (cases "utf8_len s \<le> w \<or> p = [] \<or> utf8_len p + 3 \<ge> w \<or> strip_suffix s p = None")
  case True
  then show ?thesis
    using length_le_utf8 [of s] tail_cut_length [OF assms, of s] by (auto simp: fit_content_def)
next
  case False
  then obtain q where q: "strip_suffix s p = Some q" by blast
  have "length (floor_prefix (w - 3 - utf8_len p) q) \<le> w - 3 - utf8_len p" by (rule floor_prefix_length)
  with False length_le_utf8 [of p]
  have "length (floor_prefix (w - 3 - utf8_len p) q) + (3 + length p) \<le> w" by linarith
  with False q show ?thesis by (simp add: fit_content_def)
qed

lemma fit_content_suffix:
  assumes "utf8_len p + 3 < w"
  shows "\<exists>q. fit_content (s @ p) w p = q @ p"
  using assms by (auto simp: fit_content_def strip_suffix_def ends_with_def)

lemma boxed_length: "length s \<le> rf_banner_inner fm \<Longrightarrow> length (boxed fm s) = rf_banner_inner fm + 2"
  by (simp add: boxed_def pad_right_def)

lemma format_line_length: "length (format_line fm s) = rf_banner_inner fm + 2"
  using length_le_utf8 [of s] boxed_length [of "floor_prefix (rf_banner_inner fm) s" fm]
    boxed_length [of s fm] floor_prefix_length [of "rf_banner_inner fm" s]
  by (simp add: format_line_def)

lemma checked_inner:
  assumes "formatter_with_config C = Ok fm"
  shows "rf_banner_inner fm + 2 = rc_banner_width C" "6 \<le> rf_banner_inner fm"
  using assms by (auto simp: formatter_with_config_def from_valid_config_def check_parts_def
      MIN_BANNER_WIDTH_def res_simps split: if_splits)

definition banner_rows :: "report_formatter \<Rightarrow> agent_output list \<Rightarrow> consensus_result \<Rightarrow> ustr list" where
  "banner_rows fm agents c =
     [format_separator fm, format_line fm (asc ''        MAGI SYSTEM -- VERDICT''), format_separator fm]
     @ map (agent_row fm (max_label_len fm agents)) agents
     @ [format_separator fm, consensus_row fm c, format_separator fm]"

lemma join_cons_ne: "ys \<noteq> [] \<Longrightarrow> join d (x # ys) = x @ d @ join d ys"
  by (cases ys) auto

lemma join_map_append: "ys \<noteq> [] \<Longrightarrow> join d (map f xs @ ys) = concat (map (\<lambda>x. f x @ d) xs) @ join d ys"
  by (induction xs) (auto simp: join_cons_ne)

lemma format_banner_rows: "format_banner fm agents c = join [LF] (banner_rows fm agents c)"
  by (simp add: format_banner_def banner_rows_def join_cons_ne join_map_append Let_def)

text \<open>C39: The banner is a box. Whatever the mages answered and however long their labels, the verdict
  label or the consensus are, every row of the banner of a checked configuration is exactly
  \<open>banner_width\<close> characters wide, and the row of a mage keeps its verdict and percentage whenever
  they and the ellipsis fit the inner width.\<close>

theorem banner_aligned:
  assumes "formatter_with_config C = Ok fm"
  shows "format_banner fm agents c = join [LF] (banner_rows fm agents c)
    \<and> length (banner_rows fm agents c) = length agents + 6
    \<and> (\<forall>row\<in>set (banner_rows fm agents c). length row = rc_banner_width C)
    \<and> (\<forall>a. utf8_len (verdict_suffix a) + 3 < rc_banner_width C - 2 \<longrightarrow>
         (\<exists>q. agent_row fm w a = boxed fm (q @ verdict_suffix a)))"
proof (intro conjI ballI allI impI)
  note inner = checked_inner [OF assms]
  fix row assume "row \<in> set (banner_rows fm agents c)"
  then show "length row = rc_banner_width C"
    using inner boxed_length fit_content_length format_line_length
    by (auto simp: banner_rows_def format_separator_def agent_row_def consensus_row_def)
next
  note inner = checked_inner [OF assms]
  fix a assume "utf8_len (verdict_suffix a) + 3 < rc_banner_width C - 2"
  then have "utf8_len (verdict_suffix a) + 3 < rf_banner_inner fm" using inner by simp
  from fit_content_suffix [OF this, of "asc ''  '' @ pad_right w (banner_label fm a)"]
  show "\<exists>q. agent_row fm w a = boxed fm (q @ verdict_suffix a)" by (auto simp: agent_row_def)
qed (simp_all add: format_banner_rows banner_rows_def)

lemma default_formatter: "formatter_with_config report_config_default = Ok (from_valid_config report_config_default)"
  by (auto simp: formatter_with_config_def check_parts_def report_config_default_def MIN_BANNER_WIDTH_def
      check_title_def is_ascii_def res_simps map_keys_def agents_asc_def)

definition sample_consensus :: consensus_result where
  "sample_consensus = \<lparr> cr_consensus = asc ''GO (2-0)'', cr_verdict = Approve, cr_confidence = Fin 1,
     cr_score = Fin 1, cr_agent_count = 2, cr_votes = [Melchior \<mapsto> Approve], cr_majority_summary = [],
     cr_dissent = [], cr_findings = [], cr_conditions = [], cr_recommendations = [Melchior \<mapsto> asc ''go''] \<rparr>"

theorem banner_aligned_witness:
  "map length (banner_rows (from_valid_config report_config_default) [vote Melchior Approve []] sample_consensus)
     = replicate 7 52"
proof -
  let ?rows = "banner_rows (from_valid_config report_config_default) [vote Melchior Approve []] sample_consensus"
  have "length ?rows = 7" "\<forall>row\<in>set ?rows. length row = 52"
    using banner_aligned [OF default_formatter, of "[vote Melchior Approve []]" sample_consensus]
    by (simp_all add: report_config_default_def)
  then have "map length ?rows = map (\<lambda>_. 52) ?rows" "length ?rows = 7" by simp_all
  then show ?thesis by (simp only: map_replicate_const)
qed

section \<open>Nothing is dropped from the report\<close>

lemma contains_append: "contains t p \<Longrightarrow> contains (s @ t @ u) p"
  by (auto simp: contains_iff) (metis append.assoc)

lemma contains_left: "contains s p \<Longrightarrow> contains (s @ t) p"
  using contains_append [of s p "[]" t] by simp

lemma contains_right: "contains t p \<Longrightarrow> contains (s @ t) p"
  using contains_append [of t p s "[]"] by simp

lemma contains_concat: "x \<in> set xs \<Longrightarrow> contains x p \<Longrightarrow> contains (concat xs) p"
  by (induction xs) (auto intro: contains_left contains_right)

lemma contains_line: "x \<in> set xs \<Longrightarrow> contains (concat (map f xs)) (f x)"
  by (rule contains_concat [of "f x"]) (auto simp: contains_iff intro: exI [of _ "[]"])

lemma contains_lines:
  assumes "a \<in> set ks" "x \<in> set (g a)"
  shows "contains (concat (map (\<lambda>a. concat (map (f a) (g a))) ks)) (f a x)"
  by (rule contains_concat [of "concat (map (f a) (g a))"]) (use assms contains_line in auto)

lemma failures_section:
  assumes "failures a = Some fs" "f \<in> set fs"
  shows "contains (format_extraction_failures fm failures) (failure_line fm a f)"
proof -
  have a: "a \<in> set (map_keys failures)" "f \<in> set (the (failures a))" using assms by auto
  have ne: "list_ex (\<lambda>a. the (failures a) \<noteq> []) (map_keys failures)"
    unfolding list_ex_iff by (rule bexI [OF _ a(1)]) (use a(2) in auto)
  have e: "format_extraction_failures fm failures = asc ''## Extraction Failures'' @ [LF, LF]
        @ concat (map (\<lambda>a. concat (map (failure_line fm a) (the (failures a)))) (map_keys failures)) @ [LF]"
    by (simp only: format_extraction_failures_def ne not_True_eq_False if_False)
  show ?thesis unfolding e
    by (rule contains_right, rule contains_right, rule contains_left)
      (rule contains_lines [where g = "\<lambda>a. the (failures a)", OF a])
qed

lemma rotations_section:
  assumes "rotations a = Some rot" "e \<in> set (ar_chain rot)"
  shows "contains (format_model_rotations fm rotations) (rotation_line fm a e)"
proof -
  have a: "a \<in> set (map_keys rotations)" "e \<in> set (ar_chain (the (rotations a)))" using assms by auto
  have ne: "list_ex (\<lambda>a. ar_chain (the (rotations a)) \<noteq> []) (map_keys rotations)"
    unfolding list_ex_iff by (rule bexI [OF _ a(1)]) (use a(2) in auto)
  have e: "format_model_rotations fm rotations = asc ''## Model Rotations'' @ [LF, LF]
        @ concat (map (\<lambda>a. concat (map (rotation_line fm a) (ar_chain (the (rotations a))))) (map_keys rotations)) @ [LF]"
    by (simp only: format_model_rotations_def ne not_True_eq_False if_False)
  show ?thesis unfolding e
    by (rule contains_right, rule contains_right, rule contains_left)
      (rule contains_lines [where g = "\<lambda>a. ar_chain (the (rotations a))", OF a])
qed

lemma findings_section: "f \<in> set fs \<Longrightarrow> contains (format_findings fm fs) (finding_line fm f)"
  unfolding format_findings_def
  by (rule contains_right, rule contains_right, rule contains_right, rule contains_left, rule contains_line)

lemma dissent_section: "d \<in> set ds \<Longrightarrow> contains (format_dissent fm ds) (dissent_line fm d)"
  unfolding format_dissent_def
  by (rule contains_right, rule contains_right, rule contains_right, rule contains_left, rule contains_line)

lemma conditions_section: "c \<in> set cs \<Longrightarrow> contains (format_conditions fm cs) (condition_line fm c)"
  unfolding format_conditions_def
  by (rule contains_right, rule contains_right, rule contains_right, rule contains_left, rule contains_line)

lemma recommendations_section:
  assumes "recs a = Some t"
  shows "contains (format_recommendations fm recs) (recommendation_line fm a t)"
proof -
  have "a \<in> set (map_keys recs)" using assms by auto
  from contains_line [OF this, of "\<lambda>a. recommendation_line fm a (the (recs a))"]
  have "contains (concat (map (\<lambda>a. recommendation_line fm a (the (recs a))) (map_keys recs))) (recommendation_line fm a t)"
    by (simp add: assms)
  then show ?thesis
    unfolding format_recommendations_def by (intro contains_right)
qed

text \<open>The sections of a report in order; an empty section contributes nothing.\<close>

definition report_sections ::
  "report_formatter \<Rightarrow> agent_output list \<Rightarrow> consensus_result \<Rightarrow> (agent_name \<rightharpoonup> agent_rotation) \<Rightarrow> bool
     \<Rightarrow> (agent_name \<rightharpoonup> extraction_failure list) \<Rightarrow> input_size option \<Rightarrow> ustr list" where
  "report_sections fm agents c rotations estimated failures isz =
     [format_banner fm agents c @ [LF], format_model_rotations fm rotations, format_estimated_note estimated,
      format_extraction_failures fm failures, format_input_size isz]
     @ (if cr_findings c \<noteq> [] then [format_findings fm (cr_findings c)] else [])
     @ (if cr_dissent c \<noteq> [] then [format_dissent fm (cr_dissent c)] else [])
     @ (if cr_conditions c \<noteq> [] then [format_conditions fm (cr_conditions c)] else [])
     @ [format_recommendations fm (cr_recommendations c)]"

lemma report_concat:
  "format_report_with_input_size fm agents c rotations estimated failures isz =
     concat (report_sections fm agents c rotations estimated failures isz)"
  by (simp add: format_report_with_input_size_def report_sections_def)

lemma report_contains:
  "x \<in> set (report_sections fm agents c rotations estimated failures isz) \<Longrightarrow> contains x p \<Longrightarrow>
     contains (format_report_with_input_size fm agents c rotations estimated failures isz) p"
  unfolding report_concat by (rule contains_concat)



end
