(* ===== verification/Attempt.thy ===== *)
theory Attempt
  imports Reporting
begin

text \<open>
  One mage on one model (\<open>src/src/orchestrator.rs\<close>, \<open>src/src/agent.rs\<close>): the call of a
  provider under the timeout, the record it leaves, the classification of a provider error, the
  corrective retry, and the two dispatchers of a seat without rotation. The providers are code
  outside the repository or behind a socket: the answer to the \<open>n\<close>-th call of a seat is an
  argument of the model, a function of the provider called and of the prompts sent.
\<close>

section \<open>Calling a provider\<close>

text \<open>A provider is the seat's own (no slot) or a candidate of the pool, known by its model.\<close>

record provider =
  pr_slot :: "nat option"
  pr_model :: ustr

datatype call_result = Answered "(completion, provider_error) result" | Elapsed

type_synonym backend = "nat \<Rightarrow> provider \<Rightarrow> ustr \<Rightarrow> ustr \<Rightarrow> completion_config \<Rightarrow> call_result"

record agent =
  ag_name :: agent_name
  ag_system_prompt :: ustr
  ag_provider :: provider

record seat_env =
  se_unicode :: unicode
  se_fmt :: rust_fmt
  se_serde :: "ustr \<Rightarrow> agent_output serde"
  se_backend :: backend
  se_agent :: agent
  se_user_prompt :: ustr
  se_config :: completion_config
  se_limits :: limits
  se_timeout :: duration
  se_retry_enabled :: bool

record attempt_log =
  al_calls :: nat
  al_was_retried :: bool
  al_failures :: "extraction_failure list"
  al_records :: "completion_record list"

definition log_new :: attempt_log where
  "log_new = \<lparr> al_calls = 0, al_was_retried = False, al_failures = [], al_records = [] \<rparr>"

definition execute_with :: "seat_env \<Rightarrow> provider \<Rightarrow> ustr \<Rightarrow> nat \<Rightarrow> call_result" where
  "execute_with E p prompt n = se_backend E n p (ag_system_prompt (se_agent E)) prompt (se_config E)"

fun record_attempt :: "ustr \<Rightarrow> nat \<Rightarrow> call_result \<Rightarrow> completion_record list \<Rightarrow> completion_record list" where
  "record_attempt m cap (Answered (Ok c)) rs = rs @ [from_telemetry m cap (cp_telemetry c)]"
| "record_attempt m cap (Answered (Err (NoGeneration d))) rs = rs"
| "record_attempt m cap (Answered (Err (EmptyCompletion t _))) rs = rs @ [from_telemetry m cap t]"
| "record_attempt m cap (Answered (Err e)) rs = rs @ [record_new m cap]"
| "record_attempt m cap Elapsed rs = rs @ [record_new m cap]"

text \<open>A call and the record it leaves.\<close>

definition call :: "seat_env \<Rightarrow> provider \<Rightarrow> ustr \<Rightarrow> attempt_log \<Rightarrow> call_result \<times> attempt_log" where
  "call E p prompt lg =
     (let r = execute_with E p prompt (al_calls lg)
      in (r, lg\<lparr> al_calls := al_calls lg + 1,
           al_records := record_attempt (pr_model p) (cc_max_tokens (se_config E)) r (al_records lg) \<rparr>))"

definition agent_timeout_message :: "rust_fmt \<Rightarrow> bool \<Rightarrow> duration \<Rightarrow> ustr" where
  "agent_timeout_message F is_corrective_retry limit =
     (if is_corrective_retry then asc ''retry-failed: timeout'' else asc ''timeout: agent timed out'')
     @ asc '' at its configured ceiling of '' @ dbg_dur F limit"

section \<open>What an attempt came to\<close>

fun is_connection :: "provider_error \<Rightarrow> bool" where
  "is_connection (Network _) = True"
| "is_connection (Http _ _ _ _) = False"
| "is_connection (Timeout _) = False"
| "is_connection (Auth _) = False"
| "is_connection (Process _ _) = False"
| "is_connection NestedSession = False"
| "is_connection (RetryAbandoned _ _) = False"
| "is_connection (ResponseTooLarge _) = False"
| "is_connection (External _ _) = False"
| "is_connection (ResponseContract _ _) = False"
| "is_connection (EmptyCompletion _ _) = False"
| "is_connection (NoGeneration _) = False"

datatype model_outcome =
    MoSuccess agent_output
  | MoSchema ustr
  | MoTransport (mo_detail: ustr) (mo_connection: bool) (mo_kind: rotation_kind)
  | MoMageLocal ustr rotation_kind
  | MoCrateDefect ustr ustr
  | MoOversized nat
  | MoExternal ustr external_error_kind
  | MoUnexpected ustr

definition CRATE_DEFECT_HYPOTHESIS :: ustr where
  "CRATE_DEFECT_HYPOTHESIS =
     asc ''the known cause is a request without `messages`, which points at a defect in magi-core''"

fun provider_err_outcome :: "rust_fmt \<Rightarrow> provider_error \<Rightarrow> model_outcome" where
  "provider_err_outcome F (ResponseTooLarge limit) = MoOversized limit"
| "provider_err_outcome F (External m k) = MoExternal (show_magi_error F (ProviderFailed (External m k))) k"
| "provider_err_outcome F (Timeout m) =
     MoTransport (show_magi_error F (ProviderFailed (Timeout m))) (is_connection (Timeout m)) KTimeout"
| "provider_err_outcome F (ResponseContract c d) =
     MoMageLocal (show_magi_error F (ProviderFailed (ResponseContract c d))) KResponseContract"
| "provider_err_outcome F (EmptyCompletion t cap) =
     MoMageLocal (show_magi_error F (ProviderFailed (EmptyCompletion t cap))) KEmptyCompletion"
| "provider_err_outcome F (NoGeneration d) =
     MoCrateDefect (asc ''no generation - token counters absent (termination: ''
         @ dbg_option (dbg_finish F) d @ asc '')'') CRATE_DEFECT_HYPOTHESIS"
| "provider_err_outcome F e = MoTransport (show_magi_error F (ProviderFailed e)) (is_connection e) KTransport"

definition is_schema_error :: "magi_error \<Rightarrow> bool" where
  "is_schema_error e = (case e of Validation _ \<Rightarrow> True | Deserialization _ \<Rightarrow> True | _ \<Rightarrow> False)"

definition push_failure :: "ustr \<Rightarrow> nat \<Rightarrow> extraction_cause \<Rightarrow> attempt_log \<Rightarrow> attempt_log" where
  "push_failure m k cause lg =
     lg\<lparr> al_failures := al_failures lg @ [\<lparr> ef_model = m, ef_attempt = k, ef_cause = cause \<rparr>] \<rparr>"

definition check_answer :: "seat_env \<Rightarrow> completion \<Rightarrow> (agent_output, parse_failure) result" where
  "check_answer E raw =
     parse_validate_and_check (se_unicode E) (se_fmt E) (se_serde E) (cp_text raw)
       (ag_name (se_agent E)) (se_limits E)"

definition retry_prompt_for :: "seat_env \<Rightarrow> parse_failure \<Rightarrow> completion \<Rightarrow> ustr" where
  "retry_prompt_for E f raw =
     build_retry_prompt (se_unicode E) (se_user_prompt E) (pf_cause f)
       (show_magi_error (se_fmt E) (pf_error f)) (tm_finish (cp_telemetry raw))"

section \<open>One model\<close>

definition attempt_second :: "seat_env \<Rightarrow> provider \<Rightarrow> ustr \<Rightarrow> attempt_log \<Rightarrow> model_outcome \<times> attempt_log" where
  "attempt_second E p prompt lg =
     (let (r, lg1) = call E p prompt lg in
      case r of
        Answered (Err e) \<Rightarrow> (provider_err_outcome (se_fmt E) e, lg1)
      | Elapsed \<Rightarrow> (MoTransport (agent_timeout_message (se_fmt E) True (se_timeout E)) False KTimeout, lg1)
      | Answered (Ok raw) \<Rightarrow>
          (case check_answer E raw of
             Ok out \<Rightarrow> (MoSuccess out, lg1)
           | Err f \<Rightarrow>
               (MoSchema (asc ''retry-failed: '' @ show_magi_error (se_fmt E) (pf_error f)),
                push_failure (pr_model p) 2 (pf_cause f) lg1)))"

definition attempt_model :: "seat_env \<Rightarrow> provider \<Rightarrow> attempt_log \<Rightarrow> model_outcome \<times> attempt_log" where
  "attempt_model E p lg =
     (let (r, lg1) = call E p (se_user_prompt E) lg in
      case r of
        Answered (Err e) \<Rightarrow> (provider_err_outcome (se_fmt E) e, lg1)
      | Elapsed \<Rightarrow> (MoTransport (agent_timeout_message (se_fmt E) False (se_timeout E)) False KTimeout, lg1)
      | Answered (Ok raw) \<Rightarrow>
          (case check_answer E raw of
             Ok out \<Rightarrow> (MoSuccess out, lg1)
           | Err f \<Rightarrow>
               (let lg2 = push_failure (pr_model p) 1 (pf_cause f) lg1 in
                if \<not> is_schema_error (pf_error f)
                then (MoUnexpected (show_magi_error (se_fmt E) (pf_error f)), lg2)
                else if \<not> se_retry_enabled E
                then (MoSchema (show_magi_error (se_fmt E) (pf_error f)), lg2)
                else attempt_second E p (retry_prompt_for E f raw) (lg2\<lparr> al_was_retried := True \<rparr>))))"

section \<open>A seat without rotation\<close>

definition crate_defect_of :: "rust_fmt \<Rightarrow> provider_error \<Rightarrow> agent_name \<Rightarrow> ustr \<Rightarrow> crate_defect_record option" where
  "crate_defect_of F e a m =
     (case provider_err_outcome F e of
        MoCrateDefect obs hyp \<Rightarrow> Some \<lparr> cdr_observation = obs, cdr_hypothesis = hyp, cdr_agent = a, cdr_model = m \<rparr>
      | _ \<Rightarrow> None)"

type_synonym seat_result =
  "(agent_output, ustr) result \<times> bool \<times> extraction_failure list \<times> completion_record list
     \<times> crate_defect_record option"

definition dispatch_one_agent :: "seat_env \<Rightarrow> seat_result" where
  "dispatch_one_agent E =
     (let p = ag_provider (se_agent E); m = pr_model p; F = se_fmt E; a = ag_name (se_agent E);
          (r1, lg1) = call E p (se_user_prompt E) log_new in
      case r1 of
        Answered (Err e) \<Rightarrow>
          (Err (show_magi_error F (ProviderFailed e)), False, al_failures lg1, al_records lg1,
           crate_defect_of F e a m)
      | Elapsed \<Rightarrow>
          (Err (agent_timeout_message F False (se_timeout E)), False, al_failures lg1, al_records lg1, None)
      | Answered (Ok raw) \<Rightarrow>
          (case check_answer E raw of
             Ok out \<Rightarrow> (Ok out, False, al_failures lg1, al_records lg1, None)
           | Err f \<Rightarrow>
               (let lg2 = push_failure m 1 (pf_cause f) lg1 in
                if \<not> (se_retry_enabled E \<and> is_schema_error (pf_error f))
                then (Err (show_magi_error F (pf_error f)), False, al_failures lg2, al_records lg2, None)
                else
                  (let (r2, lg3) = call E p (retry_prompt_for E f raw) lg2 in
                   case r2 of
                     Answered (Err e) \<Rightarrow>
                       (Err (asc ''retry-failed: '' @ show_magi_error F (ProviderFailed e)), True,
                        al_failures lg3, al_records lg3, crate_defect_of F e a m)
                   | Elapsed \<Rightarrow>
                       (Err (agent_timeout_message F True (se_timeout E)), True,
                        al_failures lg3, al_records lg3, None)
                   | Answered (Ok raw2) \<Rightarrow>
                       (case check_answer E raw2 of
                          Ok out \<Rightarrow> (Ok out, True, al_failures lg3, al_records lg3, None)
                        | Err f2 \<Rightarrow>
                            (let lg4 = push_failure m 2 (pf_cause f2) lg3
                             in (Err (asc ''retry-failed: '' @ show_magi_error F (pf_error f2)), True,
                                 al_failures lg4, al_records lg4, None)))))))"

section \<open>Lemmas\<close>

lemma failure_is_schema:
  assumes "check_answer E raw = Err f"
  shows "is_schema_error (pf_error f)"
proof -
  have "is_schema_error (pf_error (parse_failure_new c m))" for c m
    by (cases c) (simp_all add: parse_failure_new_def is_schema_error_def)
  with assms show ?thesis
    by (auto simp: check_answer_def parse_validate_and_check_def parse_and_validate_def parse_agent_response_def
        res_simps split: result.splits serde.splits if_splits prod.splits)
qed

lemma record_attempt_grows:
  "\<exists>ys. record_attempt m cap r xs = xs @ ys \<and> length ys \<le> 1
     \<and> (ys = [] \<longleftrightarrow> (\<exists>d. r = Answered (Err (NoGeneration d))))
     \<and> (\<forall>y\<in>set ys. co_model y = m \<and> co_cap y = cap)"
  by (induction m cap r xs rule: record_attempt.induct) (auto simp: from_telemetry_fields record_new_def)

lemma provider_err_defect_iff:
  "(\<exists>obs hyp. provider_err_outcome F e = MoCrateDefect obs hyp) \<longleftrightarrow> (\<exists>d. e = NoGeneration d)"
  by (cases e) auto

lemma provider_err_never:
  "provider_err_outcome F e \<noteq> MoSuccess out" "provider_err_outcome F e \<noteq> MoSchema t"
  "provider_err_outcome F e \<noteq> MoUnexpected t"
  by (cases e; simp)+

text \<open>What one attempt adds to the log, as one fact both the corrective retry and the rotation use.\<close>

definition log_adds :: "seat_env \<Rightarrow> provider \<Rightarrow> attempt_log \<Rightarrow> attempt_log \<Rightarrow> nat \<Rightarrow> bool" where
  "log_adds E p lg lg' k \<longleftrightarrow>
     al_calls lg' = al_calls lg + k
     \<and> (\<exists>fs. al_failures lg' = al_failures lg @ fs \<and> length fs \<le> k
          \<and> (\<forall>f\<in>set fs. ef_model f = pr_model p))
     \<and> (\<exists>rs. al_records lg' = al_records lg @ rs \<and> length rs \<le> k
          \<and> (\<forall>r\<in>set rs. co_model r = pr_model p \<and> co_cap r = cc_max_tokens (se_config E)))"

lemma log_adds_call: "call E p prompt lg = (r, lg') \<Longrightarrow> log_adds E p lg lg' 1"
  using record_attempt_grows [of "pr_model p" "cc_max_tokens (se_config E)" r "al_records lg"]
  by (auto simp: call_def Let_def log_adds_def)

lemma log_adds_push:
  assumes "log_adds E p lg lg' k" "length (al_failures lg') < length (al_failures lg) + k"
  shows "log_adds E p lg (push_failure (pr_model p) n c lg') k"
proof -
  obtain fs where "al_failures lg' = al_failures lg @ fs" "length fs \<le> k" "\<forall>f\<in>set fs. ef_model f = pr_model p"
    using assms(1) by (auto simp: log_adds_def)
  with assms show ?thesis
    by (auto simp: log_adds_def push_failure_def intro!: exI [of _ "fs @ [_]"])
qed

lemma log_adds_trans:
  assumes "log_adds E p lg lg1 k" "log_adds E p lg1 lg2 j"
  shows "log_adds E p lg lg2 (k + j)"
proof -
  obtain fs rs where 1: "al_failures lg1 = al_failures lg @ fs" "length fs \<le> k" "\<forall>f\<in>set fs. ef_model f = pr_model p"
    "al_records lg1 = al_records lg @ rs" "length rs \<le> k"
    "\<forall>r\<in>set rs. co_model r = pr_model p \<and> co_cap r = cc_max_tokens (se_config E)"
    using assms(1) by (auto simp: log_adds_def)
  obtain fs' rs' where 2: "al_failures lg2 = al_failures lg1 @ fs'" "length fs' \<le> j" "\<forall>f\<in>set fs'. ef_model f = pr_model p"
    "al_records lg2 = al_records lg1 @ rs'" "length rs' \<le> j"
    "\<forall>r\<in>set rs'. co_model r = pr_model p \<and> co_cap r = cc_max_tokens (se_config E)"
    using assms(2) by (auto simp: log_adds_def)
  have "al_calls lg2 = al_calls lg + (k + j)" using assms by (simp add: log_adds_def)
  moreover have "al_failures lg2 = al_failures lg @ (fs @ fs')" "length (fs @ fs') \<le> k + j"
    "\<forall>f\<in>set (fs @ fs'). ef_model f = pr_model p" using 1 2 by auto
  moreover have "al_records lg2 = al_records lg @ (rs @ rs')" "length (rs @ rs') \<le> k + j"
    "\<forall>r\<in>set (rs @ rs'). co_model r = pr_model p \<and> co_cap r = cc_max_tokens (se_config E)" using 1 2 by auto
  ultimately show ?thesis unfolding log_adds_def by blast
qed

lemma log_adds_retried [simp]: "log_adds E p (lg\<lparr> al_was_retried := b \<rparr>) lg' k = log_adds E p lg lg' k"
  by (simp add: log_adds_def)

lemma call_fields:
  assumes "call E p prompt lg = (r, lg1)"
  shows "al_failures lg1 = al_failures lg" "al_was_retried lg1 = al_was_retried lg"
    "al_calls lg1 = al_calls lg + 1" "r = execute_with E p prompt (al_calls lg)"
  using assms by (auto simp: call_def Let_def)

lemma push_fields [simp]:
  "al_calls (push_failure m k c lg) = al_calls lg" "al_was_retried (push_failure m k c lg) = al_was_retried lg"
  "al_records (push_failure m k c lg) = al_records lg"
  "length (al_failures (push_failure m k c lg)) = Suc (length (al_failures lg))"
  by (simp_all add: push_failure_def)

lemma attempt_second_result:
  assumes "attempt_second E p prompt lg = (o', lg')"
  shows "log_adds E p lg lg' 1 \<and> al_was_retried lg' = al_was_retried lg \<and> (\<forall>t. o' \<noteq> MoUnexpected t)
    \<and> (\<forall>out. o' = MoSuccess out \<longrightarrow>
         (\<exists>raw. execute_with E p prompt (al_calls lg) = Answered (Ok raw) \<and> check_answer E raw = Ok out))"
proof -
  obtain r lg1 where c: "call E p prompt lg = (r, lg1)" by (cases "call E p prompt lg")
  note f = call_fields [OF c] and add = log_adds_call [OF c]
  have "log_adds E p lg (push_failure (pr_model p) 2 x lg1) 1" for x
    by (rule log_adds_push [OF add]) (simp add: f)
  with assms add f show ?thesis
    by (auto simp: attempt_second_def c provider_err_never split: call_result.splits result.splits)
qed

lemma attempt_model_result:
  assumes "attempt_model E p lg = (o', lg')"
  shows "\<exists>k. 1 \<le> k \<and> k \<le> (if se_retry_enabled E then 2 else 1) \<and> log_adds E p lg lg' k
    \<and> (al_was_retried lg' \<longleftrightarrow> al_was_retried lg \<or> k = 2)
    \<and> (\<forall>t. o' \<noteq> MoUnexpected t)
    \<and> (\<forall>out. o' = MoSuccess out \<longrightarrow>
         (\<exists>prompt raw. execute_with E p prompt (al_calls lg + k - 1) = Answered (Ok raw) \<and> check_answer E raw = Ok out))"
proof -
  obtain r lg1 where c: "call E p (se_user_prompt E) lg = (r, lg1)" by (cases "call E p (se_user_prompt E) lg")
  note f = call_fields [OF c] and add = log_adds_call [OF c]
  have push: "log_adds E p lg (push_failure (pr_model p) 1 x lg1) 1" for x
    by (rule log_adds_push [OF add]) (simp add: f)
  show ?thesis
  proof (cases "\<exists>raw x. r = Answered (Ok raw) \<and> check_answer E raw = Err x \<and> se_retry_enabled E")
    case False
    with assms add push f show ?thesis
      by (intro exI [of _ 1]) (auto simp: attempt_model_def c provider_err_never Let_def
          split: call_result.splits result.splits if_splits dest: failure_is_schema)
  next
    case True
    then obtain raw x where raw: "r = Answered (Ok raw)" "check_answer E raw = Err x" "se_retry_enabled E" by blast
    let ?lg2 = "(push_failure (pr_model p) 1 (pf_cause x) lg1)\<lparr> al_was_retried := True \<rparr>"
    have s: "attempt_second E p (retry_prompt_for E x raw) ?lg2 = (o', lg')"
      using assms raw failure_is_schema [OF raw(2)] by (simp add: attempt_model_def c Let_def)
    note r2 = attempt_second_result [OF s]
    have "log_adds E p lg lg' 2"
      using log_adds_trans [OF push [of "pf_cause x"], of lg' 1] r2 by (simp add: numeral_2_eq_2)
    with r2 raw(3) f show ?thesis by (intro exI [of _ 2]) auto
  qed
qed

text \<open>One attempt on a model makes one call, and a second only when corrective retries are enabled and
  the first answer was rejected. Every failure and completion record it adds carries the model that
  was called, there is never more of either than calls, the retried flag is raised exactly by the
  second call, the branch for an unexpected error is dead, and a success is an answer of the last
  call that passed every check.\<close>

theorem attempt_model_bounded:
  assumes "attempt_model E p lg = (o', lg')"
  shows "\<exists>k. 1 \<le> k \<and> k \<le> (if se_retry_enabled E then 2 else 1) \<and> log_adds E p lg lg' k
    \<and> (al_was_retried lg' \<longleftrightarrow> al_was_retried lg \<or> k = 2)
    \<and> (\<forall>t. o' \<noteq> MoUnexpected t)
    \<and> (\<forall>out. o' = MoSuccess out \<longrightarrow>
         (\<exists>prompt raw. execute_with E p prompt (al_calls lg + k - 1) = Answered (Ok raw) \<and> check_answer E raw = Ok out))"
  using attempt_model_result [OF assms] .

section \<open>The two dispatchers agree\<close>

definition defect_of_outcome :: "seat_env \<Rightarrow> provider \<Rightarrow> model_outcome \<Rightarrow> crate_defect_record option" where
  "defect_of_outcome E p o' =
     (case o' of
        MoCrateDefect obs hyp \<Rightarrow>
          Some \<lparr> cdr_observation = obs, cdr_hypothesis = hyp, cdr_agent = ag_name (se_agent E), cdr_model = pr_model p \<rparr>
      | _ \<Rightarrow> None)"

lemma retried_records:
  "al_records (snd (call E p q (lg\<lparr> al_was_retried := b \<rparr>))) = al_records (snd (call E p q lg))"
  "al_failures (snd (call E p q (lg\<lparr> al_was_retried := b \<rparr>))) = al_failures (snd (call E p q lg))"
  "fst (call E p q (lg\<lparr> al_was_retried := b \<rparr>)) = fst (call E p q lg)"
  by (simp_all add: call_def Let_def execute_with_def)

definition dispatch_view :: "seat_env \<Rightarrow> provider \<Rightarrow> model_outcome \<times> attempt_log \<Rightarrow> agent_output option
    \<times> bool \<times> extraction_failure list \<times> completion_record list \<times> crate_defect_record option" where
  "dispatch_view E p r = (case r of (o', lg) \<Rightarrow>
     ((case o' of MoSuccess out \<Rightarrow> Some out | _ \<Rightarrow> None), al_was_retried lg, al_failures lg, al_records lg,
      defect_of_outcome E p o'))"

definition result_view :: "seat_result \<Rightarrow> agent_output option
    \<times> bool \<times> extraction_failure list \<times> completion_record list \<times> crate_defect_record option" where
  "result_view r = (case r of (res, rest) \<Rightarrow> ((case res of Ok out \<Rightarrow> Some out | Err _ \<Rightarrow> None), rest))"

lemma defect_views:
  "crate_defect_of (se_fmt E) e (ag_name (se_agent E)) (pr_model p)
     = defect_of_outcome E p (provider_err_outcome (se_fmt E) e)"
  by (simp add: crate_defect_of_def defect_of_outcome_def)

lemma no_output_on_error:
  "(case provider_err_outcome F e of MoSuccess out \<Rightarrow> Some out | _ \<Rightarrow> None) = None"
  by (cases e) simp_all

text \<open>C33: Running without a fallback pool changes nothing about how a model is treated: the dispatcher
  without rotation gives the same accepted output, the same retried flag, the same rejected answers
  and completion records in the same order and the same crate defect as one attempt of the
  rotating dispatcher on the seat's own provider.\<close>

theorem dispatchers_agree:
  "result_view (dispatch_one_agent E) =
     dispatch_view E (ag_provider (se_agent E)) (attempt_model E (ag_provider (se_agent E)) log_new)"
proof -
  let ?p = "ag_provider (se_agent E)"
  obtain r1 lg1 where c1: "call E ?p (se_user_prompt E) log_new = (r1, lg1)"
    by (cases "call E ?p (se_user_prompt E) log_new")
  have w1: "\<not> al_was_retried lg1" using call_fields [OF c1] by (simp add: log_new_def)
  note views = result_view_def dispatch_view_def dispatch_one_agent_def attempt_model_def c1 Let_def
  consider e where "r1 = Answered (Err e)" | "r1 = Elapsed"
    | raw out where "r1 = Answered (Ok raw)" "check_answer E raw = Ok out"
    | raw f where "r1 = Answered (Ok raw)" "check_answer E raw = Err f"
    by (metis call_result.exhaust result.exhaust)
  then show ?thesis
  proof cases
    case 1
    then show ?thesis using w1 by (simp add: views defect_views no_output_on_error)
  next
    case 2
    then show ?thesis using w1 by (simp add: views defect_of_outcome_def)
  next
    case 3
    then show ?thesis using w1 by (simp add: views defect_of_outcome_def)
  next
    case (4 raw f)
    note schema = failure_is_schema [OF 4(2)]
    show ?thesis
    proof (cases "se_retry_enabled E")
      case False
      with 4 w1 schema show ?thesis by (simp add: views defect_of_outcome_def)
    next
      case True
      let ?lg2 = "push_failure (pr_model ?p) 1 (pf_cause f) lg1"
      obtain r2 lg3 where c2: "call E ?p (retry_prompt_for E f raw) ?lg2 = (r2, lg3)"
        by (cases "call E ?p (retry_prompt_for E f raw) ?lg2")
      obtain lg3' where c2': "call E ?p (retry_prompt_for E f raw) (?lg2\<lparr> al_was_retried := True \<rparr>) = (r2, lg3')"
        and lg3': "al_records lg3' = al_records lg3" "al_failures lg3' = al_failures lg3" "al_was_retried lg3'"
        using c2 by (auto simp: call_def Let_def execute_with_def push_failure_def)
      consider e where "r2 = Answered (Err e)" | "r2 = Elapsed"
        | raw2 out where "r2 = Answered (Ok raw2)" "check_answer E raw2 = Ok out"
        | raw2 f2 where "r2 = Answered (Ok raw2)" "check_answer E raw2 = Err f2"
        by (metis call_result.exhaust result.exhaust)
      then show ?thesis
        using 4 True schema c2 c2' lg3'
        by cases (simp_all add: views attempt_second_def defect_views no_output_on_error
            defect_of_outcome_def push_failure_def)
    qed
  qed
qed

text \<open>The three ways the program sorts a provider error never disagree: the outcome of an attempt is
  a transport failure, which condemns the lineage for every mage, exactly for the errors that are
  not the mage's own, it carries a connection flag exactly for a network error, the kind recorded in
  the rotation chain is mage-local exactly when the error is, and only a response without token
  counters is called a defect of the crate.\<close>

theorem attribution_consistent:
  "(case provider_err_outcome F e of
      MoTransport d connection kind \<Rightarrow>
        \<not> is_mage_local e \<and> \<not> kind_is_mage_local kind \<and> (connection \<longleftrightarrow> (\<exists>m. e = Network m))
    | MoMageLocal d kind \<Rightarrow> is_mage_local e \<and> kind_is_mage_local kind
    | MoOversized limit \<Rightarrow> is_mage_local e \<and> kind_is_mage_local KOversizedResponse
    | MoExternal d kind \<Rightarrow> is_mage_local e \<and> kind_is_mage_local KExternalFailure
    | MoCrateDefect obs hyp \<Rightarrow> (\<exists>d. e = NoGeneration d) \<and> hyp = CRATE_DEFECT_HYPOTHESIS
    | MoSuccess out \<Rightarrow> False | MoSchema t \<Rightarrow> False | MoUnexpected t \<Rightarrow> False)"
  by (cases e) simp_all

section \<open>A seat whose first answer is rejected\<close>

definition sample_agent :: agent where
  "sample_agent = \<lparr> ag_name = Melchior, ag_system_prompt = asc ''p'',
     ag_provider = \<lparr> pr_slot = None, pr_model = asc ''m'' \<rparr> \<rparr>"

definition sample_env :: seat_env where
  "sample_env = \<lparr> se_unicode = ascii_tables, se_fmt = plain_fmt, se_serde = (\<lambda>_. SyntaxError []),
     se_backend = (\<lambda>n p s u c. if n = 0 then Answered (Ok (completion_new (asc ''no verdict''))) else Elapsed),
     se_agent = sample_agent, se_user_prompt = asc ''u'', se_config = completion_config_default,
     se_limits = limits_default, se_timeout = secs 660, se_retry_enabled = True \<rparr>"

lemma sample_rejected: "\<exists>f. check_answer sample_env (completion_new (asc ''no verdict'')) = Err f"
  by (cases "extract_block ascii_tables (asc ''no verdict'')")
    (simp_all add: check_answer_def sample_env_def parse_validate_and_check_def parse_and_validate_def
      parse_agent_response_def completion_new_def)

theorem attempt_model_bounded_witness:
  "\<exists>o' lg'. attempt_model sample_env (ag_provider sample_agent) log_new = (o', lg') \<and> al_calls lg' = 2
     \<and> al_was_retried lg' \<and> (\<forall>out. o' \<noteq> MoSuccess out)"
proof -
  let ?p = "ag_provider sample_agent"
  obtain f where f: "check_answer sample_env (completion_new (asc ''no verdict'')) = Err f"
    using sample_rejected by blast
  obtain o' lg' where r: "attempt_model sample_env ?p log_new = (o', lg')"
    by (cases "attempt_model sample_env ?p log_new")
  have calls: "al_calls lg' = 2" "o' = MoTransport (agent_timeout_message plain_fmt True (secs 660)) False KTimeout"
    using r f failure_is_schema [OF f]
    by (auto simp: attempt_model_def attempt_second_def call_def execute_with_def sample_env_def log_new_def
        push_failure_def Let_def)
  moreover have "al_was_retried lg'"
    using attempt_model_bounded [OF r] calls(1) by (auto simp: log_adds_def log_new_def)
  ultimately show ?thesis using r by blast
qed

end
