(* ===== verification/Seat.thy ===== *)
theory Seat
  imports Attempt
begin

text \<open>
  The rotating dispatcher of a seat (\<open>dispatch_one_agent_rotating\<close> in
  \<open>src/src/orchestrator.rs\<close>) and the run of the three seats over the shared registry. The seat is
  a machine whose phases are the points where it awaits: between two of its own registry
  operations any other seat may act. A run is the interleaving of the seats, any of which may be
  cancelled or panic in any phase.
\<close>

section \<open>State of a seat\<close>

datatype releasing = FailWith ustr | DefectWith crate_defect_record

datatype phase =
    Attempting
  | Registering bool rotation_kind ustr
  | Claiming rotation_kind ustr
  | Releasing releasing
  | Latching crate_defect_record
  | Finished "(agent_output, ustr) result"
  | Detached
  | Cancelled

record seat =
  st_provider :: provider
  st_lineage :: lineage
  st_rot :: rotation_state
  st_log :: attempt_log
  st_guard :: slot_guard
  st_phase :: phase

record rotating_env =
  ro_env :: seat_env
  ro_pool :: fallback_pool
  ro_capabilities :: capabilities
  ro_strict_context_guard :: bool
  ro_min_window_tokens :: nat

definition seat_name :: "rotating_env \<Rightarrow> agent_name" where
  "seat_name E = ag_name (se_agent (ro_env E))"

definition seat_policy :: "rotating_env \<Rightarrow> rotation_policy" where
  "seat_policy E = \<lparr> rp_fallback = to_candidates (ro_pool E), rp_max_rotations = fp_max_rotations (ro_pool E),
     rp_capabilities = ro_capabilities E, rp_strict_context_guard = ro_strict_context_guard E,
     rp_min_window_tokens = ro_min_window_tokens E \<rparr>"

definition seat_start :: "rotating_env \<Rightarrow> lineage \<Rightarrow> model \<Rightarrow> seat" where
  "seat_start E primary_lineage model_configured =
     \<lparr> st_provider = ag_provider (se_agent (ro_env E)), st_lineage = primary_lineage,
       st_rot = rotation_state_new model_configured, st_log = log_new,
       st_guard = guard_new (seat_name E), st_phase = Attempting \<rparr>"

section \<open>Steps of a seat\<close>

definition oversized_detail :: "nat \<Rightarrow> ustr" where
  "oversized_detail limit = asc ''response body exceeded '' @ show_nat limit @ asc '' bytes''"

definition external_failure_detail :: "external_error_kind \<Rightarrow> ustr \<Rightarrow> ustr" where
  "external_failure_detail k detail = asc ''external ('' @ dbg_external_kind k @ asc ''): '' @ detail"

definition fail_lineage :: "lineage \<Rightarrow> rotation_state \<Rightarrow> rotation_state" where
  "fail_lineage l rot = rot\<lparr> rs_failed_lineages := insert l (rs_failed_lineages rot) \<rparr>"

text \<open>The attempt on the current model and the decision what to do with its outcome.\<close>

definition after_attempt :: "rotating_env \<Rightarrow> seat \<Rightarrow> model_outcome \<Rightarrow> seat" where
  "after_attempt E s o' =
     (case o' of
        MoSuccess out \<Rightarrow>
          s\<lparr> st_rot := (st_rot s)\<lparr> rs_ran_unmeasured :=
                 (window_of (ro_capabilities E) (rs_model_used (st_rot s)) = None) \<rparr>,
             st_guard := mark_succeeded (st_guard s), st_phase := Finished (Ok out) \<rparr>
      | MoUnexpected detail \<Rightarrow> s\<lparr> st_phase := Releasing (FailWith detail) \<rparr>
      | MoMageLocal detail kind \<Rightarrow>
          s\<lparr> st_rot := fail_lineage (st_lineage s) (st_rot s), st_phase := Claiming kind detail \<rparr>
      | MoCrateDefect obs hyp \<Rightarrow>
          s\<lparr> st_phase := Releasing (DefectWith \<lparr> cdr_observation = obs, cdr_hypothesis = hyp,
               cdr_agent = seat_name E, cdr_model = pr_model (st_provider s) \<rparr>) \<rparr>
      | MoOversized limit \<Rightarrow>
          s\<lparr> st_rot := fail_lineage (st_lineage s) (st_rot s),
             st_phase := Claiming KOversizedResponse (oversized_detail limit) \<rparr>
      | MoExternal detail kind \<Rightarrow>
          s\<lparr> st_rot := fail_lineage (st_lineage s) (st_rot s),
             st_phase := Claiming KExternalFailure (external_failure_detail kind detail) \<rparr>
      | MoSchema detail \<Rightarrow>
          s\<lparr> st_rot := fail_lineage (st_lineage s) (st_rot s), st_phase := Claiming KSchema detail \<rparr>
      | MoTransport detail connection kind \<Rightarrow> s\<lparr> st_phase := Registering connection kind detail \<rparr>)"

text \<open>The candidate granted by the registry becomes the model of the seat.\<close>

definition rotate_to :: "rotating_env \<Rightarrow> rotation_kind \<Rightarrow> ustr \<Rightarrow> candidate \<Rightarrow> rotation_state \<Rightarrow> seat \<Rightarrow> seat" where
  "rotate_to E kind detail cand rot s =
     (let event = rotation_event_new (se_unicode (ro_env E)) (st_lineage s) (ca_lineage cand) (ca_model cand)
            kind detail
      in s\<lparr> st_provider := \<lparr> pr_slot = Some (ca_provider_ix cand),
              pr_model = fc_model (fp_candidates (ro_pool E) ! ca_provider_ix cand) \<rparr>,
            st_lineage := ca_lineage cand,
            st_rot := rot\<lparr> rs_rotations_done := rs_rotations_done rot + 1, rs_chain := rs_chain rot @ [event],
              rs_used := insert (ca_model cand) (rs_used rot), rs_model_used := ca_model cand \<rparr>,
            st_phase := Attempting \<rparr>)"

definition defect_text :: "rust_fmt \<Rightarrow> crate_defect_record \<Rightarrow> ustr" where
  "defect_text F d =
     show_magi_error F (CrateDefect (cdr_observation d) (cdr_hypothesis d) (cdr_agent d) (cdr_model d) [])"

definition seat_step :: "rotating_env \<Rightarrow> seat \<Rightarrow> registry \<Rightarrow> seat \<times> registry" where
  "seat_step E s R =
     (case st_phase s of
        Attempting \<Rightarrow>
          (let (o', lg) = attempt_model (ro_env E) (st_provider s) (st_log s)
           in (after_attempt E (s\<lparr> st_log := lg \<rparr>) o', R))
      | Registering connection kind detail \<Rightarrow>
          (let (_, R') = register_transport_failure (st_lineage s) connection R
           in (s\<lparr> st_phase := Claiming kind detail \<rparr>, R'))
      | Claiming kind detail \<Rightarrow>
          (let (c, R', rot) = claim_next (seat_policy E) (seat_name E) R (st_rot s)
           in case c of
                Some cand \<Rightarrow> (rotate_to E kind detail cand rot s, R')
              | None \<Rightarrow> (s\<lparr> st_rot := rot,
                          st_phase := Releasing (FailWith (asc ''no_fitting_candidate: '' @ detail)) \<rparr>, R'))
      | Releasing next \<Rightarrow>
          (s\<lparr> st_guard := mark_released (st_guard s),
             st_phase := (case next of FailWith reason \<Rightarrow> Finished (Err reason) | DefectWith d \<Rightarrow> Latching d) \<rparr>,
           release (seat_name E) R)
      | Latching d \<Rightarrow>
          (let (_, R') = latch_crate_defect d R
           in (s\<lparr> st_phase := Finished (Err (defect_text (se_fmt (ro_env E)) d)) \<rparr>, R'))
      | Finished r \<Rightarrow> (s, R)
      | Detached \<Rightarrow> (s\<lparr> st_phase := Cancelled \<rparr>, release (seat_name E) R)
      | Cancelled \<Rightarrow> (s, R))"

record rotating_dispatch =
  ri_output :: "(agent_output, ustr) result"
  ri_rotation :: agent_rotation
  ri_was_retried :: bool
  ri_extraction_failures :: "extraction_failure list"
  ri_completions :: "completion_record list"
  ri_degenerate_pool :: bool

definition dispatch_of :: "seat \<Rightarrow> rotating_dispatch option" where
  "dispatch_of s =
     (case st_phase s of
        Finished r \<Rightarrow> Some \<lparr> ri_output = r, ri_rotation = to_rotation (st_rot s),
          ri_was_retried = al_was_retried (st_log s), ri_extraction_failures = al_failures (st_log s),
          ri_completions = al_records (st_log s), ri_degenerate_pool = rs_degenerate_pool (st_rot s) \<rparr>
      | _ \<Rightarrow> None)"

definition ended :: "seat \<Rightarrow> bool" where
  "ended s \<longleftrightarrow> (case st_phase s of Finished _ \<Rightarrow> True | Cancelled \<Rightarrow> True | _ \<Rightarrow> False)"

section \<open>The run of the seats\<close>

record run =
  rn_registry :: registry
  rn_seats :: "agent_name \<rightharpoonup> seat"

text \<open>One seat acts, or one seat is cancelled or panics and its guard is dropped. A drop that finds the
  registry locked detaches the release of the slot: the task is gone, the slot is given up later.\<close>

inductive run_step :: "(agent_name \<Rightarrow> rotating_env) \<Rightarrow> run \<Rightarrow> run \<Rightarrow> bool" for E where
  act: "rn_seats C a = Some s \<Longrightarrow> \<not> ended s \<Longrightarrow> seat_step (E a) s (rn_registry C) = (s', R') \<Longrightarrow>
     run_step E C \<lparr> rn_registry = R', rn_seats = (rn_seats C)(a \<mapsto> s') \<rparr>"
| cancel: "rn_seats C a = Some s \<Longrightarrow> \<not> ended s \<Longrightarrow> st_phase s \<noteq> Detached \<Longrightarrow>
     run_step E C \<lparr> rn_registry = guard_drop (st_guard s) (rn_registry C),
       rn_seats = (rn_seats C)(a \<mapsto> s\<lparr> st_phase := Cancelled \<rparr>) \<rparr>"
| detach: "rn_seats C a = Some s \<Longrightarrow> \<not> ended s \<Longrightarrow> st_phase s \<noteq> Detached \<Longrightarrow> \<not> sg_released (st_guard s) \<Longrightarrow>
     run_step E C \<lparr> rn_registry = rn_registry C,
       rn_seats = (rn_seats C)(a \<mapsto> s\<lparr> st_phase := Detached \<rparr>) \<rparr>"

inductive_cases run_stepE [consumes 1, case_names act cancel detach]: "run_step E C C'"

definition run_start :: "(agent_name \<Rightarrow> rotating_env) \<Rightarrow> (agent_name \<rightharpoonup> active_entry) \<Rightarrow> run" where
  "run_start E seats =
     \<lparr> rn_registry = registry_new seats,
       rn_seats = (\<lambda>a. case seats a of Some e \<Rightarrow> Some (seat_start (E a) (ae_lineage e) (ae_model e)) | None \<Rightarrow> None) \<rparr>"

inductive run_reachable :: "(agent_name \<Rightarrow> rotating_env) \<Rightarrow> run \<Rightarrow> run \<Rightarrow> bool" for E C0 where
  run_init: "run_reachable E C0 C0"
| run_next: "run_reachable E C0 C \<Longrightarrow> run_step E C C' \<Longrightarrow> run_reachable E C0 C'"

text \<open>The environments of one run share the pool, the capabilities and the guard.\<close>

definition shared_policy :: "(agent_name \<Rightarrow> rotating_env) \<Rightarrow> rotation_policy \<Rightarrow> bool" where
  "shared_policy E P \<longleftrightarrow> (\<forall>a. seat_policy (E a) = P \<and> seat_name (E a) = a)"

section \<open>What a seat keeps\<close>

text \<open>The way the seat has gone: the chain of rotations is connected, from the primary lineage to the
  current one, and no lineage appears twice in it.\<close>

definition route :: "lineage \<Rightarrow> seat \<Rightarrow> lineage list" where
  "route primary s = primary # map re_to (rs_chain (st_rot s))"

definition given_up :: "registry \<Rightarrow> seat \<Rightarrow> lineage set" where
  "given_up R s = rs_failed_lineages (st_rot s) \<union> rg_run_failed R"

definition route_ok :: "lineage \<Rightarrow> registry \<Rightarrow> seat \<Rightarrow> bool" where
  "route_ok primary R s \<longleftrightarrow>
     map re_from (rs_chain (st_rot s)) @ [st_lineage s] = route primary s
     \<and> distinct (route primary s)
     \<and> set (map re_from (rs_chain (st_rot s))) \<subseteq> given_up R s
     \<and> (\<forall>kind detail. st_phase s = Claiming kind detail \<longrightarrow> st_lineage s \<in> given_up R s)"

definition models_ok :: "model \<Rightarrow> seat \<Rightarrow> bool" where
  "models_ok configured s \<longleftrightarrow>
     (let ms = configured # map re_model_resolved (rs_chain (st_rot s)) in
      distinct ms \<and> rs_used (st_rot s) = set ms \<and> rs_model_used (st_rot s) = last ms
      \<and> pr_model (st_provider s) = last ms \<and> rs_model_configured (st_rot s) = configured)"

definition max_calls :: "seat_env \<Rightarrow> nat" where
  "max_calls E = (if se_retry_enabled E then 2 else 1)"

definition counts_ok :: "rotating_env \<Rightarrow> seat \<Rightarrow> bool" where
  "counts_ok E s \<longleftrightarrow>
     length (rs_chain (st_rot s)) = rs_rotations_done (st_rot s)
     \<and> rs_rotations_done (st_rot s) \<le> fp_max_rotations (ro_pool E)
     \<and> al_calls (st_log s) \<le> max_calls (ro_env E)
         * (rs_rotations_done (st_rot s) + (if st_phase s = Attempting then 0 else 1))"

text \<open>The phases in which the seat owns its slot of the registry.\<close>

definition holds_slot :: "seat \<Rightarrow> bool" where
  "holds_slot s \<longleftrightarrow> (case st_phase s of
      Attempting \<Rightarrow> True | Registering _ _ _ \<Rightarrow> True | Claiming _ _ \<Rightarrow> True | Releasing _ \<Rightarrow> True
    | Finished r \<Rightarrow> is_ok r | Detached \<Rightarrow> True | Latching _ \<Rightarrow> False | Cancelled \<Rightarrow> False)"

definition slot_ok :: "rotating_env \<Rightarrow> registry \<Rightarrow> seat \<Rightarrow> bool" where
  "slot_ok E R s \<longleftrightarrow>
     sg_agent (st_guard s) = seat_name E
     \<and> (sg_succeeded (st_guard s) \<longleftrightarrow> (\<exists>out. st_phase s = Finished (Ok out)))
     \<and> (st_phase s = Cancelled \<or> (sg_released (st_guard s) \<longleftrightarrow> \<not> holds_slot s))
     \<and> rg_active R (seat_name E) =
         (if holds_slot s then Some \<lparr> ae_lineage = st_lineage s, ae_model = rs_model_used (st_rot s) \<rparr> else None)"

definition seat_ok :: "rotating_env \<Rightarrow> lineage \<Rightarrow> model \<Rightarrow> registry \<Rightarrow> seat \<Rightarrow> bool" where
  "seat_ok E primary configured R s \<longleftrightarrow>
     route_ok primary R s \<and> models_ok configured s \<and> counts_ok E s \<and> slot_ok E R s"

lemmas seat_ok_defs = route_ok_def models_ok_def counts_ok_def slot_ok_def route_def given_up_def Let_def

lemma seat_start_ok:
  assumes "rg_active R (seat_name E) = Some \<lparr> ae_lineage = l, ae_model = m \<rparr>"
    and "pr_model (ag_provider (se_agent (ro_env E))) = m"
  shows "seat_ok E l m R (seat_start E l m)"
  using assms by (simp add: seat_ok_def seat_ok_defs seat_start_def rotation_state_new_def log_new_def
      guard_new_def holds_slot_def)

subsection \<open>The seat's own steps\<close>

lemma after_attempt_fields:
  "st_provider (after_attempt E s o') = st_provider s" "st_lineage (after_attempt E s o') = st_lineage s"
  "st_log (after_attempt E s o') = st_log s"
  "rs_chain (st_rot (after_attempt E s o')) = rs_chain (st_rot s)"
  "rs_used (st_rot (after_attempt E s o')) = rs_used (st_rot s)"
  "rs_model_used (st_rot (after_attempt E s o')) = rs_model_used (st_rot s)"
  "rs_model_configured (st_rot (after_attempt E s o')) = rs_model_configured (st_rot s)"
  "rs_rotations_done (st_rot (after_attempt E s o')) = rs_rotations_done (st_rot s)"
  "sg_agent (st_guard (after_attempt E s o')) = sg_agent (st_guard s)"
  "rs_failed_lineages (st_rot s) \<subseteq> rs_failed_lineages (st_rot (after_attempt E s o'))"
  "st_phase (after_attempt E s o') \<noteq> Attempting"
  "st_phase (after_attempt E s o') = Claiming kind detail \<Longrightarrow>
     st_lineage s \<in> rs_failed_lineages (st_rot (after_attempt E s o'))"
  "holds_slot (after_attempt E s o')" "st_phase (after_attempt E s o') \<noteq> Cancelled"
  "sg_released (st_guard (after_attempt E s o')) = sg_released (st_guard s)"
  "\<not> sg_succeeded (st_guard s) \<Longrightarrow> sg_succeeded (st_guard (after_attempt E s o')) \<longleftrightarrow>
     (\<exists>out. st_phase (after_attempt E s o') = Finished (Ok out))"
  by (cases o'; auto simp: after_attempt_def fail_lineage_def mark_succeeded_def holds_slot_def)+

lemma candidate_model:
  assumes "c \<in> set (to_candidates pool)"
  shows "fc_model (fp_candidates pool ! ca_provider_ix c) = ca_model c"
  using assms by (auto simp: to_candidates_def in_set_enumerate_eq)

lemma calls_after:
  assumes "attempt_model E p lg = (o', lg')"
  shows "al_calls lg' \<le> al_calls lg + max_calls E"
  using attempt_model_result [OF assms] by (auto simp: log_adds_def max_calls_def split: if_splits)

lemma attempting_ok:
  assumes "seat_ok E primary configured R s" "st_phase s = Attempting"
    and "attempt_model (ro_env E) (st_provider s) (st_log s) = (o', lg)"
  shows "seat_ok E primary configured R (after_attempt E (s\<lparr> st_log := lg \<rparr>) o')"
proof -
  let ?s = "after_attempt E (s\<lparr> st_log := lg \<rparr>) o'"
  note F = after_attempt_fields [where E = E and s = "s\<lparr> st_log := lg \<rparr>" and o' = o', simplified]
  have "route_ok primary R ?s" using assms F by (fastforce simp: seat_ok_def route_ok_def route_def given_up_def)
  moreover have "models_ok configured ?s" using assms F by (simp add: seat_ok_def models_ok_def)
  moreover have "counts_ok E ?s"
    using assms(1,2) F calls_after [OF assms(3)] by (simp add: seat_ok_def counts_ok_def)
  moreover have "slot_ok E R ?s"
    using assms F by (simp add: seat_ok_def slot_ok_def holds_slot_def)
  ultimately show ?thesis by (simp add: seat_ok_def)
qed

lemma claiming_ok:
  assumes "seat_ok E primary configured R s" "st_phase s = Claiming kind detail"
    and "claim_next (seat_policy E) (seat_name E) R (st_rot s) = (Some cand, R', rot)"
  shows "seat_ok E primary configured R' (rotate_to E kind detail cand rot s)"
proof -
  note c = claim_next_Some [OF assms(3)] and st = claim_next_state [OF assms(3)]
  have pool: "cand \<in> set (to_candidates (ro_pool E))" using c(1) by (simp add: seat_policy_def)
  have adm: "rs_rotations_done (st_rot s) < fp_max_rotations (ro_pool E)"
    "ca_lineage cand \<notin> rs_failed_lineages (st_rot s)" "ca_lineage cand \<notin> rg_run_failed R"
    "ca_model cand \<notin> rs_used (st_rot s)"
    using c(2) by (auto simp: admissible_def eligible_def seat_policy_def)
  have froms: "map re_from (rs_chain (st_rot s)) @ [st_lineage s] = route primary s"
    "distinct (route primary s)" "set (route primary s) \<subseteq> given_up R s"
  proof -
    show r: "map re_from (rs_chain (st_rot s)) @ [st_lineage s] = route primary s" "distinct (route primary s)"
      using assms(1) by (simp_all add: seat_ok_def route_ok_def)
    show "set (route primary s) \<subseteq> given_up R s"
      unfolding r(1) [symmetric] set_append using assms(1,2) by (simp add: seat_ok_def route_ok_def)
  qed
  let ?s = "rotate_to E kind detail cand rot s"
  have R': "rg_run_failed R' = rg_run_failed R" using c(3) by simp
  have "ca_lineage cand \<notin> set (route primary s)" using froms(3) adm(2,3) by (auto simp: given_up_def)
  then have "route_ok primary R' ?s"
    using froms st R' by (auto simp: route_ok_def rotate_to_def Let_def route_def rotation_event_new_def given_up_def)
  moreover have "models_ok configured ?s"
    using assms(1) st adm(4) candidate_model [OF pool]
    by (auto simp: seat_ok_def models_ok_def rotate_to_def Let_def rotation_event_new_def)
  moreover have "counts_ok E ?s"
    using assms(1,2) st adm(1) by (simp add: seat_ok_def counts_ok_def rotate_to_def Let_def)
  moreover have "slot_ok E R' ?s"
    using assms(1,2) c(3) by (simp add: seat_ok_def slot_ok_def rotate_to_def Let_def holds_slot_def entry_of_def)
  ultimately show ?thesis by (simp add: seat_ok_def)
qed

lemma claiming_none_ok:
  assumes "seat_ok E primary configured R s" "st_phase s = Claiming kind detail"
    and "claim_next (seat_policy E) (seat_name E) R (st_rot s) = (None, R', rot)"
  shows "seat_ok E primary configured R' (s\<lparr> st_rot := rot, st_phase := Releasing r \<rparr>)"
  using assms claim_next_None(1) [OF assms(3)] claim_next_state [OF assms(3)]
  by (auto simp: seat_ok_def seat_ok_defs holds_slot_def)

lemma leaving_ok:
  assumes "seat_ok E primary configured R s" "st_phase s \<noteq> Attempting"
    and "rg_run_failed R \<subseteq> rg_run_failed R'" "slot_ok E R' (s\<lparr> st_guard := g, st_phase := ph \<rparr>)"
    and "\<And>kind detail. ph \<noteq> Claiming kind detail" "ph \<noteq> Attempting"
  shows "seat_ok E primary configured R' (s\<lparr> st_guard := g, st_phase := ph \<rparr>)"
proof -
  have "given_up R s \<subseteq> given_up R' (s\<lparr> st_guard := g, st_phase := ph \<rparr>)"
    using assms(3) by (auto simp: given_up_def)
  then have "route_ok primary R' (s\<lparr> st_guard := g, st_phase := ph \<rparr>)"
    using assms(1,5) by (simp add: seat_ok_def route_ok_def route_def) blast
  with assms show ?thesis by (simp add: seat_ok_def models_ok_def counts_ok_def)
qed

lemma seat_step_ok:
  assumes "seat_ok E primary configured R s" "\<not> ended s" "seat_step E s R = (s', R')"
  shows "seat_ok E primary configured R' s'"
proof (cases "st_phase s")
  case Attempting
  obtain o' lg where a: "attempt_model (ro_env E) (st_provider s) (st_log s) = (o', lg)"
    by (cases "attempt_model (ro_env E) (st_provider s) (st_log s)")
  then show ?thesis using assms attempting_ok [OF assms(1) Attempting a] Attempting by (simp add: seat_step_def)
next
  case (Registering connection kind detail)
  obtain fired R1 where t: "register_transport_failure (st_lineage s) connection R = (fired, R1)"
    by (cases "register_transport_failure (st_lineage s) connection R")
  note tf = transport_fields [OF t]
  have e: "s' = s\<lparr> st_phase := Claiming kind detail \<rparr>" "R' = R1"
    using assms(3) Registering by (simp_all add: seat_step_def t)
  have gu: "given_up R' s' = insert (st_lineage s) (given_up R s)" by (auto simp: given_up_def e tf)
  have "route_ok primary R' s'"
    using assms(1) unfolding seat_ok_def route_ok_def gu by (auto simp: e route_def)
  moreover have "models_ok configured s'" "counts_ok E s'" "slot_ok E R' s'"
    using assms(1) Registering by (simp_all add: seat_ok_def models_ok_def counts_ok_def slot_ok_def holds_slot_def e tf)
  ultimately show ?thesis by (simp add: seat_ok_def)
next
  case (Claiming kind detail)
  obtain c R1 rot where cl: "claim_next (seat_policy E) (seat_name E) R (st_rot s) = (c, R1, rot)"
    by (cases "claim_next (seat_policy E) (seat_name E) R (st_rot s)")
  then show ?thesis
    using assms Claiming claiming_ok [OF assms(1) Claiming] claiming_none_ok [OF assms(1) Claiming]
    by (cases c) (auto simp: seat_step_def)
next
  case (Releasing r)
  let ?ph = "case r of FailWith reason \<Rightarrow> Finished (Err reason) | DefectWith d \<Rightarrow> Latching d"
  have e: "s' = s\<lparr> st_guard := mark_released (st_guard s), st_phase := ?ph \<rparr>" "R' = release (seat_name E) R"
    using assms(3) Releasing by (simp_all add: seat_step_def)
  show ?thesis unfolding e
    by (rule leaving_ok [OF assms(1)])
      (use assms(1) Releasing in \<open>auto simp: seat_ok_def slot_ok_def holds_slot_def release_def mark_released_def
        split: releasing.splits\<close>)
next
  case (Latching d)
  obtain won R1 where t: "latch_crate_defect d R = (won, R1)" by (cases "latch_crate_defect d R")
  have e: "s' = s\<lparr> st_guard := st_guard s, st_phase := Finished (Err (defect_text (se_fmt (ro_env E)) d)) \<rparr>" "R' = R1"
    using assms(3) Latching by (simp_all add: seat_step_def t)
  show ?thesis unfolding e
    by (rule leaving_ok [OF assms(1)])
      (use assms(1) Latching latch_fields [OF t] in \<open>auto simp: seat_ok_def slot_ok_def holds_slot_def\<close>)
next
  case Detached
  have e: "s' = s\<lparr> st_guard := st_guard s, st_phase := Cancelled \<rparr>" "R' = release (seat_name E) R"
    using assms(3) Detached by (simp_all add: seat_step_def)
  show ?thesis unfolding e
    by (rule leaving_ok [OF assms(1)])
      (use assms(1) Detached in \<open>auto simp: seat_ok_def slot_ok_def holds_slot_def release_def\<close>)
qed (use assms in \<open>simp_all add: ended_def\<close>)

subsection \<open>A step as seen by the registry and by the other seats\<close>

lemma seat_step_registry:
  assumes "seat_step E s R = (s', R')"
  shows "R' = R \<or> registry_step (seat_policy E) R R'"
proof (cases "st_phase s")
  case (Registering connection kind detail)
  obtain fired R1 where t: "register_transport_failure (st_lineage s) connection R = (fired, R1)"
    by (cases "register_transport_failure (st_lineage s) connection R")
  with assms Registering have "R' = R1" by (simp add: seat_step_def)
  with registry_step.transport [OF t] show ?thesis by simp
next
  case (Claiming kind detail)
  obtain c R1 rot where cl: "claim_next (seat_policy E) (seat_name E) R (st_rot s) = (c, R1, rot)"
    by (cases "claim_next (seat_policy E) (seat_name E) R (st_rot s)")
  with assms Claiming have "R' = R1" by (cases c) (simp_all add: seat_step_def)
  with registry_step.claim [OF cl] show ?thesis by simp
next
  case (Releasing r)
  with assms have "R' = release (seat_name E) R" by (simp add: seat_step_def)
  with registry_step.release show ?thesis by simp
next
  case (Latching d)
  obtain won R1 where t: "latch_crate_defect d R = (won, R1)" by (cases "latch_crate_defect d R")
  with assms Latching have "R' = R1" by (simp add: seat_step_def)
  with registry_step.defect [OF t] show ?thesis by simp
next
  case Detached
  with assms have "R' = release (seat_name E) R" by (simp add: seat_step_def)
  with registry_step.release show ?thesis by simp
qed (use assms in \<open>simp_all add: seat_step_def split: prod.splits\<close>)

lemma seat_step_frame:
  assumes "seat_step E s R = (s', R')" "b \<noteq> seat_name E"
  shows "rg_active R' b = rg_active R b"
proof (cases "st_phase s")
  case (Registering connection kind detail)
  with assms transport_fields show ?thesis by (auto simp: seat_step_def split: prod.splits)
next
  case (Claiming kind detail)
  obtain c R1 rot where cl: "claim_next (seat_policy E) (seat_name E) R (st_rot s) = (c, R1, rot)"
    by (cases "claim_next (seat_policy E) (seat_name E) R (st_rot s)")
  have "R' = R1" using assms Claiming cl by (cases c) (simp_all add: seat_step_def)
  with claim_next_registry [of "seat_policy E" "seat_name E" R "st_rot s"] assms(2) show ?thesis
    by (auto simp: cl split: option.splits)
next
  case (Releasing r)
  with assms show ?thesis by (auto simp: seat_step_def release_def)
next
  case (Latching d)
  with assms latch_fields show ?thesis by (auto simp: seat_step_def split: prod.splits)
next
  case Detached
  with assms show ?thesis by (auto simp: seat_step_def release_def)
qed (use assms in \<open>simp_all add: seat_step_def split: prod.splits\<close>)

text \<open>Another seat's step leaves what this seat keeps intact.\<close>

lemma seat_ok_other:
  assumes "seat_ok E primary configured R s" "grows R R'"
    and "rg_active R' (seat_name E) = rg_active R (seat_name E)"
  shows "seat_ok E primary configured R' s"
proof -
  have "given_up R s \<subseteq> given_up R' s" using assms(2) by (auto simp: given_up_def grows_def)
  then have "route_ok primary R' s" using assms(1) by (simp add: seat_ok_def route_ok_def) blast
  with assms show ?thesis by (simp add: seat_ok_def models_ok_def counts_ok_def slot_ok_def)
qed

lemma not_ended: "\<not> ended s \<Longrightarrow> st_phase s \<noteq> Cancelled \<and> st_phase s \<noteq> Finished r"
  by (cases "st_phase s") (simp_all add: ended_def)

lemma seat_ok_cancel:
  assumes "seat_ok E primary configured R s" "\<not> ended s" "st_phase s \<noteq> Detached"
  shows "seat_ok E primary configured (guard_drop (st_guard s) R) (s\<lparr> st_phase := Cancelled \<rparr>)"
proof -
  let ?s = "s\<lparr> st_phase := Cancelled \<rparr>" and ?R = "guard_drop (st_guard s) R"
  have s: "slot_ok E R s" using assms(1) by (simp add: seat_ok_def)
  have succ: "\<not> sg_succeeded (st_guard s)" using s not_ended [OF assms(2)] by (simp add: slot_ok_def)
  have rel: "sg_released (st_guard s) \<longleftrightarrow> \<not> holds_slot s" using s not_ended [OF assms(2)] by (simp add: slot_ok_def)
  have "rg_active ?R (seat_name E) = None"
    using s succ rel by (cases "holds_slot s") (simp_all add: slot_ok_def guard_drop_def release_def)
  then have "slot_ok E ?R ?s" using s succ by (simp add: slot_ok_def holds_slot_def)
  moreover have "route_ok primary ?R ?s"
    using assms(1) by (simp add: seat_ok_def route_ok_def route_def given_up_def guard_drop_def release_def)
  moreover have "models_ok configured ?s" using assms(1) by (simp add: seat_ok_def models_ok_def)
  moreover have "counts_ok E ?s"
    using assms(1) by (simp add: seat_ok_def counts_ok_def split: if_splits)
  ultimately show ?thesis by (simp add: seat_ok_def)
qed

lemma seat_ok_detach:
  assumes "seat_ok E primary configured R s" "\<not> ended s" "\<not> sg_released (st_guard s)"
  shows "seat_ok E primary configured R (s\<lparr> st_phase := Detached \<rparr>)"
proof -
  have "slot_ok E R (s\<lparr> st_phase := Detached \<rparr>)"
    using assms(1,3) not_ended [OF assms(2)] by (auto simp: seat_ok_def slot_ok_def holds_slot_def)
  moreover have "route_ok primary R (s\<lparr> st_phase := Detached \<rparr>)"
    using assms(1) by (simp add: seat_ok_def route_ok_def route_def given_up_def)
  moreover have "counts_ok E (s\<lparr> st_phase := Detached \<rparr>)"
    using assms(1) by (simp add: seat_ok_def counts_ok_def split: if_splits)
  ultimately show ?thesis using assms(1) by (simp add: seat_ok_def models_ok_def)
qed

section \<open>What a run keeps\<close>

definition run_ok :: "(agent_name \<Rightarrow> rotating_env) \<Rightarrow> (agent_name \<rightharpoonup> active_entry) \<Rightarrow> run \<Rightarrow> bool" where
  "run_ok E seats C \<longleftrightarrow> (\<forall>a. rn_seats C a = None \<longleftrightarrow> seats a = None)
     \<and> (\<forall>a e s. seats a = Some e \<longrightarrow> rn_seats C a = Some s \<longrightarrow>
          seat_ok (E a) (ae_lineage e) (ae_model e) (rn_registry C) s)"

lemma run_ok_seat: "run_ok E seats C \<Longrightarrow> rn_seats C a = Some s \<Longrightarrow> \<exists>e. seats a = Some e"
  unfolding run_ok_def by (metis not_None_eq)

text \<open>The provider of each seat is the one whose model the registry was told.\<close>

definition seats_match :: "(agent_name \<Rightarrow> rotating_env) \<Rightarrow> (agent_name \<rightharpoonup> active_entry) \<Rightarrow> bool" where
  "seats_match E seats \<longleftrightarrow>
     (\<forall>a e. seats a = Some e \<longrightarrow> pr_model (ag_provider (se_agent (ro_env (E a)))) = ae_model e)"

lemma run_start_ok:
  assumes "seats_match E seats" "shared_policy E P"
  shows "run_ok E seats (run_start E seats)"
  using assms by (auto simp: run_ok_def run_start_def seats_match_def shared_policy_def registry_new_def
      intro!: seat_start_ok split: option.splits)

lemma run_step_ok:
  assumes "shared_policy E P" "run_ok E seats C" "run_step E C C'"
  shows "run_ok E seats C' \<and> (rn_registry C' = rn_registry C \<or> registry_step P (rn_registry C) (rn_registry C'))"
  using assms(3)
proof (cases rule: run_stepE)
  case (act a s s' R')
  have name: "seat_name (E b) = b" "seat_policy (E b) = P" for b using assms(1) by (simp_all add: shared_policy_def)
  have reg: "R' = rn_registry C \<or> registry_step P (rn_registry C) R'"
    using seat_step_registry [OF act(4)] by (simp add: name)
  then have gr: "grows (rn_registry C) R'"
  proof
    assume "R' = rn_registry C"
    then show ?thesis by (simp add: grows_def)
  qed (rule registry_step_grows)
  have "seat_ok (E b) (ae_lineage e) (ae_model e) R' t"
    if "seats b = Some e" "((rn_seats C)(a \<mapsto> s')) b = Some t" for b e t
  proof (cases "b = a")
    case True
    with that assms(2) act have "seat_ok (E a) (ae_lineage e) (ae_model e) (rn_registry C) s" by (auto simp: run_ok_def)
    from seat_step_ok [OF this act(3,4)] True that show ?thesis by simp
  next
    case False
    with that assms(2) have "seat_ok (E b) (ae_lineage e) (ae_model e) (rn_registry C) t" by (auto simp: run_ok_def)
    from seat_ok_other [OF this gr] seat_step_frame [OF act(4), of b] False show ?thesis by (simp add: name)
  qed
  moreover obtain ea where "seats a = Some ea" using run_ok_seat [OF assms(2) act(2)] by blast
  ultimately show ?thesis using assms(2) act(1,2) reg by (simp add: run_ok_def)
next
  case (cancel a s)
  let ?R = "guard_drop (st_guard s) (rn_registry C)"
  have name: "seat_name (E b) = b" for b using assms(1) by (simp add: shared_policy_def)
  have gr: "grows (rn_registry C) ?R" by (auto simp: grows_def guard_drop_def release_def)
  have fr: "rg_active ?R b = rg_active (rn_registry C) b" if "b \<noteq> a" "seats a = Some e" for b e
  proof -
    have "sg_agent (st_guard s) = a"
      using assms(2) cancel(2) that(2) name by (auto simp: run_ok_def seat_ok_def slot_ok_def)
    with that show ?thesis by (simp add: guard_drop_def release_def)
  qed
  obtain ea where ea: "seats a = Some ea" using run_ok_seat [OF assms(2) cancel(2)] by blast
  have "seat_ok (E b) (ae_lineage e) (ae_model e) ?R t"
    if "seats b = Some e" "((rn_seats C)(a \<mapsto> s\<lparr> st_phase := Cancelled \<rparr>)) b = Some t" for b e t
  proof (cases "b = a")
    case True
    with that assms(2) cancel have "seat_ok (E a) (ae_lineage e) (ae_model e) (rn_registry C) s" by (auto simp: run_ok_def)
    from seat_ok_cancel [OF this cancel(3,4)] True that show ?thesis by simp
  next
    case False
    with that assms(2) have "seat_ok (E b) (ae_lineage e) (ae_model e) (rn_registry C) t" by (auto simp: run_ok_def)
    from seat_ok_other [OF this gr] fr [OF False ea] show ?thesis by (simp add: name)
  qed
  moreover have "registry_step P (rn_registry C) ?R" by (rule registry_step.drop)
  ultimately show ?thesis using assms(2) cancel(1,2) ea by (simp add: run_ok_def)
next
  case (detach a s)
  obtain ea where ea: "seats a = Some ea" using run_ok_seat [OF assms(2) detach(2)] by blast
  with assms(2) detach(2) have "seat_ok (E a) (ae_lineage ea) (ae_model ea) (rn_registry C) s"
    by (auto simp: run_ok_def)
  from seat_ok_detach [OF this detach(3,5)] assms(2) detach(1,2) ea show ?thesis by (simp add: run_ok_def)
qed

lemma run_reachable_ok:
  assumes "shared_policy E P" "seats_match E seats" "run_reachable E (run_start E seats) C"
  shows "run_ok E seats C \<and> reachable P (registry_new seats) (rn_registry C)"
  using assms(3)
proof (induction rule: run_reachable.induct)
  case run_init
  then show ?case using run_start_ok [OF assms(2,1)] reachable.start by (simp add: run_start_def)
next
  case (run_next C C')
  with run_step_ok [OF assms(1), of seats C C'] show ?case using reachable.step by metis
qed

section \<open>Properties of every run\<close>

lemma holds_slot_active:
  assumes "seat_ok E primary configured R s" "holds_slot s"
  shows "rg_active R (seat_name E) = Some \<lparr> ae_lineage = st_lineage s, ae_model = pr_model (st_provider s) \<rparr>"
  using assms by (simp add: seat_ok_def slot_ok_def models_ok_def Let_def)

text \<open>C3: Diversity of the models that are really called. Whatever the providers answer, whichever seats
  are cancelled and however the seats interleave, two seats that own their slot (they are running or
  have delivered their output) never work on the same lineage, and never on models with the same
  known digest.\<close>

theorem running_mages_diverse:
  assumes "shared_policy E P" "seats_match E seats" "seats_distinct seats" "digests_distinct P seats"
    and "run_reachable E (run_start E seats) C"
    and "rn_seats C a = Some s" "rn_seats C b = Some t" "a \<noteq> b" "holds_slot s" "holds_slot t"
  shows "st_lineage s \<noteq> st_lineage t
    \<and> (digest_of P (pr_model (st_provider s)) = None
       \<or> digest_of P (pr_model (st_provider s)) \<noteq> digest_of P (pr_model (st_provider t)))"
proof -
  note ok = run_reachable_ok [OF assms(1,2,5)]
  have act: "rg_active (rn_registry C) c = Some \<lparr> ae_lineage = st_lineage u, ae_model = pr_model (st_provider u) \<rparr>"
    if u: "rn_seats C c = Some u" "holds_slot u" for c u
  proof -
    obtain e where "seats c = Some e" using run_ok_seat [OF conjunct1 [OF ok] u(1)] by blast
    with ok u(1) have "seat_ok (E c) (ae_lineage e) (ae_model e) (rn_registry C) u" by (auto simp: run_ok_def)
    from holds_slot_active [OF this u(2)] show ?thesis using assms(1) by (simp add: shared_policy_def)
  qed
  have d: "lineage_view (registry_new seats) x \<noteq> lineage_view (registry_new seats) y"
    if "x \<noteq> y" "lineage_view (registry_new seats) x \<noteq> None" for x y
    using assms(3) that unfolding seats_distinct_view [symmetric]
    by (metis (no_types, lifting) registry.select_convs(1) registry_new_def seats_distinct_view)
  have g: "digest_view P (registry_new seats) x \<noteq> digest_view P (registry_new seats) y"
    if "x \<noteq> y" "digest_view P (registry_new seats) x \<noteq> None" for x y
    using assms(4) that by (metis (no_types, lifting) registry.select_convs(1) registry_new_def digests_distinct_view)
  have steps: "(registry_step P)\<^sup>*\<^sup>* (registry_new seats) (rn_registry C)" using ok by (simp add: reachable_steps)
  have "lineage_view (rn_registry C) a \<noteq> lineage_view (rn_registry C) b"
    by (rule lineages.steps_exclusive [OF steps d assms(8)]) (simp_all add: lineage_view_def act assms(6,9))
  moreover have "digest_view P (rn_registry C) a \<noteq> None \<Longrightarrow> digest_view P (rn_registry C) a \<noteq> digest_view P (rn_registry C) b"
    by (rule digests.steps_exclusive [OF steps g assms(8)])
  ultimately show ?thesis
    using act [OF assms(6,9)] act [OF assms(7,10)] by (auto simp: lineage_view_def digest_view_def)
qed

text \<open>C13: A mage never goes back. In every reachable state its chain of rotations is one connected route
  from its primary lineage to its current one that visits no lineage twice; no model is called again
  after it was left; the chain has one event per rotation and never more than the pool allows; and
  the calls it made are bounded by the models it had.\<close>

theorem seat_route:
  assumes "shared_policy E P" "seats_match E seats" "run_reachable E (run_start E seats) C"
    and "seats a = Some e" "rn_seats C a = Some s"
  shows "distinct (route (ae_lineage e) s)
    \<and> map re_from (rs_chain (st_rot s)) @ [st_lineage s] = route (ae_lineage e) s
    \<and> distinct (ae_model e # map re_model_resolved (rs_chain (st_rot s)))
    \<and> pr_model (st_provider s) = last (ae_model e # map re_model_resolved (rs_chain (st_rot s)))
    \<and> length (rs_chain (st_rot s)) \<le> rp_max_rotations P
    \<and> al_calls (st_log s) \<le> max_calls (ro_env (E a)) * (length (rs_chain (st_rot s)) + 1)"
proof -
  have ok: "seat_ok (E a) (ae_lineage e) (ae_model e) (rn_registry C) s"
    using run_reachable_ok [OF assms(1-3)] assms(4,5) by (auto simp: run_ok_def)
  have "fp_max_rotations (ro_pool (E a)) = rp_max_rotations P"
    using assms(1) by (auto simp: shared_policy_def seat_policy_def)
  moreover have "al_calls (st_log s) \<le> max_calls (ro_env (E a)) * (length (rs_chain (st_rot s)) + 1)"
  proof -
    have "al_calls (st_log s) \<le> max_calls (ro_env (E a)) * (rs_rotations_done (st_rot s) +
        (if st_phase s = Attempting then 0 else 1))" "length (rs_chain (st_rot s)) = rs_rotations_done (st_rot s)"
      using ok by (simp_all add: seat_ok_def counts_ok_def)
    then show ?thesis by (auto intro: order_trans)
  qed
  ultimately show ?thesis
    using ok by (simp add: seat_ok_def route_ok_def models_ok_def counts_ok_def Let_def)
qed

text \<open>C37: A run of the seats is a run of the registry: every step of every seat, cancellations included,
  changes the shared registry by at most one of its atomic operations.\<close>

theorem run_refines_registry:
  assumes "shared_policy E P" "seats_match E seats" "run_reachable E (run_start E seats) C"
  shows "reachable P (registry_new seats) (rn_registry C)"
  using run_reachable_ok [OF assms] by blast

section \<open>A run ends\<close>

definition seat_measure :: "nat \<Rightarrow> seat \<Rightarrow> nat" where
  "seat_measure m s =
     (case st_phase s of
        Attempting \<Rightarrow> 4 * (m - rs_rotations_done (st_rot s)) + 6
      | Registering _ _ _ \<Rightarrow> 4 * (m - rs_rotations_done (st_rot s)) + 5
      | Claiming _ _ \<Rightarrow> 4 * (m - rs_rotations_done (st_rot s)) + 4
      | Releasing _ \<Rightarrow> 3
      | Latching _ \<Rightarrow> 2
      | Detached \<Rightarrow> 1
      | Finished _ \<Rightarrow> 0
      | Cancelled \<Rightarrow> 0)"

lemma after_attempt_measure:
  assumes "st_phase s = Attempting"
  shows "seat_measure m (after_attempt E (s\<lparr> st_log := lg \<rparr>) o') < seat_measure m s"
  using assms by (cases o') (simp_all add: after_attempt_def seat_measure_def fail_lineage_def)

lemma seat_step_measure:
  assumes "seat_step E s R = (s', R')" "\<not> ended s"
  shows "seat_measure (fp_max_rotations (ro_pool E)) s' < seat_measure (fp_max_rotations (ro_pool E)) s"
proof (cases "st_phase s")
  case Attempting
  with assms after_attempt_measure [OF Attempting] show ?thesis by (auto simp: seat_step_def split: prod.splits)
next
  case (Claiming kind detail)
  obtain c R1 rot where cl: "claim_next (seat_policy E) (seat_name E) R (st_rot s) = (c, R1, rot)"
    by (cases "claim_next (seat_policy E) (seat_name E) R (st_rot s)")
  show ?thesis
  proof (cases c)
    case None
    with assms(1) Claiming cl show ?thesis by (auto simp: seat_step_def seat_measure_def)
  next
    case (Some cand)
    with cl have cl': "claim_next (seat_policy E) (seat_name E) R (st_rot s) = (Some cand, R1, rot)" by simp
    have "rs_rotations_done (st_rot s) < fp_max_rotations (ro_pool E)"
      using claim_next_Some(2) [OF cl'] by (simp add: admissible_def seat_policy_def)
    with assms(1) Claiming Some cl claim_next_state [OF cl'] show ?thesis
      by (auto simp: seat_step_def seat_measure_def rotate_to_def Let_def)
  qed
qed (use assms in \<open>auto simp: seat_step_def seat_measure_def ended_def split: prod.splits releasing.splits\<close>)

definition run_measure :: "nat \<Rightarrow> run \<Rightarrow> nat" where
  "run_measure m C = (\<Sum>a\<leftarrow>agents_asc. case rn_seats C a of None \<Rightarrow> 0 | Some s \<Rightarrow> seat_measure m s)"

lemma run_measure_upd:
  assumes "rn_seats C a = Some s" "seat_measure m s' < seat_measure m s"
  shows "run_measure m \<lparr> rn_registry = R', rn_seats = (rn_seats C)(a \<mapsto> s') \<rparr> < run_measure m C"
  using assms by (cases a) (auto simp: run_measure_def agents_asc_def)

lemma run_step_measure:
  assumes "shared_policy E P" "run_step E C C'"
  shows "run_measure (rp_max_rotations P) C' < run_measure (rp_max_rotations P) C"
  using assms(2)
proof (cases rule: run_stepE)
  case (act a s s' R')
  have "rp_max_rotations P = fp_max_rotations (ro_pool (E a))"
    using assms(1) by (auto simp: shared_policy_def seat_policy_def)
  with seat_step_measure [OF act(4,3)] run_measure_upd [OF act(2)] act(1) show ?thesis by simp
next
  case (cancel a s)
  have "seat_measure (rp_max_rotations P) (s\<lparr> st_phase := Cancelled \<rparr>) < seat_measure (rp_max_rotations P) s"
    using cancel(3) by (simp add: seat_measure_def ended_def split: phase.splits)
  from run_measure_upd [OF cancel(2) this] cancel(1) show ?thesis by simp
next
  case (detach a s)
  have "seat_measure (rp_max_rotations P) (s\<lparr> st_phase := Detached \<rparr>) < seat_measure (rp_max_rotations P) s"
    using detach(3,4) by (simp add: seat_measure_def ended_def split: phase.splits)
  from run_measure_upd [OF detach(2) this] detach(1) show ?thesis by simp
qed

lemma run_steps_measure:
  assumes "shared_policy E P" "(run_step E ^^ n) C C'"
  shows "run_measure (rp_max_rotations P) C' + n \<le> run_measure (rp_max_rotations P) C"
  using assms(2)
proof (induction n arbitrary: C')
  case (Suc n)
  then obtain D where D: "(run_step E ^^ n) C D" "run_step E D C'" by auto
  from Suc.IH [OF D(1)] run_step_measure [OF assms(1) D(2)] show ?case by linarith
qed simp

lemma run_start_measure: "run_measure m (run_start E seats) \<le> 3 * (4 * m + 6)"
  by (auto simp: run_measure_def run_start_def agents_asc_def seat_start_def seat_measure_def
      rotation_state_new_def split: option.split)

lemma run_progress:
  assumes "rn_seats C a = Some s" "\<not> ended s"
  shows "\<exists>C'. run_step E C C'"
  using run_step.act [OF assms, of E "fst (seat_step (E a) s (rn_registry C))"] by (metis prod.collapse)

text \<open>C31: Every run ends, and only when every seat has: a run makes at most
  \<open>3 * (4 * max_rotations + 6)\<close> steps whatever the providers answer and however they interleave, and a state has no further step
  exactly when every seat has delivered a result or was cancelled, so no seat waits for another.\<close>

theorem run_terminates:
  assumes "shared_policy E P" "(run_step E ^^ n) (run_start E seats) C"
  shows "n \<le> 3 * (4 * rp_max_rotations P + 6)
    \<and> ((\<exists>C'. run_step E C C') \<longleftrightarrow> (\<exists>a s. rn_seats C a = Some s \<and> \<not> ended s))"
proof
  show "n \<le> 3 * (4 * rp_max_rotations P + 6)"
    using run_steps_measure [OF assms] run_start_measure [of "rp_max_rotations P" E seats] by linarith
  show "(\<exists>C'. run_step E C C') \<longleftrightarrow> (\<exists>a s. rn_seats C a = Some s \<and> \<not> ended s)"
    using run_progress [of C _ _ E] by (blast elim: run_stepE)
qed

section \<open>A run of two seats\<close>

definition sample_seat_env :: "agent_name \<Rightarrow> rotating_env" where
  "sample_seat_env a = \<lparr> ro_env = sample_env\<lparr> se_agent := \<lparr> ag_name = a, ag_system_prompt = asc ''p'',
       ag_provider = \<lparr> pr_slot = None, pr_model = (if a = Balthasar then asc ''ma'' else asc ''mb'') \<rparr> \<rparr> \<rparr>,
     ro_pool = sample_pool, ro_capabilities = rp_capabilities sample_policy,
     ro_strict_context_guard = False, ro_min_window_tokens = 4 \<rparr>"

lemma sample_shared: "shared_policy sample_seat_env sample_policy"
  by (simp add: shared_policy_def seat_policy_def seat_name_def sample_seat_env_def sample_policy_def sample_pool_def
      to_candidates_def pool_push_def pool_builder_def candidate_of_def DEFAULT_MAX_ROTATIONS_def)

lemma sample_match: "seats_match sample_seat_env sample_seats"
  by (auto simp: seats_match_def sample_seat_env_def sample_seats_def split: if_splits)

lemma sample_distinct: "seats_distinct sample_seats" "digests_distinct sample_policy sample_seats"
  by (auto simp: seats_distinct_def digests_distinct_def sample_seats_def sample_policy_def digest_of_def
      digest_in_def split: if_splits)

lemma sample_first_step:
  obtains C where "run_step sample_seat_env (run_start sample_seat_env sample_seats) C"
proof -
  have "rn_seats (run_start sample_seat_env sample_seats) Balthasar =
      Some (seat_start (sample_seat_env Balthasar) (asc ''a'') (asc ''ma''))"
    by (simp add: run_start_def sample_seats_def)
  from run_progress [OF this] that show ?thesis by (auto simp: ended_def seat_start_def)
qed

theorem running_mages_diverse_witness:
  "asc ''a'' \<noteq> asc ''b'' \<and> st_lineage (seat_start (sample_seat_env Balthasar) (asc ''a'') (asc ''ma''))
     \<noteq> st_lineage (seat_start (sample_seat_env Melchior) (asc ''b'') (asc ''mb''))"
proof -
  have seats: "rn_seats (run_start sample_seat_env sample_seats) Balthasar =
      Some (seat_start (sample_seat_env Balthasar) (asc ''a'') (asc ''ma''))"
    "rn_seats (run_start sample_seat_env sample_seats) Melchior =
      Some (seat_start (sample_seat_env Melchior) (asc ''b'') (asc ''mb''))"
    by (simp_all add: run_start_def sample_seats_def)
  show ?thesis
    using running_mages_diverse [OF sample_shared sample_match sample_distinct run_reachable.run_init seats]
    by (simp add: holds_slot_def seat_start_def)
qed

theorem seat_route_witness:
  "route (asc ''a'') (seat_start (sample_seat_env Balthasar) (asc ''a'') (asc ''ma'')) = [asc ''a'']
   \<and> al_calls (st_log (seat_start (sample_seat_env Balthasar) (asc ''a'') (asc ''ma''))) \<le> 2"
proof -
  have seats: "sample_seats Balthasar = Some \<lparr> ae_lineage = asc ''a'', ae_model = asc ''ma'' \<rparr>"
    "rn_seats (run_start sample_seat_env sample_seats) Balthasar =
      Some (seat_start (sample_seat_env Balthasar) (asc ''a'') (asc ''ma''))"
    by (simp_all add: run_start_def sample_seats_def)
  show ?thesis
    using seat_route [OF sample_shared sample_match run_reachable.run_init seats]
    by (simp add: route_def seat_start_def rotation_state_new_def max_calls_def sample_seat_env_def sample_env_def)
qed

theorem run_refines_registry_witness:
  "\<exists>C. run_step sample_seat_env (run_start sample_seat_env sample_seats) C
     \<and> reachable sample_policy (registry_new sample_seats) (rn_registry C)"
proof -
  obtain C where C: "run_step sample_seat_env (run_start sample_seat_env sample_seats) C"
    using sample_first_step .
  from run_refines_registry [OF sample_shared sample_match run_reachable.run_next [OF run_reachable.run_init C]] C
  show ?thesis by blast
qed

theorem run_terminates_witness:
  "\<exists>C. (run_step sample_seat_env ^^ 1) (run_start sample_seat_env sample_seats) C
     \<and> (1::nat) \<le> 3 * (4 * rp_max_rotations sample_policy + 6)"
proof -
  obtain C where C: "run_step sample_seat_env (run_start sample_seat_env sample_seats) C"
    using sample_first_step .
  then have "(run_step sample_seat_env ^^ 1) (run_start sample_seat_env sample_seats) C" by (simp only: relpowp_1)
  from run_terminates [OF sample_shared this] this show ?thesis by blast
qed

end
