(* ===== verification/Agents.thy ===== *)
theory Agents
  imports Attempt
begin

text \<open>
  Agents and their factory (\<open>src/src/agent.rs\<close>): which provider and which system prompt each of
  the three mages gets, and the loading of prompt files. The file system is a parameter: whether
  a directory can be listed, whether a file exists and what reading it gives.
\<close>

section \<open>Prompt files\<close>

definition ALL_MODES :: "mode list" where "ALL_MODES = [CodeReview, Design, Analysis]"

definition AGENT_FILES :: "(agent_name \<times> mode \<times> ustr) list" where
  "AGENT_FILES =
     [(Melchior, CodeReview, asc ''melchior_code_review.md''),
      (Melchior, Design, asc ''melchior_design.md''),
      (Melchior, Analysis, asc ''melchior_analysis.md''),
      (Balthasar, CodeReview, asc ''balthasar_code_review.md''),
      (Balthasar, Design, asc ''balthasar_design.md''),
      (Balthasar, Analysis, asc ''balthasar_analysis.md''),
      (Caspar, CodeReview, asc ''caspar_code_review.md''),
      (Caspar, Design, asc ''caspar_design.md''),
      (Caspar, Analysis, asc ''caspar_analysis.md'')]"

definition lookup_file ::
  "(agent_name \<times> mode \<times> ustr) list \<Rightarrow> agent_name \<Rightarrow> mode \<Rightarrow> (ustr, magi_error) result" where
  "lookup_file tab a m =
     (case find (\<lambda>(b, k, _). b = a \<and> k = m) tab of
        Some (_, _, file) \<Rightarrow> Ok file
      | None \<Rightarrow> Err (InvalidInput (asc ''no file mapping for ('' @ display_name a @ asc '', '' @ dbg_mode m @ asc '')'')))"

text \<open>Paths are a directory and a file name in it; an I/O error is its text.\<close>

record file_system =
  fs_read_dir :: "ustr \<Rightarrow> (unit, ustr) result"
  fs_exists :: "ustr \<Rightarrow> ustr \<Rightarrow> bool"
  fs_read :: "ustr \<Rightarrow> ustr \<Rightarrow> (ustr, ustr) result"

section \<open>Agents\<close>

definition agent_new :: "(agent_name \<Rightarrow> ustr) \<Rightarrow> agent_name \<Rightarrow> provider \<Rightarrow> agent" where
  "agent_new embedded a p =
     \<lparr> ag_name = a, ag_system_prompt = embedded_prompt_for embedded a, ag_provider = p \<rparr>"

definition agent_with_custom_prompt :: "agent_name \<Rightarrow> provider \<Rightarrow> ustr \<Rightarrow> agent" where
  "agent_with_custom_prompt a p prompt =
     \<lparr> ag_name = a, ag_system_prompt = prompt, ag_provider = p \<rparr>"

definition agent_from_file ::
  "file_system \<Rightarrow> agent_name \<Rightarrow> provider \<Rightarrow> ustr \<times> ustr \<Rightarrow> (agent, magi_error) result" where
  "agent_from_file fs a p path =
     and_then (map_err IoError (fs_read fs (fst path) (snd path))) (\<lambda>prompt.
       Ok \<lparr> ag_name = a, ag_system_prompt = prompt, ag_provider = p \<rparr>)"

section \<open>The factory\<close>

record agent_factory =
  af_default_provider :: provider
  af_agent_providers :: "agent_name \<rightharpoonup> provider"
  af_custom_prompts :: "agent_name \<times> mode \<rightharpoonup> ustr"

definition factory_new :: "provider \<Rightarrow> agent_factory" where
  "factory_new p = \<lparr> af_default_provider = p, af_agent_providers = (\<lambda>_. None), af_custom_prompts = (\<lambda>_. None) \<rparr>"

definition factory_with_provider :: "agent_name \<Rightarrow> provider \<Rightarrow> agent_factory \<Rightarrow> agent_factory" where
  "factory_with_provider a p f = f\<lparr> af_agent_providers := (af_agent_providers f)(a \<mapsto> p) \<rparr>"

definition factory_with_custom_prompt :: "agent_name \<Rightarrow> ustr \<Rightarrow> agent_factory \<Rightarrow> agent_factory" where
  "factory_with_custom_prompt a prompt f =
     fold (\<lambda>m f. f\<lparr> af_custom_prompts := (af_custom_prompts f)((a, m) \<mapsto> prompt) \<rparr>) ALL_MODES f"

definition AGENT_ORDER :: "agent_name list" where "AGENT_ORDER = [Melchior, Balthasar, Caspar]"

fun load_prompts ::
  "file_system \<Rightarrow> ustr \<Rightarrow> (agent_name \<times> mode) list \<Rightarrow> agent_factory \<Rightarrow> (agent_factory, magi_error) result" where
  "load_prompts fs dir [] f = Ok f"
| "load_prompts fs dir ((a, m) # ks) f =
     and_then (lookup_file AGENT_FILES a m) (\<lambda>file.
       if fs_exists fs dir file
       then and_then (map_err IoError (fs_read fs dir file)) (\<lambda>content.
              load_prompts fs dir ks (f\<lparr> af_custom_prompts := (af_custom_prompts f)((a, m) \<mapsto> content) \<rparr>))
       else load_prompts fs dir ks f)"

definition from_directory :: "file_system \<Rightarrow> ustr \<Rightarrow> agent_factory \<Rightarrow> (agent_factory, magi_error) result" where
  "from_directory fs dir f =
     and_then (map_err IoError (fs_read_dir fs dir)) (\<lambda>_.
       load_prompts fs dir (concat (map (\<lambda>a. map (\<lambda>m. (a, m)) ALL_MODES) AGENT_ORDER)) f)"

definition provider_for :: "agent_factory \<Rightarrow> agent_name \<Rightarrow> provider" where
  "provider_for f a = (case af_agent_providers f a of Some p \<Rightarrow> p | None \<Rightarrow> af_default_provider f)"

definition create_agents_with_prompts ::
  "(agent_name \<Rightarrow> ustr) \<Rightarrow> mode \<Rightarrow> prompt_overrides \<Rightarrow> agent_factory \<Rightarrow> agent list" where
  "create_agents_with_prompts embedded m overrides f =
     map (\<lambda>a. agent_with_custom_prompt a (provider_for f a) (lookup_prompt embedded a m overrides)) AGENT_ORDER"

definition create_agents :: "(agent_name \<Rightarrow> ustr) \<Rightarrow> mode \<Rightarrow> agent_factory \<Rightarrow> agent list" where
  "create_agents embedded m f =
     map (\<lambda>a. case af_custom_prompts f (a, m) of
               Some prompt \<Rightarrow> agent_with_custom_prompt a (provider_for f a) prompt
             | None \<Rightarrow> agent_new embedded a (provider_for f a)) AGENT_ORDER"

section \<open>Lemmas\<close>

definition file_of :: "agent_name \<Rightarrow> mode \<Rightarrow> ustr" where
  "file_of a m = get_ok (lookup_file AGENT_FILES a m)"

lemma lookup_file_total: "lookup_file AGENT_FILES a m = Ok (file_of a m)"
  unfolding file_of_def lookup_file_def AGENT_FILES_def by (cases a; cases m) simp_all

lemma file_of_inj: "file_of a m = file_of b k \<longleftrightarrow> a = b \<and> m = k"
  unfolding file_of_def lookup_file_def AGENT_FILES_def by (cases a; cases b; cases m; cases k) simp_all

lemma load_prompts_Ok:
  assumes "load_prompts fs dir ks f = Ok g" "distinct ks"
  shows "af_default_provider g = af_default_provider f \<and> af_agent_providers g = af_agent_providers f
    \<and> (\<forall>a m. af_custom_prompts g (a, m) =
         (if (a, m) \<in> set ks \<and> fs_exists fs dir (file_of a m)
          then Some (get_ok (fs_read fs dir (file_of a m))) else af_custom_prompts f (a, m)))
    \<and> (\<forall>k\<in>set ks. fs_exists fs dir (file_of (fst k) (snd k)) \<longrightarrow>
         is_ok (fs_read fs dir (file_of (fst k) (snd k))))"
  using assms
proof (induction fs dir ks f rule: load_prompts.induct)
  case (2 fs dir a m ks f)
  show ?case
  proof (cases "fs_exists fs dir (file_of a m)")
    case True
    with "2.prems" obtain c where c: "fs_read fs dir (file_of a m) = Ok c"
      "load_prompts fs dir ks (f\<lparr> af_custom_prompts := (af_custom_prompts f)((a, m) \<mapsto> c) \<rparr>) = Ok g"
      by (auto simp: lookup_file_total res_simps)
    from "2.IH"(1) [OF True c(2)] c(1) "2.prems"(2) True show ?thesis by (auto simp: res_simps)
  next
    case False
    with "2.prems" have "load_prompts fs dir ks f = Ok g" by (simp add: lookup_file_total)
    from "2.IH"(2) [OF False this] "2.prems"(2) False show ?thesis by auto
  qed
qed simp

lemma all_keys:
  "(a, m) \<in> set (concat (map (\<lambda>a. map (\<lambda>m. (a, m)) ALL_MODES) AGENT_ORDER))"
  "distinct (concat (map (\<lambda>a. map (\<lambda>m. (a, m)) ALL_MODES) AGENT_ORDER))"
  by (cases a; cases m; simp add: ALL_MODES_def AGENT_ORDER_def) (simp add: ALL_MODES_def AGENT_ORDER_def)

text \<open>Loading a prompt directory is exact: when it succeeds, every mage and mode whose file exists has
  that file's content as its prompt, and every other pair keeps what it had; a file that exists but
  cannot be read makes the whole load fail, never a silent fallback; and no two pairs share a file.\<close>

theorem prompts_loaded_exactly:
  assumes "from_directory fs dir f = Ok g"
  shows "(\<forall>a m. af_custom_prompts g (a, m) =
      (if fs_exists fs dir (file_of a m) then Some (get_ok (fs_read fs dir (file_of a m)))
       else af_custom_prompts f (a, m)))
    \<and> (\<forall>a m. fs_exists fs dir (file_of a m) \<longrightarrow> is_ok (fs_read fs dir (file_of a m)))
    \<and> (\<forall>a b m k. file_of a m = file_of b k \<longleftrightarrow> a = b \<and> m = k)
    \<and> af_agent_providers g = af_agent_providers f"
proof -
  let ?ks = "concat (map (\<lambda>a. map (\<lambda>m. (a, m)) ALL_MODES) AGENT_ORDER)"
  have "load_prompts fs dir ?ks f = Ok g" using assms by (auto simp: from_directory_def res_simps)
  note l = load_prompts_Ok [OF this all_keys(2)]
  have "is_ok (fs_read fs dir (file_of a m))" if "fs_exists fs dir (file_of a m)" for a m
    using bspec [OF conjunct2 [OF conjunct2 [OF conjunct2 [OF l]]] all_keys(1) [of a m]] that by simp
  with l show ?thesis using all_keys(1) by (simp add: file_of_inj)
qed

definition sample_fs :: file_system where
  "sample_fs = \<lparr> fs_read_dir = (\<lambda>_. Ok ()), fs_exists = (\<lambda>_ file. file = asc ''caspar_design.md''),
     fs_read = (\<lambda>_ _. Ok (asc ''prompt'')) \<rparr>"

theorem prompts_loaded_exactly_witness:
  "\<exists>g. from_directory sample_fs (asc ''dir'') (factory_new \<lparr> pr_slot = None, pr_model = asc ''m'' \<rparr>) = Ok g
     \<and> af_custom_prompts g (Caspar, Design) = Some (asc ''prompt'') \<and> af_custom_prompts g (Caspar, Analysis) = None"
proof -
  let ?f = "factory_new \<lparr> pr_slot = None, pr_model = asc ''m'' \<rparr>"
  have files: "file_of Caspar Design = asc ''caspar_design.md''" "file_of Caspar Analysis \<noteq> asc ''caspar_design.md''"
    by (simp_all add: file_of_def lookup_file_def AGENT_FILES_def)
  have "\<exists>g. load_prompts sample_fs (asc ''dir'') ks f = Ok g" for ks f
  proof (induction ks arbitrary: f)
    case (Cons k ks)
    then show ?case by (cases k) (simp add: lookup_file_total sample_fs_def)
  qed simp
  then obtain g where g: "from_directory sample_fs (asc ''dir'') ?f = Ok g"
    unfolding from_directory_def by (fastforce simp: sample_fs_def)
  have "fs_exists sample_fs d x \<longleftrightarrow> x = asc ''caspar_design.md''" for d x by (simp add: sample_fs_def)
  with prompts_loaded_exactly [OF g] g files show ?thesis
    by (auto simp: sample_fs_def factory_new_def)
qed

end
