(* ===== verification/Warnings.thy ===== *)
theory Warnings
  imports Rotation
begin

unbundle bit_operations_syntax

text \<open>
  The warnings an instance gives at most once (\<open>WarnOnce\<close>, \<open>warn_bit_mask\<close> and
  \<open>Magi::warn_once\<close> in \<open>src/src/orchestrator.rs\<close>): a bit of an atomic 32-bit mask per
  kind of warning, set with \<open>fetch_or\<close>, and the lines written to the log. The mask is kept at
  its width; a log line is its fields.
\<close>

section \<open>Lines of the log\<close>

datatype log_line =
    LogInertGuard nat
  | LogProbeDeclares model ustr
  | LogDuplicateProbe model
  | LogSharedDigest
  | LogDegenerateDigest agent_name
  | LogThresholdUnreachable nat nat
  | LogDuplicateLineage agent_name lineage
  | LogInputExceeds nat nat

record warn_state =
  ws_warned :: "32 word"
  ws_log :: "log_line list"

definition warn_state_new :: warn_state where
  "warn_state_new = \<lparr> ws_warned = 0, ws_log = [] \<rparr>"

definition log_lines :: "log_line list \<Rightarrow> warn_state \<Rightarrow> warn_state" where
  "log_lines ls W = W\<lparr> ws_log := ws_log W @ ls \<rparr>"

section \<open>Warnings given once\<close>

datatype warn_once_kind =
    InertGuard nat
  | ProbeDeclaration "(model \<times> provider_probe) list"
  | SharedDigest
  | DegenerateDigest agent_name

definition WARN_ONCE_COUNT :: nat where "WARN_ONCE_COUNT = 4"

fun warn_bit :: "warn_once_kind \<Rightarrow> nat" where
  "warn_bit (InertGuard _) = 0"
| "warn_bit (ProbeDeclaration _) = 1"
| "warn_bit SharedDigest = 2"
| "warn_bit (DegenerateDigest _) = 3"

fun probe_disagreement :: "model set \<Rightarrow> (model \<times> provider_probe) list \<Rightarrow> log_line list" where
  "probe_disagreement seen [] = []"
| "probe_disagreement seen ((m, p) # targets) =
     (case pb_declared_model p of
        Some declared \<Rightarrow> if declared \<noteq> m then [LogProbeDeclares m declared] else []
      | None \<Rightarrow> [])
     @ (if m \<in> seen then [LogDuplicateProbe m] else [])
     @ probe_disagreement (insert m seen) targets"

definition warn_on_probe_disagreement :: "(model \<times> provider_probe) list \<Rightarrow> log_line list" where
  "warn_on_probe_disagreement targets = probe_disagreement {} targets"

fun warn_emit :: "warn_once_kind \<Rightarrow> log_line list" where
  "warn_emit (InertGuard n) = [LogInertGuard n]"
| "warn_emit (ProbeDeclaration targets) = warn_on_probe_disagreement targets"
| "warn_emit SharedDigest = [LogSharedDigest]"
| "warn_emit (DegenerateDigest a) = [LogDegenerateDigest a]"

text \<open>\<open>checked_shl\<close>: no value when the shift is as wide as the word.\<close>

definition warn_bit_mask :: "nat \<Rightarrow> 32 word option" where
  "warn_bit_mask shift = (if shift < 32 then Some (push_bit shift 1) else None)"

definition warn_once :: "warn_once_kind \<Rightarrow> warn_state \<Rightarrow> warn_state" where
  "warn_once which W =
     (case warn_bit_mask (warn_bit which) of
        Some m \<Rightarrow>
          (let before = ws_warned W; W' = W\<lparr> ws_warned := before OR m \<rparr>
           in if before AND m = 0 then log_lines (warn_emit which) W' else W')
      | None \<Rightarrow> log_lines (warn_emit which) W)"

definition warn_when :: "bool \<Rightarrow> warn_once_kind \<Rightarrow> warn_state \<Rightarrow> warn_state" where
  "warn_when b which W = (if b then warn_once which W else W)"

section \<open>Lemmas\<close>

lemma warn_bit_lt: "warn_bit w < WARN_ONCE_COUNT"
  by (cases w) (simp_all add: WARN_ONCE_COUNT_def)

lemma mask_bit: "n < 32 \<Longrightarrow> bit (2 ^ n :: 32 word) k \<longleftrightarrow> k = n"
  by (auto simp: bit_simps)

lemma mask_meets:
  assumes "n < 32"
  shows "(m :: 32 word) AND 2 ^ n = 0 \<longleftrightarrow> \<not> bit m n"
proof
  assume "m AND 2 ^ n = 0"
  then have "\<not> bit (m AND 2 ^ n) n" by simp
  with assms show "\<not> bit m n" by (simp add: bit_and_iff mask_bit)
next
  assume n: "\<not> bit m n"
  show "m AND 2 ^ n = 0"
    by (rule bit_eqI) (use n assms in \<open>auto simp: bit_and_iff mask_bit\<close>)
qed

lemma warn_once_steps:
  "ws_log (warn_once w W) = ws_log W @ (if bit (ws_warned W) (warn_bit w) then [] else warn_emit w)"
  "bit (ws_warned (warn_once w W)) k \<longleftrightarrow> bit (ws_warned W) k \<or> k = warn_bit w"
proof -
  have n: "warn_bit w < 32" using warn_bit_lt [of w] by (simp add: WARN_ONCE_COUNT_def)
  have s: "warn_once w W = (let W' = W\<lparr> ws_warned := ws_warned W OR 2 ^ warn_bit w \<rparr> in
      if bit (ws_warned W) (warn_bit w) then W' else log_lines (warn_emit w) W')"
    using mask_meets [OF n, of "ws_warned W"] n by (simp add: warn_once_def warn_bit_mask_def Let_def)
  show "ws_log (warn_once w W) = ws_log W @ (if bit (ws_warned W) (warn_bit w) then [] else warn_emit w)"
    by (simp add: s Let_def log_lines_def)
  show "bit (ws_warned (warn_once w W)) k \<longleftrightarrow> bit (ws_warned W) k \<or> k = warn_bit w"
    using mask_bit [OF n, of k] by (simp add: s Let_def log_lines_def bit_or_iff)
qed

text \<open>The reference: the first warning of each kind, in order.\<close>

fun first_of_kind :: "nat set \<Rightarrow> warn_once_kind list \<Rightarrow> warn_once_kind list" where
  "first_of_kind seen [] = []"
| "first_of_kind seen (w # ws) =
     (if warn_bit w \<in> seen then first_of_kind seen ws else w # first_of_kind (insert (warn_bit w) seen) ws)"

lemma first_of_kind_new: "w \<in> set (first_of_kind seen ws) \<Longrightarrow> warn_bit w \<notin> seen"
  by (induction ws arbitrary: seen) (auto split: if_splits)

lemma first_of_kind_distinct: "distinct (map warn_bit (first_of_kind seen ws))"
proof (induction ws arbitrary: seen)
  case (Cons w ws)
  have "warn_bit w \<notin> warn_bit ` set (first_of_kind (insert (warn_bit w) seen) ws)"
    by (metis (no_types, lifting) first_of_kind_new imageE insertI1)
  with Cons.IH show ?case by simp
qed simp

lemma warn_all:
  assumes "\<And>k. bit (ws_warned W) k \<longleftrightarrow> k \<in> seen"
  shows "ws_log (fold warn_once ws W) = ws_log W @ concat (map warn_emit (first_of_kind seen ws))
    \<and> (\<forall>k. bit (ws_warned (fold warn_once ws W)) k \<longleftrightarrow> k \<in> seen \<union> warn_bit ` set ws)"
  using assms
proof (induction ws arbitrary: W seen)
  case (Cons w ws)
  have "bit (ws_warned (warn_once w W)) k \<longleftrightarrow> k \<in> insert (warn_bit w) seen" for k
    using Cons.prems by (auto simp: warn_once_steps(2))
  note IH = Cons.IH [OF this]
  show ?case
  proof (cases "warn_bit w \<in> seen")
    case True
    then have "insert (warn_bit w) seen = seen" by blast
    with IH True Cons.prems show ?thesis by (auto simp: warn_once_steps(1))
  next
    case False
    with IH Cons.prems show ?thesis by (simp add: warn_once_steps(1))
  qed
qed simp

text \<open>An instance gives each kind of warning at most once, and the first of each kind in full: whatever
  sequence of warnings reaches it from any number of runs (the mask is changed by one atomic
  operation per warning, so concurrent runs make one sequence), the log holds exactly the lines of
  the first warning of each kind, in order, and the 32-bit mask holds exactly the bits of the kinds
  that occurred; no kind shares a bit or shifts past the word.\<close>

theorem warnings_once:
  "ws_log (fold warn_once ws warn_state_new) = concat (map warn_emit (first_of_kind {} ws))
   \<and> distinct (map warn_bit (first_of_kind {} ws))
   \<and> (\<forall>k. bit (ws_warned (fold warn_once ws warn_state_new)) k = (k \<in> warn_bit ` set ws))
   \<and> warn_bit_mask (warn_bit w) \<noteq> None"
proof -
  have "bit (ws_warned warn_state_new) k \<longleftrightarrow> k \<in> {}" for k by (simp add: warn_state_new_def)
  note all = warn_all [OF this, of ws]
  have "warn_bit w < 32" using warn_bit_lt [of w] by (simp add: WARN_ONCE_COUNT_def)
  with all first_of_kind_distinct [of "{}" ws] show ?thesis
    by (simp add: warn_state_new_def warn_bit_mask_def)
qed

end
