(* ===== verification/Dispatch.thy ===== *)
theory Dispatch
  imports Seat Agents Warnings
begin

text \<open>
  The dispatch of a run and its join loops (\<open>dispatch_no_rotation\<close>,
  \<open>dispatch_with_rotation\<close> and the decisions about aborting a run in
  \<open>src/src/orchestrator.rs\<close>). The loops await the seats in a fixed order; what a loop sees when
  it awaits (the seat's result or its panic, and the registry at each of its reads) is a list of
  observations, and \<open>observed\<close> says which lists a run of the seats can give.
\<close>

section \<open>Outcomes\<close>

datatype 'a joined = Joined 'a | Panicked ustr

record dispatch_outcome =
  do_successful :: "agent_output list"
  do_failed :: "agent_name \<rightharpoonup> ustr"
  do_retried :: "agent_name set"
  do_rotations :: "agent_name \<rightharpoonup> agent_rotation"
  do_extraction_failures :: "agent_name \<rightharpoonup> extraction_failure list"
  do_completions :: "agent_name \<rightharpoonup> completion_record list"
  do_pool_eligibility :: "agent_name \<rightharpoonup> candidate_eligibility list"

definition default_rotations :: "(agent_name \<rightharpoonup> model) \<Rightarrow> (agent_name \<rightharpoonup> agent_rotation)" where
  "default_rotations models = (\<lambda>a. map_option (\<lambda>m. \<lparr> ar_model_configured = m, ar_model_used = m,
     ar_chain = [], ar_ran_unmeasured = False \<rparr>) (models a))"

definition agent_models :: "agent list \<Rightarrow> (agent_name \<rightharpoonup> model)" where
  "agent_models agents = map_of (rev (map (\<lambda>a. (ag_name a, pr_model (ag_provider a))) agents))"

text \<open>The accumulators of a join loop.\<close>

definition join_start :: "(agent_name \<rightharpoonup> model) \<Rightarrow> dispatch_outcome" where
  "join_start models = \<lparr> do_successful = [], do_failed = (\<lambda>_. None), do_retried = {},
     do_rotations = default_rotations models,
     do_extraction_failures = (\<lambda>a. map_option (\<lambda>_. []) (models a)),
     do_completions = (\<lambda>_. None), do_pool_eligibility = (\<lambda>a. map_option (\<lambda>_. []) (models a)) \<rparr>"

section \<open>Deciding to abort\<close>

definition joined_so_far :: "agent_output list \<Rightarrow> (agent_name \<rightharpoonup> ustr) \<Rightarrow> agent_name set" where
  "joined_so_far successful failed = ao_agent ` set successful \<union> dom failed"

definition remaining_seats :: "nat \<Rightarrow> agent_name set \<Rightarrow> nat" where
  "remaining_seats seats_total joined = seats_total - card joined"

definition quorum_reachable :: "nat \<Rightarrow> nat \<Rightarrow> nat \<Rightarrow> bool" where
  "quorum_reachable successful remaining min_agents \<longleftrightarrow> successful + remaining \<ge> min_agents"

definition crate_defect_error :: "crate_defect_record \<Rightarrow> agent_name set \<Rightarrow> magi_error" where
  "crate_defect_error d joined =
     CrateDefect (cdr_observation d) (cdr_hypothesis d) (cdr_agent d) (cdr_model d)
       (filter (\<lambda>a. a \<in> joined \<and> a \<noteq> cdr_agent d) agents_asc)"

definition connection_failed_lineages :: "registry \<Rightarrow> lineage list" where
  "connection_failed_lineages R = sorted_list_of_set (rg_connection_failed R)"

text \<open>Each read of the registry takes the lock anew: the registries are those of the three reads.\<close>

definition resolve_endpoint_down :: "registry \<Rightarrow> registry \<Rightarrow> nat \<Rightarrow> nat \<Rightarrow> nat \<Rightarrow> magi_error option" where
  "resolve_endpoint_down R1 R2 successful remaining min_agents =
     (if \<not> rg_endpoint_down_signalled R1 then None
      else if quorum_reachable successful remaining min_agents then None
      else Some (EndpointDown (connection_failed_lineages R2)))"

definition resolve_crate_defect :: "registry \<Rightarrow> agent_name set \<Rightarrow> magi_error option" where
  "resolve_crate_defect R joined = map_option (\<lambda>d. crate_defect_error d joined) (rg_crate_defect R)"

definition resolve_run_abort ::
  "registry \<Rightarrow> registry \<Rightarrow> registry \<Rightarrow> agent_name set \<Rightarrow> nat \<Rightarrow> nat \<Rightarrow> nat \<Rightarrow> magi_error option" where
  "resolve_run_abort R0 R1 R2 joined successful remaining min_agents =
     (case resolve_crate_defect R0 joined of
        Some e \<Rightarrow> Some e
      | None \<Rightarrow> resolve_endpoint_down R1 R2 successful remaining min_agents)"

definition resolve_abnormal_exit ::
  "registry \<Rightarrow> registry \<Rightarrow> registry \<Rightarrow> agent_name set \<Rightarrow> nat \<Rightarrow> nat \<Rightarrow> nat \<Rightarrow> magi_error option" where
  "resolve_abnormal_exit R0 R1 R2 joined successful remaining min_agents =
     resolve_run_abort R0 R1 R2 joined successful remaining min_agents"

section \<open>Without rotation\<close>

definition record_result :: "agent_name \<Rightarrow> (agent_output, ustr) result \<Rightarrow> dispatch_outcome \<Rightarrow> dispatch_outcome" where
  "record_result a res J =
     (case res of
        Ok out \<Rightarrow> J\<lparr> do_successful := do_successful J @ [out] \<rparr>
      | Err reason \<Rightarrow> J\<lparr> do_failed := (do_failed J)(a \<mapsto> reason) \<rparr>)"

definition record_telemetry ::
  "agent_name \<Rightarrow> bool \<Rightarrow> extraction_failure list \<Rightarrow> completion_record list \<Rightarrow> dispatch_outcome \<Rightarrow> dispatch_outcome" where
  "record_telemetry a was_retried failures records J =
     J\<lparr> do_retried := (if was_retried then insert a (do_retried J) else do_retried J),
        do_extraction_failures := (do_extraction_failures J)(a \<mapsto> failures),
        do_completions := (do_completions J)(a \<mapsto> records) \<rparr>"

definition record_panic :: "agent_name \<Rightarrow> ustr \<Rightarrow> dispatch_outcome \<Rightarrow> dispatch_outcome" where
  "record_panic a e J = J\<lparr> do_failed := (do_failed J)(a \<mapsto> asc ''panic: '' @ e) \<rparr>"

definition record_join :: "agent_name \<times> seat_result joined \<Rightarrow> dispatch_outcome \<Rightarrow> dispatch_outcome" where
  "record_join h J =
     (case snd h of
        Joined (res, was_retried, failures, records, defect) \<Rightarrow>
          record_telemetry (fst h) was_retried failures records (record_result (fst h) res J)
      | Panicked e \<Rightarrow> record_panic (fst h) e J)"

definition defect_of_join :: "agent_name \<times> seat_result joined \<Rightarrow> crate_defect_record option" where
  "defect_of_join h =
     (case snd h of Joined (res, was_retried, failures, records, defect) \<Rightarrow> defect | Panicked e \<Rightarrow> None)"

fun join_no_rotation ::
  "(agent_name \<times> seat_result joined) list \<Rightarrow> dispatch_outcome \<Rightarrow> (dispatch_outcome, magi_error) result" where
  "join_no_rotation [] J = Ok J"
| "join_no_rotation (h # hs) J =
     (let J' = record_join h J in
      case defect_of_join h of
        Some d \<Rightarrow> Err (crate_defect_error d (joined_so_far (do_successful J') (do_failed J')))
      | None \<Rightarrow> join_no_rotation hs J')"

definition check_quorum :: "nat \<Rightarrow> dispatch_outcome \<Rightarrow> (dispatch_outcome, magi_error) result" where
  "check_quorum min_agents J =
     (if length (do_successful J) < min_agents
      then Err (InsufficientAgents (length (do_successful J)) min_agents) else Ok J)"

text \<open>Every seat runs its dispatcher, except those whose task panics.\<close>

definition seat_handles ::
  "(agent \<Rightarrow> seat_env) \<Rightarrow> (agent_name \<Rightarrow> ustr option) \<Rightarrow> agent list \<Rightarrow> (agent_name \<times> seat_result joined) list" where
  "seat_handles env panics agents =
     map (\<lambda>a. (ag_name a, case panics (ag_name a) of
                  Some e \<Rightarrow> Panicked e | None \<Rightarrow> Joined (dispatch_one_agent (env a)))) agents"

definition dispatch_no_rotation ::
  "(agent \<Rightarrow> seat_env) \<Rightarrow> (agent_name \<Rightarrow> ustr option) \<Rightarrow> nat \<Rightarrow> agent list \<Rightarrow> (dispatch_outcome, magi_error) result" where
  "dispatch_no_rotation env panics min_agents agents =
     and_then (join_no_rotation (seat_handles env panics agents) (join_start (agent_models agents)))
       (check_quorum min_agents)"

section \<open>With rotation\<close>

record rotation_config =
  rcf_primary_lineages :: "agent_name \<rightharpoonup> lineage"
  rcf_primary_probes :: "agent_name \<rightharpoonup> provider_probe"
  rcf_strict_context_guard :: bool
  rcf_pool :: fallback_pool

definition primary_lineage_of :: "rotation_config \<Rightarrow> agent_name \<Rightarrow> lineage" where
  "primary_lineage_of rc a =
     (case rcf_primary_lineages rc a of
        Some l \<Rightarrow> l | None \<Rightarrow> lineage_new (asc ''__primary::'' @ display_name a))"

definition initial_seats :: "rotation_config \<Rightarrow> (agent_name \<rightharpoonup> model) \<Rightarrow> (agent_name \<rightharpoonup> active_entry)" where
  "initial_seats rc models =
     (\<lambda>a. map_option (\<lambda>m. \<lparr> ae_lineage = primary_lineage_of rc a, ae_model = m \<rparr>) (models a))"

text \<open>The values of a map in the order of its keys.\<close>

definition map_values :: "(agent_name \<rightharpoonup> 'v) \<Rightarrow> 'v list" where
  "map_values f = concat (map (\<lambda>a. case f a of Some v \<Rightarrow> [v] | None \<Rightarrow> []) agents_asc)"

definition collect_probe_targets ::
  "(agent_name \<rightharpoonup> model) \<Rightarrow> rotation_config \<Rightarrow> (model \<times> provider_probe) list" where
  "collect_probe_targets models rc =
     map_values (\<lambda>a. case (rcf_primary_probes rc a, models a) of
         (Some p, Some m) \<Rightarrow> Some (m, p) | _ \<Rightarrow> None)
     @ concat (map (\<lambda>c. case fc_probe c of Some p \<Rightarrow> [(fc_model c, p)] | None \<Rightarrow> [])
         (fp_candidates (rcf_pool rc)))"

definition CHARS_PER_TOKEN_EST :: nat where "CHARS_PER_TOKEN_EST = 4"

definition min_window_tokens_for :: "ustr \<Rightarrow> nat" where
  "min_window_tokens_for user_prompt = div_ceil (length user_prompt) CHARS_PER_TOKEN_EST"

definition start_snapshot ::
  "rotation_config \<Rightarrow> (agent_name \<rightharpoonup> model) \<Rightarrow> capabilities \<Rightarrow> nat \<Rightarrow> eligibility_inputs" where
  "start_snapshot rc models caps min_window =
     \<lparr> ei_seats = initial_seats rc models, ei_progress = (\<lambda>_. None), ei_run_failed = {},
       ei_capabilities = caps, ei_candidates = fp_candidates (rcf_pool rc),
       ei_max_rotations = fp_max_rotations (rcf_pool rc), ei_min_window_tokens = min_window,
       ei_strict_context_guard = rcf_strict_context_guard rc \<rparr>"

record observation =
  ob_agent :: agent_name
  ob_result :: "rotating_dispatch joined"
  ob_defect_read :: registry
  ob_signal_read :: registry
  ob_lineages_read :: registry

definition record_dispatch :: "agent_name \<Rightarrow> rotating_dispatch \<Rightarrow> dispatch_outcome \<Rightarrow> dispatch_outcome" where
  "record_dispatch a d J =
     record_result a (ri_output d)
       (record_telemetry a (ri_was_retried d) (ri_extraction_failures d) (ri_completions d)
         (J\<lparr> do_rotations := (do_rotations J)(a \<mapsto> ri_rotation d) \<rparr>))"

definition record_observation :: "observation \<Rightarrow> dispatch_outcome \<Rightarrow> dispatch_outcome" where
  "record_observation ob J =
     (case ob_result ob of
        Joined d \<Rightarrow> record_dispatch (ob_agent ob) d J
      | Panicked e \<Rightarrow> record_panic (ob_agent ob) e J)"

definition abort_after :: "nat \<Rightarrow> nat \<Rightarrow> observation \<Rightarrow> dispatch_outcome \<Rightarrow> magi_error option" where
  "abort_after seats_total min_agents ob J =
     (let joined = joined_so_far (do_successful J) (do_failed J);
          decide = (case ob_result ob of Joined _ \<Rightarrow> resolve_run_abort | Panicked _ \<Rightarrow> resolve_abnormal_exit)
      in decide (ob_defect_read ob) (ob_signal_read ob) (ob_lineages_read ob) joined
           (length (do_successful J)) (remaining_seats seats_total joined) min_agents)"

definition warn_degenerate :: "observation \<Rightarrow> warn_state \<Rightarrow> warn_state" where
  "warn_degenerate ob W =
     (case ob_result ob of
        Joined d \<Rightarrow> warn_when (ri_degenerate_pool d) (DegenerateDigest (ob_agent ob)) W
      | Panicked _ \<Rightarrow> W)"

fun join_rotating ::
  "nat \<Rightarrow> nat \<Rightarrow> observation list \<Rightarrow> warn_state \<times> dispatch_outcome
     \<Rightarrow> warn_state \<times> (dispatch_outcome, magi_error) result" where
  "join_rotating seats_total min_agents [] (W, J) = (W, Ok J)"
| "join_rotating seats_total min_agents (ob # obs) (W, J) =
     (let W' = warn_degenerate ob W; J' = record_observation ob J in
      case abort_after seats_total min_agents ob J' of
        Some e \<Rightarrow> (W', Err e)
      | None \<Rightarrow> join_rotating seats_total min_agents obs (W', J'))"

text \<open>The seats' environments: the one of the seat without rotation, the pool and the guard.\<close>

definition rotating_env_for ::
  "(agent \<Rightarrow> seat_env) \<Rightarrow> rotation_config \<Rightarrow> capabilities \<Rightarrow> nat \<Rightarrow> agent list \<Rightarrow> agent_name \<Rightarrow> rotating_env" where
  "rotating_env_for env rc caps min_window agents a =
     \<lparr> ro_env = (env (case find (\<lambda>ag. ag_name ag = a) agents of Some ag \<Rightarrow> ag
          | None \<Rightarrow> \<lparr> ag_name = a, ag_system_prompt = [], ag_provider = \<lparr> pr_slot = None, pr_model = [] \<rparr> \<rparr>)),
       ro_pool = rcf_pool rc, ro_capabilities = caps,
       ro_strict_context_guard = rcf_strict_context_guard rc, ro_min_window_tokens = min_window \<rparr>"

text \<open>The surroundings of a run: how the probes finish and what the join loop sees of the seats.\<close>

record surroundings =
  su_probes :: "(model \<times> provider_probe) list \<Rightarrow> (model \<times> (nat probed \<times> ustr probed) option) list"
  su_observe :: "(agent_name \<Rightarrow> rotating_env) \<Rightarrow> run \<Rightarrow> agent_name list \<Rightarrow> observation list"

definition dispatch_with_rotation ::
  "(agent \<Rightarrow> seat_env) \<Rightarrow> surroundings \<Rightarrow> rotation_config \<Rightarrow> nat \<Rightarrow> ustr \<Rightarrow> agent list \<Rightarrow> warn_state
     \<Rightarrow> warn_state \<times> (dispatch_outcome, magi_error) result" where
  "dispatch_with_rotation env S rc min_agents user_prompt agents W0 =
     (let models = agent_models agents;
          seats = initial_seats rc models;
          probe_targets = collect_probe_targets models rc;
          W1 = warn_once (ProbeDeclaration probe_targets) W0;
          caps = run_preflight_within (su_probes S probe_targets);
          trio_digests = map (digest_in caps) (map_values models);
          W2 = warn_when (digest_collision trio_digests \<noteq> None) SharedDigest W1;
          min_window = min_window_tokens_for user_prompt;
          eligibility = pool_eligibility_snapshot (start_snapshot rc models caps min_window);
          candidate_models = map fc_model (fp_candidates (rcf_pool rc));
          W3 = warn_when (fp_max_rotations (rcf_pool rc) > 0
                 \<and> strict_guard_is_inert (rcf_strict_context_guard rc) candidate_models caps)
               (InertGuard (length candidate_models)) W2;
          E = rotating_env_for env rc caps min_window agents;
          obs = su_observe S E (run_start E seats) (map ag_name agents);
          (W4, r) = join_rotating (length agents) min_agents obs
              (W3, (join_start models)\<lparr> do_pool_eligibility := eligibility \<rparr>)
      in (W4, and_then r (check_quorum min_agents)))"

section \<open>What a join loop can see of a run\<close>

inductive observed :: "(agent_name \<Rightarrow> rotating_env) \<Rightarrow> run \<Rightarrow> agent_name list \<Rightarrow> observation list \<Rightarrow> bool" for E where
  no_seat: "observed E C [] []"
| seat: "run_reachable E C C1 \<Longrightarrow> rn_seats C1 a = Some s
     \<Longrightarrow> (case r of Joined d \<Rightarrow> dispatch_of s = Some d | Panicked _ \<Rightarrow> st_phase s \<in> {Cancelled, Detached})
     \<Longrightarrow> run_reachable E C1 C2 \<Longrightarrow> run_reachable E C2 C3 \<Longrightarrow> run_reachable E C3 C4
     \<Longrightarrow> observed E C4 names obs
     \<Longrightarrow> observed E C (a # names) (\<lparr> ob_agent = a, ob_result = r, ob_defect_read = rn_registry C2,
           ob_signal_read = rn_registry C3, ob_lineages_read = rn_registry C4 \<rparr> # obs)"

inductive_cases observedE: "observed E C names obs"

section \<open>One result per seat\<close>

text \<open>What a join loop has accounted for: every awaited seat is either a success or a failure, once.\<close>

definition accounts :: "agent_name list \<Rightarrow> dispatch_outcome \<Rightarrow> bool" where
  "accounts names J \<longleftrightarrow>
     distinct (map ao_agent (do_successful J))
     \<and> ao_agent ` set (do_successful J) \<inter> dom (do_failed J) = {}
     \<and> joined_so_far (do_successful J) (do_failed J) = set names"

text \<open>The contract of a join loop's body: it adds the awaited seat's output or its failure.\<close>

locale joining =
  fixes seat_of :: "'o \<Rightarrow> agent_name"
    and output_of :: "'o \<Rightarrow> agent_output option"
    and add :: "'o \<Rightarrow> dispatch_outcome \<Rightarrow> dispatch_outcome"
  assumes success: "output_of ob = Some out \<Longrightarrow>
      do_successful (add ob J) = do_successful J @ [out] \<and> do_failed (add ob J) = do_failed J"
    and failure: "output_of ob = None \<Longrightarrow>
      do_successful (add ob J) = do_successful J \<and> (\<exists>r. do_failed (add ob J) = (do_failed J)(seat_of ob \<mapsto> r))"
begin

lemma add_accounts:
  assumes "accounts names J" "seat_of ob \<notin> set names" "\<And>out. output_of ob = Some out \<Longrightarrow> ao_agent out = seat_of ob"
  shows "accounts (names @ [seat_of ob]) (add ob J)"
proof -
  have fresh: "seat_of ob \<notin> ao_agent ` set (do_successful J)" "seat_of ob \<notin> dom (do_failed J)"
    using assms(1,2) by (auto simp: accounts_def joined_so_far_def)
  show ?thesis
  proof (cases "output_of ob")
    case None
    with failure obtain r where "do_successful (add ob J) = do_successful J"
      "do_failed (add ob J) = (do_failed J)(seat_of ob \<mapsto> r)" by blast
    with assms(1) fresh show ?thesis by (auto simp: accounts_def joined_so_far_def)
  next
    case (Some out)
    from success [OF Some] assms(3) [OF Some] assms(1) fresh show ?thesis
      by (auto simp: accounts_def joined_so_far_def)
  qed
qed

lemma fold_accounts:
  assumes "accounts names J" "distinct (names @ map seat_of obs)"
    and "\<And>ob out. ob \<in> set obs \<Longrightarrow> output_of ob = Some out \<Longrightarrow> ao_agent out = seat_of ob"
  shows "accounts (names @ map seat_of obs) (fold add obs J)"
  using assms
proof (induction obs arbitrary: names J)
  case (Cons ob obs)
  have "accounts (names @ [seat_of ob]) (add ob J)"
    by (rule add_accounts) (use Cons.prems in auto)
  from Cons.IH [OF this] Cons.prems show ?case by simp
qed simp

lemma fold_successful:
  "do_successful (fold add obs J) = do_successful J @ List.map_filter output_of obs"
proof (induction obs arbitrary: J)
  case (Cons ob obs)
  then show ?case
    using success [of ob] failure [of ob] by (cases "output_of ob") (simp_all add: List.map_filter_simps)
qed (simp add: List.map_filter_simps)

end

fun join_output :: "agent_name \<times> seat_result joined \<Rightarrow> agent_output option" where
  "join_output (a, Joined (Ok out, rest)) = Some out"
| "join_output (a, Joined (Err reason, rest)) = None"
| "join_output (a, Panicked e) = None"

definition observed_output :: "observation \<Rightarrow> agent_output option" where
  "observed_output ob =
     (case ob_result ob of
        Joined d \<Rightarrow> (case ri_output d of Ok out \<Rightarrow> Some out | Err _ \<Rightarrow> None) | Panicked _ \<Rightarrow> None)"

lemma record_fields:
  "do_successful (record_telemetry a w fs rs J) = do_successful J"
  "do_failed (record_telemetry a w fs rs J) = do_failed J"
  "record_result a (Ok out) J = J\<lparr> do_successful := do_successful J @ [out] \<rparr>"
  "record_result a (Err r) J = J\<lparr> do_failed := (do_failed J)(a \<mapsto> r) \<rparr>"
  "do_successful (record_panic a e J) = do_successful J"
  "do_failed (record_panic a e J) = (do_failed J)(a \<mapsto> asc ''panic: '' @ e)"
  by (simp_all add: record_telemetry_def record_result_def record_panic_def)

interpretation plain: joining fst join_output record_join
proof
  show "join_output ob = Some out \<Longrightarrow>
      do_successful (record_join ob J) = do_successful J @ [out] \<and> do_failed (record_join ob J) = do_failed J"
    for ob out J
    by (induction ob rule: join_output.induct) (auto simp: record_join_def record_fields split: prod.splits)
  show "join_output ob = None \<Longrightarrow>
      do_successful (record_join ob J) = do_successful J \<and> (\<exists>r. do_failed (record_join ob J) = (do_failed J)(fst ob \<mapsto> r))"
    for ob J
    by (induction ob rule: join_output.induct) (auto simp: record_join_def record_fields split: prod.splits)
qed

interpretation rotating: joining ob_agent observed_output record_observation
proof
  show "observed_output ob = Some out \<Longrightarrow>
      do_successful (record_observation ob J) = do_successful J @ [out] \<and> do_failed (record_observation ob J) = do_failed J"
    for ob out J
    by (auto simp: observed_output_def record_observation_def record_dispatch_def record_fields
        split: joined.splits result.splits)
  show "observed_output ob = None \<Longrightarrow>
      do_successful (record_observation ob J) = do_successful J
      \<and> (\<exists>r. do_failed (record_observation ob J) = (do_failed J)(ob_agent ob \<mapsto> r))" for ob J
    by (auto simp: observed_output_def record_observation_def record_dispatch_def record_fields
        split: joined.splits result.splits)
qed

lemma accounts_start [simp]: "accounts [] ((join_start models)\<lparr> do_pool_eligibility := pe \<rparr>)"
  "accounts [] (join_start models)"
  by (simp_all add: accounts_def join_start_def joined_so_far_def)

lemma accounts_remaining:
  assumes "accounts names J" "distinct names"
  shows "remaining_seats (length names + k) (joined_so_far (do_successful J) (do_failed J)) = k"
  using assms distinct_card [of names] by (simp add: accounts_def remaining_seats_def)

subsection \<open>What the loops return\<close>

lemma join_no_rotation_Ok:
  "join_no_rotation hs J = Ok J' \<longleftrightarrow> J' = fold record_join hs J \<and> (\<forall>h\<in>set hs. defect_of_join h = None)"
  by (induction hs arbitrary: J) (auto simp: Let_def split: option.splits)

lemma join_no_rotation_Err:
  "join_no_rotation hs J = Err e \<Longrightarrow> \<exists>pre h post d J'. hs = pre @ h # post \<and> J' = fold record_join (pre @ [h]) J
     \<and> defect_of_join h = Some d \<and> e = crate_defect_error d (joined_so_far (do_successful J') (do_failed J'))"
proof (induction hs arbitrary: J)
  case (Cons h hs)
  show ?case
  proof (cases "defect_of_join h")
    case None
    with Cons obtain pre g post d J' where "hs = pre @ g # post" "J' = fold record_join (pre @ [g]) (record_join h J)"
      "defect_of_join g = Some d" "e = crate_defect_error d (joined_so_far (do_successful J') (do_failed J'))"
      by (force simp: Let_def)
    then show ?thesis by (intro exI [of _ "h # pre"]) auto
  next
    case (Some d)
    with Cons.prems show ?thesis by (intro exI [of _ "[]"]) (auto simp: Let_def)
  qed
qed simp

lemma join_rotating_Ok:
  "join_rotating n k obs (W, J) = (W', Ok J') \<Longrightarrow> J' = fold record_observation obs J
     \<and> (\<forall>pre ob post. obs = pre @ ob # post \<longrightarrow> abort_after n k ob (fold record_observation (pre @ [ob]) J) = None)"
proof (induction obs arbitrary: W J)
  case (Cons ob obs)
  then have a: "abort_after n k ob (record_observation ob J) = None"
    "join_rotating n k obs (warn_degenerate ob W, record_observation ob J) = (W', Ok J')"
    by (auto simp: Let_def split: option.splits)
  note IH = Cons.IH [OF a(2)]
  have "abort_after n k b (fold record_observation (pre @ [b]) J) = None" if "ob # obs = pre @ b # post" for pre b post
    using that IH a(1) by (cases pre) auto
  with IH show ?case by simp
qed simp

lemma join_rotating_Err:
  "join_rotating n k obs (W, J) = (W', Err e) \<Longrightarrow> \<exists>pre ob post. obs = pre @ ob # post
     \<and> abort_after n k ob (fold record_observation (pre @ [ob]) J) = Some e
     \<and> (\<forall>p b q. pre = p @ b # q \<longrightarrow> abort_after n k b (fold record_observation (p @ [b]) J) = None)"
proof (induction obs arbitrary: W J)
  case (Cons ob obs)
  show ?case
  proof (cases "abort_after n k ob (record_observation ob J)")
    case (Some e')
    with Cons.prems show ?thesis by (intro exI [of _ "[]"]) (auto simp: Let_def)
  next
    case None
    with Cons obtain pre b post where h: "obs = pre @ b # post"
      "abort_after n k b (fold record_observation (pre @ [b]) (record_observation ob J)) = Some e"
      "\<forall>p b q. pre = p @ b # q \<longrightarrow>
         abort_after n k b (fold record_observation (p @ [b]) (record_observation ob J)) = None"
      by (force simp: Let_def)
    have "abort_after n k c (fold record_observation (p @ [c]) J) = None" if "ob # pre = p @ c # q" for p c q
      using that h(3) None by (cases p) auto
    with h(1,2) show ?thesis by (intro exI [of _ "ob # pre"] exI [of _ b] exI [of _ post]) simp
  qed
qed simp

section \<open>What the seats deliver\<close>

text \<open>An output a backend really answered to a call of this seat and that passed every check for it.\<close>

definition accepted_by :: "seat_env \<Rightarrow> agent_output \<Rightarrow> bool" where
  "accepted_by E out \<longleftrightarrow>
     (\<exists>n p prompt raw. execute_with E p prompt n = Answered (Ok raw) \<and> check_answer E raw = Ok out)"

lemma accepted_by_fields:
  assumes "accepted_by E out"
  shows "ao_agent out = ag_name (se_agent E)" "output_valid (se_unicode E) (se_limits E) out"
proof -
  obtain raw where c: "check_answer E raw = Ok out" using assms by (auto simp: accepted_by_def)
  then show "ao_agent out = ag_name (se_agent E)" by (simp add: check_answer_def parse_check_Ok)
  show "output_valid (se_unicode E) (se_limits E) out"
    using c by (auto simp: check_answer_def parse_check_Ok parse_and_validate_Ok output_valid_cleaned)
qed

lemma accepted_byI:
  "execute_with E p prompt n = Answered (Ok raw) \<Longrightarrow> check_answer E raw = Ok out \<Longrightarrow> accepted_by E out"
  unfolding accepted_by_def by blast

lemma accepted_by_call:
  assumes "call E p prompt lg = (Answered (Ok raw), lg')" "check_answer E raw = Ok out"
  shows "accepted_by E out"
  using accepted_byI [OF call_fields(4) [OF assms(1), THEN HOL.sym] assms(2)] .

lemma dispatch_one_agent_accepted:
  assumes "dispatch_one_agent E = (Ok out, rest)"
  shows "accepted_by E out"
proof -
  let ?p = "ag_provider (se_agent E)"
  obtain r1 lg1 where c1: "call E ?p (se_user_prompt E) log_new = (r1, lg1)"
    by (cases "call E ?p (se_user_prompt E) log_new")
  obtain raw where raw: "r1 = Answered (Ok raw)"
    using assms by (cases r1) (auto simp: dispatch_one_agent_def c1 Let_def split: result.splits)
  show ?thesis
  proof (cases "check_answer E raw")
    case (Ok x)
    with assms c1 raw have "x = out" by (simp add: dispatch_one_agent_def Let_def)
    with Ok c1 raw show ?thesis by (blast intro: accepted_by_call)
  next
    case (Err f)
    let ?lg2 = "push_failure (pr_model ?p) 1 (pf_cause f) lg1"
    obtain r2 lg3 where c2: "call E ?p (retry_prompt_for E f raw) ?lg2 = (r2, lg3)"
      by (cases "call E ?p (retry_prompt_for E f raw) ?lg2")
    obtain raw2 where raw2: "r2 = Answered (Ok raw2)" "check_answer E raw2 = Ok out"
      using assms c1 raw Err c2
      by (cases r2) (auto simp: dispatch_one_agent_def Let_def split: if_splits result.splits)
    with c2 show ?thesis by (blast intro: accepted_by_call)
  qed
qed

lemma seat_handles_accepted:
  assumes "h \<in> set (seat_handles env panics agents)" "join_output h = Some out"
  shows "\<exists>a\<in>set agents. ag_name a = fst h \<and> accepted_by (env a) out"
proof -
  obtain a where a: "a \<in> set agents" "h = (ag_name a, case panics (ag_name a) of
      Some e \<Rightarrow> Panicked e | None \<Rightarrow> Joined (dispatch_one_agent (env a)))"
    using assms(1) by (auto simp: seat_handles_def)
  obtain res rest where d: "dispatch_one_agent (env a) = (res, rest)" by (cases "dispatch_one_agent (env a)")
  with assms(2) a(2) have "res = Ok out" by (cases res) (auto split: option.splits)
  with d dispatch_one_agent_accepted a show ?thesis by fastforce
qed

definition delivered :: "rotating_env \<Rightarrow> seat \<Rightarrow> bool" where
  "delivered E s \<longleftrightarrow> (\<forall>out. st_phase s = Finished (Ok out) \<longrightarrow> accepted_by (ro_env E) out)"

lemma seat_step_delivered:
  assumes "seat_step E s R = (s', R')" "\<not> ended s"
  shows "delivered E s'"
proof (cases "st_phase s")
  case Attempting
  obtain o' lg where a: "attempt_model (ro_env E) (st_provider s) (st_log s) = (o', lg)"
    by (cases "attempt_model (ro_env E) (st_provider s) (st_log s)")
  have "o' = MoSuccess out" if "st_phase (after_attempt E (s\<lparr> st_log := lg \<rparr>) o') = Finished (Ok out)" for out
    using that by (cases o') (simp_all add: after_attempt_def)
  moreover have "accepted_by (ro_env E) out" if "o' = MoSuccess out" for out
    using attempt_model_result [OF a] that accepted_byI by blast
  ultimately show ?thesis using assms(1) Attempting a by (auto simp: seat_step_def delivered_def)
qed (use assms in \<open>auto simp: seat_step_def delivered_def ended_def rotate_to_def Let_def
  split: prod.splits option.splits releasing.splits\<close>)

definition all_delivered :: "(agent_name \<Rightarrow> rotating_env) \<Rightarrow> run \<Rightarrow> bool" where
  "all_delivered E C \<longleftrightarrow> (\<forall>a s. rn_seats C a = Some s \<longrightarrow> delivered (E a) s)"

lemma all_delivered_upd:
  "all_delivered E C \<Longrightarrow> delivered (E a) s \<Longrightarrow> all_delivered E \<lparr> rn_registry = R, rn_seats = (rn_seats C)(a \<mapsto> s) \<rparr>"
  by (simp add: all_delivered_def)

lemma run_step_delivered:
  assumes "run_step E C C'" "all_delivered E C"
  shows "all_delivered E C'"
  using assms(1)
proof (cases rule: run_stepE)
  case (act a s s' R')
  with all_delivered_upd [OF assms(2) seat_step_delivered [OF act(4,3)]] show ?thesis by simp
next
  case (cancel a s)
  with all_delivered_upd [OF assms(2), of a "s\<lparr> st_phase := Cancelled \<rparr>"] show ?thesis by (simp add: delivered_def)
next
  case (detach a s)
  with all_delivered_upd [OF assms(2), of a "s\<lparr> st_phase := Detached \<rparr>"] show ?thesis by (simp add: delivered_def)
qed

lemma run_start_delivered: "all_delivered E (run_start E seats)"
  by (auto simp: all_delivered_def delivered_def run_start_def seat_start_def split: option.splits)

lemma run_delivered: "run_reachable E C C' \<Longrightarrow> all_delivered E C \<Longrightarrow> all_delivered E C'"
  by (induction rule: run_reachable.induct) (auto dest: run_step_delivered)

lemma observed_delivered:
  assumes "observed E C names obs" "all_delivered E C"
  shows "map ob_agent obs = names
    \<and> (\<forall>ob\<in>set obs. \<forall>out. observed_output ob = Some out \<longrightarrow> accepted_by (ro_env (E (ob_agent ob))) out)"
  using assms
proof (induction rule: observed.induct)
  case (seat C C1 a s r C2 C3 C4 names obs)
  have d1: "all_delivered E C1" using seat by (blast dest: run_delivered)
  then have "all_delivered E C4" using seat by (blast dest: run_delivered)
  note IH = seat.IH [OF this]
  have "accepted_by (ro_env (E a)) out" if "r = Joined d" "ri_output d = Ok out" for d out
  proof -
    have "dispatch_of s = Some d" using seat(3) that by simp
    then have "st_phase s = Finished (Ok out)"
      using that(2) by (auto simp: dispatch_of_def split: phase.splits)
    with d1 seat(2) show ?thesis by (auto simp: all_delivered_def delivered_def)
  qed
  with IH show ?case by (auto simp: observed_output_def split: joined.splits result.splits)
qed simp

section \<open>What the reads of the registry see\<close>

lemma run_step_registry:
  assumes "shared_policy E P" "run_step E C C'"
  shows "rn_registry C' = rn_registry C \<or> registry_step P (rn_registry C) (rn_registry C')"
  using assms(2)
proof (cases rule: run_stepE)
  case (act a s s' R')
  with seat_step_registry [OF act(4)] assms(1) show ?thesis by (simp add: shared_policy_def)
next
  case (cancel a s)
  then show ?thesis using registry_step.drop by simp
qed simp

lemma run_registry:
  "run_reachable E C C' \<Longrightarrow> shared_policy E P \<Longrightarrow> reachable P (rn_registry C) (rn_registry C')"
proof (induction rule: run_reachable.induct)
  case (run_next C1 C2)
  with run_step_registry [OF run_next.prems run_next.hyps(2)] show ?case by (metis reachable.step)
qed (rule reachable.start)

lemma latch_ok_step: "registry_step P R R' \<Longrightarrow> latch_ok R \<Longrightarrow> latch_ok R'"
proof (induction rule: registry_step.induct)
  case (claim a R st r R' st')
  then show ?case using claim_next_None(1) [of P a R st R' st'] claim_next_Some(3) [of P a R st _ R' st']
    by (cases r) (auto simp: latch_ok_def)
next
  case (transport l connection R fired R')
  then show ?case by (blast dest: transport_step)
next
  case (defect d R won R')
  with latch_fields [OF defect.hyps] show ?case by (simp add: latch_ok_def)
qed (auto simp: latch_ok_def release_def guard_drop_def)

lemma latch_ok_reachable: "reachable P R R' \<Longrightarrow> latch_ok R \<Longrightarrow> latch_ok R'"
  by (induction rule: reachable.induct) (auto dest: latch_ok_step)

lemma latch_ok_start: "latch_ok (rn_registry (run_start E seats))"
  by (simp add: run_start_def latch_ok_def registry_new_def endpoint_down_def ENDPOINT_DOWN_LINEAGE_THRESHOLD_def)

lemma observed_reads:
  assumes "observed E C names obs" "shared_policy E P" "latch_ok (rn_registry C)" "ob \<in> set obs"
  shows "latch_ok (ob_signal_read ob) \<and> latch_ok (ob_lineages_read ob)
    \<and> grows (ob_defect_read ob) (ob_signal_read ob) \<and> grows (ob_signal_read ob) (ob_lineages_read ob)"
  using assms
proof (induction rule: observed.induct)
  case (seat C C1 a s r C2 C3 C4 names obs)
  note reg = run_registry [OF _ seat.prems(1)]
  have l: "latch_ok (rn_registry C3)" "latch_ok (rn_registry C4)"
    using seat by (blast dest: reg latch_ok_reachable)+
  have g: "grows (rn_registry C2) (rn_registry C3)" "grows (rn_registry C3) (rn_registry C4)"
    using seat by (blast dest: reg reachable_grows)+
  show ?case
  proof (cases "ob \<in> set obs")
    case True
    with seat.IH [OF seat.prems(1) l(2)] show ?thesis by blast
  next
    case False
    with seat.prems(3) l g show ?thesis by auto
  qed
qed simp

section \<open>When a run is aborted\<close>

lemma observed_agents:
  assumes "shared_policy E P" "observed E (run_start E seats) names obs"
  shows "map ob_agent obs = names"
    "ob \<in> set obs \<Longrightarrow> observed_output ob = Some out \<Longrightarrow> ao_agent out = ob_agent ob"
    "ob \<in> set obs \<Longrightarrow> observed_output ob = Some out \<Longrightarrow> accepted_by (ro_env (E (ob_agent ob))) out"
  using observed_delivered [OF assms(2) run_start_delivered] accepted_by_fields(1) assms(1)
  by (fastforce simp: shared_policy_def seat_name_def)+

lemma observed_accounts:
  assumes "shared_policy E P" "observed E (run_start E seats) names obs" "distinct names" "obs = pre @ post"
    and "accounts [] J0"
  shows "accounts (map ob_agent pre) (fold record_observation pre J0)"
    "remaining_seats (length names) (joined_so_far (do_successful (fold record_observation pre J0))
       (do_failed (fold record_observation pre J0))) = length post"
proof -
  note o = observed_agents [OF assms(1,2)]
  have d: "distinct (map ob_agent pre)" using o(1) assms(3,4) by auto
  show acc: "accounts (map ob_agent pre) (fold record_observation pre J0)"
    using rotating.fold_accounts [OF assms(5), of pre] d o(2) assms(4) by simp
  have "length names = length (map ob_agent pre) + length post" using o(1) assms(4) by (metis length_append length_map)
  with accounts_remaining [OF acc d, of "length post"]
  show "remaining_seats (length names) (joined_so_far (do_successful (fold record_observation pre J0))
       (do_failed (fold record_observation pre J0))) = length post" by simp
qed

lemma abort_after_observed:
  assumes "shared_policy E P" "observed E (run_start E seats) names obs" "distinct names"
    and "obs = pre @ ob # post" "accounts [] J0"
  shows "abort_after (length names) k ob (fold record_observation (pre @ [ob]) J0) =
    (case rg_crate_defect (ob_defect_read ob) of
       Some d \<Rightarrow> Some (crate_defect_error d (set (map ob_agent (pre @ [ob]))))
     | None \<Rightarrow>
         if rg_endpoint_down_signalled (ob_signal_read ob)
            \<and> length (do_successful (fold record_observation (pre @ [ob]) J0)) + length post < k
         then Some (EndpointDown (connection_failed_lineages (ob_lineages_read ob))) else None)"
proof -
  have split: "obs = (pre @ [ob]) @ post" using assms(4) by simp
  note a = observed_accounts [OF assms(1-3) split assms(5)]
  have "joined_so_far (do_successful (fold record_observation (pre @ [ob]) J0))
      (do_failed (fold record_observation (pre @ [ob]) J0)) = set (map ob_agent (pre @ [ob]))"
    using a(1) by (simp add: accounts_def)
  with a(2) show ?thesis
    by (auto simp: abort_after_def Let_def resolve_abnormal_exit_def resolve_run_abort_def resolve_crate_defect_def
        resolve_endpoint_down_def quorum_reachable_def split: joined.split option.split)
qed

lemma signalled_lineages:
  assumes "shared_policy E P" "observed E (run_start E seats) names obs" "ob \<in> set obs"
    and "rg_endpoint_down_signalled (ob_signal_read ob)"
  defines "ls \<equiv> connection_failed_lineages (ob_lineages_read ob)"
  shows "sorted ls" "distinct ls" "2 \<le> length ls" "set ls = rg_connection_failed (ob_lineages_read ob)"
proof -
  have "finite (rg_connection_failed (ob_lineages_read ob))" "2 \<le> card (rg_connection_failed (ob_lineages_read ob))"
    using observed_reads [OF assms(2,1) latch_ok_start assms(3)] assms(4)
    by (auto simp: latch_ok_def grows_def endpoint_down_def ENDPOINT_DOWN_LINEAGE_THRESHOLD_def)
  then show "sorted ls" "distinct ls" "2 \<le> length ls" "set ls = rg_connection_failed (ob_lineages_read ob)"
    by (simp_all add: ls_def connection_failed_lineages_def)
qed

text \<open>What an abort can be, for the callers of the dispatch.\<close>

lemma abort_after_cases:
  assumes "shared_policy E P" "observed E (run_start E seats) names obs" "distinct names"
    and "obs = pre @ ob # post" "accounts [] J0"
    and "abort_after (length names) k ob (fold record_observation (pre @ [ob]) J0) = Some e"
  shows "(\<exists>ls. e = EndpointDown ls \<and> 2 \<le> length ls \<and> distinct ls)
    \<or> (\<exists>obs_text hyp a m js. e = CrateDefect obs_text hyp a m js \<and> a \<notin> set js)"
proof -
  have ob: "ob \<in> set obs" using assms(4) by simp
  note e = assms(6) [unfolded abort_after_observed [OF assms(1-5)]]
  show ?thesis
  proof (cases "rg_crate_defect (ob_defect_read ob)")
    case (Some d)
    with e show ?thesis by (auto simp: crate_defect_error_def)
  next
    case None
    with e have "rg_endpoint_down_signalled (ob_signal_read ob)"
      "e = EndpointDown (connection_failed_lineages (ob_lineages_read ob))" by (auto split: if_splits)
    with signalled_lineages [OF assms(1,2) ob] show ?thesis by auto
  qed
qed

text \<open>C5: A run of the rotating seats is aborted exactly when it must be, whatever the interleaving. When
  the join loop ends without an abort, every seat is accounted for once, as a success or a failure,
  no crate defect had been latched when a seat was awaited, and whenever the endpoint was known to
  be down the seats still to come could reach the quorum. An endpoint-down abort loses nothing: even
  if every seat not yet awaited had succeeded, the quorum was out of reach; it never hides a crate
  defect, and it lists, sorted, the two or more distinct lineages that failed to connect. A
  crate-defect abort carries the first defect latched in the run and lists every other seat already
  awaited. There is no other way to abort, and the count of remaining seats never underflows.\<close>

theorem run_aborts:
  assumes "shared_policy E P" "observed E (run_start E seats) names obs" "distinct names"
    and "J0 = (join_start models)\<lparr> do_pool_eligibility := pe \<rparr>"
    and "join_rotating (length names) k obs (W, J0) = (W', r)"
  shows "case r of
      Ok J \<Rightarrow> accounts names J
        \<and> (\<forall>ob\<in>set obs. rg_crate_defect (ob_defect_read ob) = None)
        \<and> (\<forall>pre ob post. obs = pre @ ob # post \<and> rg_endpoint_down_signalled (ob_signal_read ob) \<longrightarrow>
             k \<le> length (do_successful (fold record_observation (pre @ [ob]) J0)) + length post)
    | Err e \<Rightarrow> (\<exists>pre ob post. obs = pre @ ob # post \<and>
        (case e of
           EndpointDown ls \<Rightarrow>
             length (do_successful (fold record_observation (pre @ [ob]) J0)) + length post < k
             \<and> rg_crate_defect (ob_defect_read ob) = None
             \<and> sorted ls \<and> distinct ls \<and> 2 \<le> length ls \<and> set ls = rg_connection_failed (ob_lineages_read ob)
         | CrateDefect obs_text hyp a m js \<Rightarrow>
             rg_crate_defect (ob_defect_read ob) =
               Some \<lparr> cdr_observation = obs_text, cdr_hypothesis = hyp, cdr_agent = a, cdr_model = m \<rparr>
             \<and> set js = set (map ob_agent (pre @ [ob])) - {a} \<and> distinct js
         | _ \<Rightarrow> False))"
proof -
  have J0: "accounts [] J0" by (simp add: assms(4))
  note after = abort_after_observed [OF assms(1-3) _ J0]
  show ?thesis
  proof (cases r)
    case (Ok J)
    with assms(5) have "join_rotating (length names) k obs (W, J0) = (W', Ok J)" by simp
    note ok = join_rotating_Ok [OF this]
    have none: "rg_crate_defect (ob_defect_read ob) = None"
      "rg_endpoint_down_signalled (ob_signal_read ob) \<Longrightarrow>
         k \<le> length (do_successful (fold record_observation (pre @ [ob]) J0)) + length post"
      if "obs = pre @ ob # post" for pre ob post
      using ok after [OF that, of k] that by (auto split: option.splits if_splits)
    have "accounts names J"
      using observed_accounts(1) [OF assms(1-3) _ J0, of obs "[]"] observed_agents(1) [OF assms(1,2)] ok by simp
    moreover have "\<forall>ob\<in>set obs. rg_crate_defect (ob_defect_read ob) = None"
      using none(1) by (metis split_list)
    ultimately show ?thesis using none(2) Ok by auto
  next
    case (Err e)
    with assms(5) have "join_rotating (length names) k obs (W, J0) = (W', Err e)" by simp
    then obtain pre ob post where h: "obs = pre @ ob # post"
      "abort_after (length names) k ob (fold record_observation (pre @ [ob]) J0) = Some e"
      using join_rotating_Err by blast
    have ob: "ob \<in> set obs" using h(1) by simp
    note e = h(2) [unfolded after [OF h(1)]]
    show ?thesis
    proof (cases "rg_crate_defect (ob_defect_read ob)")
      case (Some d)
      with e have "e = crate_defect_error d (set (map ob_agent (pre @ [ob])))" by simp
      moreover have "set (filter Q agents_asc) = {a. Q a}" "distinct (filter Q agents_asc)" for Q
        by (simp_all add: agents_asc_sorted)
      ultimately show ?thesis
        using Err h(1) Some unfolding Err result.case crate_defect_error_def
        by (intro exI [of _ pre] exI [of _ ob] exI [of _ post]) auto
    next
      case None
      with e have d: "rg_endpoint_down_signalled (ob_signal_read ob)"
        "length (do_successful (fold record_observation (pre @ [ob]) J0)) + length post < k"
        "e = EndpointDown (connection_failed_lineages (ob_lineages_read ob))" by (auto split: if_splits)
      show ?thesis
        using signalled_lineages [OF assms(1,2) ob d(1)] Err h(1) d None by auto
    qed
  qed
qed

text \<open>A run whose only awaited seat panics.\<close>

lemma sample_panic:
  obtains obs where "observed sample_seat_env (run_start sample_seat_env sample_seats) [Balthasar] obs"
    "map ob_result obs = [Panicked (asc ''boom'')]"
    "\<forall>ob\<in>set obs. rg_crate_defect (ob_defect_read ob) = None \<and> \<not> rg_endpoint_down_signalled (ob_signal_read ob)"
proof -
  let ?I = "run_start sample_seat_env sample_seats"
  let ?s = "seat_start (sample_seat_env Balthasar) (asc ''a'') (asc ''ma'')"
  let ?C = "\<lparr> rn_registry = guard_drop (st_guard ?s) (rn_registry ?I),
       rn_seats = (rn_seats ?I)(Balthasar \<mapsto> ?s\<lparr> st_phase := Cancelled \<rparr>) \<rparr>"
  have s: "rn_seats ?I Balthasar = Some ?s" by (simp add: run_start_def sample_seats_def)
  have "\<not> ended ?s" "st_phase ?s \<noteq> Detached" by (simp_all add: seat_start_def ended_def)
  from run_step.cancel [OF s this] have "run_step sample_seat_env ?I ?C" .
  then have reach: "run_reachable sample_seat_env ?I ?C" by (rule run_reachable.run_next [OF run_reachable.run_init])
  note refl_run = run_reachable.run_init [of sample_seat_env ?C]
  have "rn_seats ?C Balthasar = Some (?s\<lparr> st_phase := Cancelled \<rparr>)" by (simp only: run.select_convs fun_upd_same)
  from observed.seat [OF reach this _ refl_run refl_run refl_run observed.no_seat, of "Panicked (asc ''boom'')"]
  have "observed sample_seat_env ?I [Balthasar] [\<lparr> ob_agent = Balthasar, ob_result = Panicked (asc ''boom''),
      ob_defect_read = rn_registry ?C, ob_signal_read = rn_registry ?C, ob_lineages_read = rn_registry ?C \<rparr>]" by simp
  then show ?thesis
    by (rule that) (simp_all add: guard_drop_def release_def run_start_def registry_new_def seat_start_def)
qed

theorem run_aborts_witness:
  "\<exists>obs J. map ob_result obs = [Panicked (asc ''boom'')] \<and> accounts [Balthasar] J
     \<and> snd (join_rotating 1 2 obs (warn_state_new, (join_start (\<lambda>_. None))\<lparr> do_pool_eligibility := (\<lambda>_. None) \<rparr>)) = Ok J"
proof -
  let ?J0 = "(join_start (\<lambda>_. None))\<lparr> do_pool_eligibility := (\<lambda>_. None) \<rparr>"
  obtain obs where o: "observed sample_seat_env (run_start sample_seat_env sample_seats) [Balthasar] obs"
    "map ob_result obs = [Panicked (asc ''boom'')]"
    "\<forall>ob\<in>set obs. rg_crate_defect (ob_defect_read ob) = None \<and> \<not> rg_endpoint_down_signalled (ob_signal_read ob)"
    by (rule sample_panic)
  then obtain ob where ob: "obs = [ob]" by (auto simp: map_eq_Cons_conv)
  obtain W r where j: "join_rotating (length [Balthasar]) 2 obs (warn_state_new, ?J0) = (W, r)"
    by (cases "join_rotating (length [Balthasar]) 2 obs (warn_state_new, ?J0)")
  have d: "distinct [Balthasar]" by simp
  note p = run_aborts [OF sample_shared o(1) d HOL.refl j]
  obtain J where "r = Ok J"
    using j o(3) unfolding ob
    by (auto simp: Let_def abort_after_def resolve_abnormal_exit_def resolve_run_abort_def resolve_crate_defect_def
        resolve_endpoint_down_def split: joined.splits)
  with p j have "accounts [Balthasar] J" "snd (join_rotating 1 2 obs (warn_state_new, ?J0)) = Ok J"
    by (simp_all del: join_rotating.simps)
  with o(2) show ?thesis by (intro exI [of _ obs] exI [of _ J] conjI)
qed

end
