(* ===== verification/Orchestrator.thy ===== *)
theory Orchestrator
  imports Dispatch
begin

text \<open>
  The orchestrator (\<open>MagiConfig\<close>, \<open>MagiBuilder\<close> and \<open>Magi\<close> in
  \<open>src/src/orchestrator.rs\<close>): the configuration and the input measurement, the builder and
  what it checks, and \<open>analyze\<close> from the input to the report. The nonce of a run, the file
  system, the backends, the panics of tasks and what a run observes are arguments.
\<close>

section \<open>Configuration\<close>

definition DEFAULT_MAX_INPUT_LEN :: nat where "DEFAULT_MAX_INPUT_LEN = 4 * 1024 * 1024"
definition DEFAULT_INPUT_WARN_TOKENS :: nat where "DEFAULT_INPUT_WARN_TOKENS = 150000"
definition DEFAULT_AGENT_TIMEOUT :: duration where "DEFAULT_AGENT_TIMEOUT = secs 660"

record magi_config =
  mf_timeout :: duration
  mf_max_input_len :: nat
  mf_completion :: completion_config
  mf_retry_on_schema_error :: bool
  mf_input_warn_tokens :: nat

definition magi_config_default :: magi_config where
  "magi_config_default = \<lparr> mf_timeout = DEFAULT_AGENT_TIMEOUT, mf_max_input_len = DEFAULT_MAX_INPUT_LEN,
     mf_completion = completion_config_default, mf_retry_on_schema_error = True,
     mf_input_warn_tokens = DEFAULT_INPUT_WARN_TOKENS \<rparr>"

definition exceeds :: "nat \<Rightarrow> magi_config \<Rightarrow> bool" where
  "exceeds estimated_tokens cfg \<longleftrightarrow> estimated_tokens > mf_input_warn_tokens cfg"

definition measure_input :: "ustr \<Rightarrow> magi_config \<Rightarrow> input_size" where
  "measure_input content cfg =
     (let estimated_tokens = estimate_tokens content
      in \<lparr> is_estimated_tokens = estimated_tokens, is_warn_threshold = mf_input_warn_tokens cfg,
           is_exceeded = exceeds estimated_tokens cfg \<rparr>)"

definition warn_threshold_is_unreachable :: "magi_config \<Rightarrow> bool" where
  "warn_threshold_is_unreachable cfg \<longleftrightarrow>
     sat_mul USIZE_MAX (sat_add USIZE_MAX (mf_input_warn_tokens cfg) 1) TOKENS_PER_BYTE_DIVISOR
       > mf_max_input_len cfg"

type_synonym complexity_gate = "ustr \<Rightarrow> mode \<Rightarrow> bool"

section \<open>The builder\<close>

record magi_builder =
  mb_default_provider :: provider
  mb_agent_providers :: "agent_name \<rightharpoonup> provider"
  mb_overrides :: prompt_overrides
  mb_prompts_dir :: "ustr option"
  mb_config :: magi_config
  mb_validation_limits :: limits
  mb_consensus_config :: consensus_config
  mb_report_config :: report_config
  mb_complexity_gate :: "complexity_gate option"
  mb_agent_lineages :: "agent_name \<rightharpoonup> lineage"
  mb_primary_probes :: "agent_name \<rightharpoonup> provider_probe"
  mb_fallback_pool :: "fallback_pool option"
  mb_strict_context_guard :: bool

definition builder_new :: "provider \<Rightarrow> magi_builder" where
  "builder_new p = \<lparr> mb_default_provider = p, mb_agent_providers = (\<lambda>_. None), mb_overrides = (\<lambda>_. None),
     mb_prompts_dir = None, mb_config = magi_config_default, mb_validation_limits = limits_default,
     mb_consensus_config = consensus_config_default, mb_report_config = report_config_default,
     mb_complexity_gate = None, mb_agent_lineages = (\<lambda>_. None), mb_primary_probes = (\<lambda>_. None),
     mb_fallback_pool = None, mb_strict_context_guard = False \<rparr>"

definition register_seat ::
  "agent_name \<Rightarrow> provider \<Rightarrow> lineage option \<Rightarrow> provider_probe option \<Rightarrow> magi_builder \<Rightarrow> magi_builder" where
  "register_seat a p l probe b =
     (let b1 = b\<lparr> mb_agent_providers := (mb_agent_providers b)(a \<mapsto> p) \<rparr>;
          b2 = (case l of Some l \<Rightarrow> b1\<lparr> mb_agent_lineages := (mb_agent_lineages b1)(a \<mapsto> l) \<rparr> | None \<Rightarrow> b1)
      in (case probe of
            Some q \<Rightarrow> b2\<lparr> mb_primary_probes := (mb_primary_probes b2)(a \<mapsto> q) \<rparr>
          | None \<Rightarrow> b2\<lparr> mb_primary_probes := map_remove (mb_primary_probes b2) a \<rparr>))"

definition with_agent :: "agent_name \<Rightarrow> provider \<Rightarrow> lineage \<Rightarrow> magi_builder \<Rightarrow> magi_builder" where
  "with_agent a p l b = register_seat a p (Some l) None b"

definition with_agent_and_probe ::
  "agent_name \<Rightarrow> provider \<Rightarrow> lineage \<Rightarrow> provider_probe \<Rightarrow> magi_builder \<Rightarrow> magi_builder" where
  "with_agent_and_probe a p l probe b = register_seat a p (Some l) (Some probe) b"

text \<open>A provider that is its own probe: \<open>as_probe\<close> is its \<open>ProviderProbe\<close> side.\<close>

definition with_probing_agent ::
  "(provider \<Rightarrow> provider_probe) \<Rightarrow> agent_name \<Rightarrow> provider \<Rightarrow> lineage \<Rightarrow> magi_builder \<Rightarrow> magi_builder" where
  "with_probing_agent as_probe a p l b = with_agent_and_probe a p l (as_probe p) b"

definition with_provider :: "agent_name \<Rightarrow> provider \<Rightarrow> magi_builder \<Rightarrow> magi_builder" where
  "with_provider a p b = register_seat a p None None b"

definition with_fallback_pool :: "fallback_pool \<Rightarrow> magi_builder \<Rightarrow> magi_builder" where
  "with_fallback_pool pool b = b\<lparr> mb_fallback_pool := Some pool \<rparr>"

definition with_strict_context_guard :: "bool \<Rightarrow> magi_builder \<Rightarrow> magi_builder" where
  "with_strict_context_guard strict b = b\<lparr> mb_strict_context_guard := strict \<rparr>"

definition with_complexity_gate :: "complexity_gate \<Rightarrow> magi_builder \<Rightarrow> magi_builder" where
  "with_complexity_gate gate b = b\<lparr> mb_complexity_gate := Some gate \<rparr>"

definition with_custom_prompt_for_mode :: "agent_name \<Rightarrow> mode \<Rightarrow> ustr \<Rightarrow> magi_builder \<Rightarrow> magi_builder" where
  "with_custom_prompt_for_mode a m p b = b\<lparr> mb_overrides := (mb_overrides b)((a, Some m) \<mapsto> p) \<rparr>"

definition with_custom_prompt_all_modes :: "agent_name \<Rightarrow> ustr \<Rightarrow> magi_builder \<Rightarrow> magi_builder" where
  "with_custom_prompt_all_modes a p b = b\<lparr> mb_overrides := (mb_overrides b)((a, None) \<mapsto> p) \<rparr>"

definition with_custom_prompt :: "agent_name \<Rightarrow> mode \<Rightarrow> ustr \<Rightarrow> magi_builder \<Rightarrow> magi_builder" where
  "with_custom_prompt a m p b = with_custom_prompt_for_mode a m p b"

definition with_retry_disabled :: "magi_builder \<Rightarrow> magi_builder" where
  "with_retry_disabled b = b\<lparr> mb_config := (mb_config b)\<lparr> mf_retry_on_schema_error := False \<rparr> \<rparr>"

definition with_prompts_dir :: "ustr \<Rightarrow> magi_builder \<Rightarrow> magi_builder" where
  "with_prompts_dir dir b = b\<lparr> mb_prompts_dir := Some dir \<rparr>"

definition with_timeout :: "duration \<Rightarrow> magi_builder \<Rightarrow> magi_builder" where
  "with_timeout t b = b\<lparr> mb_config := (mb_config b)\<lparr> mf_timeout := t \<rparr> \<rparr>"

definition with_max_input_len :: "nat \<Rightarrow> magi_builder \<Rightarrow> magi_builder" where
  "with_max_input_len n b = b\<lparr> mb_config := (mb_config b)\<lparr> mf_max_input_len := n \<rparr> \<rparr>"

definition with_input_warn_tokens :: "nat \<Rightarrow> magi_builder \<Rightarrow> magi_builder" where
  "with_input_warn_tokens n b = b\<lparr> mb_config := (mb_config b)\<lparr> mf_input_warn_tokens := n \<rparr> \<rparr>"

definition with_completion_config :: "completion_config \<Rightarrow> magi_builder \<Rightarrow> magi_builder" where
  "with_completion_config c b = b\<lparr> mb_config := (mb_config b)\<lparr> mf_completion := c \<rparr> \<rparr>"

definition with_validation_limits :: "limits \<Rightarrow> magi_builder \<Rightarrow> magi_builder" where
  "with_validation_limits L b = b\<lparr> mb_validation_limits := L \<rparr>"

definition with_consensus_config :: "consensus_config \<Rightarrow> magi_builder \<Rightarrow> magi_builder" where
  "with_consensus_config c b = b\<lparr> mb_consensus_config := c \<rparr>"

definition with_report_config :: "report_config \<Rightarrow> magi_builder \<Rightarrow> magi_builder" where
  "with_report_config c b = b\<lparr> mb_report_config := c \<rparr>"

section \<open>Building\<close>

record magi =
  mg_config :: magi_config
  mg_agent_factory :: agent_factory
  mg_validator :: limits
  mg_consensus_engine :: consensus_config
  mg_formatter :: report_formatter
  mg_overrides :: prompt_overrides
  mg_complexity_gate :: "complexity_gate option"
  mg_rotation_config :: "rotation_config option"

text \<open>What the orchestrator finds around it: code outside the repository, the embedded prompts, the
  file system, the backends and the tasks that panic.\<close>

record world =
  wo_unicode :: unicode
  wo_fmt :: rust_fmt
  wo_serde :: "ustr \<Rightarrow> agent_output serde"
  wo_sha :: "ustr \<Rightarrow> nat list"
  wo_embedded :: "agent_name \<Rightarrow> ustr"
  wo_fs :: file_system
  wo_backend :: "agent_name \<Rightarrow> backend"
  wo_panics :: "agent_name \<Rightarrow> ustr option"
  wo_surroundings :: surroundings

definition check_primary_lineages :: "(agent_name \<rightharpoonup> lineage) \<Rightarrow> (unit, magi_error) result" where
  "check_primary_lineages lineages =
     check_all (\<lambda>a. if lineages a = Some [] then Err (InvalidInput (asc ''lineage for primary ''
         @ display_name a @ asc '' must be a non-empty declared label'')) else Ok ()) (map_keys lineages)"

definition check_pool_lineages :: "fallback_pool option \<Rightarrow> (unit, magi_error) result" where
  "check_pool_lineages pool =
     (case pool of
        None \<Rightarrow> Ok ()
      | Some pool \<Rightarrow>
          check_all (\<lambda>(i, fc). if fc_lineage fc = [] then Err (InvalidInput (asc ''lineage for fallback pool candidate ''
              @ show_nat i @ asc '' must be a non-empty declared label'')) else Ok ())
            (enumerate 0 (fp_candidates pool)))"

fun duplicate_lineages :: "lineage set \<Rightarrow> (agent_name \<rightharpoonup> lineage) \<Rightarrow> agent_name list \<Rightarrow> log_line list" where
  "duplicate_lineages seen lineages [] = []"
| "duplicate_lineages seen lineages (a # as) =
     (case lineages a of
        None \<Rightarrow> duplicate_lineages seen lineages as
      | Some l \<Rightarrow> (if l \<in> seen then [LogDuplicateLineage a l] else [])
          @ duplicate_lineages (insert l seen) lineages as)"

text \<open>Explicit overrides win over the prompts of the directory.\<close>

definition merge_prompts :: "prompt_overrides \<Rightarrow> (agent_name \<times> mode \<rightharpoonup> ustr) \<Rightarrow> prompt_overrides" where
  "merge_prompts overrides custom =
     (\<lambda>(a, k). case overrides (a, k) of
         Some p \<Rightarrow> Some p
       | None \<Rightarrow> (case k of Some m \<Rightarrow> custom (a, m) | None \<Rightarrow> None))"

definition load_overrides ::
  "world \<Rightarrow> ustr option \<Rightarrow> prompt_overrides \<Rightarrow> agent_factory \<Rightarrow> (agent_factory \<times> prompt_overrides, magi_error) result" where
  "load_overrides w dir overrides factory =
     (case dir of
        None \<Rightarrow> Ok (factory, overrides)
      | Some d \<Rightarrow> and_then (from_directory (wo_fs w) d factory) (\<lambda>f.
          Ok (f, merge_prompts overrides (af_custom_prompts f))))"

definition OVERRIDE_KEYS :: "(agent_name \<times> mode option) list" where
  "OVERRIDE_KEYS = concat (map (\<lambda>a. map (\<lambda>k. (a, k)) [None, Some CodeReview, Some Design, Some Analysis]) agents_asc)"

definition check_embedded_prompts :: "world \<Rightarrow> (unit, magi_error) result" where
  "check_embedded_prompts w =
     check_all (\<lambda>a. validate_prompt_for (wo_serde w) (Some a) None (embedded_prompt_for (wo_embedded w) a))
       [Melchior, Balthasar, Caspar]"

definition check_overrides :: "world \<Rightarrow> prompt_overrides \<Rightarrow> (unit, magi_error) result" where
  "check_overrides w overrides =
     check_all (\<lambda>(a, k). case overrides (a, k) of
         Some p \<Rightarrow> validate_prompt_for (wo_serde w) (Some a) k p
       | None \<Rightarrow> Ok ()) OVERRIDE_KEYS"

definition engaged_rotation :: "magi_builder \<Rightarrow> rotation_config option" where
  "engaged_rotation b =
     (if mb_fallback_pool b \<noteq> None \<or> mb_primary_probes b \<noteq> (\<lambda>_. None)
      then Some \<lparr> rcf_primary_lineages = mb_agent_lineages b, rcf_primary_probes = mb_primary_probes b,
                  rcf_strict_context_guard = mb_strict_context_guard b,
                  rcf_pool = (case mb_fallback_pool b of Some p \<Rightarrow> p | None \<Rightarrow> pool_builder) \<rparr>
      else None)"

definition seat_factory :: "magi_builder \<Rightarrow> agent_factory" where
  "seat_factory b =
     fold (\<lambda>a f. case mb_agent_providers b a of Some p \<Rightarrow> factory_with_provider a p f | None \<Rightarrow> f)
       agents_asc (factory_new (mb_default_provider b))"

text \<open>The lines logged and the instance, or the first error.\<close>

definition build :: "world \<Rightarrow> magi_builder \<Rightarrow> log_line list \<times> (magi, magi_error) result" where
  "build w b =
     (let log1 = (if warn_threshold_is_unreachable (mb_config b)
            then [LogThresholdUnreachable (mf_input_warn_tokens (mb_config b)) (mf_max_input_len (mb_config b))]
            else []);
          lineages = and_then (check_primary_lineages (mb_agent_lineages b)) (\<lambda>_.
            check_pool_lineages (mb_fallback_pool b))
      in case lineages of
           Err e \<Rightarrow> (log1, Err e)
         | Ok _ \<Rightarrow>
             (log1 @ duplicate_lineages {} (mb_agent_lineages b) agents_asc,
              and_then (load_overrides w (mb_prompts_dir b) (mb_overrides b) (seat_factory b)) (\<lambda>(factory, overrides).
              and_then (check_embedded_prompts w) (\<lambda>_.
              and_then (check_overrides w overrides) (\<lambda>_.
              and_then (map_err (\<lambda>e. Validation (show_report_error (wo_fmt w) e))
                  (formatter_with_config (mb_report_config b))) (\<lambda>formatter.
              Ok \<lparr> mg_config = mb_config b, mg_agent_factory = factory, mg_validator = mb_validation_limits b,
                   mg_consensus_engine = engine_new (mb_consensus_config b), mg_formatter = formatter,
                   mg_overrides = overrides, mg_complexity_gate = mb_complexity_gate b,
                   mg_rotation_config = engaged_rotation b \<rparr>))))))"

definition magi_new :: "world \<Rightarrow> provider \<Rightarrow> log_line list \<times> (magi, magi_error) result" where
  "magi_new w p = build w (builder_new p)"

definition worst_case_per_seat :: "magi \<Rightarrow> duration" where
  "worst_case_per_seat M =
     (let calls_per_model = (if mf_retry_on_schema_error (mg_config M) then 2 else 1);
          models = sat_add U32_MAX
            (case mg_rotation_config M of None \<Rightarrow> 0 | Some r \<Rightarrow> fp_max_rotations (rcf_pool r)) 1
      in dur_mul (dur_mul (mf_timeout (mg_config M)) calls_per_model) models)"

section \<open>The analysis\<close>

record magi_report =
  mr_agents :: "agent_output list"
  mr_consensus :: consensus_result
  mr_banner :: ustr
  mr_report :: ustr
  mr_degraded :: bool
  mr_failed_agents :: "agent_name \<rightharpoonup> ustr"
  mr_retried_agents :: "agent_name set"
  mr_rotations :: "agent_name \<rightharpoonup> agent_rotation"
  mr_extraction_failures :: "agent_name \<rightharpoonup> extraction_failure list"
  mr_input_size :: "input_size option"
  mr_completions :: "agent_name \<rightharpoonup> completion_record list"
  mr_pool_eligibility :: "agent_name \<rightharpoonup> candidate_eligibility list"

definition seat_env_for :: "world \<Rightarrow> magi \<Rightarrow> ustr \<Rightarrow> agent \<Rightarrow> seat_env" where
  "seat_env_for w M user_prompt ag =
     \<lparr> se_unicode = wo_unicode w, se_fmt = wo_fmt w, se_serde = wo_serde w,
       se_backend = wo_backend w (ag_name ag), se_agent = ag, se_user_prompt = user_prompt,
       se_config = mf_completion (mg_config M), se_limits = mg_validator M,
       se_timeout = mf_timeout (mg_config M), se_retry_enabled = mf_retry_on_schema_error (mg_config M) \<rparr>"

definition dispatch_with_retry ::
  "world \<Rightarrow> magi \<Rightarrow> agent list \<Rightarrow> ustr \<Rightarrow> warn_state \<Rightarrow> warn_state \<times> (dispatch_outcome, magi_error) result" where
  "dispatch_with_retry w M agents user_prompt W =
     (let min_agents = cn_min_agents (mg_consensus_engine M); env = seat_env_for w M user_prompt in
      case mg_rotation_config M of
        None \<Rightarrow> (W, dispatch_no_rotation env (wo_panics w) min_agents agents)
      | Some rc \<Rightarrow> dispatch_with_rotation env (wo_surroundings w) rc min_agents user_prompt agents W)"

definition gate_reason :: "mode \<Rightarrow> ustr \<Rightarrow> ustr" where
  "gate_reason m content =
     asc ''complexity gate rejected: mode='' @ show_mode m @ asc '', content_len='' @ show_nat (utf8_len content)"

definition report_of :: "world \<Rightarrow> magi \<Rightarrow> input_size \<Rightarrow> dispatch_outcome \<Rightarrow> consensus_result \<Rightarrow> magi_report" where
  "report_of w M isz J c =
     (let estimated = list_ex (\<lambda>out. case do_rotations J (ao_agent out) of
              Some r \<Rightarrow> ar_ran_unmeasured r | None \<Rightarrow> False) (do_successful J)
      in \<lparr> mr_agents = do_successful J, mr_consensus = c,
           mr_banner = format_banner (mg_formatter M) (do_successful J) c,
           mr_report = format_report_with_input_size (mg_formatter M) (do_successful J) c (do_rotations J)
             estimated (do_extraction_failures J) (Some isz),
           mr_degraded = length (do_successful J) < 3,
           mr_failed_agents = do_failed J, mr_retried_agents = do_retried J, mr_rotations = do_rotations J,
           mr_extraction_failures = do_extraction_failures J, mr_input_size = Some isz,
           mr_completions = do_completions J, mr_pool_eligibility = do_pool_eligibility J \<rparr>)"

definition analyze ::
  "world \<Rightarrow> magi \<Rightarrow> mode \<Rightarrow> ustr \<Rightarrow> nat \<Rightarrow> warn_state \<Rightarrow> warn_state \<times> (magi_report, magi_error) result" where
  "analyze w M m content nonce W =
     (if utf8_len content > mf_max_input_len (mg_config M)
      then (W, Err (InputTooLarge (utf8_len content) (mf_max_input_len (mg_config M))))
      else if (case mg_complexity_gate M of Some gate \<Rightarrow> \<not> gate content m | None \<Rightarrow> False)
      then (W, Err (SkippedByComplexityGate (gate_reason m content)))
      else
        (let isz = measure_input content (mg_config M);
             W1 = (if is_exceeded isz
                   then log_lines [LogInputExceeds (is_estimated_tokens isz) (is_warn_threshold isz)] W else W);
             agents = create_agents_with_prompts (wo_embedded w) m (mg_overrides M) (mg_agent_factory M)
         in case build_user_prompt (wo_unicode w) m content nonce of
              Err e \<Rightarrow> (W1, Err e)
            | Ok prompt \<Rightarrow>
                (let (W2, r) = dispatch_with_retry w M agents prompt W1
                 in (W2, and_then r (\<lambda>J.
                       and_then (determine (wo_unicode w) (wo_sha w) (mg_consensus_engine M) (do_successful J)) (\<lambda>c.
                       Ok (report_of w M isz J c)))))))"

section \<open>The threshold of the input warning\<close>

lemma utf8_len_ascii [simp]: "utf8_len (replicate n 97) = n"
  by (induction n) (simp_all add: utf8_len_def utf8_len1_def)

text \<open>The builder's notice about a mute warning is exact: for every limit below the largest
  \<open>usize\<close>, and although the comparison mixes tokens with bytes, rounds down and saturates, it is
  given exactly when no input that the size limit accepts could ever exceed the threshold.\<close>

theorem warn_threshold_exact:
  assumes "mf_max_input_len cfg < USIZE_MAX"
  shows "warn_threshold_is_unreachable cfg \<longleftrightarrow>
    (\<forall>content. utf8_len content \<le> mf_max_input_len cfg \<longrightarrow> \<not> is_exceeded (measure_input content cfg))"
proof -
  let ?T = "mf_input_warn_tokens cfg" and ?M = "mf_max_input_len cfg"
  have ex: "is_exceeded (measure_input content cfg) \<longleftrightarrow> 4 * (?T + 1) \<le> utf8_len content" for content
    by (auto simp: measure_input_def exceeds_def estimate_tokens_def TOKENS_PER_BYTE_DIVISOR_def Let_def)
  have un: "warn_threshold_is_unreachable cfg \<longleftrightarrow> ?M < 4 * (?T + 1)"
    using assms by (auto simp: warn_threshold_is_unreachable_def sat_mul_def sat_add_def TOKENS_PER_BYTE_DIVISOR_def min_def)
  show ?thesis
  proof
    assume "warn_threshold_is_unreachable cfg"
    with un ex show "\<forall>content. utf8_len content \<le> ?M \<longrightarrow> \<not> is_exceeded (measure_input content cfg)" by auto
  next
    assume all: "\<forall>content. utf8_len content \<le> ?M \<longrightarrow> \<not> is_exceeded (measure_input content cfg)"
    have "\<not> is_exceeded (measure_input (replicate (4 * (?T + 1)) 97) cfg)" if "4 * (?T + 1) \<le> ?M"
    proof -
      from that have "utf8_len (replicate (4 * (?T + 1)) 97) \<le> ?M" unfolding utf8_len_ascii .
      with all show ?thesis by blast
    qed
    then have "\<not> 4 * (?T + 1) \<le> ?M" unfolding ex utf8_len_ascii by blast
    with un show "warn_threshold_is_unreachable cfg" by simp
  qed
qed

theorem warn_threshold_exact_witness:
  "\<not> warn_threshold_is_unreachable magi_config_default
   \<and> (\<exists>content. is_exceeded (measure_input content magi_config_default))"
proof -
  have lt: "mf_max_input_len magi_config_default < USIZE_MAX"
    by (simp add: magi_config_default_def DEFAULT_MAX_INPUT_LEN_def USIZE_MAX_def U64_MAX_def)
  have "\<not> warn_threshold_is_unreachable magi_config_default"
    by (simp add: warn_threshold_is_unreachable_def magi_config_default_def DEFAULT_MAX_INPUT_LEN_def
        DEFAULT_INPUT_WARN_TOKENS_def sat_mul_def sat_add_def TOKENS_PER_BYTE_DIVISOR_def USIZE_MAX_def U64_MAX_def)
  with warn_threshold_exact [OF lt] show ?thesis by blast
qed

section \<open>What building guarantees\<close>

lemma prompt_ok_any_label:
  "validate_prompt_for serde a m p = Ok () \<longleftrightarrow> validate_prompt serde p = Ok ()"
  by (simp add: validate_prompt_def validate_prompt_Ok)

lemma check_overrides_Ok:
  "check_overrides w overrides = Ok () \<longleftrightarrow>
     (\<forall>a k p. overrides (a, k) = Some p \<longrightarrow> validate_prompt (wo_serde w) p = Ok ())"
proof -
  have keys: "(a, k) \<in> set OVERRIDE_KEYS" for a k
    by (cases k; cases "the k") (auto simp: OVERRIDE_KEYS_def)
  show ?thesis
    unfolding check_overrides_def check_all_Ok_iff
  proof
    assume all: "\<forall>x\<in>set OVERRIDE_KEYS. (case x of (a, k) \<Rightarrow> case overrides (a, k) of
        None \<Rightarrow> Ok () | Some p \<Rightarrow> validate_prompt_for (wo_serde w) (Some a) k p) = Ok ()"
    show "\<forall>a k p. overrides (a, k) = Some p \<longrightarrow> validate_prompt (wo_serde w) p = Ok ()"
    proof (intro allI impI)
      fix a k p
      assume "overrides (a, k) = Some p"
      with bspec [OF all keys, of a k] show "validate_prompt (wo_serde w) p = Ok ()" by (simp add: prompt_ok_any_label)
    qed
  qed (auto simp: prompt_ok_any_label split: option.split)
qed

lemma check_embedded_Ok:
  "check_embedded_prompts w = Ok () \<longleftrightarrow> (\<forall>a. validate_prompt (wo_serde w) (wo_embedded w a) = Ok ())"
proof -
  have "(\<forall>a. P a) \<longleftrightarrow> P Melchior \<and> P Balthasar \<and> P Caspar" for P
    by (metis agent_name.exhaust)
  then show ?thesis
    by (simp add: check_embedded_prompts_def res_simps prompt_ok_any_label embedded_prompt_for_def)
qed

lemma check_lineages_Ok:
  "check_primary_lineages ls = Ok () \<longleftrightarrow> (\<forall>a. ls a \<noteq> Some [])"
  by (auto simp: check_primary_lineages_def check_all_Ok_iff map_keys_def)

lemma check_pool_Ok:
  "check_pool_lineages (Some pool) = Ok () \<longleftrightarrow> (\<forall>c\<in>set (fp_candidates pool). fc_lineage c \<noteq> [])"
proof -
  have "check_all f (enumerate n cs) = Ok () \<longleftrightarrow> (\<forall>c\<in>set cs. fc_lineage c \<noteq> [])"
    if "\<And>i c. f (i, c) = Ok () \<longleftrightarrow> fc_lineage c \<noteq> []" for f :: "nat \<times> fallback_candidate \<Rightarrow> (unit, magi_error) result" and n cs
    by (induction cs arbitrary: n) (simp_all add: res_simps that)
  then show ?thesis by (simp add: check_pool_lineages_def)
qed

lemma seat_factory_fields:
  "af_default_provider (seat_factory b) = mb_default_provider b"
  "af_agent_providers (seat_factory b) = mb_agent_providers b"
  "af_custom_prompts (seat_factory b) = (\<lambda>_. None)"
proof -
  have f: "af_default_provider (fold g as f) = af_default_provider f \<and> af_custom_prompts (fold g as f) = af_custom_prompts f
      \<and> (\<forall>a. af_agent_providers (fold g as f) a =
           (if a \<in> set as \<and> mb_agent_providers b a \<noteq> None then mb_agent_providers b a else af_agent_providers f a))"
    if "g = (\<lambda>a f. case mb_agent_providers b a of Some p \<Rightarrow> factory_with_provider a p f | None \<Rightarrow> f)" for g as f
    unfolding that by (induction as arbitrary: f) (auto simp: factory_with_provider_def split: option.splits)
  show "af_default_provider (seat_factory b) = mb_default_provider b"
    "af_custom_prompts (seat_factory b) = (\<lambda>_. None)"
    using f [OF HOL.refl] by (simp_all add: seat_factory_def factory_new_def)
  show "af_agent_providers (seat_factory b) = mb_agent_providers b"
    using f [OF HOL.refl] by (rule_tac ext) (simp add: seat_factory_def factory_new_def)
qed


section \<open>The worst case of a seat\<close>

lemma map_of_rev_keys: "distinct (map fst xs) \<Longrightarrow> map_of (rev xs) = map_of xs"
  by (rule map_of_inject_set [THEN iffD2]) (simp_all add: rev_map [symmetric])

lemma agent_models_at:
  assumes "distinct (map ag_name agents)"
  shows "agent_models agents a = map_option (\<lambda>ag. pr_model (ag_provider ag)) (find (\<lambda>ag. ag_name ag = a) agents)"
proof -
  have "agent_models agents = map_of (map (\<lambda>ag. (ag_name ag, pr_model (ag_provider ag))) agents)"
    unfolding agent_models_def by (rule map_of_rev_keys) (use assms in \<open>simp add: comp_def\<close>)
  moreover have "map_of (map (\<lambda>ag. (ag_name ag, pr_model (ag_provider ag))) agents) a =
      map_option (\<lambda>ag. pr_model (ag_provider ag)) (find (\<lambda>ag. ag_name ag = a) agents)"
    by (induction agents) auto
  ultimately show ?thesis by simp
qed

text \<open>The environments the orchestrator gives to the seats of one run.\<close>

definition run_env :: "world \<Rightarrow> magi \<Rightarrow> ustr \<Rightarrow> rotation_config \<Rightarrow> capabilities \<Rightarrow> agent list \<Rightarrow> agent_name \<Rightarrow> rotating_env" where
  "run_env w M user_prompt rc caps agents =
     rotating_env_for (seat_env_for w M user_prompt) rc caps (min_window_tokens_for user_prompt) agents"

lemma run_env_shared:
  "\<exists>P. shared_policy (run_env w M p rc caps agents) P \<and> rp_max_rotations P = fp_max_rotations (rcf_pool rc)"
proof -
  have name: "ag_name (case find (\<lambda>ag. ag_name ag = a) agents of Some ag \<Rightarrow> ag
      | None \<Rightarrow> \<lparr> ag_name = a, ag_system_prompt = q, ag_provider = pr \<rparr>) = a" for a q pr
    by (auto split: option.split dest: find_SomeD)
  show ?thesis
    by (simp add: shared_policy_def run_env_def rotating_env_for_def seat_policy_def seat_name_def seat_env_for_def name)
qed

lemma run_env_match:
  assumes "distinct (map ag_name agents)"
  shows "seats_match (run_env w M p rc caps agents) (initial_seats rc (agent_models agents))"
  by (auto simp: seats_match_def initial_seats_def agent_models_at [OF assms] run_env_def rotating_env_for_def
      seat_env_for_def)


section \<open>From the dispatch to the report\<close>

text \<open>The runtime observes what the seats do: awaiting the task of every seat of a run in turn gives a
  list of observations the run allows (every task ends, in a result or in a panic).\<close>

definition runtime_ok :: "surroundings \<Rightarrow> bool" where
  "runtime_ok S \<longleftrightarrow> (\<forall>E P seats names. shared_policy E P \<longrightarrow> distinct names \<longrightarrow> (\<forall>a\<in>set names. seats a \<noteq> None) \<longrightarrow>
     observed E (run_start E seats) names (su_observe S E (run_start E seats) names))"

lemma created_agents:
  "map ag_name (create_agents_with_prompts embedded m overrides f) = [Melchior, Balthasar, Caspar]"
  by (simp add: create_agents_with_prompts_def AGENT_ORDER_def agent_with_custom_prompt_def)

lemma plain_dispatch_Ok:
  assumes "dispatch_no_rotation env panics k agents = Ok J" "distinct (map ag_name agents)"
    and "\<And>ag. se_agent (env ag) = ag"
  shows "accounts (map ag_name agents) J \<and> k \<le> length (do_successful J)
    \<and> (\<forall>out\<in>set (do_successful J). \<exists>ag\<in>set agents. accepted_by (env ag) out)"
proof -
  let ?hs = "seat_handles env panics agents"
  have J: "J = fold record_join ?hs (join_start (agent_models agents))" "k \<le> length (do_successful J)"
    using assms(1) by (auto simp: dispatch_no_rotation_def res_simps check_quorum_def join_no_rotation_Ok split: if_splits)
  have names: "map fst ?hs = map ag_name agents" by (simp add: seat_handles_def comp_def)
  have acc: "\<exists>ag\<in>set agents. ag_name ag = fst h \<and> accepted_by (env ag) out"
    if "h \<in> set ?hs" "join_output h = Some out" for h out using seat_handles_accepted that .
  have "accounts ([] @ map fst ?hs) (fold record_join ?hs (join_start (agent_models agents)))"
  proof (rule plain.fold_accounts)
    show "ao_agent out = fst h" if "h \<in> set ?hs" "join_output h = Some out" for h out
      using acc [OF that] accepted_by_fields(1) assms(3) by metis
  qed (simp_all add: names assms(2))
  moreover have "do_successful J = List.map_filter join_output ?hs"
    by (simp add: J(1) plain.fold_successful join_start_def)
  then have "\<forall>out\<in>set (do_successful J). \<exists>h\<in>set ?hs. join_output h = Some out"
    by (auto simp: List.map_filter_def)
  ultimately show ?thesis using J names acc by (metis append_Nil)
qed

lemma rotating_dispatch_shape:
  assumes "dispatch_with_rotation (seat_env_for w M p) S rc k p agents W = (W', r)"
    and "runtime_ok S" "distinct (map ag_name agents)"
  obtains E P seats obs W1 J0 r0 where "shared_policy E P" "observed E (run_start E seats) (map ag_name agents) obs"
    "accounts [] J0" "join_rotating (length (map ag_name agents)) k obs (W1, J0) = (W', r0)"
    "r = and_then r0 (check_quorum k)"
    "\<And>ag. ag \<in> set agents \<Longrightarrow> ro_env (E (ag_name ag)) = seat_env_for w M p ag"
proof -
  let ?models = "agent_models agents" and ?seats = "initial_seats rc (agent_models agents)"
  let ?targets = "collect_probe_targets ?models rc"
  let ?caps = "run_preflight_within (su_probes S ?targets)"
  let ?E = "run_env w M p rc ?caps agents"
  obtain P where P: "shared_policy ?E P" using run_env_shared by blast
  have "?seats a \<noteq> None" if "a \<in> set (map ag_name agents)" for a
    using that by (auto simp: initial_seats_def agent_models_at [OF assms(3)] find_None_iff)
  with assms(2,3) P have ob: "observed ?E (run_start ?E ?seats) (map ag_name agents)
      (su_observe S ?E (run_start ?E ?seats) (map ag_name agents))" by (auto simp: runtime_ok_def)
  have env: "ro_env (?E (ag_name ag)) = seat_env_for w M p ag" if "ag \<in> set agents" for ag
  proof -
    have "find (\<lambda>x. ag_name x = ag_name ag) agents = Some ag"
      using that assms(3) by (induction agents) (auto simp: image_iff)
    then show ?thesis by (simp add: run_env_def rotating_env_for_def)
  qed
  let ?pe = "pool_eligibility_snapshot (start_snapshot rc ?models ?caps (min_window_tokens_for p))"
  let ?obs = "su_observe S ?E (run_start ?E ?seats) (map ag_name agents)"
  have "\<exists>W1 r0. join_rotating (length (map ag_name agents)) k ?obs
        (W1, (join_start ?models)\<lparr> do_pool_eligibility := ?pe \<rparr>) = (W', r0) \<and> r = and_then r0 (check_quorum k)"
    using assms(1) unfolding dispatch_with_rotation_def Let_def run_env_def length_map
    by (auto split: prod.splits)
  then obtain W1 r0 where "join_rotating (length (map ag_name agents)) k ?obs
        (W1, (join_start ?models)\<lparr> do_pool_eligibility := ?pe \<rparr>) = (W', r0)" "r = and_then r0 (check_quorum k)"
    by blast
  then show ?thesis using that [OF P ob accounts_start(1) _ _ env] by blast
qed

lemma rotating_dispatch_Ok:
  assumes "dispatch_with_rotation (seat_env_for w M p) S rc k p agents W = (W', Ok J)"
    and "runtime_ok S" "distinct (map ag_name agents)"
  shows "accounts (map ag_name agents) J \<and> k \<le> length (do_successful J)
    \<and> (\<forall>out\<in>set (do_successful J). \<exists>ag\<in>set agents. accepted_by (seat_env_for w M p ag) out)"
proof -
  obtain E P seats obs W1 J0 r0 where P: "shared_policy E P"
    and o: "observed E (run_start E seats) (map ag_name agents) obs" and J0: "accounts [] J0"
    and j: "join_rotating (length (map ag_name agents)) k obs (W1, J0) = (W', r0)"
    and r: "Ok J = and_then r0 (check_quorum k)"
    and env: "\<And>ag. ag \<in> set agents \<Longrightarrow> ro_env (E (ag_name ag)) = seat_env_for w M p ag"
    by (rule rotating_dispatch_shape [OF assms]) (rule that; assumption)
  have r0: "r0 = Ok J" "k \<le> length (do_successful J)"
    using r by (cases r0; simp add: check_quorum_def split: if_splits)+
  have J: "J = fold record_observation obs J0" using join_rotating_Ok j r0(1) by blast
  note ag = observed_agents [OF P o]
  have "accounts (map ag_name agents) J"
    using observed_accounts(1) [OF P o assms(3) _ J0, of obs "[]"] ag(1) J by simp
  moreover have "do_successful J = List.map_filter observed_output obs"
    using J0 by (simp add: J rotating.fold_successful accounts_def joined_so_far_def)
  then have "\<exists>ag\<in>set agents. accepted_by (seat_env_for w M p ag) out"
    if out: "out \<in> set (do_successful J)" for out
  proof -
    obtain ob where ob: "ob \<in> set obs" "observed_output ob = Some out"
      using out \<open>do_successful J = _\<close> by (auto simp: List.map_filter_def)
    then obtain x where x: "x \<in> set agents" "ob_agent ob = ag_name x"
      using ag(1) by (metis (no_types, lifting) image_eqI image_iff list.set_map)
    with ag(3) [OF ob] env show ?thesis by auto
  qed
  ultimately show ?thesis using r0(2) by blast
qed

text \<open>The errors a dispatch can end with.\<close>

definition dispatch_error :: "nat \<Rightarrow> magi_error \<Rightarrow> bool" where
  "dispatch_error k e \<longleftrightarrow> (\<exists>n. e = InsufficientAgents n k \<and> n < k)
     \<or> (\<exists>ls. e = EndpointDown ls \<and> 2 \<le> length ls \<and> distinct ls)
     \<or> (\<exists>obs_text hyp a m js. e = CrateDefect obs_text hyp a m js \<and> a \<notin> set js)"

lemma check_quorum_Err: "check_quorum k J = Err e \<Longrightarrow> dispatch_error k e"
  by (auto simp: check_quorum_def dispatch_error_def split: if_splits)

lemma plain_dispatch_Err:
  assumes "dispatch_no_rotation env panics k agents = Err e"
  shows "dispatch_error k e"
proof -
  consider "join_no_rotation (seat_handles env panics agents) (join_start (agent_models agents)) = Err e"
    | J where "check_quorum k J = Err e"
    using assms by (auto simp: dispatch_no_rotation_def res_simps)
  then show ?thesis
    by cases (auto dest!: join_no_rotation_Err check_quorum_Err simp: dispatch_error_def crate_defect_error_def)
qed

lemma rotating_dispatch_Err:
  assumes "dispatch_with_rotation (seat_env_for w M p) S rc k p agents W = (W', Err e)"
    and "runtime_ok S" "distinct (map ag_name agents)"
  shows "dispatch_error k e"
proof -
  obtain E P seats obs W1 J0 r0 where P: "shared_policy E P"
    and o: "observed E (run_start E seats) (map ag_name agents) obs" and J0: "accounts [] J0"
    and j: "join_rotating (length (map ag_name agents)) k obs (W1, J0) = (W', r0)"
    and r: "Err e = and_then r0 (check_quorum k)"
    by (rule rotating_dispatch_shape [OF assms]) (rule that; assumption)
  show ?thesis
  proof (cases r0)
    case (Ok J)
    with r check_quorum_Err show ?thesis by (metis and_then.simps(1))
  next
    case (Err e')
    with r j have "join_rotating (length (map ag_name agents)) k obs (W1, J0) = (W', Err e)" by simp
    then obtain pre ob post where h: "obs = pre @ ob # post"
      "abort_after (length (map ag_name agents)) k ob (fold record_observation (pre @ [ob]) J0) = Some e"
      using join_rotating_Err by blast
    from abort_after_cases [OF P o assms(3) h(1) J0 h(2)] show ?thesis by (auto simp: dispatch_error_def)
  qed
qed

lemma dispatch_cases:
  assumes "dispatch_with_retry w M agents p W = (W', r)" "runtime_ok (wo_surroundings w)"
    and "distinct (map ag_name agents)"
  defines "k \<equiv> cn_min_agents (mg_consensus_engine M)"
  shows "(case r of
      Ok J \<Rightarrow> accounts (map ag_name agents) J \<and> k \<le> length (do_successful J)
        \<and> (\<forall>out\<in>set (do_successful J). \<exists>ag\<in>set agents. accepted_by (seat_env_for w M p ag) out)
    | Err e \<Rightarrow> dispatch_error k e \<and> (\<forall>ls. e = EndpointDown ls \<longrightarrow> mg_rotation_config M \<noteq> None))"
proof (cases "mg_rotation_config M")
  case None
  then have d: "dispatch_no_rotation (seat_env_for w M p) (wo_panics w) k agents = r"
    using assms(1) by (simp add: dispatch_with_retry_def Let_def k_def)
  have "e \<noteq> EndpointDown ls" if "r = Err e" for e ls
    using d that by (auto simp: dispatch_no_rotation_def res_simps check_quorum_def crate_defect_error_def
        split: if_splits dest!: join_no_rotation_Err)
  moreover have "se_agent (seat_env_for w M p ag) = ag" for ag by (simp add: seat_env_for_def)
  ultimately show ?thesis
    using d plain_dispatch_Ok [OF _ assms(3)] plain_dispatch_Err by (auto split: result.split)
next
  case (Some rc)
  then have d: "dispatch_with_rotation (seat_env_for w M p) (wo_surroundings w) rc k p agents W = (W', r)"
    using assms(1) by (simp add: dispatch_with_retry_def Let_def k_def)
  with rotating_dispatch_Ok [OF _ assms(2,3)] rotating_dispatch_Err [OF _ assms(2,3)] Some show ?thesis
    by (auto split: result.split)
qed

section \<open>Properties of an analysis\<close>

lemma all_three: "set [Melchior, Balthasar, Caspar] = UNIV"
  using agents_asc_all by (auto simp: agents_asc_def)

lemma outputs_below_three:
  assumes "distinct (map ao_agent outs)"
  shows "length outs < 3 \<longleftrightarrow> ao_agent ` set outs \<noteq> UNIV"
proof -
  have n: "length outs = card (ao_agent ` set outs)" using assms distinct_card [of "map ao_agent outs"] by simp
  have u: "card (UNIV :: agent_name set) = 3" unfolding all_three [symmetric] by simp
  have f: "finite (UNIV :: agent_name set)" unfolding all_three [symmetric] by simp
  show ?thesis
  proof
    assume "length outs < 3"
    with n u show "ao_agent ` set outs \<noteq> UNIV" by auto
  next
    assume "ao_agent ` set outs \<noteq> UNIV"
    then have "ao_agent ` set outs \<subset> UNIV" by blast
    from psubset_card_mono [OF f this] n u show "length outs < 3" by simp
  qed
qed

lemma analyze_dispatch:
  assumes "\<not> utf8_len content > mf_max_input_len (mg_config M)"
    and "\<not> (case mg_complexity_gate M of Some gate \<Rightarrow> \<not> gate content m | None \<Rightarrow> False)"
    and "build_user_prompt (wo_unicode w) m content nonce = Ok prompt"
    and "analyze w M m content nonce W = (W', r)"
  obtains W1 d where
    "dispatch_with_retry w M (create_agents_with_prompts (wo_embedded w) m (mg_overrides M) (mg_agent_factory M)) prompt W1
       = (W', d)"
    "r = and_then d (\<lambda>J. and_then (determine (wo_unicode w) (wo_sha w) (mg_consensus_engine M) (do_successful J)) (\<lambda>c.
           Ok (report_of w M (measure_input content (mg_config M)) J c)))"
  using assms by (auto simp: analyze_def Let_def split: prod.splits)

text \<open>C2: A report says what happened. When an analysis returns a report, with or without rotation and
  whatever the backends answer, the three mages are split into those whose output it holds, each
  once, and those it lists as failed; at least the quorum succeeded and the report is marked
  degraded exactly when some mage failed; every output was answered by a backend to a call of that
  very mage with the framed prompt of this input, passed every check and names its mage; the
  consensus is the one of exactly these outputs; and the input was within the size limit and is
  measured in the report.\<close>

theorem analyze_report:
  assumes "analyze w M m content nonce W = (W', Ok R)" "runtime_ok (wo_surroundings w)"
  defines "agents \<equiv> create_agents_with_prompts (wo_embedded w) m (mg_overrides M) (mg_agent_factory M)"
  shows "(\<exists>prompt. build_user_prompt (wo_unicode w) m content nonce = Ok prompt
      \<and> (\<forall>out\<in>set (mr_agents R). \<exists>ag\<in>set agents. ao_agent out = ag_name ag
           \<and> accepted_by (seat_env_for w M prompt ag) out \<and> output_valid (wo_unicode w) (mg_validator M) out))
    \<and> distinct (map ao_agent (mr_agents R))
    \<and> dom (mr_failed_agents R) = - (ao_agent ` set (mr_agents R))
    \<and> cn_min_agents (mg_consensus_engine M) \<le> length (mr_agents R)
    \<and> (mr_degraded R \<longleftrightarrow> dom (mr_failed_agents R) \<noteq> {})
    \<and> mr_consensus R = consensus_of (wo_unicode w) (wo_sha w) (mg_consensus_engine M) (mr_agents R)
    \<and> utf8_len content \<le> mf_max_input_len (mg_config M)
    \<and> mr_input_size R = Some (measure_input content (mg_config M))"
proof -
  have size: "\<not> utf8_len content > mf_max_input_len (mg_config M)"
    and gate: "\<not> (case mg_complexity_gate M of Some gate \<Rightarrow> \<not> gate content m | None \<Rightarrow> False)"
    using assms(1) by (auto simp: analyze_def split: if_splits)
  obtain prompt where p: "build_user_prompt (wo_unicode w) m content nonce = Ok prompt"
    using assms(1) size gate by (cases "build_user_prompt (wo_unicode w) m content nonce") (auto simp: analyze_def Let_def)
  obtain W1 d where d: "dispatch_with_retry w M agents prompt W1 = (W', d)"
    and r: "Ok R = and_then d (\<lambda>J. and_then (determine (wo_unicode w) (wo_sha w) (mg_consensus_engine M) (do_successful J))
          (\<lambda>c. Ok (report_of w M (measure_input content (mg_config M)) J c)))"
    using analyze_dispatch [OF size gate p assms(1)] unfolding agents_def .
  obtain J c where J: "d = Ok J" "determine (wo_unicode w) (wo_sha w) (mg_consensus_engine M) (do_successful J) = Ok c"
    "R = report_of w M (measure_input content (mg_config M)) J c"
    using r [THEN HOL.sym] by (auto simp: res_simps)
  have names: "map ag_name agents = [Melchior, Balthasar, Caspar]" by (simp add: agents_def created_agents)
  then have dist: "distinct (map ag_name agents)" by simp
  note D = dispatch_cases [OF d assms(2) dist, unfolded J(1) result.case]
  have acc: "distinct (map ao_agent (do_successful J))" "ao_agent ` set (do_successful J) \<inter> dom (do_failed J) = {}"
    "ao_agent ` set (do_successful J) \<union> dom (do_failed J) = UNIV"
    using conjunct1 [OF D] by (simp_all add: accounts_def joined_so_far_def names all_three [symmetric])
  have R: "mr_agents R = do_successful J" "mr_failed_agents R = do_failed J" "mr_consensus R = c"
    "mr_degraded R \<longleftrightarrow> length (do_successful J) < 3" "mr_input_size R = Some (measure_input content (mg_config M))"
    by (simp_all add: J(3) report_of_def Let_def)
  have fail: "dom (do_failed J) = - (ao_agent ` set (do_successful J))" using acc(2,3) by blast
  have deg: "length (do_successful J) < 3 \<longleftrightarrow> dom (do_failed J) \<noteq> {}"
    unfolding outputs_below_three [OF acc(1)] fail by blast
  have "\<exists>ag\<in>set agents. ao_agent out = ag_name ag
      \<and> accepted_by (seat_env_for w M prompt ag) out \<and> output_valid (wo_unicode w) (mg_validator M) out"
    if "out \<in> set (do_successful J)" for out
    using D that accepted_by_fields by (fastforce simp: seat_env_for_def)
  with p fail deg D acc(1) size J(2) show ?thesis by (simp add: R determine_Ok_iff)
qed


section \<open>A run in which one mage answers\<close>

text \<open>A runtime that cancels every task before it acts: the least a run can do.\<close>

fun cancelled_run :: "run \<Rightarrow> agent_name list \<Rightarrow> observation list" where
  "cancelled_run C [] = []"
| "cancelled_run C (a # names) =
     (case rn_seats C a of
        None \<Rightarrow> []
      | Some s \<Rightarrow>
          (let C' = \<lparr> rn_registry = guard_drop (st_guard s) (rn_registry C),
                      rn_seats = (rn_seats C)(a \<mapsto> s\<lparr> st_phase := Cancelled \<rparr>) \<rparr>
           in \<lparr> ob_agent = a, ob_result = Panicked (asc ''cancelled''), ob_defect_read = rn_registry C',
                ob_signal_read = rn_registry C', ob_lineages_read = rn_registry C' \<rparr> # cancelled_run C' names))"

lemma cancelled_run_observed:
  assumes "distinct names" "\<And>a. a \<in> set names \<Longrightarrow> \<exists>s. rn_seats C a = Some s \<and> st_phase s = Attempting"
  shows "observed E C names (cancelled_run C names)"
  using assms
proof (induction names arbitrary: C)
  case Nil
  show ?case by (simp add: observed.no_seat)
next
  case (Cons a names)
  obtain s where s: "rn_seats C a = Some s" "st_phase s = Attempting" using Cons.prems(2) by auto
  let ?C' = "\<lparr> rn_registry = guard_drop (st_guard s) (rn_registry C),
                rn_seats = (rn_seats C)(a \<mapsto> s\<lparr> st_phase := Cancelled \<rparr>) \<rparr>"
  have reach: "run_reachable E C ?C'"
    using run_step.cancel [OF s(1)] s(2) run_reachable.run_next [OF run_reachable.run_init] by (simp add: ended_def)
  have rest: "observed E ?C' names (cancelled_run ?C' names)"
    by (rule Cons.IH) (use Cons.prems in auto)
  have own: "rn_seats ?C' a = Some (s\<lparr> st_phase := Cancelled \<rparr>)" by simp
  note stay = run_reachable.run_init [of E ?C']
  from observed.seat [OF reach own _ stay stay stay rest, of "Panicked (asc ''cancelled'')"] show ?case
    by (simp add: s(1) Let_def)
qed

definition cancelling :: surroundings where
  "cancelling = \<lparr> su_probes = (\<lambda>_. []), su_observe = (\<lambda>E. cancelled_run) \<rparr>"

lemma cancelling_ok: "runtime_ok cancelling"
proof -
  have "observed E (run_start E seats) names (cancelled_run (run_start E seats) names)"
    if "distinct names" "\<forall>a\<in>set names. seats a \<noteq> None" for E seats names
    by (rule cancelled_run_observed) (use that in \<open>auto simp: run_start_def seat_start_def\<close>)
  then show ?thesis by (simp add: runtime_ok_def cancelling_def)
qed

definition sample_world :: world where
  "sample_world = \<lparr> wo_unicode = ascii_tables, wo_fmt = plain_fmt, wo_serde = demo_serde, wo_sha = (\<lambda>_. []),
     wo_embedded = (\<lambda>_. BOM # framed (asc ''p'')), wo_fs = sample_fs,
     wo_backend = (\<lambda>a n p s u c. Answered (Ok (completion_new (framed (asc ''v''))))),
     wo_panics = (\<lambda>a. if a = Caspar then None else Some (asc ''boom'')), wo_surroundings = cancelling \<rparr>"

definition sample_builder :: magi_builder where
  "sample_builder = with_consensus_config \<lparr> cn_min_agents = 1, cn_epsilon = Fin 0 \<rparr>
     (with_provider Caspar \<lparr> pr_slot = None, pr_model = asc ''mc'' \<rparr> (builder_new \<lparr> pr_slot = None, pr_model = asc ''m'' \<rparr>))"

lemma sample_build:
  "\<exists>lg M. build sample_world sample_builder = (lg, Ok M) \<and> mg_config M = magi_config_default
     \<and> mg_validator M = limits_default \<and> cn_min_agents (mg_consensus_engine M) = 1
     \<and> mg_complexity_gate M = None \<and> mg_rotation_config M = None"
proof -
  have b: "mb_prompts_dir sample_builder = None" "mb_overrides sample_builder = (\<lambda>_. None)"
    "mb_agent_lineages sample_builder = (\<lambda>_. None)" "mb_fallback_pool sample_builder = None"
    "mb_report_config sample_builder = report_config_default" "mb_primary_probes sample_builder = (\<lambda>_. None)"
    "mb_config sample_builder = magi_config_default" "mb_validation_limits sample_builder = limits_default"
    "mb_complexity_gate sample_builder = None" "cn_min_agents (mb_consensus_config sample_builder) = 1"
    by (simp_all add: sample_builder_def with_consensus_config_def with_provider_def register_seat_def builder_new_def
        map_remove_def)
  have e: "check_embedded_prompts sample_world = Ok ()"
    by (simp add: check_embedded_Ok validate_prompt_def validate_prompt_Ok sample_world_def strip_bom_def framed_demo
        demo_serde_def)
  have o: "check_overrides sample_world (\<lambda>_. None) = Ok ()" by (simp add: check_overrides_Ok)
  have l: "check_primary_lineages (\<lambda>_. None) = Ok ()" "check_pool_lineages None = Ok ()"
    by (simp_all add: check_lineages_Ok check_pool_lineages_def)
  show ?thesis
    by (simp add: build_def Let_def b e o l load_overrides_def default_formatter engaged_rotation_def engine_new_def)
qed


lemma sample_accepted:
  assumes "mg_validator M = limits_default" "ag_name ag = Caspar"
  shows "dispatch_one_agent (seat_env_for sample_world M prompt ag) =
    (Ok (vote Caspar Approve [finding_new Info (asc ''t'') (asc ''d'')]), False, [],
     [from_telemetry (pr_model (ag_provider ag)) (cc_max_tokens (mf_completion (mg_config M))) unmeasured], None)"
proof -
  have "check_answer (seat_env_for sample_world M prompt ag) (completion_new (framed (asc ''v''))) =
      Ok (vote Caspar Approve [finding_new Info (asc ''t'') (asc ''d'')])"
    using demo_parse assms by (simp add: check_answer_def seat_env_for_def sample_world_def completion_new_def)
  moreover have "se_agent (seat_env_for sample_world M prompt ag) = ag"
    "se_config (seat_env_for sample_world M prompt ag) = mf_completion (mg_config M)"
    "se_backend (seat_env_for sample_world M prompt ag) n p q u c = Answered (Ok (completion_new (framed (asc ''v''))))"
    for n p q u c by (simp_all add: seat_env_for_def sample_world_def)
  ultimately show ?thesis
    by (simp add: dispatch_one_agent_def call_def execute_with_def Let_def log_new_def completion_new_def)
qed

text \<open>Caspar answers, the tasks of the others panic.\<close>

lemma sample_analysis:
  assumes "build sample_world sample_builder = (lg, Ok M)"
  shows "\<exists>R. snd (analyze sample_world M Design (asc ''MODE: a'') 0 W) = Ok R
     \<and> mr_agents R = [vote Caspar Approve [finding_new Info (asc ''t'') (asc ''d'')]]"
proof -
  have M: "mg_config M = magi_config_default" "mg_validator M = limits_default"
    "cn_min_agents (mg_consensus_engine M) = 1" "mg_complexity_gate M = None" "mg_rotation_config M = None"
    using sample_build assms by auto
  obtain prompt where p: "build_user_prompt ascii_tables Design (asc ''MODE: a'') 0 = Ok prompt"
    using demo_prompt_ok by blast
  let ?agents = "create_agents_with_prompts (wo_embedded sample_world) Design (mg_overrides M) (mg_agent_factory M)"
  let ?out = "vote Caspar Approve [finding_new Info (asc ''t'') (asc ''d'')]"
  have ags: "\<exists>a b c. ?agents = [a, b, c] \<and> ag_name a = Melchior \<and> ag_name b = Balthasar \<and> ag_name c = Caspar"
    by (simp add: create_agents_with_prompts_def AGENT_ORDER_def agent_with_custom_prompt_def)
  have pan: "wo_panics sample_world a = (if a = Caspar then None else Some (asc ''boom''))" for a
    by (simp add: sample_world_def)
  have "\<exists>J. dispatch_no_rotation (seat_env_for sample_world M prompt) (wo_panics sample_world) 1 ?agents = Ok J
      \<and> do_successful J = [?out]"
    using ags by (auto simp: dispatch_no_rotation_def seat_handles_def pan sample_accepted [OF M(2)] record_join_def
        defect_of_join_def Let_def record_fields check_quorum_def join_start_def)
  then obtain J where J: "dispatch_no_rotation (seat_env_for sample_world M prompt) (wo_panics sample_world) 1 ?agents = Ok J"
    "do_successful J = [?out]" by blast
  have "utf8_len (asc ''MODE: a'') \<le> mf_max_input_len (mg_config M)"
    by (simp add: M(1) magi_config_default_def DEFAULT_MAX_INPUT_LEN_def utf8_len_def utf8_len1_def)
  moreover have "wo_unicode sample_world = ascii_tables" by (simp add: sample_world_def)
  ultimately show ?thesis
    using J p by (auto simp: analyze_def Let_def M dispatch_with_retry_def determine_def report_of_def)
qed

theorem analyze_report_witness:
  "\<exists>lg M W' R. build sample_world sample_builder = (lg, Ok M)
     \<and> analyze sample_world M Design (asc ''MODE: a'') 0 warn_state_new = (W', Ok R)
     \<and> mr_degraded R \<and> dom (mr_failed_agents R) = {Melchior, Balthasar}"
proof -
  obtain lg M where b: "build sample_world sample_builder = (lg, Ok M)" using sample_build by blast
  obtain R where R: "snd (analyze sample_world M Design (asc ''MODE: a'') 0 warn_state_new) = Ok R"
    "mr_agents R = [vote Caspar Approve [finding_new Info (asc ''t'') (asc ''d'')]]"
    using sample_analysis [OF b] by blast
  then obtain W' where a: "analyze sample_world M Design (asc ''MODE: a'') 0 warn_state_new = (W', Ok R)"
    by (metis prod.collapse)
  have ok: "runtime_ok (wo_surroundings sample_world)" using cancelling_ok by (simp add: sample_world_def)
  have three: "- {Caspar} = {Melchior, Balthasar}" by (auto intro: agent_name.exhaust)
  have "dom (mr_failed_agents R) = - (ao_agent ` set (mr_agents R))" "mr_degraded R \<longleftrightarrow> dom (mr_failed_agents R) \<noteq> {}"
    using analyze_report [OF a ok] by blast+
  moreover have "ao_agent ` set (mr_agents R) = {Caspar}" by (simp add: R(2) vote_def)
  ultimately have "dom (mr_failed_agents R) = {Melchior, Balthasar}" "mr_degraded R" by (simp_all only: three) auto
  with a b show ?thesis by blast
qed



end
