(* ===== verification/Probing.thy ===== *)
theory Probing
  imports Rotation Formatting
begin

text \<open>
  The preflight of a rotating run in time (\<open>run_preflight_within\<close> in \<open>src/src/rotation.rs\<close>). Theory
  \<open>Rotation\<close> takes the finished tasks as given; here they come out of the tasks themselves, which
  share four permits: a task waits for a permit, then has its whole budget for both halves of its
  probe, and is joined when it ends. A timer fires on time and a free permit is taken at once;
  which task takes it, what a probe answers and when is open. Times are nanoseconds.
\<close>

section \<open>Tasks, permits and the clock\<close>

definition MAX_PREFLIGHT_CONCURRENCY :: nat where "MAX_PREFLIGHT_CONCURRENCY = 4"

definition DEFAULT_PREFLIGHT_TIMEOUT :: duration where "DEFAULT_PREFLIGHT_TIMEOUT = secs 30"

text \<open>A task is the position of its probe. The running ones have their deadline, the last started
  first; the joined ones are in the order they ended, a panicked one without a result.\<close>

record probing =
  pg_clock :: nat
  pg_waiting :: "nat list"
  pg_running :: "(nat \<times> nat) list"
  pg_joined :: "(nat \<times> (nat probed \<times> ustr probed) option) list"

definition probing_start :: "nat \<Rightarrow> probing" where
  "probing_start n = \<lparr> pg_clock = 0, pg_waiting = [0..<n], pg_running = [], pg_joined = [] \<rparr>"

text \<open>The deadline is taken after the permit. A clock that cannot be advanced that far leaves no
  time.\<close>

definition deadline_from :: "nat \<Rightarrow> nat \<Rightarrow> nat \<Rightarrow> nat" where
  "deadline_from clock_max now budget = (if now + budget \<le> clock_max then now + budget else now)"

datatype probing_event =
    TaskStarts nat
  | TimePasses nat
  | TaskEnds nat "nat probed" "ustr probed"
  | TaskPanics nat

definition in_time :: "nat \<Rightarrow> nat \<Rightarrow> 'a probed \<Rightarrow> bool" where
  "in_time now deadline answer \<longleftrightarrow> answer \<noteq> ProbeTimeout \<or> deadline \<le> now"

definition leaves :: "nat \<Rightarrow> (nat probed \<times> ustr probed) option \<Rightarrow> probing \<Rightarrow> probing" where
  "leaves i r s = s\<lparr> pg_running := filter (\<lambda>t. fst t \<noteq> i) (pg_running s), pg_joined := pg_joined s @ [(i, r)] \<rparr>"

fun probing_step :: "nat \<Rightarrow> nat \<Rightarrow> probing_event \<Rightarrow> probing \<Rightarrow> probing option" where
  "probing_step clock_max budget (TaskStarts i) s =
     (if i \<in> set (pg_waiting s) \<and> length (pg_running s) < MAX_PREFLIGHT_CONCURRENCY
      then Some (s\<lparr> pg_waiting := remove1 i (pg_waiting s),
        pg_running := (i, deadline_from clock_max (pg_clock s) budget) # pg_running s \<rparr>)
      else None)"
| "probing_step clock_max budget (TimePasses d) s =
     (if 0 < d \<and> pg_running s \<noteq> []
         \<and> (pg_waiting s = [] \<or> length (pg_running s) = MAX_PREFLIGHT_CONCURRENCY)
         \<and> list_all (\<lambda>(i, deadline). pg_clock s + d \<le> deadline) (pg_running s)
      then Some (s\<lparr> pg_clock := pg_clock s + d \<rparr>) else None)"
| "probing_step clock_max budget (TaskEnds i w d) s =
     (case map_of (pg_running s) i of
        None \<Rightarrow> None
      | Some deadline \<Rightarrow>
          if in_time (pg_clock s) deadline w \<and> in_time (pg_clock s) deadline d
          then Some (leaves i (Some (w, d)) s) else None)"
| "probing_step clock_max budget (TaskPanics i) s =
     (case map_of (pg_running s) i of None \<Rightarrow> None | Some deadline \<Rightarrow> Some (leaves i None s))"

fun probing_run :: "nat \<Rightarrow> nat \<Rightarrow> probing_event list \<Rightarrow> probing \<Rightarrow> probing option" where
  "probing_run clock_max budget [] s = Some s"
| "probing_run clock_max budget (e # es) s =
     Option.bind (probing_step clock_max budget e s) (probing_run clock_max budget es)"

definition all_joined :: "probing \<Rightarrow> bool" where
  "all_joined s \<longleftrightarrow> pg_waiting s = [] \<and> pg_running s = []"

text \<open>What the preflight hands on: the tasks with the models they were for.\<close>

definition probed_tasks :: "model list \<Rightarrow> probing \<Rightarrow> (model \<times> (nat probed \<times> ustr probed) option) list" where
  "probed_tasks models s = map (\<lambda>(i, r). (models ! i, r)) (pg_joined s)"

section \<open>Invariants\<close>

text \<open>Every task is in one place.\<close>

definition placed :: "nat \<Rightarrow> probing \<Rightarrow> bool" where
  "placed n s \<longleftrightarrow>
     distinct (pg_waiting s @ map fst (pg_running s) @ map fst (pg_joined s))
   \<and> set (pg_waiting s) \<union> fst ` set (pg_running s) \<union> fst ` set (pg_joined s) = {0..<n}"

text \<open>The \<open>k\<close>-th task starts within \<open>k div 4\<close> budgets: \<open>due\<close> bounds the deadlines of the running
  tasks, the last started first, when \<open>started\<close> tasks have started.\<close>

fun due :: "nat \<Rightarrow> nat \<Rightarrow> (nat \<times> nat) list \<Rightarrow> bool" where
  "due budget started [] = True"
| "due budget started ((i, deadline) # rs) =
     (deadline \<le> ((started - 1) div 4 + 1) * budget \<and> due budget (started - 1) rs)"

definition started :: "probing \<Rightarrow> nat" where
  "started s = length (pg_running s) + length (pg_joined s)"

definition timely :: "nat \<Rightarrow> probing \<Rightarrow> bool" where
  "timely budget s \<longleftrightarrow>
     length (pg_running s) \<le> 4
   \<and> due budget (started s) (pg_running s)
   \<and> list_all (\<lambda>(i, deadline). pg_clock s \<le> deadline) (pg_running s)
   \<and> (pg_waiting s \<noteq> [] \<longrightarrow> pg_clock s \<le> started s div 4 * budget)
   \<and> pg_clock s \<le> (started s + 3) div 4 * budget"

lemma due_mono: "due budget k rs \<Longrightarrow> k \<le> k' \<Longrightarrow> due budget k' rs"
proof (induction budget k rs arbitrary: k' rule: due.induct)
  case (2 budget k i deadline rs)
  have "((k - 1) div 4 + 1) * budget \<le> ((k' - 1) div 4 + 1) * budget"
    using 2(3) by (intro mult_right_mono add_right_mono div_le_mono) auto
  with 2 show ?case by (auto intro: order_trans)
qed simp

lemma due_filter: "due budget k rs \<Longrightarrow> due budget k (filter P rs)"
  by (induction budget k rs rule: due.induct) (auto intro: due_mono)

lemma due_last:
  "due budget k rs \<Longrightarrow> rs \<noteq> [] \<Longrightarrow> snd (last rs) \<le> ((k - length rs) div 4 + 1) * budget"
proof (induction budget k rs rule: due.induct)
  case (2 budget k i deadline rs)
  then show ?case by (cases rs) auto
qed simp

lemma due_hd:
  "due budget k (r # rs) \<Longrightarrow> snd r \<le> ((k - 1) div 4 + 1) * budget"
  by (cases r) simp

lemma start_placed: "placed n (probing_start n)" "timely budget (probing_start n)"
  by (auto simp: placed_def timely_def probing_start_def started_def)

lemma map_of_leaves:
  assumes "map_of rs i = Some d" "distinct (map fst rs)"
  shows "i \<in> fst ` set rs" "length (filter (\<lambda>t. fst t \<noteq> i) rs) = length rs - 1" "rs \<noteq> []"
proof -
  show mem: "i \<in> fst ` set rs" using assms(1) by (metis map_of_eq_None_iff option.distinct(1))
  show "rs \<noteq> []" using assms(1) by auto
  have "length (filter (\<lambda>t. fst t \<noteq> i) rs) = length (filter (\<lambda>j. j \<noteq> i) (map fst rs))"
    by (simp add: filter_map comp_def)
  also have "\<dots> = length (remove1 i (map fst rs))" using assms(2) by (simp add: distinct_remove1_removeAll removeAll_filter_not_eq eq_commute)
  finally show "length (filter (\<lambda>t. fst t \<noteq> i) rs) = length rs - 1" using mem by (simp add: length_remove1)
qed

lemma leaves_placed:
  assumes "map_of (pg_running s) i = Some d" "placed n s"
  shows "placed n (leaves i r s)"
proof -
  have "distinct (map fst (pg_running s))" using assms(2) by (simp add: placed_def)
  note m = map_of_leaves [OF assms(1) this]
  then show ?thesis
    using assms(2) by (auto simp: placed_def leaves_def distinct_map_filter)
qed

lemma leaves_timely:
  assumes "map_of (pg_running s) i = Some d" "placed n s" "timely budget s"
  shows "timely budget (leaves i r s)"
proof -
  have "distinct (map fst (pg_running s))" using assms(2) by (simp add: placed_def)
  note m = map_of_leaves [OF assms(1) this]
  have "started (leaves i r s) = started s"
    using m(2,3) by (cases "pg_running s") (auto simp: started_def leaves_def)
  with assms(3) show ?thesis
    by (auto simp: timely_def leaves_def due_filter list_all_iff intro: order_trans [OF length_filter_le])
qed

lemma starts_placed:
  assumes "i \<in> set (pg_waiting s)" "placed n s"
  shows "placed n (s\<lparr> pg_waiting := remove1 i (pg_waiting s), pg_running := (i, d) # pg_running s \<rparr>)"
  using assms by (auto simp: placed_def)

lemma starts_timely:
  assumes "i \<in> set (pg_waiting s)" "length (pg_running s) < 4" "timely budget s"
  shows "timely budget (s\<lparr> pg_waiting := remove1 i (pg_waiting s),
    pg_running := (i, deadline_from clock_max (pg_clock s) budget) # pg_running s \<rparr>)"
proof -
  have clock: "pg_clock s \<le> started s div 4 * budget"
    using assms(1,3) by (auto simp: timely_def)
  also have "\<dots> \<le> Suc (started s) div 4 * budget" by (intro mult_right_mono div_le_mono) auto
  finally have later: "pg_clock s \<le> Suc (started s) div 4 * budget" .
  also have "\<dots> \<le> (Suc (started s) + 3) div 4 * budget" by (intro mult_right_mono div_le_mono) auto
  finally have "pg_clock s \<le> (Suc (started s) + 3) div 4 * budget" .
  moreover have "started (s\<lparr> pg_waiting := w, pg_running := x # pg_running s \<rparr>) = Suc (started s)" for w x
    by (simp add: started_def)
  ultimately show ?thesis
    using assms(2,3) clock later by (auto simp: timely_def deadline_from_def)
qed

lemma passes_timely:
  assumes "pg_running s \<noteq> []" "pg_waiting s = [] \<or> length (pg_running s) = 4"
    and "list_all (\<lambda>(i, deadline). pg_clock s + d \<le> deadline) (pg_running s)" "timely budget s"
  shows "timely budget (s\<lparr> pg_clock := pg_clock s + d \<rparr>)"
proof -
  obtain r rs where r: "pg_running s = r # rs" using assms(1) by (cases "pg_running s") auto
  have "started s > 0" using r by (simp add: started_def)
  then have "(started s - 1) div 4 + 1 = (started s + 3) div 4" by (cases "started s") auto
  then have last: "pg_clock s + d \<le> (started s + 3) div 4 * budget"
    using due_hd [of budget "started s" r rs] assms(3,4) by (auto simp: r timely_def)
  have "pg_clock s + d \<le> started s div 4 * budget" if "pg_waiting s \<noteq> []"
  proof -
    have four: "length (pg_running s) = 4" using that assms(2) by simp
    then have "started s \<ge> 4" by (simp add: started_def)
    then have "(started s - 4) div 4 + 1 = started s div 4"
      by (metis Suc_eq_plus1 diff_add_inverse div_add_self1 le_iff_add zero_neq_numeral)
    moreover have "snd (last (pg_running s)) \<le> ((started s - 4) div 4 + 1) * budget"
      using due_last [of budget "started s" "pg_running s"] assms(1,4) four by (auto simp: timely_def)
    moreover have "pg_clock s + d \<le> snd (last (pg_running s))"
      using assms(3) last_in_set [OF assms(1)] by (auto simp: list_all_iff)
    ultimately show ?thesis by simp
  qed
  with last assms(3,4) show ?thesis by (simp add: timely_def started_def)
qed

lemma probing_step_kept:
  assumes "probing_step clock_max budget e s = Some t" "placed n s" "timely budget s"
  shows "placed n t \<and> timely budget t"
proof (cases e)
  case (TaskStarts i)
  with assms starts_placed [of i s n] starts_timely [of i s budget clock_max] show ?thesis
    by (auto simp: MAX_PREFLIGHT_CONCURRENCY_def split: if_splits)
next
  case (TimePasses d)
  moreover have "placed n (s\<lparr> pg_clock := c \<rparr>) = placed n s" for c by (simp add: placed_def)
  ultimately show ?thesis
    using assms passes_timely [of s d budget] by (auto simp: MAX_PREFLIGHT_CONCURRENCY_def split: if_splits)
qed (use assms leaves_placed leaves_timely in \<open>auto split: option.splits if_splits\<close>)

lemma probing_run_kept:
  "probing_run clock_max budget es s = Some t \<Longrightarrow> placed n s \<Longrightarrow> timely budget s \<Longrightarrow>
     placed n t \<and> timely budget t"
proof (induction es arbitrary: s)
  case (Cons e es)
  then obtain u where u: "probing_step clock_max budget e s = Some u" "probing_run clock_max budget es u = Some t"
    by (auto simp: bind_eq_Some_conv)
  show ?case
    using Cons.IH [OF u(2)] probing_step_kept [OF u(1) Cons.prems(2,3)] by blast
qed simp

lemma placed_count: "placed n s \<Longrightarrow> length (pg_waiting s) + started s = n"
  using distinct_card [of "pg_waiting s @ map fst (pg_running s) @ map fst (pg_joined s)"]
  by (simp add: placed_def started_def Un_assoc)

section \<open>The preflight ends\<close>

lemma probing_step_work:
  assumes "probing_step clock_max budget e s = Some t" "placed n s"
  shows "Suc (2 * length (pg_waiting t) + length (pg_running t) + pg_clock s)
    \<le> 2 * length (pg_waiting s) + length (pg_running s) + pg_clock t"
proof (cases e)
  case (TaskStarts i)
  then have "length (remove1 i (pg_waiting s)) = length (pg_waiting s) - 1" "pg_waiting s \<noteq> []"
    using assms(1) by (auto simp: length_remove1 split: if_splits)
  with TaskStarts assms(1) show ?thesis
    by (cases "pg_waiting s") (auto split: if_splits)
next
  case (TaskEnds i w d)
  then obtain dl where m: "map_of (pg_running s) i = Some dl" and t: "t = leaves i (Some (w, d)) s"
    using assms(1) by (auto split: option.splits if_splits)
  have "distinct (map fst (pg_running s))" using assms(2) by (simp add: placed_def)
  note m' = map_of_leaves [OF m this]
  then show ?thesis using m'(3) by (cases "pg_running s") (auto simp: t leaves_def)
next
  case (TaskPanics i)
  then obtain dl where m: "map_of (pg_running s) i = Some dl" and t: "t = leaves i None s"
    using assms(1) by (auto split: option.splits)
  have "distinct (map fst (pg_running s))" using assms(2) by (simp add: placed_def)
  note m' = map_of_leaves [OF m this]
  then show ?thesis using m'(3) by (cases "pg_running s") (auto simp: t leaves_def)
qed (use assms in \<open>auto split: if_splits\<close>)

lemma probing_run_work:
  "probing_run clock_max budget es s = Some t \<Longrightarrow> placed n s \<Longrightarrow> timely budget s \<Longrightarrow>
     length es + 2 * length (pg_waiting t) + length (pg_running t) + pg_clock s
     \<le> 2 * length (pg_waiting s) + length (pg_running s) + pg_clock t"
proof (induction es arbitrary: s)
  case (Cons e es)
  then obtain u where u: "probing_step clock_max budget e s = Some u" "probing_run clock_max budget es u = Some t"
    by (auto simp: bind_eq_Some_conv)
  then show ?case
    using Cons.IH [OF u(2)] probing_step_kept [OF u(1) Cons.prems(2,3)]
      probing_step_work [OF u(1) Cons.prems(2)] by simp
qed simp

text \<open>An event that is possible before the end even when no probe ever answers.\<close>

definition silent_event :: "probing \<Rightarrow> probing_event" where
  "silent_event s =
     (if pg_waiting s \<noteq> [] \<and> length (pg_running s) < MAX_PREFLIGHT_CONCURRENCY then TaskStarts (hd (pg_waiting s))
      else case find (\<lambda>(i, deadline). deadline \<le> pg_clock s) (pg_running s) of
             Some (i, deadline) \<Rightarrow> TaskEnds i ProbeTimeout ProbeTimeout
           | None \<Rightarrow> TimePasses 1)"

lemma silent_progress:
  assumes "placed n s" "timely budget s" "\<not> all_joined s"
  shows "probing_step clock_max budget (silent_event s) s \<noteq> None"
proof (cases "pg_waiting s \<noteq> [] \<and> length (pg_running s) < MAX_PREFLIGHT_CONCURRENCY")
  case True
  then show ?thesis by (auto simp: silent_event_def)
next
  case False
  then have busy: "pg_waiting s = [] \<or> length (pg_running s) = MAX_PREFLIGHT_CONCURRENCY" "pg_running s \<noteq> []"
    using assms(2,3) by (auto simp: timely_def all_joined_def MAX_PREFLIGHT_CONCURRENCY_def)
  show ?thesis
  proof (cases "find (\<lambda>(i, deadline). deadline \<le> pg_clock s) (pg_running s)")
    case None
    then have "list_all (\<lambda>(i, deadline). pg_clock s + 1 \<le> deadline) (pg_running s)"
      by (fastforce simp: find_None_iff list_all_iff)
    with busy False None show ?thesis by (auto simp: silent_event_def)
  next
    case (Some t)
    obtain i deadline where t: "t = (i, deadline)" by (cases t)
    with Some have "(i, deadline) \<in> set (pg_running s)" "deadline \<le> pg_clock s"
      by (auto simp: find_Some_iff) (metis nth_mem)
    moreover from this have "map_of (pg_running s) i = Some deadline"
      using assms(1) by (simp add: placed_def)
    ultimately show ?thesis using False Some t by (auto simp: silent_event_def in_time_def)
  qed
qed

lemma joined_stuck: "all_joined s \<Longrightarrow> probing_step clock_max budget e s = None"
  by (cases e) (simp_all add: all_joined_def)

section \<open>What the preflight measured\<close>

fun capability_of :: "(nat probed \<times> ustr probed) option \<Rightarrow> model_capability option" where
  "capability_of None = None"
| "capability_of (Some (w, d)) =
     Some \<lparr> mc_window = measured w, mc_digest = measured d, mc_supports_completion = True \<rparr>"

text \<open>Per model the last task that ended without a panic.\<close>

lemma preflight_last_writer:
  "run_preflight_within tasks m =
     Option.bind (find (\<lambda>(k, r). k = m \<and> r \<noteq> None) (rev tasks)) (\<lambda>(k, r). capability_of r)"
proof (induction tasks rule: rev_induct)
  case (snoc t tasks)
  obtain k r where t: "t = (k, r)" by (cases t)
  have "run_preflight_within (tasks @ [t]) m =
      (if k = m \<and> r \<noteq> None then capability_of r else run_preflight_within tasks m)"
    by (cases r) (auto simp: run_preflight_within_def t)
  with snoc show ?case by (auto simp: t)
qed (simp add: run_preflight_within_def)

lemma find_of_map: "find P (map f xs) = map_option f (find (\<lambda>x. P (f x)) xs)"
  by (induction xs) auto

text \<open>C19: The preflight asks at most four probes at a time, whatever the probes do, and it is over
  after at most one budget for every four probes: a run of the tasks has a bounded number of
  steps, never moves the clock further, and nothing is left to happen exactly when every task has
  been joined, each once. It cannot be stuck before, not even when no probe ever answers. A model
  has then the capability of the last task for it that did not panic, with every half that was
  answered.\<close>

theorem preflight_in_time:
  assumes "probing_run clock_max budget es (probing_start (length models)) = Some s"
  shows "length (pg_running s) \<le> MAX_PREFLIGHT_CONCURRENCY
    \<and> pg_clock s \<le> (length models + 3) div 4 * budget
    \<and> length es \<le> 2 * length models + (length models + 3) div 4 * budget
    \<and> (all_joined s \<longleftrightarrow> (\<forall>e. probing_step clock_max budget e s = None))
    \<and> (\<not> all_joined s \<longrightarrow> probing_step clock_max budget (silent_event s) s \<noteq> None)
    \<and> (all_joined s \<longrightarrow> distinct (map fst (pg_joined s)) \<and> fst ` set (pg_joined s) = {0..<length models})
    \<and> run_preflight_within (probed_tasks models s) m =
        Option.bind (find (\<lambda>(i, r). models ! i = m \<and> r \<noteq> None) (rev (pg_joined s))) (\<lambda>(i, r). capability_of r)"
proof -
  let ?n = "length models"
  have kept: "placed ?n s" "timely budget s" using probing_run_kept [OF assms start_placed] by simp_all
  have "(started s + 3) div 4 * budget \<le> (?n + 3) div 4 * budget"
    using placed_count [OF kept(1)] by (intro mult_right_mono div_le_mono) auto
  moreover have "pg_clock s \<le> (started s + 3) div 4 * budget" using kept(2) by (simp add: timely_def)
  ultimately have clock: "pg_clock s \<le> (?n + 3) div 4 * budget" by (rule order_trans [rotated])
  moreover have "length es \<le> 2 * ?n + (?n + 3) div 4 * budget"
    using probing_run_work [OF assms start_placed] clock by (simp add: probing_start_def)
  moreover have "length (pg_running s) \<le> MAX_PREFLIGHT_CONCURRENCY"
    using kept(2) by (simp add: timely_def MAX_PREFLIGHT_CONCURRENCY_def)
  moreover note progress = silent_progress [OF kept, of clock_max]
  moreover have "all_joined s \<longleftrightarrow> (\<forall>e. probing_step clock_max budget e s = None)"
    using progress joined_stuck by (cases "all_joined s") auto
  moreover have "all_joined s \<Longrightarrow> distinct (map fst (pg_joined s)) \<and> fst ` set (pg_joined s) = {0..<?n}"
    using kept(1) by (simp add: placed_def all_joined_def)
  moreover have "run_preflight_within (probed_tasks models s) m =
      Option.bind (find (\<lambda>(i, r). models ! i = m \<and> r \<noteq> None) (rev (pg_joined s))) (\<lambda>(i, r). capability_of r)"
    by (simp add: preflight_last_writer probed_tasks_def rev_map find_of_map case_prod_beta
        bind_map_option comp_def case_prod_unfold)
  ultimately show ?thesis by blast
qed

definition five_events :: "probing_event list" where
  "five_events =
     [TaskStarts 0, TaskStarts 1, TaskStarts 2, TaskStarts 3, TimePasses 1,
      TaskEnds 2 (Probed (Some 8192)) (Probed None), TaskStarts 4, TimePasses 1,
      TaskEnds 0 (Probed (Some 4096)) ProbeTimeout, TaskEnds 1 ProbeTimeout ProbeTimeout, TaskPanics 3,
      TimePasses 1, TaskEnds 4 ProbeTimeout ProbeTimeout]"

definition five_models :: "model list" where
  "five_models = [asc ''a'', asc ''b'', asc ''c'', asc ''d'', asc ''e'']"

lemma five_run:
  "case probing_run 100 2 five_events (probing_start 5) of
     Some s \<Rightarrow> all_joined s \<and> pg_clock s = 3 \<and> find (\<lambda>(i, r). five_models ! i = asc ''a'' \<and> r \<noteq> None) (rev (pg_joined s))
       = Some (0, Some (Probed (Some 4096), ProbeTimeout))
   | None \<Rightarrow> False"
  by code_simp

text \<open>Five probes, two time units each: the half that was answered is kept.\<close>

theorem preflight_in_time_witness:
  "\<exists>s. probing_run 100 2 five_events (probing_start 5) = Some s \<and> all_joined s \<and> pg_clock s \<le> 4
     \<and> (\<forall>e. probing_step 100 2 e s = None)
     \<and> run_preflight_within (probed_tasks five_models s) (asc ''a'') =
         Some \<lparr> mc_window = Some 4096, mc_digest = None, mc_supports_completion = True \<rparr>"
proof -
  obtain s where s: "probing_run 100 2 five_events (probing_start 5) = Some s" "all_joined s"
    "find (\<lambda>(i, r). five_models ! i = asc ''a'' \<and> r \<noteq> None) (rev (pg_joined s))
       = Some (0, Some (Probed (Some 4096), ProbeTimeout))"
    using five_run by (auto split: option.splits)
  have "length five_models = 5" by (simp add: five_models_def)
  with s show ?thesis
    using preflight_in_time [of 100 2 five_events five_models s "asc ''a''"] by auto
qed

end
