(* ===== verification/Utf8.thy ===== *)
theory Utf8
  imports Text "HOL-Library.Word"
begin

text \<open>
  Bytes and their reading as UTF-8, the part of the standard library the response readers
  use (\<open>src/src/providers/provider_url.rs\<close>, \<open>src/src/providers/claude_cli.rs\<close>): the
  encoding of a string, \<open>String::from_utf8\<close>, which fails on the first fault, and
  \<open>String::from_utf8_lossy\<close>, which puts one replacement character for every maximal
  faulty piece. Both readings are one decoder that delivers scalars and faults.
\<close>

type_synonym byte = "8 word"

definition is_scalar :: "nat \<Rightarrow> bool" where
  "is_scalar c \<longleftrightarrow> c < 0xD800 \<or> (0xE000 \<le> c \<and> c \<le> 0x10FFFF)"

definition REPLACEMENT :: nat where "REPLACEMENT = 0xFFFD"

section \<open>Encoding\<close>

definition encode1 :: "nat \<Rightarrow> nat list" where
  "encode1 c =
     (if c < 0x80 then [c]
      else if c < 0x800 then [0xC0 + c div 64, 0x80 + c mod 64]
      else if c < 0x10000 then [0xE0 + c div 4096, 0x80 + c div 64 mod 64, 0x80 + c mod 64]
      else [0xF0 + c div 262144, 0x80 + c div 4096 mod 64, 0x80 + c div 64 mod 64, 0x80 + c mod 64])"

definition as_bytes :: "ustr \<Rightarrow> byte list" where
  "as_bytes s = map word_of_nat (concat (map encode1 s))"

section \<open>Decoding\<close>

definition continuation :: "nat \<Rightarrow> bool" where
  "continuation b \<longleftrightarrow> 0x80 \<le> b \<and> b \<le> 0xBF"

text \<open>The second byte of a longer sequence also rules out overlong forms, surrogates and values
  past the last scalar.\<close>

definition second_of_three :: "nat \<Rightarrow> nat \<Rightarrow> bool" where
  "second_of_three b c \<longleftrightarrow>
     (if b = 0xE0 then 0xA0 \<le> c \<and> c \<le> 0xBF
      else if b = 0xED then 0x80 \<le> c \<and> c \<le> 0x9F
      else continuation c)"

definition second_of_four :: "nat \<Rightarrow> nat \<Rightarrow> bool" where
  "second_of_four b c \<longleftrightarrow>
     (if b = 0xF0 then 0x90 \<le> c \<and> c \<le> 0xBF
      else if b = 0xF4 then 0x80 \<le> c \<and> c \<le> 0x8F
      else continuation c)"

fun utf8_tail :: "nat \<Rightarrow> nat \<Rightarrow> nat list \<Rightarrow> nat option \<times> nat list" where
  "utf8_tail 0 v r = (Some v, r)"
| "utf8_tail (Suc n) v [] = (None, [])"
| "utf8_tail (Suc n) v (c # r) =
     (if continuation c then utf8_tail n (v * 64 + (c - 0x80)) r else (None, c # r))"

definition utf8_second ::
  "(nat \<Rightarrow> bool) \<Rightarrow> nat \<Rightarrow> nat \<Rightarrow> nat list \<Rightarrow> nat option \<times> nat list" where
  "utf8_second ok n v r =
     (case r of [] \<Rightarrow> (None, [])
      | c # r' \<Rightarrow> if ok c then utf8_tail n (v * 64 + (c - 0x80)) r' else (None, r))"

text \<open>One scalar, or one faulty piece, and what is left.\<close>

definition utf8_next :: "nat \<Rightarrow> nat list \<Rightarrow> nat option \<times> nat list" where
  "utf8_next b r =
     (if b < 0x80 then (Some b, r)
      else if 0xC2 \<le> b \<and> b \<le> 0xDF then utf8_tail 1 (b - 0xC0) r
      else if 0xE0 \<le> b \<and> b \<le> 0xEF then utf8_second (second_of_three b) 1 (b - 0xE0) r
      else if 0xF0 \<le> b \<and> b \<le> 0xF4 then utf8_second (second_of_four b) 2 (b - 0xF0) r
      else (None, r))"

lemma utf8_tail_length: "length (snd (utf8_tail n v r)) \<le> length r"
  by (induction n v r rule: utf8_tail.induct) (auto intro: le_SucI)

lemma utf8_next_length: "length (snd (utf8_next b r)) \<le> length r"
  using utf8_tail_length by (auto simp: utf8_next_def utf8_second_def le_SucI split: list.split)

function utf8_pieces :: "nat list \<Rightarrow> nat option list" where
  "utf8_pieces [] = []"
| "utf8_pieces (b # r) = fst (utf8_next b r) # utf8_pieces (snd (utf8_next b r))"
  by pat_completeness auto
termination
  by (relation "measure length") (simp_all add: utf8_next_length less_Suc_eq_le)

definition from_utf8 :: "byte list \<Rightarrow> ustr option" where
  "from_utf8 bs =
     (let ps = utf8_pieces (map unat bs)
      in if list_all (\<lambda>p. p \<noteq> None) ps then Some (map the ps) else None)"

definition from_utf8_lossy :: "byte list \<Rightarrow> ustr" where
  "from_utf8_lossy bs =
     map (\<lambda>p. case p of Some c \<Rightarrow> c | None \<Rightarrow> REPLACEMENT) (utf8_pieces (map unat bs))"

section \<open>The decoder inverts the encoding\<close>

lemma length_encode1: "length (encode1 c) = utf8_len1 c"
  by (simp add: encode1_def utf8_len1_def)

lemma length_as_bytes [simp]: "length (as_bytes s) = utf8_len s"
  by (induction s) (simp_all add: as_bytes_def length_encode1)

lemma as_bytes_append [simp]: "as_bytes (s @ t) = as_bytes s @ as_bytes t"
  by (simp add: as_bytes_def)

lemma encode1_byte: "is_scalar c \<Longrightarrow> b \<in> set (encode1 c) \<Longrightarrow> b < 256"
  by (auto simp: encode1_def is_scalar_def split: if_splits)

lemma split64: "\<exists>q r. (c::nat) = q * 64 + r \<and> r < 64"
  by (rule exI [of _ "c div 64"], rule exI [of _ "c mod 64"]) simp

lemma digits64:
  assumes "(x::nat) < 64"
  shows "(q * 64 + x) div 64 = q" "(q * 64 + x) mod 64 = x"
    "(q * 64 + x) div 4096 = q div 64" "(q * 64 + x) div 262144 = q div 4096"
proof -
  show q: "(q * 64 + x) div 64 = q" using assms by simp
  show "(q * 64 + x) mod 64 = x" using assms by (metis mod_less mod_mult_self3)
  have "(q * 64 + x) div (64 * 64) = q div 64" "(q * 64 + x) div (64 * 4096) = q div 4096"
    unfolding div_mult2_eq q by simp_all
  then show "(q * 64 + x) div 4096 = q div 64" "(q * 64 + x) div 262144 = q div 4096" by simp_all
qed

lemma encode1_two: "2 \<le> v \<Longrightarrow> v < 32 \<Longrightarrow> x < 64 \<Longrightarrow> encode1 (v * 64 + x) = [0xC0 + v, 0x80 + x]"
  by (simp add: encode1_def)

lemma encode1_three:
  assumes "v < 16" "x < 64" "y < 64" "v = 0 \<longrightarrow> 32 \<le> x"
  shows "encode1 ((v * 64 + x) * 64 + y) = [0xE0 + v, 0x80 + x, 0x80 + y]"
proof -
  have "\<not> (v * 64 + x) * 64 + y < 0x800" "(v * 64 + x) * 64 + y < 0x10000"
    using assms by auto
  then show ?thesis
    using assms by (simp add: encode1_def digits64 del: distrib_right_numeral)
qed

lemma encode1_four:
  assumes "v < 8" "x < 64" "y < 64" "z < 64" "v = 0 \<longrightarrow> 16 \<le> x"
  shows "encode1 (((v * 64 + x) * 64 + y) * 64 + z) = [0xF0 + v, 0x80 + x, 0x80 + y, 0x80 + z]"
proof -
  have "\<not> ((v * 64 + x) * 64 + y) * 64 + z < 0x10000" using assms by auto
  then show ?thesis
    using assms by (simp add: encode1_def digits64 del: distrib_right_numeral)
qed

lemma utf8_next_encode1:
  assumes "is_scalar c"
  shows "\<exists>b t. encode1 c = b # t \<and> utf8_next b (t @ r) = (Some c, r)"
proof -
  obtain q0 x0 where c0: "c = q0 * 64 + x0" "x0 < 64" using split64 by blast
  obtain q1 x1 where c1: "q0 = q1 * 64 + x1" "x1 < 64" using split64 by blast
  obtain q2 x2 where c2: "q1 = q2 * 64 + x2" "x2 < 64" using split64 by blast
  note defs = utf8_next_def utf8_second_def second_of_three_def second_of_four_def continuation_def
  consider "c < 0x80" | "0x80 \<le> c" "c < 0x800" | "0x800 \<le> c" "c < 0x10000" | "0x10000 \<le> c" by linarith
  then show ?thesis
  proof cases
    case 1
    then show ?thesis by (simp add: encode1_def utf8_next_def)
  next
    case 2
    then have "2 \<le> q0" "q0 < 32" using c0 by auto
    then show ?thesis unfolding c0(1) using c0(2) by (simp add: encode1_two defs)
  next
    case 3
    then have "q1 < 16" "q1 = 0 \<longrightarrow> 32 \<le> x1" using c0 c1 by auto
    moreover have "q1 = 13 \<longrightarrow> x1 < 32" using assms c0 c1 by (auto simp: is_scalar_def)
    ultimately show ?thesis unfolding c0(1) c1(1) encode1_three [OF \<open>q1 < 16\<close> c1(2) c0(2) \<open>q1 = 0 \<longrightarrow> 32 \<le> x1\<close>]
      using c0(2) c1(2) by (auto simp: defs)
  next
    case 4
    then have "q2 < 8" "q2 = 0 \<longrightarrow> 16 \<le> x2" "q2 = 4 \<longrightarrow> x2 < 16" "q2 \<le> 4"
      using assms c0 c1 c2 by (auto simp: is_scalar_def)
    then show ?thesis
      unfolding c0(1) c1(1) c2(1) encode1_four [OF \<open>q2 < 8\<close> c2(2) c1(2) c0(2) \<open>q2 = 0 \<longrightarrow> 16 \<le> x2\<close>]
      using c0(2) c1(2) c2(2) by (auto simp: defs numeral_2_eq_2)
  qed
qed

lemma utf8_pieces_encode:
  "list_all is_scalar s \<Longrightarrow> utf8_pieces (concat (map encode1 s)) = map Some s"
proof (induction s)
  case (Cons c s)
  obtain b t where "encode1 c = b # t"
    "utf8_next b (t @ concat (map encode1 s)) = (Some c, concat (map encode1 s))"
    using utf8_next_encode1 [of c "concat (map encode1 s)"] Cons.prems by (auto simp: list_all_iff)
  with Cons show ?case by simp
qed simp

lemma unat_as_bytes: "list_all is_scalar s \<Longrightarrow> map unat (as_bytes s) = concat (map encode1 s)"
  by (induction s) (auto simp: as_bytes_def unat_of_nat intro!: map_idI mod_less
      dest: encode1_byte)

lemma from_utf8_as_bytes: "list_all is_scalar s \<Longrightarrow> from_utf8 (as_bytes s) = Some s"
  by (simp add: from_utf8_def unat_as_bytes utf8_pieces_encode list_all_iff o_def)

lemma from_utf8_lossy_as_bytes: "list_all is_scalar s \<Longrightarrow> from_utf8_lossy (as_bytes s) = s"
  by (simp add: from_utf8_lossy_def unat_as_bytes utf8_pieces_encode o_def)

section \<open>What decodes is the encoding of what it decodes to\<close>

lemma continuation_split: "continuation d \<Longrightarrow> d = 0x80 + (d - 0x80) \<and> d - 0x80 < 64"
  by (auto simp: continuation_def)

lemma utf8_tail_Some:
  "utf8_tail (Suc n) v r = (Some c, r') \<Longrightarrow>
     \<exists>x t. r = (0x80 + x) # t \<and> x < 64 \<and> utf8_tail n (v * 64 + x) t = (Some c, r')"
  by (cases r) (auto split: if_splits dest!: continuation_split)

lemma utf8_second_Some:
  assumes "utf8_second ok n v r = (Some c, r')" "\<And>d. ok d \<Longrightarrow> continuation d"
  shows "\<exists>x t. r = (0x80 + x) # t \<and> x < 64 \<and> ok (0x80 + x) \<and> utf8_tail n (v * 64 + x) t = (Some c, r')"
proof -
  obtain d t where r: "r = d # t" "ok d" "utf8_tail n (v * 64 + (d - 0x80)) t = (Some c, r')"
    using assms(1) by (auto simp: utf8_second_def split: list.splits if_splits)
  have "d = 0x80 + (d - 0x80)" "d - 0x80 < 64" using continuation_split assms(2) r(2) by auto
  with r show ?thesis by metis
qed

lemma second_continuation:
  "second_of_three b d \<Longrightarrow> continuation d" "second_of_four b d \<Longrightarrow> continuation d"
  by (auto simp: second_of_three_def second_of_four_def continuation_def split: if_splits)

lemma utf8_next_Some:
  assumes "utf8_next b r = (Some c, r')"
  shows "is_scalar c \<and> b # r = encode1 c @ r'"
proof -
  consider "b < 0x80" | "0xC2 \<le> b" "b \<le> 0xDF" | "0xE0 \<le> b" "b \<le> 0xEF" | "0xF0 \<le> b" "b \<le> 0xF4"
    using assms by (auto simp: utf8_next_def split: if_splits)
  then show ?thesis
  proof cases
    case 1
    then show ?thesis using assms by (auto simp: utf8_next_def is_scalar_def encode1_def)
  next
    case 2
    define v where "v = b - 0xC0"
    with 2 have v: "b = 0xC0 + v" "2 \<le> v" "v < 32" by auto
    have "utf8_tail (Suc 0) v r = (Some c, r')"
      using 2 assms v by (simp add: utf8_next_def)
    from utf8_tail_Some [OF this] obtain x where "r = (0x80 + x) # r'" "x < 64" "c = v * 64 + x"
      by auto
    then show ?thesis using v by (simp add: encode1_two is_scalar_def)
  next
    case 3
    define v where "v = b - 0xE0"
    with 3 have v: "b = 0xE0 + v" "v < 16" by auto
    have "utf8_second (second_of_three b) (Suc 0) v r = (Some c, r')"
      using 3 assms v by (simp add: utf8_next_def)
    from utf8_second_Some [OF this] second_continuation(1) obtain x t where 1:
      "r = (0x80 + x) # t" "x < 64" "second_of_three b (0x80 + x)"
      "utf8_tail (Suc 0) (v * 64 + x) t = (Some c, r')" by blast
    from utf8_tail_Some [OF 1(4)] obtain y where 2: "t = (0x80 + y) # r'" "y < 64"
      "c = (v * 64 + x) * 64 + y" by auto
    have "v = 0 \<longrightarrow> 32 \<le> x" "v = 13 \<longrightarrow> x < 32"
      using 1(3) v by (auto simp: second_of_three_def)
    then have "is_scalar c" unfolding 2(3) is_scalar_def
      using v(2) 1(2) 2(2) by (cases "v < 13"; cases "v = 13") auto
    then show ?thesis
      using encode1_three [OF v(2) 1(2) 2(2) \<open>v = 0 \<longrightarrow> 32 \<le> x\<close>] 1(1) 2(1,3) v(1) by simp
  next
    case 4
    define v where "v = b - 0xF0"
    with 4 have v: "b = 0xF0 + v" "v \<le> 4" "v < 8" by auto
    have "utf8_second (second_of_four b) (Suc (Suc 0)) v r = (Some c, r')"
      using 4 assms v by (simp add: utf8_next_def numeral_2_eq_2)
    from utf8_second_Some [OF this] second_continuation(2) obtain x t where 1:
      "r = (0x80 + x) # t" "x < 64" "second_of_four b (0x80 + x)"
      "utf8_tail (Suc (Suc 0)) (v * 64 + x) t = (Some c, r')" by blast
    from utf8_tail_Some [OF 1(4)] obtain y u where 2: "t = (0x80 + y) # u" "y < 64"
      "utf8_tail (Suc 0) ((v * 64 + x) * 64 + y) u = (Some c, r')" by blast
    from utf8_tail_Some [OF 2(3)] obtain z where 3: "u = (0x80 + z) # r'" "z < 64"
      "c = ((v * 64 + x) * 64 + y) * 64 + z" by auto
    have "v = 0 \<longrightarrow> 16 \<le> x" "v = 4 \<longrightarrow> x < 16"
      using 1(3) v by (auto simp: second_of_four_def)
    then have "is_scalar c" using v 1(2) 2(2) 3(2,3) by (auto simp: is_scalar_def)
    then show ?thesis
      using encode1_four [OF v(3) 1(2) 2(2) 3(2) \<open>v = 0 \<longrightarrow> 16 \<le> x\<close>] 1(1) 2(1) 3(1,3) v(1) by simp
  qed
qed

lemma utf8_pieces_Some:
  "list_all (\<lambda>p. p \<noteq> None) (utf8_pieces bs) \<Longrightarrow>
     list_all is_scalar (map the (utf8_pieces bs)) \<and> concat (map encode1 (map the (utf8_pieces bs))) = bs"
proof (induction bs rule: utf8_pieces.induct)
  case (2 b r)
  obtain r' c where c: "utf8_next b r = (Some c, r')"
    using 2(2) by (cases "utf8_next b r") auto
  have n: "is_scalar c" "encode1 c @ r' = b # r" using utf8_next_Some [OF c] by auto
  have "list_all is_scalar (map the (utf8_pieces r'))"
    "concat (map encode1 (map the (utf8_pieces r'))) = r'" using 2 c by auto
  with n c show ?case by simp
qed simp

text \<open>A body is accepted exactly when it is the encoding of a string, and that string is read.\<close>

lemma from_utf8_iff: "from_utf8 bs = Some s \<longleftrightarrow> list_all is_scalar s \<and> as_bytes s = bs"
proof
  assume h: "from_utf8 bs = Some s"
  then have "list_all (\<lambda>p. p \<noteq> None) (utf8_pieces (map unat bs))"
    "s = map the (utf8_pieces (map unat bs))"
    by (auto simp: from_utf8_def Let_def split: if_splits)
  from utf8_pieces_Some [OF this(1)] this(2)
  have "list_all is_scalar s" "concat (map encode1 s) = map unat bs" by auto
  then show "list_all is_scalar s \<and> as_bytes s = bs" by (simp add: as_bytes_def o_def)
qed (auto simp: from_utf8_as_bytes)

lemma from_utf8_length: "from_utf8 bs = Some s \<Longrightarrow> utf8_len s = length bs"
  by (auto simp: from_utf8_iff)

lemma from_utf8_lossy_valid: "from_utf8 bs = Some s \<Longrightarrow> from_utf8_lossy bs = s"
  by (auto simp: from_utf8_iff from_utf8_lossy_as_bytes)

lemma utf8_pieces_scalars: "Some c \<in> set (utf8_pieces bs) \<Longrightarrow> is_scalar c"
proof (induction bs rule: utf8_pieces.induct)
  case (2 b r)
  then show ?case using utf8_next_Some [of b r c] by (cases "utf8_next b r") auto
qed simp

lemma from_utf8_lossy_scalars: "list_all is_scalar (from_utf8_lossy bs)"
  using utf8_pieces_scalars
  by (force simp: from_utf8_lossy_def list_all_iff is_scalar_def REPLACEMENT_def split: option.splits)

end
