(* ===== verification/Provider_Url.thy ===== *)
theory Provider_Url
  imports Utf8 Retry User_Prompt
begin

text \<open>
  Authority over a provider's URL and its exchanges (\<open>src/src/providers/provider_url.rs\<close>):
  the URL that is only ever shown redacted, the endpoints derived from it, the request and
  response wrappers, and the three body readers with their caps.

  The \<open>url\<close> and \<open>reqwest\<close> crates are parameters. \<open>url_lib\<close> bundles what the
  code calls of the first: parsing, rendering, the decoding and encoding of query pairs and
  the three edits of a path. A client answers a request with a response or a transport error;
  the body of a response is the sequence of chunks its reader is given.
\<close>

section \<open>URLs\<close>

text \<open>A parsed URL by its components; the host holds the port. A path without segments is
  \<open>None\<close>, where the code's \<open>path_segments_mut\<close> fails.\<close>

record url =
  ur_scheme :: ustr
  ur_username :: ustr
  ur_password :: "ustr option"
  ur_host :: ustr
  ur_path :: "ustr list option"
  ur_query :: "ustr option"
  ur_fragment :: "ustr option"

record url_lib =
  parse_url :: "ustr \<Rightarrow> (url, ustr) result"
  url_text :: "url \<Rightarrow> ustr"
  userinfo_encode :: "ustr \<Rightarrow> ustr"
  query_pairs :: "ustr \<Rightarrow> (ustr \<times> ustr) list"
  form_encode :: "(ustr \<times> ustr) list \<Rightarrow> ustr"
  pop_if_empty :: "ustr list \<Rightarrow> ustr list"
  pop_segment :: "ustr list \<Rightarrow> ustr list"
  push_segment :: "ustr list \<Rightarrow> ustr \<Rightarrow> ustr list"

definition REDACTED_PLACEHOLDER :: ustr where "REDACTED_PLACEHOLDER = asc ''REDACTED''"

definition strip_trailing_slash :: "url_lib \<Rightarrow> url \<Rightarrow> url" where
  "strip_trailing_slash L u = u\<lparr> ur_path := map_option (pop_if_empty L) (ur_path u) \<rparr>"

definition provider_url_parse :: "url_lib \<Rightarrow> ustr \<Rightarrow> (url, provider_error) result" where
  "provider_url_parse L raw =
     (case parse_url L raw of
        Err e \<Rightarrow> Err (Network (asc ''invalid base_url: '' @ e))
      | Ok parsed \<Rightarrow>
          if ur_scheme parsed \<notin> {asc ''http'', asc ''https''} then
            Err (Network (asc ''invalid base_url scheme: '' @ ur_scheme parsed
              @ asc '' (expected http/https)''))
          else Ok (strip_trailing_slash L parsed))"

definition redacted :: "url_lib \<Rightarrow> url \<Rightarrow> ustr" where
  "redacted L u =
     (let u1 = (if ur_username u \<noteq> []
                then u\<lparr> ur_username := userinfo_encode L REDACTED_PLACEHOLDER \<rparr> else u);
          u2 = (if ur_password u1 \<noteq> None
                then u1\<lparr> ur_password := Some (userinfo_encode L REDACTED_PLACEHOLDER) \<rparr> else u1);
          u3 = (case ur_query u2 of
                  None \<Rightarrow> u2
                | Some q \<Rightarrow>
                    let names = map fst (query_pairs L q)
                    in u2\<lparr> ur_query := Some (form_encode L (map (\<lambda>n. (n, REDACTED_PLACEHOLDER)) names)) \<rparr>)
      in url_text L u3)"

text \<open>Both renderings of the type are the redacted one.\<close>

definition show_provider_url :: "url_lib \<Rightarrow> url \<Rightarrow> ustr" where
  "show_provider_url L u = redacted L u"

definition dbg_provider_url :: "rust_fmt \<Rightarrow> url_lib \<Rightarrow> url \<Rightarrow> ustr" where
  "dbg_provider_url F L u = asc ''ProviderUrl { url: '' @ dbg_str F (redacted L u) @ asc '' }''"

definition join_path :: "url_lib \<Rightarrow> url \<Rightarrow> ustr list \<Rightarrow> url" where
  "join_path L u segs =
     u\<lparr> ur_path := map_option (\<lambda>p. fold (\<lambda>s p. push_segment L p s) segs (pop_if_empty L p)) (ur_path u) \<rparr>"

definition ends_with_segment :: "url \<Rightarrow> ustr \<Rightarrow> bool" where
  "ends_with_segment u seg =
     (case ur_path u of
        None \<Rightarrow> False
      | Some segments \<Rightarrow> find (\<lambda>s. s \<noteq> []) (rev segments) = Some seg)"

definition url_parent :: "url_lib \<Rightarrow> url \<Rightarrow> url" where
  "url_parent L u = u\<lparr> ur_path := map_option (\<lambda>p. pop_segment L (pop_if_empty L p)) (ur_path u) \<rparr>"

section \<open>Caps\<close>

definition MAX_RESPONSE_BODY_BYTES :: nat where "MAX_RESPONSE_BODY_BYTES = 2 ^ 20"
definition BYTES_PER_TOKEN_CEILING :: nat where "BYTES_PER_TOKEN_CEILING = 16"
definition MAX_CAPPABLE_TOKENS :: nat where "MAX_CAPPABLE_TOKENS = 1048576"

text \<open>From \<open>src/src/error.rs\<close>: how much of an error body is kept.\<close>

definition MAX_ERROR_BODY_PREFIX_BYTES :: nat where "MAX_ERROR_BODY_PREFIX_BYTES = 8 * 1024"

text \<open>The accumulator after the call, and whether the chunk was taken.\<close>

definition push_within_cap :: "byte list \<Rightarrow> byte list \<Rightarrow> nat \<Rightarrow> byte list \<times> bool" where
  "push_within_cap acc chunk cap =
     (if length acc + length chunk \<le> USIZE_MAX \<and> length acc + length chunk \<le> cap
      then (acc @ chunk, True) else (acc, False))"

definition body_cap :: "nat \<Rightarrow> nat" where
  "body_cap max_tokens =
     max MAX_RESPONSE_BODY_BYTES (min max_tokens MAX_CAPPABLE_TOKENS * BYTES_PER_TOKEN_CEILING)"

definition mark_truncated :: "ustr \<Rightarrow> ustr" where
  "mark_truncated s = mark_within_cap s MAX_ERROR_BODY_PREFIX_BYTES"

definition truncate_diagnostic :: "ustr \<Rightarrow> ustr" where
  "truncate_diagnostic raw =
     (if utf8_len raw \<le> MAX_ERROR_BODY_PREFIX_BYTES then raw
      else mark_within_cap raw MAX_ERROR_BODY_PREFIX_BYTES)"

section \<open>Requests and responses\<close>

datatype http_method = GET | POST

text \<open>The body is the value that is serialised; a header is a name and a value, in the order
  they are attached.\<close>

record 'b http_request =
  rq_method :: http_method
  rq_url :: url
  rq_headers :: "(ustr \<times> ustr) list"
  rq_body :: "'b option"

record http_response =
  hr_status :: nat
  hr_retry_after :: "ustr option list"
  hr_content_length :: "nat option"
  hr_chunks :: "(byte list, transport_error) result list"

type_synonym 'b http_client = "'b http_request \<Rightarrow> (http_response, transport_error) result"

record 'b provider_request =
  prq_inner :: "'b http_request"
  prq_redacted_url :: ustr

record provider_response =
  prs_inner :: http_response
  prs_redacted_url :: ustr

definition url_request ::
  "url_lib \<Rightarrow> url \<Rightarrow> http_method \<Rightarrow> ustr list \<Rightarrow> 'b provider_request" where
  "url_request L u m segs =
     \<lparr> prq_inner = \<lparr> rq_method = m, rq_url = join_path L u segs, rq_headers = [], rq_body = None \<rparr>,
       prq_redacted_url = redacted L u \<rparr>"

definition request_json :: "'b \<Rightarrow> 'b provider_request \<Rightarrow> 'b provider_request" where
  "request_json body r = r\<lparr> prq_inner := (prq_inner r)\<lparr> rq_body := Some body \<rparr> \<rparr>"

definition request_header :: "ustr \<Rightarrow> ustr \<Rightarrow> 'b provider_request \<Rightarrow> 'b provider_request" where
  "request_header name v r =
     r\<lparr> prq_inner := (prq_inner r)\<lparr> rq_headers := rq_headers (prq_inner r) @ [(name, v)] \<rparr> \<rparr>"

definition send :: "'b http_client \<Rightarrow> 'b provider_request \<Rightarrow> (provider_response, provider_error) result" where
  "send client r =
     (case client (prq_inner r) of
        Ok inner \<Rightarrow> Ok \<lparr> prs_inner = inner, prs_redacted_url = prq_redacted_url r \<rparr>
      | Err e \<Rightarrow> Err (to_provider_error (asc ''request failed'') (prq_redacted_url r) e))"

definition prs_status :: "provider_response \<Rightarrow> nat" where
  "prs_status r = hr_status (prs_inner r)"

text \<open>The values of the header that are text, in order of arrival.\<close>

definition retry_after_raw :: "provider_response \<Rightarrow> ustr list" where
  "retry_after_raw r = List.map_filter (\<lambda>v. v) (hr_retry_after (prs_inner r))"

section \<open>Reading a body\<close>

fun verdict_loop ::
  "ustr \<Rightarrow> nat \<Rightarrow> byte list \<Rightarrow> (byte list, transport_error) result list \<Rightarrow> (byte list, provider_error) result" where
  "verdict_loop url cap acc [] = Ok acc"
| "verdict_loop url cap acc (Ok chunk # cs) =
     (let (acc', taken) = push_within_cap acc chunk cap
      in if taken then verdict_loop url cap acc' cs else Err (ResponseTooLarge cap))"
| "verdict_loop url cap acc (Err e # cs) =
     Err (to_provider_error (asc ''failed to read response body'') url e)"

definition read_verdict_body :: "provider_response \<Rightarrow> nat \<Rightarrow> (ustr, provider_error) result" where
  "read_verdict_body r max_tokens =
     and_then (verdict_loop (prs_redacted_url r) (body_cap max_tokens) [] (hr_chunks (prs_inner r)))
       (\<lambda>acc. case from_utf8 acc of
                Some s \<Rightarrow> Ok s
              | None \<Rightarrow> Err (ResponseContract Unreadable []))"

fun probe_loop :: "nat \<Rightarrow> byte list \<Rightarrow> (byte list, transport_error) result list \<Rightarrow> byte list option" where
  "probe_loop cap acc [] = Some acc"
| "probe_loop cap acc (Ok chunk # cs) =
     (let (acc', taken) = push_within_cap acc chunk cap
      in if taken then probe_loop cap acc' cs else None)"
| "probe_loop cap acc (Err e # cs) = None"

definition read_probe_body :: "provider_response \<Rightarrow> nat \<Rightarrow> byte list option" where
  "read_probe_body r cap =
     (case hr_content_length (prs_inner r) of
        Some len \<Rightarrow> if len > cap then None else probe_loop cap [] (hr_chunks (prs_inner r))
      | None \<Rightarrow> probe_loop cap [] (hr_chunks (prs_inner r)))"

text \<open>What was kept, and whether something was left out.\<close>

fun diagnostic_loop :: "byte list \<Rightarrow> (byte list, transport_error) result list \<Rightarrow> byte list \<times> bool" where
  "diagnostic_loop acc [] = (acc, False)"
| "diagnostic_loop acc (Ok chunk # cs) =
     (let (acc', taken) = push_within_cap acc chunk MAX_ERROR_BODY_PREFIX_BYTES
      in if taken then diagnostic_loop acc' cs else (acc', True))"
| "diagnostic_loop acc (Err e # cs) = (acc, True)"

definition read_diagnostic_body :: "provider_response \<Rightarrow> ustr" where
  "read_diagnostic_body r =
     (let (acc, partial) = diagnostic_loop [] (hr_chunks (prs_inner r));
          t = truncate_diagnostic (from_utf8_lossy acc)
      in if partial \<and> \<not> ends_with t TRUNCATION_MARKER then mark_truncated t else t)"

section \<open>Bounds of the readers\<close>

lemma body_cap_bounds: "2 ^ 20 \<le> body_cap n" "body_cap n \<le> 2 ^ 24"
  by (auto simp: body_cap_def MAX_RESPONSE_BODY_BYTES_def MAX_CAPPABLE_TOKENS_def
      BYTES_PER_TOKEN_CEILING_def)

lemma push_within_cap_simp:
  "cap \<le> USIZE_MAX \<Longrightarrow> push_within_cap acc chunk cap =
     (if length acc + length chunk \<le> cap then (acc @ chunk, True) else (acc, False))"
  by (auto simp: push_within_cap_def)

lemma push_within_cap_bounded: "length acc \<le> cap \<Longrightarrow> length (fst (push_within_cap acc chunk cap)) \<le> cap"
  by (simp add: push_within_cap_def)

lemma caps_usize: "body_cap n \<le> USIZE_MAX" "MAX_ERROR_BODY_PREFIX_BYTES \<le> USIZE_MAX"
  using body_cap_bounds(2) [of n]
  by (simp_all add: USIZE_MAX_def U64_MAX_def MAX_ERROR_BODY_PREFIX_BYTES_def)

lemma verdict_loop_Ok:
  assumes "cap \<le> USIZE_MAX" "length acc \<le> cap"
  shows "verdict_loop url cap acc cs = Ok r \<longleftrightarrow>
     (\<exists>bss. cs = map Ok bss \<and> r = acc @ concat bss \<and> length r \<le> cap)"
  using assms
proof (induction url cap acc cs rule: verdict_loop.induct)
  case (2 url cap acc chunk cs)
  show ?case
  proof (cases "length acc + length chunk \<le> cap")
    case True
    then have "verdict_loop url cap acc (Ok chunk # cs) = Ok r \<longleftrightarrow>
        (\<exists>bss. cs = map Ok bss \<and> r = (acc @ chunk) @ concat bss \<and> length r \<le> cap)"
      using 2 by (simp add: push_within_cap_simp)
    also have "\<dots> \<longleftrightarrow> (\<exists>bss. Ok chunk # cs = map Ok bss \<and> r = acc @ concat bss \<and> length r \<le> cap)"
      by (auto simp: Cons_eq_map_conv)
    finally show ?thesis .
  next
    case False
    with 2(2) show ?thesis by (auto simp: push_within_cap_simp Cons_eq_map_conv)
  qed
qed (auto simp: Cons_eq_map_conv)

lemma ex_split_Ok:
  "(\<exists>bss d rest. Ok chunk # cs = map Ok bss @ Ok d # rest \<and> P bss d) \<longleftrightarrow>
     P [] chunk \<or> (\<exists>bss d rest. cs = map Ok bss @ Ok d # rest \<and> P (chunk # bss) d)"
  (is "?l \<longleftrightarrow> ?r")
proof
  assume ?l
  then obtain bss d rest where "Ok chunk # cs = map Ok bss @ Ok d # rest" "P bss d" by blast
  then show ?r by (cases bss) auto
next
  assume ?r
  then consider "P [] chunk" | bss d rest where "cs = map Ok bss @ Ok d # rest" "P (chunk # bss) d" by blast
  then show ?l
  proof cases
    case 1
    then have "Ok chunk # cs = map Ok [] @ Ok chunk # cs \<and> P [] chunk" by simp
    then show ?thesis by blast
  next
    case 2
    then have "Ok chunk # cs = map Ok (chunk # bss) @ Ok d # rest \<and> P (chunk # bss) d" by simp
    then show ?thesis by blast
  qed
qed

lemma verdict_loop_too_large:
  assumes "cap \<le> USIZE_MAX" "length acc \<le> cap"
  shows "verdict_loop url cap acc cs = Err (ResponseTooLarge n) \<longleftrightarrow> n = cap \<and>
     (\<exists>bss chunk rest. cs = map Ok bss @ Ok chunk # rest \<and> length acc + length (concat bss) \<le> cap
        \<and> cap < length acc + length (concat bss) + length chunk)"
  using assms
proof (induction url cap acc cs rule: verdict_loop.induct)
  case (2 url cap acc chunk cs)
  show ?case
  proof (cases "length acc + length chunk \<le> cap")
    case True
    then have "verdict_loop url cap acc (Ok chunk # cs) = Err (ResponseTooLarge n) \<longleftrightarrow> n = cap \<and>
       (\<exists>bss d rest. cs = map Ok bss @ Ok d # rest \<and> length (acc @ chunk) + length (concat bss) \<le> cap
          \<and> cap < length (acc @ chunk) + length (concat bss) + length d)"
      using 2 by (simp add: push_within_cap_simp)
    then show ?thesis unfolding ex_split_Ok using True by (simp add: add.assoc)
  next
    case False
    then have "verdict_loop url cap acc (Ok chunk # cs) = Err (ResponseTooLarge cap)"
      using 2(2) by (simp add: push_within_cap_simp)
    with False 2(3) show ?thesis unfolding ex_split_Ok by auto
  qed
next
  case (3 url cap acc e cs)
  then show ?case by (auto simp: to_provider_error_def response_contract_def Let_def Cons_eq_append_conv)
qed auto

lemma diagnostic_loop_complete:
  assumes "length acc \<le> MAX_ERROR_BODY_PREFIX_BYTES"
  shows "diagnostic_loop acc cs = (r, False) \<longleftrightarrow>
      (\<exists>bss. cs = map Ok bss \<and> r = acc @ concat bss \<and> length r \<le> MAX_ERROR_BODY_PREFIX_BYTES)"
  using assms
proof (induction acc cs rule: diagnostic_loop.induct)
  case (2 acc chunk cs)
  show ?case
  proof (cases "length acc + length chunk \<le> MAX_ERROR_BODY_PREFIX_BYTES")
    case True
    then have "diagnostic_loop acc (Ok chunk # cs) = (r, False) \<longleftrightarrow>
        (\<exists>bss. cs = map Ok bss \<and> r = (acc @ chunk) @ concat bss \<and> length r \<le> MAX_ERROR_BODY_PREFIX_BYTES)"
      using 2 caps_usize(2) by (simp add: push_within_cap_simp)
    also have "\<dots> \<longleftrightarrow> (\<exists>bss. Ok chunk # cs = map Ok bss \<and> r = acc @ concat bss
        \<and> length r \<le> MAX_ERROR_BODY_PREFIX_BYTES)"
      by (auto simp: Cons_eq_map_conv)
    finally show ?thesis .
  next
    case False
    then show ?thesis using caps_usize(2) by (auto simp: push_within_cap_simp Cons_eq_map_conv)
  qed
qed (auto simp: Cons_eq_map_conv)

lemma map_Ok_inj: "map Ok xs = map Ok ys \<longleftrightarrow> xs = ys"
  by (rule inj_map_eq_map) (simp add: inj_def)

lemma truncate_diagnostic_le: "utf8_len (truncate_diagnostic s) \<le> MAX_ERROR_BODY_PREFIX_BYTES"
  by (simp add: truncate_diagnostic_def mark_within_cap_le)

lemma ends_with_append [simp]: "ends_with (p @ s) s"
  by (simp add: ends_with_def)

lemma mark_truncated_ends: "ends_with (mark_within_cap s MAX_ERROR_BODY_PREFIX_BYTES) TRUNCATION_MARKER"
  using mark_within_cap_marked [of MAX_ERROR_BODY_PREFIX_BYTES s]
  by (auto simp: MAX_ERROR_BODY_PREFIX_BYTES_def)

lemma read_diagnostic_body_le: "utf8_len (read_diagnostic_body r) \<le> MAX_ERROR_BODY_PREFIX_BYTES"
  by (simp add: read_diagnostic_body_def Let_def split_beta mark_truncated_def mark_within_cap_le
      truncate_diagnostic_le)

text \<open>C18: A body that carries a verdict is delivered exactly as it was sent or not at all: the
  result is a string precisely when every chunk arrived, the chunks together fit the cap and
  their bytes are the UTF-8 encoding of that string; the size error is returned precisely when
  some chunk leaves the cap, and the cap lies between 1 and 16 MiB whatever budget is asked.\<close>

theorem verdict_body_exact:
  "(read_verdict_body r n = Ok s \<longleftrightarrow>
      (\<exists>bss. hr_chunks (prs_inner r) = map Ok bss \<and> length (concat bss) \<le> body_cap n
         \<and> list_all is_scalar s \<and> as_bytes s = concat bss))
   \<and> (read_verdict_body r n = Err (ResponseTooLarge m) \<longleftrightarrow> m = body_cap n \<and>
      (\<exists>bss chunk rest. hr_chunks (prs_inner r) = map Ok bss @ Ok chunk # rest
         \<and> length (concat bss) \<le> body_cap n \<and> body_cap n < length (concat bss) + length chunk))
   \<and> 2 ^ 20 \<le> body_cap n \<and> body_cap n \<le> 2 ^ 24"
proof (intro conjI)
  have v: "verdict_loop (prs_redacted_url r) (body_cap n) [] (hr_chunks (prs_inner r)) = Ok acc \<longleftrightarrow>
      (\<exists>bss. hr_chunks (prs_inner r) = map Ok bss \<and> acc = concat bss \<and> length acc \<le> body_cap n)" for acc
    using verdict_loop_Ok [OF caps_usize(1)] by simp
  have "read_verdict_body r n = Ok s \<longleftrightarrow> (\<exists>acc.
      verdict_loop (prs_redacted_url r) (body_cap n) [] (hr_chunks (prs_inner r)) = Ok acc
      \<and> from_utf8 acc = Some s)"
    by (auto simp: read_verdict_body_def res_simps split: option.splits)
  also have "\<dots> \<longleftrightarrow> (\<exists>bss. hr_chunks (prs_inner r) = map Ok bss \<and> length (concat bss) \<le> body_cap n
      \<and> list_all is_scalar s \<and> as_bytes s = concat bss)"
    unfolding v from_utf8_iff by blast
  finally show "read_verdict_body r n = Ok s \<longleftrightarrow>
      (\<exists>bss. hr_chunks (prs_inner r) = map Ok bss \<and> length (concat bss) \<le> body_cap n
         \<and> list_all is_scalar s \<and> as_bytes s = concat bss)" .
  have "read_verdict_body r n = Err (ResponseTooLarge m) \<longleftrightarrow>
      verdict_loop (prs_redacted_url r) (body_cap n) [] (hr_chunks (prs_inner r)) = Err (ResponseTooLarge m)"
    by (auto simp: read_verdict_body_def res_simps split: option.splits)
  then show "read_verdict_body r n = Err (ResponseTooLarge m) \<longleftrightarrow> m = body_cap n \<and>
      (\<exists>bss chunk rest. hr_chunks (prs_inner r) = map Ok bss @ Ok chunk # rest
         \<and> length (concat bss) \<le> body_cap n \<and> body_cap n < length (concat bss) + length chunk)"
    by (simp add: verdict_loop_too_large [OF caps_usize(1)])
qed (rule body_cap_bounds)+

text \<open>An error body is shown in full or marked as cut: it never exceeds 8 KiB, it is the
  decoded body itself when every chunk arrived and both the bytes and their lossy reading fit,
  and in every other case (a chunk over the cap, a failed read, a reading that outgrew the cap)
  it ends with the truncation marker.\<close>

theorem diagnostic_body_honest:
  "utf8_len (read_diagnostic_body r) \<le> MAX_ERROR_BODY_PREFIX_BYTES \<and>
   (if \<exists>bss. hr_chunks (prs_inner r) = map Ok bss \<and> length (concat bss) \<le> MAX_ERROR_BODY_PREFIX_BYTES
        \<and> utf8_len (from_utf8_lossy (concat bss)) \<le> MAX_ERROR_BODY_PREFIX_BYTES
    then \<exists>bss. hr_chunks (prs_inner r) = map Ok bss
        \<and> read_diagnostic_body r = from_utf8_lossy (concat bss)
    else ends_with (read_diagnostic_body r) TRUNCATION_MARKER)"
  (is "?bound \<and> (if ?full then ?shown else ?marked)")
proof -
  obtain acc p where l: "diagnostic_loop [] (hr_chunks (prs_inner r)) = (acc, p)" by fastforce
  let ?t = "truncate_diagnostic (from_utf8_lossy acc)"
  have d: "read_diagnostic_body r = (if p \<and> \<not> ends_with ?t TRUNCATION_MARKER then mark_truncated ?t else ?t)"
    by (simp add: read_diagnostic_body_def l Let_def)
  have b: ?bound by (simp add: d mark_truncated_def mark_within_cap_le truncate_diagnostic_le)
  note complete = diagnostic_loop_complete [of "[]" "hr_chunks (prs_inner r)", simplified]
  show ?thesis
  proof (cases p)
    case True
    then have "\<not> ?full" using complete l by auto
    moreover have ?marked using True by (simp add: d mark_truncated_def mark_truncated_ends)
    ultimately show ?thesis using b by (simp only: if_False simp_thms)
  next
    case False
    then obtain bss where bss: "hr_chunks (prs_inner r) = map Ok bss" "acc = concat bss"
      "length acc \<le> MAX_ERROR_BODY_PREFIX_BYTES" using complete l by auto
    have u: "hr_chunks (prs_inner r) = map Ok bss' \<Longrightarrow> bss' = bss" for bss'
      using bss(1) by (auto simp: map_Ok_inj)
    show ?thesis
    proof (cases "utf8_len (from_utf8_lossy acc) \<le> MAX_ERROR_BODY_PREFIX_BYTES")
      case fits: True
      then have ?shown using bss False by (auto simp: d truncate_diagnostic_def)
      moreover have ?full using bss fits by auto
      ultimately show ?thesis using b by (simp only: if_True simp_thms)
    next
      case long: False
      then have "\<not> ?full" using u bss(2) by blast
      moreover have ?marked using long False by (simp add: d truncate_diagnostic_def mark_truncated_ends)
      ultimately show ?thesis using b by (simp only: if_False simp_thms)
    qed
  qed
qed

section \<open>What a URL shows\<close>

text \<open>Everything but the user, the password and the values of the query: of the first two only
  whether they are there, of the query the names.\<close>

definition url_public :: "url_lib \<Rightarrow> url \<Rightarrow> url \<times> bool \<times> bool \<times> ustr list option" where
  "url_public L u =
     (u\<lparr> ur_username := [], ur_password := None, ur_query := None \<rparr>,
      ur_username u \<noteq> [], ur_password u \<noteq> None,
      map_option (\<lambda>q. map fst (query_pairs L q)) (ur_query u))"

text \<open>The redacted rendering is a function of the public part.\<close>

lemma redacted_public:
  "redacted L u =
     (let (w, user, pw, names) = url_public L u
      in url_text L (w\<lparr> ur_username := (if user then userinfo_encode L REDACTED_PLACEHOLDER else []),
           ur_password := (if pw then Some (userinfo_encode L REDACTED_PLACEHOLDER) else None),
           ur_query := map_option (\<lambda>ns. form_encode L (map (\<lambda>n. (n, REDACTED_PLACEHOLDER)) ns)) names \<rparr>))"
  by (cases u) (auto simp: redacted_def url_public_def Let_def split: option.split)

lemma redacted_cong: "url_public L u = url_public L v \<Longrightarrow> redacted L u = redacted L v"
  by (simp add: redacted_public)

lemma dbg_provider_url_cong:
  "url_public L u = url_public L v \<Longrightarrow> dbg_provider_url F L u = dbg_provider_url F L v"
  unfolding dbg_provider_url_def by (simp only: redacted_cong [of L u v])

text \<open>An endpoint keeps everything of the authority but the path.\<close>

lemma join_path_keeps:
  "ur_query (join_path L u segs) = ur_query u" "ur_fragment (join_path L u segs) = ur_fragment u"
  "ur_username (join_path L u segs) = ur_username u" "ur_password (join_path L u segs) = ur_password u"
  "ur_host (join_path L u segs) = ur_host u" "ur_scheme (join_path L u segs) = ur_scheme u"
  by (simp_all add: join_path_def)

section \<open>The path edits the code relies on\<close>

text \<open>What the \<open>url\<close> crate documents of the three edits, for the plain segments used here.\<close>

definition plain_segment :: "ustr \<Rightarrow> bool" where
  "plain_segment s \<longleftrightarrow> s \<noteq> [] \<and> list_all (\<lambda>c. is_ascii_alpha c \<or> is_ascii_digit c) s"

definition url_laws :: "url_lib \<Rightarrow> bool" where
  "url_laws L \<longleftrightarrow>
     (\<forall>p. pop_if_empty L p = (if 1 < length p \<and> last p = [] then butlast p else p))
     \<and> (\<forall>p. pop_segment L p = (if length p \<le> 1 then [[]] else butlast p))
     \<and> (\<forall>p s. plain_segment s \<longrightarrow> push_segment L p s = (if p = [[]] then [s] else p @ [s]))"

text \<open>A library for concrete evaluations: no escaping, pairs split at their first signs.\<close>

definition plain_pairs :: "ustr \<Rightarrow> (ustr \<times> ustr) list" where
  "plain_pairs q =
     map (\<lambda>p. (takeWhile (\<lambda>c. c \<noteq> 61) p, drop 1 (dropWhile (\<lambda>c. c \<noteq> 61) p))) (split_on 38 q)"

definition plain_form :: "(ustr \<times> ustr) list \<Rightarrow> ustr" where
  "plain_form ps = join [38] (map (\<lambda>(k, v). k @ [61] @ v) ps)"

definition plain_url_text :: "url \<Rightarrow> ustr" where
  "plain_url_text u =
     ur_scheme u @ asc ''://''
     @ (if ur_username u = [] \<and> ur_password u = None then []
        else ur_username u @ (case ur_password u of None \<Rightarrow> [] | Some p \<Rightarrow> [58] @ p) @ [64])
     @ ur_host u @ (case ur_path u of None \<Rightarrow> [] | Some p \<Rightarrow> concat (map (\<lambda>s. 47 # s) p))
     @ (case ur_query u of None \<Rightarrow> [] | Some q \<Rightarrow> [63] @ q)
     @ (case ur_fragment u of None \<Rightarrow> [] | Some f \<Rightarrow> [35] @ f)"

definition plain_url_lib :: "(ustr \<Rightarrow> (url, ustr) result) \<Rightarrow> url_lib" where
  "plain_url_lib parse = \<lparr> parse_url = parse, url_text = plain_url_text, userinfo_encode = (\<lambda>s. s),
     query_pairs = plain_pairs, form_encode = plain_form,
     pop_if_empty = (\<lambda>p. if 1 < length p \<and> last p = [] then butlast p else p),
     pop_segment = (\<lambda>p. if length p \<le> 1 then [[]] else butlast p),
     push_segment = (\<lambda>p s. if p = [[]] then [s] else p @ [s]) \<rparr>"

lemma plain_url_laws: "url_laws (plain_url_lib parse)"
  by (simp add: url_laws_def plain_url_lib_def)

lemma redacted_example:
  "redacted (plain_url_lib parse)
     \<lparr> ur_scheme = asc ''http'', ur_username = asc ''alice'', ur_password = Some (asc ''s3cret''),
       ur_host = asc ''h:80'', ur_path = Some [asc ''v1''], ur_query = Some (asc ''key=k&ver=2''),
       ur_fragment = None \<rparr>
   = asc ''http://REDACTED:REDACTED@h:80/v1?key=REDACTED&ver=REDACTED''"
  by (simp add: redacted_def plain_url_lib_def plain_url_text_def plain_pairs_def plain_form_def
      REDACTED_PLACEHOLDER_def)

end
