(* ===== verification/Http_Backend.thy ===== *)
theory Http_Backend
  imports Provider_Url
begin

text \<open>
  What the three HTTP providers (\<open>src/src/providers/ollama.rs\<close>,
  \<open>openai_compat.rs\<close>, \<open>claude.rs\<close>) have in common. Each of them writes its own
  \<open>complete\<close>; the contract these share is the locale \<open>http_backend\<close>: one request is
  sent, a response that is no success becomes a status error over the diagnostic body, and a
  success is read under the cap and decoded. The theories of the providers interpret it on
  their definitions.
\<close>

text \<open>Building the client is the HTTP library's: it succeeds or gives its error.\<close>

type_synonym client_builder = "duration \<Rightarrow> (unit, transport_error) result"

text \<open>\<open>unwrap_or_default\<close> on a string that may be absent.\<close>

definition unwrap_or_empty :: "ustr option \<Rightarrow> ustr" where
  "unwrap_or_empty s = (case s of Some t \<Rightarrow> t | None \<Rightarrow> [])"

text \<open>\<open>(200..300).contains(&status)\<close>\<close>

definition is_success :: "nat \<Rightarrow> bool" where
  "is_success status \<longleftrightarrow> 200 \<le> status \<and> status < 300"

text \<open>The statuses that are an authentication failure.\<close>

definition auth_status :: "nat \<Rightarrow> bool" where
  "auth_status status \<longleftrightarrow> status = 401 \<or> status = 403"

text \<open>The failures of a call that are not about this exchange at all.\<close>

fun foreign_error :: "provider_error \<Rightarrow> bool" where
  "foreign_error (Process _ _) = True"
| "foreign_error NestedSession = True"
| "foreign_error (RetryAbandoned _ _) = True"
| "foreign_error (External _ _) = True"
| "foreign_error _ = False"

text \<open>The failures decoding a body can end in.\<close>

fun decode_error :: "nat \<Rightarrow> provider_error \<Rightarrow> bool" where
  "decode_error cap (ResponseContract _ _) = True"
| "decode_error cap (EmptyCompletion _ n) = (n = cap)"
| "decode_error cap (NoGeneration _) = True"
| "decode_error cap _ = False"

fun transport_failure :: "provider_error \<Rightarrow> bool" where
  "transport_failure (Network _) = True"
| "transport_failure (Timeout _) = True"
| "transport_failure (ResponseContract _ _) = True"
| "transport_failure _ = False"

lemma transport_failure_to_provider_error [simp]: "transport_failure (to_provider_error op u e)"
  by (simp add: to_provider_error_def response_contract_def Let_def)

lemma to_provider_error_no_defect [simp]: "to_provider_error op u e \<noteq> NoGeneration d"
  by (simp add: to_provider_error_def response_contract_def Let_def)

lemma read_verdict_body_Err:
  "read_verdict_body r n = Err e \<Longrightarrow> transport_failure e \<or> e = ResponseTooLarge (body_cap n)"
proof -
  have "verdict_loop u cap acc cs = Err e \<Longrightarrow> transport_failure e \<or> e = ResponseTooLarge cap" for u cap acc cs
    by (induction u cap acc cs rule: verdict_loop.induct) (auto split: prod.splits if_splits)
  then show "read_verdict_body r n = Err e \<Longrightarrow> transport_failure e \<or> e = ResponseTooLarge (body_cap n)"
    by (auto simp: read_verdict_body_def res_simps split: option.splits)
qed

locale http_backend =
  fixes request :: "'b provider_request"
    and status_error :: "nat \<Rightarrow> ustr \<Rightarrow> ustr list \<Rightarrow> nat \<Rightarrow> provider_error"
    and decode :: "ustr \<Rightarrow> (completion, provider_error) result"
    and max_tokens :: nat
    and answer :: "'b http_client \<Rightarrow> nat \<Rightarrow> (completion, provider_error) result"
  assumes answer_shape: "answer client now =
      and_then (send client request) (\<lambda>r.
        if \<not> is_success (prs_status r)
        then Err (status_error (prs_status r) (read_diagnostic_body r) (retry_after_raw r) now)
        else and_then (read_verdict_body r max_tokens) decode)"
    and status_auth: "auth_status st \<Longrightarrow> status_error st b ra now = Auth b"
    and status_other: "\<not> auth_status st \<Longrightarrow> \<exists>b'. status_error st b ra now = Http st b' ra (Some now)"
    and decode_Ok: "decode s = Ok c \<Longrightarrow> trim (cp_text c) \<noteq> []"
    and decode_Err: "decode s = Err e \<Longrightarrow> decode_error max_tokens e"
begin

abbreviation reply :: "http_response \<Rightarrow> provider_response" where
  "reply r \<equiv> \<lparr> prs_inner = r, prs_redacted_url = prq_redacted_url request \<rparr>"

lemma answer_transport:
  "client (prq_inner request) = Err e \<Longrightarrow>
     answer client now = Err (to_provider_error (asc ''request failed'') (prq_redacted_url request) e)"
  by (simp add: answer_shape send_def)

lemma answer_status:
  "client (prq_inner request) = Ok r \<Longrightarrow> \<not> is_success (hr_status r) \<Longrightarrow>
     answer client now = Err (status_error (hr_status r) (read_diagnostic_body (reply r)) (retry_after_raw (reply r)) now)"
  by (simp add: answer_shape send_def prs_status_def)

lemma answer_success:
  "client (prq_inner request) = Ok r \<Longrightarrow> is_success (hr_status r) \<Longrightarrow>
     answer client now = and_then (read_verdict_body (reply r) max_tokens) decode"
  by (simp add: answer_shape send_def prs_status_def)

lemma answer_cases:
  obtains (transport) e where "client (prq_inner request) = Err e"
  | (status) r where "client (prq_inner request) = Ok r" "\<not> is_success (hr_status r)"
  | (success) r where "client (prq_inner request) = Ok r" "is_success (hr_status r)"
  by (cases "client (prq_inner request)") auto

lemma answer_Ok:
  "answer client now = Ok c \<longleftrightarrow>
     (\<exists>r body. client (prq_inner request) = Ok r \<and> is_success (hr_status r)
        \<and> read_verdict_body (reply r) max_tokens = Ok body \<and> decode body = Ok c)"
proof (cases client rule: answer_cases)
  case (success r)
  then show ?thesis by (auto simp: answer_success res_simps)
qed (auto simp: answer_transport answer_status)

lemma answer_Ok_text: "answer client now = Ok c \<Longrightarrow> trim (cp_text c) \<noteq> []"
  using decode_Ok by (auto simp: answer_Ok)

lemma status_error_not_foreign: "\<not> foreign_error (status_error st b ra now)"
  using status_auth [of st b ra now] status_other [of st b ra now] by (cases "auth_status st") auto

lemma transport_not_foreign: "transport_failure e \<Longrightarrow> \<not> foreign_error e"
  by (cases e) auto

lemma decode_not_foreign: "decode_error n e \<Longrightarrow> \<not> foreign_error e"
  by (cases e) auto

lemma answer_not_foreign: "answer client now = Err e \<Longrightarrow> \<not> foreign_error e"
proof (cases client rule: answer_cases)
  case (transport t)
  then show "answer client now = Err e \<Longrightarrow> \<not> foreign_error e"
    using transport_not_foreign by (auto simp: answer_transport)
next
  case (status r)
  then show "answer client now = Err e \<Longrightarrow> \<not> foreign_error e"
    using status_error_not_foreign by (auto simp: answer_status)
next
  case (success r)
  then show "answer client now = Err e \<Longrightarrow> \<not> foreign_error e"
    using read_verdict_body_Err transport_not_foreign decode_Err decode_not_foreign
    by (fastforce simp: answer_success res_simps)
qed

text \<open>A status error is only ever reported of the status that was received, with every readable
  Retry-After value and the time of receipt.\<close>

lemma answer_Http:
  assumes "answer client now = Err (Http st b ra rcv)"
  shows "\<exists>r. client (prq_inner request) = Ok r \<and> hr_status r = st \<and> \<not> is_success st \<and> \<not> auth_status st
     \<and> ra = retry_after_raw (reply r) \<and> rcv = Some now"
proof (cases client rule: answer_cases)
  case (transport t)
  then show ?thesis using assms transport_failure_to_provider_error by (metis answer_transport result.inject(2) transport_failure.simps)
next
  case (status r)
  show ?thesis
  proof (cases "auth_status (hr_status r)")
    case True
    then show ?thesis using assms by (simp add: answer_status [of client r now, OF status] status_auth)
  next
    case False
    with assms status show ?thesis
      using status_other [OF False, of "read_diagnostic_body (reply r)" "retry_after_raw (reply r)" now]
      by (auto simp: answer_status [of client r now, OF status])
  qed
next
  case (success r)
  then show ?thesis using assms read_verdict_body_Err decode_Err
    by (fastforce simp: answer_success res_simps)
qed

lemma answer_NoGeneration:
  "answer client now = Err (NoGeneration d) \<longleftrightarrow>
     (\<exists>r body. client (prq_inner request) = Ok r \<and> is_success (hr_status r)
        \<and> read_verdict_body (reply r) max_tokens = Ok body \<and> decode body = Err (NoGeneration d))"
proof (cases client rule: answer_cases)
  case (transport t)
  then show ?thesis by (simp add: answer_transport del: asc_Cons)
next
  case (status r)
  then show ?thesis
    using status_auth [of "hr_status r"]
      status_other [of "hr_status r" "read_diagnostic_body (reply r)" "retry_after_raw (reply r)" now]
    by (cases "auth_status (hr_status r)") (auto simp: answer_status)
next
  case (success r)
  then show ?thesis using read_verdict_body_Err
    by (fastforce simp: answer_success res_simps)
qed

text \<open>A refused status is retried exactly when it is one of the transient ones.\<close>

lemma answer_status_retry:
  assumes "client (prq_inner request) = Ok r" "\<not> is_success (hr_status r)"
  shows "\<exists>e. answer client now = Err e \<and> (is_retryable e \<longleftrightarrow> hr_status r \<in> set TRANSIENT_STATUSES)
     \<and> (classify_provider_error e = CAuth \<longleftrightarrow> auth_status (hr_status r)) \<and> \<not> is_mage_local e"
proof (cases "auth_status (hr_status r)")
  case True
  then show ?thesis using assms status_auth
    by (auto simp: answer_status TRANSIENT_STATUSES_def auth_status_def)
next
  case False
  then show ?thesis using assms status_other [OF False, of "read_diagnostic_body (reply r)" "retry_after_raw (reply r)" now]
    by (auto simp: answer_status)
qed

end

end
