(* ===== verification/Ollama.thy ===== *)
theory Ollama
  imports Http_Backend
begin

text \<open>
  The native Ollama backend: the wire types and their reading
  (\<open>src/src/providers/ollama_wire.rs\<close>), the provider and its probes
  (\<open>src/src/providers/ollama.rs\<close>). What \<open>serde_json\<close> makes of a text is a
  parameter: the decoded structures, and for the probes an untyped value with its accessors.
\<close>

section \<open>The wire types\<close>

text \<open>Whether a response without content has the footprint of a request without messages.\<close>

definition is_crate_defect ::
  "nat option \<Rightarrow> nat option \<Rightarrow> finish_reason option \<Rightarrow> ustr \<Rightarrow> bool" where
  "is_crate_defect eval_count prompt_eval_count reason content \<longleftrightarrow>
     eval_count = None \<and> prompt_eval_count = None \<and> reason = Some Load \<and> trim content = []"

record native_message =
  nm_role :: ustr
  nm_content :: ustr

definition native_system :: "ustr \<Rightarrow> native_message" where
  "native_system content = \<lparr> nm_role = asc ''system'', nm_content = content \<rparr>"

definition native_user :: "ustr \<Rightarrow> native_message" where
  "native_user content = \<lparr> nm_role = asc ''user'', nm_content = content \<rparr>"

record native_options =
  no_num_predict :: nat
  no_temperature :: f64

record native_request =
  nq_model :: ustr
  nq_messages :: "native_message list"
  nq_stream :: bool
  nq_options :: native_options
  nq_think :: "bool option"

definition native_request_new ::
  "ustr \<Rightarrow> native_message list \<Rightarrow> nat \<Rightarrow> f64 \<Rightarrow> reasoning_control \<Rightarrow> native_request" where
  "native_request_new model messages max_tokens temperature reasoning =
     \<lparr> nq_model = model, nq_messages = messages, nq_stream = False,
       nq_options = \<lparr> no_num_predict = max_tokens, no_temperature = temperature \<rparr>,
       nq_think = (if reasoning = RcDisabled then Some False else None) \<rparr>"

record native_resp_message =
  nrm_content :: "ustr option"
  nrm_thinking :: "ustr option"

record native_response =
  nr_message :: native_resp_message
  nr_done_reason :: "finish_reason option"
  nr_eval_count :: "nat option"
  nr_prompt_eval_count :: "nat option"

definition native_into_completion ::
  "native_response \<Rightarrow> nat \<Rightarrow> bool \<Rightarrow> (completion, provider_error) result" where
  "native_into_completion r cap trace =
     (let content = unwrap_or_empty (nrm_content (nr_message r));
          reasoning = (case nrm_thinking (nr_message r) of
              Some s \<Rightarrow> Measured (length s) (if trace then Some s else None)
            | None \<Rightarrow> Measured 0 None);
          t0 = with_reasoning reasoning unmeasured;
          t1 = if_measured with_finish (nr_done_reason r) t0;
          t2 = if_measured with_completion_tokens (nr_eval_count r) t1;
          t3 = if_measured with_prompt_tokens (nr_prompt_eval_count r) t2
      in if trim content = [] then
           if is_crate_defect (nr_eval_count r) (nr_prompt_eval_count r) (nr_done_reason r) content
           then Err (NoGeneration (nr_done_reason r))
           else Err (EmptyCompletion t3 cap)
         else Ok (with_telemetry t3 (completion_new content)))"

section \<open>What serde makes of a text\<close>

text \<open>\<open>'v\<close> is the type of untyped JSON values. The error structure has one field, its text.\<close>

record 'v json_lib =
  js_response :: "ustr \<Rightarrow> native_response option"
  js_error :: "ustr \<Rightarrow> ustr option"
  js_value :: "ustr \<Rightarrow> 'v option"
  js_get :: "'v \<Rightarrow> ustr \<Rightarrow> 'v option"
  js_entries :: "'v \<Rightarrow> (ustr \<times> 'v) list option"
  js_items :: "'v \<Rightarrow> 'v list option"
  js_text :: "'v \<Rightarrow> ustr option"
  js_u64 :: "'v \<Rightarrow> nat option"

definition native_error ::
  "'v json_lib \<Rightarrow> nat \<Rightarrow> ustr \<Rightarrow> ustr list \<Rightarrow> nat \<Rightarrow> provider_error" where
  "native_error J status body retry_after received_at =
     (if status = 401 \<or> status = 403 then Auth body
      else Http status (case js_error J body of Some e \<Rightarrow> e | None \<Rightarrow> body)
             retry_after (Some received_at))"

section \<open>The provider\<close>

record ollama_provider =
  op_base_url :: url
  op_model :: ustr

definition OPENAI_COMPAT_PREFIX :: ustr where "OPENAI_COMPAT_PREFIX = asc ''v1''"
definition MAX_SHOW_BODY_BYTES :: nat where "MAX_SHOW_BODY_BYTES = 2 ^ 20"

text \<open>The daemon's root: an address under \<open>/v1\<close> is taken one level up.\<close>

definition ollama_base :: "url_lib \<Rightarrow> url \<Rightarrow> url" where
  "ollama_base L given = (if ends_with_segment given OPENAI_COMPAT_PREFIX then url_parent L given else given)"

definition ollama_with_timeout ::
  "url_lib \<Rightarrow> client_builder \<Rightarrow> ustr \<Rightarrow> ustr \<Rightarrow> duration \<Rightarrow> (ollama_provider, provider_error) result" where
  "ollama_with_timeout L build base_url model timeout =
     and_then (provider_url_parse L base_url) (\<lambda>given.
       let base = ollama_base L given
       in case build timeout of
            Err e \<Rightarrow> Err (client_build_error e)
          | Ok _ \<Rightarrow> Ok \<lparr> op_base_url = base, op_model = model \<rparr>)"

definition ollama_new ::
  "url_lib \<Rightarrow> client_builder \<Rightarrow> ustr \<Rightarrow> ustr \<Rightarrow> (ollama_provider, provider_error) result" where
  "ollama_new L build base_url model = ollama_with_timeout L build base_url model DEFAULT_CLIENT_TIMEOUT"

datatype ollama_body = Chat native_request | ShowModel ustr

definition ollama_chat_request ::
  "url_lib \<Rightarrow> ollama_provider \<Rightarrow> ustr \<Rightarrow> ustr \<Rightarrow> completion_config \<Rightarrow> ollama_body provider_request" where
  "ollama_chat_request L p system_prompt user_prompt cfg =
     request_json
       (Chat (native_request_new (op_model p) [native_system system_prompt, native_user user_prompt]
          (cc_max_tokens cfg) (cc_temperature cfg) (cc_reasoning cfg)))
       (url_request L (op_base_url p) POST [asc ''api'', asc ''chat''])"

definition ollama_decode ::
  "'v json_lib \<Rightarrow> completion_config \<Rightarrow> ustr \<Rightarrow> (completion, provider_error) result" where
  "ollama_decode J cfg body =
     (case js_response J body of
        None \<Rightarrow> Err (ResponseContract Unreadable [])
      | Some native \<Rightarrow> native_into_completion native (cc_max_tokens cfg) (cc_reasoning_trace cfg))"

definition ollama_complete ::
  "'v json_lib \<Rightarrow> url_lib \<Rightarrow> ollama_provider \<Rightarrow> ustr \<Rightarrow> ustr \<Rightarrow> completion_config
     \<Rightarrow> ollama_body http_client \<Rightarrow> nat \<Rightarrow> (completion, provider_error) result" where
  "ollama_complete J L p system_prompt user_prompt cfg client received_at =
     and_then (send client (ollama_chat_request L p system_prompt user_prompt cfg)) (\<lambda>response.
       let status = prs_status response; retry_after = retry_after_raw response
       in if \<not> is_success status
          then let body = read_diagnostic_body response
               in Err (native_error J status body retry_after received_at)
          else and_then (read_verdict_body response (cc_max_tokens cfg)) (ollama_decode J cfg))"

section \<open>Probes\<close>

definition parse_show_window :: "'v json_lib \<Rightarrow> ustr \<Rightarrow> nat option" where
  "parse_show_window J body =
     Option.bind (js_value J body) (\<lambda>v.
     Option.bind (js_get J v (asc ''model_info'')) (\<lambda>info.
     Option.bind (js_entries J info) (\<lambda>model_info.
       find_map (\<lambda>(key, value).
         if ends_with key (asc ''.context_length'')
         then (case js_u64 J value of Some n \<Rightarrow> if n > 0 then Some n else None | None \<Rightarrow> None)
         else None) model_info)))"

definition is_lower_hex :: "nat \<Rightarrow> bool" where
  "is_lower_hex c \<longleftrightarrow> is_ascii_digit c \<or> (97 \<le> c \<and> c \<le> 102)"

definition parse_tags_digest :: "'v json_lib \<Rightarrow> ustr \<Rightarrow> ustr \<Rightarrow> ustr option" where
  "parse_tags_digest J body model =
     Option.bind (js_value J body) (\<lambda>v.
     Option.bind (js_get J v (asc ''models'')) (\<lambda>ms.
     Option.bind (js_items J ms) (\<lambda>models.
     Option.bind (find (\<lambda>entry. Option.bind (js_get J entry (asc ''name'')) (js_text J) = Some model) models) (\<lambda>entry.
     Option.bind (js_get J entry (asc ''digest'')) (\<lambda>d.
     Option.bind (js_text J d) (\<lambda>digest.
       if utf8_len digest = 64 \<and> list_all is_lower_hex digest then Some digest else None))))))"

definition ollama_declared_model :: "ollama_provider \<Rightarrow> ustr option" where
  "ollama_declared_model p = Some (op_model p)"

definition ollama_window ::
  "'v json_lib \<Rightarrow> url_lib \<Rightarrow> ollama_provider \<Rightarrow> ollama_body http_client \<Rightarrow> (nat option, provider_error) result" where
  "ollama_window J L p client =
     and_then (send client (request_json (ShowModel (op_model p))
         (url_request L (op_base_url p) POST [asc ''api'', asc ''show'']))) (\<lambda>resp.
       if \<not> is_success (prs_status resp) then Ok None
       else case read_probe_body resp MAX_SHOW_BODY_BYTES of
              Some bytes \<Rightarrow> Ok (parse_show_window J (from_utf8_lossy bytes))
            | None \<Rightarrow> Ok None)"

definition ollama_digest ::
  "'v json_lib \<Rightarrow> url_lib \<Rightarrow> ollama_provider \<Rightarrow> ollama_body http_client \<Rightarrow> (ustr option, provider_error) result" where
  "ollama_digest J L p client =
     and_then (send client (url_request L (op_base_url p) GET [asc ''api'', asc ''tags''])) (\<lambda>resp.
       if \<not> is_success (prs_status resp) then Ok None
       else case read_probe_body resp MAX_SHOW_BODY_BYTES of
              Some bytes \<Rightarrow> Ok (parse_tags_digest J (from_utf8_lossy bytes) (op_model p))
            | None \<Rightarrow> Ok None)"

section \<open>Reading a completion\<close>

text \<open>The telemetry of a response, whether or not it carries text.\<close>

definition native_telemetry :: "native_response \<Rightarrow> bool \<Rightarrow> telemetry" where
  "native_telemetry r trace =
     \<lparr> tm_finish = nr_done_reason r, tm_completion_tokens = nr_eval_count r,
       tm_prompt_tokens = nr_prompt_eval_count r,
       tm_reasoning = (case nrm_thinking (nr_message r) of
            Some s \<Rightarrow> Measured (length s) (if trace then Some s else None) | None \<Rightarrow> Measured 0 None) \<rparr>"

lemma native_into_completion_eq:
  "native_into_completion r cap trace =
     (let content = unwrap_or_empty (nrm_content (nr_message r)) in
      if trim content \<noteq> [] then Ok \<lparr> cp_text = content, cp_telemetry = native_telemetry r trace \<rparr>
      else if nr_eval_count r = None \<and> nr_prompt_eval_count r = None \<and> nr_done_reason r = Some Load
      then Err (NoGeneration (Some Load))
      else Err (EmptyCompletion (native_telemetry r trace) cap))"
  by (simp add: native_into_completion_def Let_def telemetry_built native_telemetry_def
      is_crate_defect_def with_telemetry_def completion_new_def)

lemma ollama_decode_Ok:
  "ollama_decode J cfg body = Ok c \<longleftrightarrow>
     (\<exists>r. js_response J body = Some r \<and> trim (cp_text c) \<noteq> []
        \<and> cp_text c = unwrap_or_empty (nrm_content (nr_message r))
        \<and> cp_telemetry c = native_telemetry r (cc_reasoning_trace cfg))"
  by (cases c) (auto simp: ollama_decode_def native_into_completion_eq Let_def split: option.splits)

lemma ollama_decode_NoGeneration:
  "ollama_decode J cfg body = Err (NoGeneration d) \<longleftrightarrow>
     d = Some Load \<and> (\<exists>r. js_response J body = Some r \<and> nr_done_reason r = Some Load
        \<and> nr_eval_count r = None \<and> nr_prompt_eval_count r = None
        \<and> trim (unwrap_or_empty (nrm_content (nr_message r))) = [])"
  by (auto simp: ollama_decode_def native_into_completion_eq Let_def split: option.splits)

lemma ollama_decode_Err: "ollama_decode J cfg body = Err e \<Longrightarrow> decode_error (cc_max_tokens cfg) e"
  by (auto simp: ollama_decode_def native_into_completion_eq Let_def split: option.splits if_splits)

interpretation ollama: http_backend "ollama_chat_request L p sys usr cfg" "native_error J"
  "ollama_decode J cfg" "cc_max_tokens cfg" "ollama_complete J L p sys usr cfg" for J L p sys usr cfg
proof unfold_locales
  fix client now
  show "ollama_complete J L p sys usr cfg client now =
      and_then (send client (ollama_chat_request L p sys usr cfg)) (\<lambda>r.
        if \<not> is_success (prs_status r)
        then Err (native_error J (prs_status r) (read_diagnostic_body r) (retry_after_raw r) now)
        else and_then (read_verdict_body r (cc_max_tokens cfg)) (ollama_decode J cfg))"
    unfolding ollama_complete_def Let_def by (rule refl)
qed (auto simp: native_error_def auth_status_def ollama_decode_Ok ollama_decode_Err)

section \<open>Probes measure or stay silent\<close>

lemma parse_show_window_pos: "parse_show_window J body = Some n \<Longrightarrow> 0 < n"
  by (auto simp: parse_show_window_def bind_eq_Some_conv dest!: find_map_Some split: if_splits option.splits)

lemma lower_hex_len: "list_all is_lower_hex d \<Longrightarrow> utf8_len d = length d"
  by (induction d) (auto simp: is_lower_hex_def is_ascii_digit_def utf8_len1_def)

lemma parse_tags_digest_shape:
  "parse_tags_digest J body model = Some d \<Longrightarrow> length d = 64 \<and> list_all is_lower_hex d"
  by (auto simp: parse_tags_digest_def bind_eq_Some_conv lower_hex_len split: if_splits)

lemma probe_loop_bounded: "probe_loop cap acc cs = Some r \<Longrightarrow> length acc \<le> cap \<Longrightarrow> length r \<le> cap"
proof (induction cs arbitrary: acc)
  case (Cons c cs)
  then show ?case by (cases c) (auto simp: push_within_cap_def split: if_splits)
qed simp

lemma read_probe_body_bounded: "read_probe_body r cap = Some bs \<Longrightarrow> length bs \<le> cap"
  by (auto simp: read_probe_body_def split: option.splits if_splits dest: probe_loop_bounded)

text \<open>A probe either says something the gates can rely on or says nothing: it fails only when
  the request itself failed, a window it reports is a positive number found under a
  \<open>.context_length\<close> key of a body of at most 1 MiB, and a digest it reports is 64 lower-case
  hexadecimal digits listed for the provider's own model.\<close>

theorem ollama_probes_sound:
  "(case ollama_window J L p client of
      Err e \<Rightarrow> transport_failure e
    | Ok None \<Rightarrow> True
    | Ok (Some n) \<Rightarrow> 0 < n \<and>
        (\<exists>bs. length bs \<le> MAX_SHOW_BODY_BYTES \<and> parse_show_window J (from_utf8_lossy bs) = Some n))
   \<and> (case ollama_digest J L p client of
      Err e \<Rightarrow> transport_failure e
    | Ok None \<Rightarrow> True
    | Ok (Some d) \<Rightarrow> length d = 64 \<and> list_all is_lower_hex d \<and>
        (\<exists>bs. length bs \<le> MAX_SHOW_BODY_BYTES
           \<and> parse_tags_digest J (from_utf8_lossy bs) (op_model p) = Some d))"
  by (auto simp: ollama_window_def ollama_digest_def send_def
      split: result.splits option.splits
      dest: read_probe_body_bounded parse_show_window_pos parse_tags_digest_shape)

section \<open>Endpoints\<close>

lemma plain_v1 [simp]: "plain_segment OPENAI_COMPAT_PREFIX"
  by (simp add: plain_segment_def OPENAI_COMPAT_PREFIX_def is_ascii_alpha_def is_ascii_digit_def)

text \<open>The spellings of a base address: its own path, the path under \<open>/v1\<close>, each with or without a
  trailing slash; a root path is the single empty segment.\<close>

definition v1_path :: "ustr list \<Rightarrow> ustr list" where
  "v1_path p = (if p = [[]] then [OPENAI_COMPAT_PREFIX] else p @ [OPENAI_COMPAT_PREFIX])"

definition slashed :: "ustr list \<Rightarrow> ustr list" where
  "slashed p = (if p = [[]] then p else p @ [[]])"

definition proper_path :: "ustr list \<Rightarrow> bool" where
  "proper_path p \<longleftrightarrow> p = [[]] \<or> (p \<noteq> [] \<and> last p \<noteq> [] \<and> last p \<noteq> OPENAI_COMPAT_PREFIX)"

definition spellings :: "ustr list \<Rightarrow> ustr list set" where
  "spellings p = {p, slashed p, v1_path p, slashed (v1_path p)}"

lemma pop_slashed:
  assumes "url_laws L" "p \<noteq> []" "p = [[]] \<or> last p \<noteq> []"
  shows "pop_if_empty L p = p" "pop_if_empty L (slashed p) = p"
proof -
  have pop: "pop_if_empty L q = (if 1 < length q \<and> last q = [] then butlast q else q)" for q
    using assms(1) by (simp add: url_laws_def)
  show "pop_if_empty L p = p" using assms(3) by (auto simp: pop)
  show "pop_if_empty L (slashed p) = p" using assms(2) by (simp add: slashed_def pop)
qed

lemma last_v1_path: "v1_path p \<noteq> []" "last (v1_path p) = OPENAI_COMPAT_PREFIX"
  by (simp_all add: v1_path_def)

lemma v1_nonempty [simp]: "OPENAI_COMPAT_PREFIX \<noteq> []"
  by (simp add: OPENAI_COMPAT_PREFIX_def)

lemma find_last_segment:
  assumes "p \<noteq> []" "last p \<noteq> []"
  shows "find (\<lambda>s. s \<noteq> []) (rev p) = Some (last p)"
  using assms by (cases p rule: rev_cases) auto

lemma ends_with_v1:
  assumes "proper_path p"
  shows "ur_path u = Some p \<Longrightarrow> \<not> ends_with_segment u OPENAI_COMPAT_PREFIX"
    and "ur_path u = Some (v1_path p) \<Longrightarrow> ends_with_segment u OPENAI_COMPAT_PREFIX"
proof -
  show "ur_path u = Some p \<Longrightarrow> \<not> ends_with_segment u OPENAI_COMPAT_PREFIX"
    using assms by (auto simp: proper_path_def ends_with_segment_def find_last_segment)
  show "ur_path u = Some (v1_path p) \<Longrightarrow> ends_with_segment u OPENAI_COMPAT_PREFIX"
    by (simp add: ends_with_segment_def find_last_segment last_v1_path)
qed

lemma pop_v1_path:
  assumes "url_laws L" "p \<noteq> []"
  shows "pop_segment L (v1_path p) = p"
  using assms by (simp add: url_laws_def v1_path_def)

lemma ollama_base_spelling:
  assumes L: "url_laws L" and p: "proper_path p" and q: "q \<in> spellings p" and u: "ur_path u = Some q"
  shows "ollama_base L (strip_trailing_slash L u) = u\<lparr> ur_path := Some p \<rparr>"
proof -
  have ne: "p \<noteq> []" "p = [[]] \<or> last p \<noteq> []" using p by (auto simp: proper_path_def)
  have v: "v1_path p \<noteq> []" "v1_path p = [[]] \<or> last (v1_path p) \<noteq> []" by (simp_all add: last_v1_path)
  consider "q = p \<or> q = slashed p" | "q = v1_path p \<or> q = slashed (v1_path p)"
    using q by (auto simp: spellings_def)
  then show ?thesis
  proof cases
    case 1
    then have "strip_trailing_slash L u = u\<lparr> ur_path := Some p \<rparr>"
      using pop_slashed [OF L ne] u by (auto simp: strip_trailing_slash_def)
    with p show ?thesis by (simp add: ollama_base_def ends_with_v1)
  next
    case 2
    then have s: "strip_trailing_slash L u = u\<lparr> ur_path := Some (v1_path p) \<rparr>"
      using pop_slashed [OF L v] u by (auto simp: strip_trailing_slash_def)
    have "url_parent L (u\<lparr> ur_path := Some (v1_path p) \<rparr>) = u\<lparr> ur_path := Some p \<rparr>"
      using pop_slashed(1) [OF L v] pop_v1_path [OF L ne(1)] by (simp add: url_parent_def)
    with p s show ?thesis by (simp add: ollama_base_def ends_with_v1)
  qed
qed

text \<open>Every accepted spelling of a daemon's address builds the same provider: with or without
  the \<open>/v1\<close> of the compatible dialect, with or without a trailing slash, under any mounted
  prefix, the base address is the one without both, so chat, window and digest go to the same
  endpoints, with the credentials, query and fragment of the address.\<close>

theorem ollama_spellings:
  assumes "url_laws L" "proper_path p" "q \<in> spellings p"
    and "parse_url L raw = Ok u" "ur_path u = Some q" "ur_scheme u \<in> {asc ''http'', asc ''https''}"
    and "build t = Ok ()"
  shows "ollama_with_timeout L build raw model t
     = Ok \<lparr> op_base_url = u\<lparr> ur_path := Some p \<rparr>, op_model = model \<rparr>"
proof -
  have "provider_url_parse L raw = Ok (strip_trailing_slash L u)"
    using assms(4,6) by (auto simp: provider_url_parse_def)
  then show ?thesis
    using ollama_base_spelling [OF assms(1-3,5)] assms(7) by (simp add: ollama_with_timeout_def)
qed

text \<open>A library that reads every text as the number 0, which has no fields.\<close>

definition example_json :: "nat json_lib" where
  "example_json = \<lparr> js_response = (\<lambda>_. None), js_error = (\<lambda>_. None), js_value = (\<lambda>_. Some 0),
     js_get = (\<lambda>_ _. None), js_entries = (\<lambda>_. None), js_items = (\<lambda>_. None), js_text = (\<lambda>_. None),
     js_u64 = Some \<rparr>"

definition example_daemon :: "ustr list \<Rightarrow> url" where
  "example_daemon p = \<lparr> ur_scheme = asc ''http'', ur_username = [], ur_password = None,
     ur_host = asc ''localhost:11434'', ur_path = Some p, ur_query = None, ur_fragment = None \<rparr>"

theorem ollama_spellings_witness:
  "ollama_with_timeout (plain_url_lib (\<lambda>_. Ok (example_daemon [asc ''v1'', []]))) (\<lambda>_. Ok ())
     (asc ''http://localhost:11434/v1/'') (asc ''m'') 1
   = Ok \<lparr> op_base_url = example_daemon [[]], op_model = asc ''m'' \<rparr>"
proof -
  have "[asc ''v1'', []] \<in> spellings [[]]"
    by (simp add: spellings_def slashed_def v1_path_def OPENAI_COMPAT_PREFIX_def)
  moreover have "proper_path [[]]" by (simp add: proper_path_def)
  ultimately show ?thesis
    using ollama_spellings [OF plain_url_laws [of "\<lambda>_. Ok (example_daemon [asc ''v1'', []])"],
        of "[[]]" "[asc ''v1'', []]" "asc ''http://localhost:11434/v1/''" "example_daemon [asc ''v1'', []]"
        "\<lambda>_. Ok ()" 1 "asc ''m''"]
    by (simp add: plain_url_lib_def example_daemon_def)
qed

end
