(* ===== verification/Openai_Compat.thy ===== *)
theory Openai_Compat
  imports Http_Backend
begin

text \<open>
  The provider for OpenAI-compatible endpoints (\<open>src/src/providers/openai_compat.rs\<close>): the
  wire types, the two dialects of the token cap, the request with its authorisation header and
  the reading of a completion. What \<open>serde_json\<close> makes of a body is a parameter.
\<close>

section \<open>The request\<close>

datatype dialect = MaxTokens | MaxCompletionTokens

datatype token_cap = CapMaxTokens nat | CapMaxCompletionTokens nat

text \<open>The key the cap is serialised under, and its value.\<close>

fun token_cap_field :: "token_cap \<Rightarrow> ustr \<times> nat" where
  "token_cap_field (CapMaxTokens n) = (asc ''max_tokens'', n)"
| "token_cap_field (CapMaxCompletionTokens n) = (asc ''max_completion_tokens'', n)"

record openai_message =
  om_role :: ustr
  om_content :: ustr

record openai_request =
  oq_model :: ustr
  oq_messages :: "openai_message list"
  oq_cap :: token_cap
  oq_temperature :: f64

record openai_provider =
  oc_base_url :: url
  oc_model :: ustr
  oc_api_key :: "ustr option"
  oc_dialect :: dialect

definition openai_from_authority ::
  "client_builder \<Rightarrow> url \<Rightarrow> ustr \<Rightarrow> ustr option \<Rightarrow> dialect \<Rightarrow> duration \<Rightarrow> (openai_provider, provider_error) result" where
  "openai_from_authority build base_url model api_key dialect timeout =
     (case build timeout of
        Err e \<Rightarrow> Err (client_build_error e)
      | Ok _ \<Rightarrow> Ok \<lparr> oc_base_url = base_url, oc_model = model, oc_api_key = api_key, oc_dialect = dialect \<rparr>)"

definition openai_with_dialect ::
  "url_lib \<Rightarrow> client_builder \<Rightarrow> ustr \<Rightarrow> ustr \<Rightarrow> ustr option \<Rightarrow> dialect \<Rightarrow> duration
     \<Rightarrow> (openai_provider, provider_error) result" where
  "openai_with_dialect L build base_url model api_key dialect timeout =
     and_then (provider_url_parse L base_url) (\<lambda>u.
       openai_from_authority build u model api_key dialect timeout)"

definition openai_with_timeout ::
  "url_lib \<Rightarrow> client_builder \<Rightarrow> ustr \<Rightarrow> ustr \<Rightarrow> ustr option \<Rightarrow> duration
     \<Rightarrow> (openai_provider, provider_error) result" where
  "openai_with_timeout L build base_url model api_key timeout =
     openai_with_dialect L build base_url model api_key MaxTokens timeout"

definition openai_new ::
  "url_lib \<Rightarrow> client_builder \<Rightarrow> ustr \<Rightarrow> ustr \<Rightarrow> ustr option \<Rightarrow> (openai_provider, provider_error) result" where
  "openai_new L build base_url model api_key =
     openai_with_timeout L build base_url model api_key DEFAULT_CLIENT_TIMEOUT"

fun dbg_dialect :: "dialect \<Rightarrow> ustr" where
  "dbg_dialect MaxTokens = asc ''MaxTokens''"
| "dbg_dialect MaxCompletionTokens = asc ''MaxCompletionTokens''"

definition dbg_openai :: "rust_fmt \<Rightarrow> url_lib \<Rightarrow> openai_provider \<Rightarrow> ustr" where
  "dbg_openai F L p =
     asc ''OpenAiCompatibleProvider { base_url: '' @ dbg_provider_url F L (oc_base_url p)
     @ asc '', model: '' @ dbg_str F (oc_model p)
     @ asc '', api_key: '' @ dbg_str F (asc ''[REDACTED]'')
     @ asc '', dialect: '' @ dbg_dialect (oc_dialect p) @ asc '' }''"

definition auth_header :: "openai_provider \<Rightarrow> (ustr \<times> ustr) option" where
  "auth_header p = map_option (\<lambda>k. (asc ''Authorization'', asc ''Bearer '' @ k)) (oc_api_key p)"

definition openai_status_error :: "nat \<Rightarrow> ustr \<Rightarrow> ustr list \<Rightarrow> nat option \<Rightarrow> provider_error" where
  "openai_status_error status body retry_after received_at =
     (if status = 401 \<or> status = 403 then Auth body else Http status body retry_after received_at)"

definition openai_request_body ::
  "openai_provider \<Rightarrow> ustr \<Rightarrow> ustr \<Rightarrow> completion_config \<Rightarrow> openai_request" where
  "openai_request_body p system_prompt user_prompt cfg =
     (let cap = (case oc_dialect p of
            MaxTokens \<Rightarrow> CapMaxTokens (cc_max_tokens cfg)
          | MaxCompletionTokens \<Rightarrow> CapMaxCompletionTokens (cc_max_tokens cfg))
      in \<lparr> oq_model = oc_model p,
           oq_messages = [\<lparr> om_role = asc ''system'', om_content = system_prompt \<rparr>,
                          \<lparr> om_role = asc ''user'', om_content = user_prompt \<rparr>],
           oq_cap = cap, oq_temperature = cc_temperature cfg \<rparr>)"

section \<open>The response\<close>

record openai_resp_message =
  orm_content :: "ustr option"
  orm_reasoning :: "ustr option"

record openai_choice =
  och_message :: openai_resp_message
  och_finish_reason :: "finish_reason option"

record openai_usage =
  ous_completion_tokens :: "nat option"
  ous_prompt_tokens :: "nat option"

record openai_response =
  ors_choices :: "openai_choice list"
  ors_usage :: "openai_usage option"

definition COMPAT_BACKEND_NAME :: ustr where "COMPAT_BACKEND_NAME = asc ''openai-compatible''"

definition openai_usage_default :: openai_usage where
  "openai_usage_default = \<lparr> ous_completion_tokens = None, ous_prompt_tokens = None \<rparr>"

fun compat_reasoning :: "reasoning_control \<Rightarrow> bool \<Rightarrow> ustr option \<Rightarrow> reasoning_state" where
  "compat_reasoning RcDisabled trace seen =
     Unsupported COMPAT_BACKEND_NAME (map_option length seen) (if trace then seen else None)"
| "compat_reasoning RcDefault trace (Some s) = Measured (length s) (if trace then Some s else None)"
| "compat_reasoning RcDefault trace None = NotMeasured"

definition openai_into_completion ::
  "openai_response \<Rightarrow> nat \<Rightarrow> bool \<Rightarrow> reasoning_control \<Rightarrow> (completion, provider_error) result" where
  "openai_into_completion r cap trace control =
     (let usage = (case ors_usage r of Some u \<Rightarrow> u | None \<Rightarrow> openai_usage_default)
      in case ors_choices r of
           [] \<Rightarrow> Err (ResponseContract NoMessage [])
         | choice # _ \<Rightarrow>
             let content = unwrap_or_empty (orm_content (och_message choice));
                 reasoning = compat_reasoning control trace (orm_reasoning (och_message choice));
                 t0 = with_reasoning reasoning unmeasured;
                 t1 = if_measured with_finish (och_finish_reason choice) t0;
                 t2 = if_measured with_completion_tokens (ous_completion_tokens usage) t1;
                 t3 = if_measured with_prompt_tokens (ous_prompt_tokens usage) t2
             in if trim content = [] then Err (EmptyCompletion t3 cap)
                else Ok (with_telemetry t3 (completion_new content)))"

section \<open>A completion\<close>

definition openai_chat_request ::
  "url_lib \<Rightarrow> openai_provider \<Rightarrow> ustr \<Rightarrow> ustr \<Rightarrow> completion_config \<Rightarrow> openai_request provider_request" where
  "openai_chat_request L p system_prompt user_prompt cfg =
     (let req = request_json (openai_request_body p system_prompt user_prompt cfg)
                  (url_request L (oc_base_url p) POST [asc ''chat'', asc ''completions''])
      in case auth_header p of
           Some (name, v) \<Rightarrow> request_header name v req
         | None \<Rightarrow> req)"

definition openai_decode ::
  "(ustr \<Rightarrow> openai_response option) \<Rightarrow> completion_config \<Rightarrow> ustr \<Rightarrow> (completion, provider_error) result" where
  "openai_decode from_str cfg body =
     (case from_str body of
        None \<Rightarrow> Err (ResponseContract Unreadable [])
      | Some parsed \<Rightarrow>
          openai_into_completion parsed (cc_max_tokens cfg) (cc_reasoning_trace cfg) (cc_reasoning cfg))"

definition openai_complete ::
  "(ustr \<Rightarrow> openai_response option) \<Rightarrow> url_lib \<Rightarrow> openai_provider \<Rightarrow> ustr \<Rightarrow> ustr \<Rightarrow> completion_config
     \<Rightarrow> openai_request http_client \<Rightarrow> nat \<Rightarrow> (completion, provider_error) result" where
  "openai_complete from_str L p system_prompt user_prompt cfg client received_at =
     and_then (send client (openai_chat_request L p system_prompt user_prompt cfg)) (\<lambda>response.
       let status = prs_status response; retry_after = retry_after_raw response
       in if \<not> is_success status
          then let response_body = read_diagnostic_body response
               in Err (openai_status_error status response_body retry_after (Some received_at))
          else and_then (read_verdict_body response (cc_max_tokens cfg)) (openai_decode from_str cfg))"

section \<open>What a completion carries\<close>

definition compat_telemetry :: "openai_response \<Rightarrow> openai_choice \<Rightarrow> completion_config \<Rightarrow> telemetry" where
  "compat_telemetry r ch cfg =
     (let usage = (case ors_usage r of Some u \<Rightarrow> u | None \<Rightarrow> openai_usage_default)
      in \<lparr> tm_finish = och_finish_reason ch, tm_completion_tokens = ous_completion_tokens usage,
           tm_prompt_tokens = ous_prompt_tokens usage,
           tm_reasoning = compat_reasoning (cc_reasoning cfg) (cc_reasoning_trace cfg)
             (orm_reasoning (och_message ch)) \<rparr>)"

lemma openai_decode_eq:
  "openai_decode from_str cfg body =
     (case from_str body of
        None \<Rightarrow> Err (ResponseContract Unreadable [])
      | Some r \<Rightarrow> case ors_choices r of
          [] \<Rightarrow> Err (ResponseContract NoMessage [])
        | ch # _ \<Rightarrow> let content = unwrap_or_empty (orm_content (och_message ch)) in
            if trim content = [] then Err (EmptyCompletion (compat_telemetry r ch cfg) (cc_max_tokens cfg))
            else Ok \<lparr> cp_text = content, cp_telemetry = compat_telemetry r ch cfg \<rparr>)"
  by (simp add: openai_decode_def openai_into_completion_def Let_def telemetry_built
      compat_telemetry_def with_telemetry_def completion_new_def split: option.split list.split)

lemma openai_decode_Ok:
  "openai_decode from_str cfg body = Ok c \<longleftrightarrow>
     (\<exists>r ch chs. from_str body = Some r \<and> ors_choices r = ch # chs \<and> trim (cp_text c) \<noteq> []
        \<and> cp_text c = unwrap_or_empty (orm_content (och_message ch))
        \<and> cp_telemetry c = compat_telemetry r ch cfg)"
  by (cases c) (auto simp: openai_decode_eq Let_def split: option.splits list.splits if_splits)

lemma openai_decode_Err:
  "openai_decode from_str cfg body = Err e \<Longrightarrow> decode_error (cc_max_tokens cfg) e \<and> (\<forall>d. e \<noteq> NoGeneration d)"
  by (auto simp: openai_decode_eq Let_def split: option.splits list.splits if_splits)

interpretation openai: http_backend "openai_chat_request L p sys usr cfg"
  "\<lambda>st b ra now. openai_status_error st b ra (Some now)"
  "openai_decode from_str cfg" "cc_max_tokens cfg" "openai_complete from_str L p sys usr cfg"
  for from_str L p sys usr cfg
proof unfold_locales
  fix client now
  show "openai_complete from_str L p sys usr cfg client now =
      and_then (send client (openai_chat_request L p sys usr cfg)) (\<lambda>r.
        if \<not> is_success (prs_status r)
        then Err (openai_status_error (prs_status r) (read_diagnostic_body r) (retry_after_raw r) (Some now))
        else and_then (read_verdict_body r (cc_max_tokens cfg)) (openai_decode from_str cfg))"
    unfolding openai_complete_def Let_def by (rule refl)
qed (auto simp: openai_status_error_def auth_status_def openai_decode_Ok dest: openai_decode_Err)

text \<open>The budget of the configuration is sent under the key of the dialect, and the key of the
  account travels in the header alone.\<close>

lemma openai_cap_field:
  "token_cap_field (oq_cap (openai_request_body p s u cfg)) =
     ((case oc_dialect p of MaxTokens \<Rightarrow> asc ''max_tokens'' | MaxCompletionTokens \<Rightarrow> asc ''max_completion_tokens''),
      cc_max_tokens cfg)"
  by (simp add: openai_request_body_def Let_def split: dialect.split)

lemma openai_request_headers:
  "rq_headers (prq_inner (openai_chat_request L p s u cfg)) =
     (case oc_api_key p of None \<Rightarrow> [] | Some k \<Rightarrow> [(asc ''Authorization'', asc ''Bearer '' @ k)])"
  "prq_redacted_url (openai_chat_request L p s u cfg) = redacted L (oc_base_url p)"
  by (simp_all add: openai_chat_request_def auth_header_def url_request_def request_json_def
      request_header_def Let_def split: option.split)

end
