(* ===== verification/Claude.thy ===== *)
theory Claude
  imports Http_Backend
begin

text \<open>
  The provider for the Claude API (\<open>src/src/providers/claude.rs\<close>): its request, the
  assembling of a completion from content blocks with the measurement of the reasoning, and the
  routing of an answer without text to one of two errors. What \<open>serde_json\<close> makes of a
  body is a parameter.
\<close>

section \<open>The request\<close>

definition API_BASE_URL :: ustr where "API_BASE_URL = asc ''https://api.anthropic.com/v1/messages''"
definition ANTHROPIC_VERSION :: ustr where "ANTHROPIC_VERSION = asc ''2023-06-01''"

record claude_provider =
  cl_endpoint :: url
  cl_api_key :: ustr
  cl_model :: ustr

definition claude_with_timeout ::
  "url_lib \<Rightarrow> client_builder \<Rightarrow> ustr \<Rightarrow> ustr \<Rightarrow> duration \<Rightarrow> (claude_provider, provider_error) result" where
  "claude_with_timeout L build api_key model timeout =
     and_then (resolve_claude_alias model) (\<lambda>model_id.
     and_then (map_err client_build_error (build timeout)) (\<lambda>_.
     and_then (provider_url_parse L API_BASE_URL) (\<lambda>endpoint.
       Ok \<lparr> cl_endpoint = endpoint, cl_api_key = api_key, cl_model = model_id \<rparr>)))"

definition claude_new ::
  "url_lib \<Rightarrow> client_builder \<Rightarrow> ustr \<Rightarrow> ustr \<Rightarrow> (claude_provider, provider_error) result" where
  "claude_new L build api_key model = claude_with_timeout L build api_key model DEFAULT_CLIENT_TIMEOUT"

definition dbg_claude :: "rust_fmt \<Rightarrow> claude_provider \<Rightarrow> ustr" where
  "dbg_claude F p =
     asc ''ClaudeProvider { model: '' @ dbg_str F (cl_model p)
     @ asc '', api_key: '' @ dbg_str F (asc ''[REDACTED]'') @ asc '' }''"

record claude_message =
  clm_role :: ustr
  clm_content :: ustr

record claude_request =
  clq_model :: ustr
  clq_max_tokens :: nat
  clq_temperature :: f64
  clq_system :: ustr
  clq_messages :: "claude_message list"

definition claude_request_body ::
  "claude_provider \<Rightarrow> ustr \<Rightarrow> ustr \<Rightarrow> completion_config \<Rightarrow> claude_request" where
  "claude_request_body p system_prompt user_prompt cfg =
     \<lparr> clq_model = cl_model p, clq_max_tokens = cc_max_tokens cfg, clq_temperature = cc_temperature cfg,
       clq_system = system_prompt,
       clq_messages = [\<lparr> clm_role = asc ''user'', clm_content = user_prompt \<rparr>] \<rparr>"

definition claude_status_error :: "nat \<Rightarrow> ustr \<Rightarrow> ustr list \<Rightarrow> nat option \<Rightarrow> provider_error" where
  "claude_status_error status body retry_after received_at =
     (if status = 401 \<or> status = 403 then Auth body else Http status body retry_after received_at)"

section \<open>The response\<close>

record content_block =
  cb_type :: ustr
  cb_text :: "ustr option"
  cb_thinking :: "ustr option"

record claude_usage =
  clu_output_tokens :: "nat option"
  clu_input_tokens :: "nat option"

record claude_response =
  clr_content :: "content_block list"
  clr_stop_reason :: "ustr option"
  clr_usage :: "claude_usage option"

definition budget_routes_here :: "telemetry \<Rightarrow> bool" where
  "budget_routes_here t =
     (case budget_bearing_of t of MayExplain \<Rightarrow> True | RuledOut \<Rightarrow> False | Unknown \<Rightarrow> False)"

definition is_text_block :: "content_block \<Rightarrow> bool" where
  "is_text_block b \<longleftrightarrow> cb_type b = asc ''text''"

definition is_thinking_block :: "content_block \<Rightarrow> bool" where
  "is_thinking_block b \<longleftrightarrow> cb_type b = asc ''thinking'' \<or> cb_type b = asc ''redacted_thinking''"

text \<open>The loop carries whether a text block was seen and the text so far.\<close>

definition claude_text_of :: "content_block list \<Rightarrow> ustr option" where
  "claude_text_of content =
     (let (seen, out) = fold (\<lambda>b (seen, out).
            if \<not> is_text_block b then (seen, out)
            else (True, case cb_text b of Some t \<Rightarrow> out @ t | None \<Rightarrow> out)) content (False, [])
      in if seen then Some out else None)"

text \<open>Whether there was a thinking block, whether one could not be read, and the readable text.\<close>

definition thinking_loop :: "content_block list \<Rightarrow> bool \<times> bool \<times> ustr" where
  "thinking_loop content =
     fold (\<lambda>b (any_block, any_unreadable, readable).
       case cb_thinking b of
         Some t \<Rightarrow> (True, any_unreadable, readable @ t)
       | None \<Rightarrow> (True, True, readable)) (filter is_thinking_block content) (False, False, [])"

definition readable_thinking :: "content_block list \<Rightarrow> ustr option" where
  "readable_thinking content =
     (let (any_block, any_unreadable, readable) = thinking_loop content
      in if any_block \<and> \<not> any_unreadable then Some readable else None)"

fun claude_reasoning :: "reasoning_control \<Rightarrow> bool \<Rightarrow> ustr option \<Rightarrow> reasoning_state" where
  "claude_reasoning RcDisabled trace readable =
     Unsupported (asc ''anthropic'') (map_option length readable) (if trace then readable else None)"
| "claude_reasoning RcDefault trace (Some t) = Measured (length t) (if trace then Some t else None)"
| "claude_reasoning RcDefault trace None = NotMeasured"

definition no_message_detail :: "rust_fmt \<Rightarrow> telemetry \<Rightarrow> ustr list \<Rightarrow> ustr" where
  "no_message_detail F t block_types =
     asc ''no usable text; termination '' @ dbg_option (dbg_finish F) (tm_finish t)
     @ asc '', blocks ['' @ join (asc '', '') block_types
     @ asc ''], completion_tokens '' @ dbg_option show_nat (tm_completion_tokens t)
     @ asc '', reasoning '' @ measurement (tm_reasoning t)"

definition claude_parse_completion ::
  "rust_fmt \<Rightarrow> (ustr \<Rightarrow> claude_response option) \<Rightarrow> ustr \<Rightarrow> reasoning_control \<Rightarrow> nat \<Rightarrow> bool
     \<Rightarrow> (completion, provider_error) result" where
  "claude_parse_completion F from_str body reasoning cap trace =
     (case from_str body of
        None \<Rightarrow> Err (ResponseContract Unreadable [])
      | Some response \<Rightarrow>
          let t0 = if_measured (\<lambda>raw. with_finish (finish_from_wire raw)) (clr_stop_reason response) unmeasured;
              t1 = (case clr_usage response of
                      None \<Rightarrow> t0
                    | Some usage \<Rightarrow> if_measured with_prompt_tokens (clu_input_tokens usage)
                                      (if_measured with_completion_tokens (clu_output_tokens usage) t0));
              had_content = (clr_content response \<noteq> []);
              block_types = map cb_type (clr_content response);
              had_non_text = list_ex (\<lambda>b. \<not> is_text_block b) (clr_content response);
              readable = readable_thinking (clr_content response);
              t2 = with_reasoning (claude_reasoning reasoning trace readable) t1
          in case claude_text_of (clr_content response) of
               Some t \<Rightarrow>
                 if trim t \<noteq> [] then Ok (with_telemetry t2 (completion_new t))
                 else if had_content \<and> (budget_routes_here t2 \<or> \<not> had_non_text)
                 then Err (EmptyCompletion t2 cap)
                 else Err (response_contract NoMessage (no_message_detail F t2 block_types))
             | None \<Rightarrow>
                 if had_content \<and> (budget_routes_here t2 \<or> \<not> had_non_text)
                 then Err (EmptyCompletion t2 cap)
                 else Err (response_contract NoMessage (no_message_detail F t2 block_types)))"

section \<open>A completion\<close>

definition claude_chat_request ::
  "url_lib \<Rightarrow> claude_provider \<Rightarrow> ustr \<Rightarrow> ustr \<Rightarrow> completion_config \<Rightarrow> claude_request provider_request" where
  "claude_chat_request L p system_prompt user_prompt cfg =
     request_json (claude_request_body p system_prompt user_prompt cfg)
       (request_header (asc ''anthropic-version'') ANTHROPIC_VERSION
         (request_header (asc ''x-api-key'') (cl_api_key p)
           (url_request L (cl_endpoint p) POST [])))"

definition claude_complete ::
  "rust_fmt \<Rightarrow> (ustr \<Rightarrow> claude_response option) \<Rightarrow> url_lib \<Rightarrow> claude_provider \<Rightarrow> ustr \<Rightarrow> ustr
     \<Rightarrow> completion_config \<Rightarrow> claude_request http_client \<Rightarrow> nat \<Rightarrow> (completion, provider_error) result" where
  "claude_complete F from_str L p system_prompt user_prompt cfg client received_at =
     and_then (send client (claude_chat_request L p system_prompt user_prompt cfg)) (\<lambda>response.
       let status = prs_status response; retry_after = retry_after_raw response
       in if \<not> is_success status
          then let response_body = read_diagnostic_body response
               in Err (claude_status_error status response_body retry_after (Some received_at))
          else and_then (read_verdict_body response (cc_max_tokens cfg)) (\<lambda>response_body.
                 claude_parse_completion F from_str response_body (cc_reasoning cfg)
                   (cc_max_tokens cfg) (cc_reasoning_trace cfg)))"

section \<open>What the loops compute\<close>

lemma claude_text_of_eq:
  "claude_text_of content =
     (if list_ex is_text_block content
      then Some (concat (map (\<lambda>b. unwrap_or_empty (cb_text b)) (filter is_text_block content)))
      else None)"
proof -
  have "fold (\<lambda>b (seen, out). if \<not> is_text_block b then (seen, out)
            else (True, case cb_text b of Some t \<Rightarrow> out @ t | None \<Rightarrow> out)) bs (s, a)
     = (s \<or> list_ex is_text_block bs,
        a @ concat (map (\<lambda>b. unwrap_or_empty (cb_text b)) (filter is_text_block bs)))" for bs s a
    by (induction bs arbitrary: s a) (auto simp: unwrap_or_empty_def split: option.splits)
  then show ?thesis by (simp add: claude_text_of_def)
qed

lemma thinking_fold:
  "fold (\<lambda>b (any_block, any_unreadable, readable).
       case cb_thinking b of Some t \<Rightarrow> (True, any_unreadable, readable @ t)
       | None \<Rightarrow> (True, True, readable)) bs (s, u, a)
   = (s \<or> bs \<noteq> [], u \<or> None \<in> set (map cb_thinking bs),
      a @ concat (map (\<lambda>b. unwrap_or_empty (cb_thinking b)) bs))"
  by (induction bs arbitrary: s u a) (auto simp: unwrap_or_empty_def split: option.splits)

lemma unwrap_all:
  "None \<notin> set (map cb_thinking bs) \<Longrightarrow>
     map (\<lambda>b. unwrap_or_empty (cb_thinking b)) bs = map the (map cb_thinking bs)"
  by (induction bs) (auto simp: unwrap_or_empty_def split: option.splits)

lemma readable_thinking_eq:
  "readable_thinking content =
     (let ts = map cb_thinking (filter is_thinking_block content)
      in if ts \<noteq> [] \<and> None \<notin> set ts then Some (concat (map the ts)) else None)"
proof -
  let ?bs = "filter is_thinking_block content"
  have "thinking_loop content = (?bs \<noteq> [], None \<in> set (map cb_thinking ?bs),
      concat (map (\<lambda>b. unwrap_or_empty (cb_thinking b)) ?bs))"
    unfolding thinking_loop_def thinking_fold by simp
  note loop = this
  show ?thesis
  proof (cases "None \<in> set (map cb_thinking ?bs)")
    case True
    then show ?thesis unfolding readable_thinking_def Let_def loop by simp
  next
    case False
    show ?thesis unfolding readable_thinking_def Let_def loop unwrap_all [OF False] using False by simp
  qed
qed

section \<open>What a completion carries\<close>

definition claude_telemetry :: "claude_response \<Rightarrow> reasoning_control \<Rightarrow> bool \<Rightarrow> telemetry" where
  "claude_telemetry r reasoning trace =
     \<lparr> tm_finish = map_option finish_from_wire (clr_stop_reason r),
       tm_completion_tokens = Option.bind (clr_usage r) clu_output_tokens,
       tm_prompt_tokens = Option.bind (clr_usage r) clu_input_tokens,
       tm_reasoning = claude_reasoning reasoning trace (readable_thinking (clr_content r)) \<rparr>"

lemma claude_telemetry_built:
  "with_reasoning x (case clr_usage r of
       None \<Rightarrow> if_measured (\<lambda>raw. with_finish (finish_from_wire raw)) (clr_stop_reason r) unmeasured
     | Some usage \<Rightarrow> if_measured with_prompt_tokens (clu_input_tokens usage)
         (if_measured with_completion_tokens (clu_output_tokens usage)
           (if_measured (\<lambda>raw. with_finish (finish_from_wire raw)) (clr_stop_reason r) unmeasured)))
   = \<lparr> tm_finish = map_option finish_from_wire (clr_stop_reason r),
       tm_completion_tokens = Option.bind (clr_usage r) clu_output_tokens,
       tm_prompt_tokens = Option.bind (clr_usage r) clu_input_tokens, tm_reasoning = x \<rparr>"
proof -
  have "if_measured (\<lambda>raw. with_finish (finish_from_wire raw)) (clr_stop_reason r) unmeasured
      = if_measured with_finish (map_option finish_from_wire (clr_stop_reason r)) unmeasured"
    by (cases "clr_stop_reason r") simp_all
  moreover have "if_measured with_prompt_tokens None (if_measured with_completion_tokens None t) = t" for t
    by simp
  ultimately show ?thesis
    using telemetry_built(2) [of x None None "map_option finish_from_wire (clr_stop_reason r)"]
    by (cases "clr_usage r") (simp_all add: telemetry_built)
qed

definition claude_budget_or_text :: "claude_response \<Rightarrow> reasoning_control \<Rightarrow> bool \<Rightarrow> bool" where
  "claude_budget_or_text r reasoning trace \<longleftrightarrow> clr_content r \<noteq> []
     \<and> (budget_bearing_of (claude_telemetry r reasoning trace) = MayExplain
        \<or> list_all is_text_block (clr_content r))"

lemma claude_parse_eq:
  "claude_parse_completion F from_str body reasoning cap trace =
     (case from_str body of
        None \<Rightarrow> Err (ResponseContract Unreadable [])
      | Some r \<Rightarrow>
          let t = claude_telemetry r reasoning trace;
              said = concat (map (\<lambda>b. unwrap_or_empty (cb_text b)) (filter is_text_block (clr_content r)))
          in if trim said \<noteq> [] then Ok \<lparr> cp_text = said, cp_telemetry = t \<rparr>
             else if claude_budget_or_text r reasoning trace then Err (EmptyCompletion t cap)
             else Err (response_contract NoMessage (no_message_detail F t (map cb_type (clr_content r)))))"
proof (cases "from_str body")
  case (Some r)
  let ?t = "claude_telemetry r reasoning trace"
  let ?said = "concat (map (\<lambda>b. unwrap_or_empty (cb_text b)) (filter is_text_block (clr_content r)))"
  have none: "\<not> list_ex is_text_block (clr_content r) \<Longrightarrow> ?said = []"
    by (auto simp: list_ex_iff filter_empty_conv)
  have route: "clr_content r \<noteq> [] \<and> (budget_routes_here ?t \<or> \<not> list_ex (\<lambda>b. \<not> is_text_block b) (clr_content r))
      \<longleftrightarrow> claude_budget_or_text r reasoning trace"
    by (auto simp: claude_budget_or_text_def budget_routes_here_def list_ex_iff list_all_iff
        split: budget_bearing.splits)
  have "claude_parse_completion F from_str body reasoning cap trace =
      (case claude_text_of (clr_content r) of
         Some t \<Rightarrow> if trim t \<noteq> [] then Ok (with_telemetry ?t (completion_new t))
           else if claude_budget_or_text r reasoning trace then Err (EmptyCompletion ?t cap)
           else Err (response_contract NoMessage (no_message_detail F ?t (map cb_type (clr_content r))))
       | None \<Rightarrow> if claude_budget_or_text r reasoning trace then Err (EmptyCompletion ?t cap)
           else Err (response_contract NoMessage (no_message_detail F ?t (map cb_type (clr_content r)))))"
    unfolding claude_parse_completion_def Some option.case Let_def claude_telemetry_built
      claude_telemetry_def [symmetric] route by (rule refl)
  note parse = this
  show ?thesis
  proof (cases "list_ex is_text_block (clr_content r)")
    case True
    then show ?thesis unfolding parse
      by (simp add: Some claude_text_of_eq Let_def with_telemetry_def completion_new_def)
  next
    case False
    then have "trim ?said = []" using none trim_Nil by metis
    with False show ?thesis unfolding parse by (simp add: Some claude_text_of_eq Let_def)
  qed
qed (simp add: claude_parse_completion_def)

lemma claude_decode_Ok:
  "claude_parse_completion F from_str body reasoning cap trace = Ok c \<longleftrightarrow>
     (\<exists>r. from_str body = Some r \<and> trim (cp_text c) \<noteq> []
        \<and> cp_text c = concat (map (\<lambda>b. unwrap_or_empty (cb_text b)) (filter is_text_block (clr_content r)))
        \<and> cp_telemetry c = claude_telemetry r reasoning trace)"
  by (cases c) (auto simp: claude_parse_eq Let_def split: option.splits if_splits)

lemma claude_decode_Err:
  "claude_parse_completion F from_str body reasoning cap trace = Err e \<Longrightarrow>
     decode_error cap e \<and> (\<forall>d. e \<noteq> NoGeneration d)"
  by (auto simp: claude_parse_eq Let_def response_contract_def split: option.splits if_splits)

interpretation claude: http_backend "claude_chat_request L p sys usr cfg"
  "\<lambda>st b ra now. claude_status_error st b ra (Some now)"
  "\<lambda>body. claude_parse_completion F from_str body (cc_reasoning cfg) (cc_max_tokens cfg) (cc_reasoning_trace cfg)"
  "cc_max_tokens cfg" "claude_complete F from_str L p sys usr cfg"
  for F from_str L p sys usr cfg
proof unfold_locales
  fix client now
  show "claude_complete F from_str L p sys usr cfg client now =
      and_then (send client (claude_chat_request L p sys usr cfg)) (\<lambda>r.
        if \<not> is_success (prs_status r)
        then Err (claude_status_error (prs_status r) (read_diagnostic_body r) (retry_after_raw r) (Some now))
        else and_then (read_verdict_body r (cc_max_tokens cfg)) (\<lambda>body.
          claude_parse_completion F from_str body (cc_reasoning cfg) (cc_max_tokens cfg) (cc_reasoning_trace cfg)))"
    unfolding claude_complete_def Let_def by (rule refl)
qed (auto simp: claude_status_error_def auth_status_def claude_decode_Ok dest: claude_decode_Err)

lemma budget_may_explain: "budget_bearing_of t = MayExplain \<longleftrightarrow> tm_finish t \<in> {None, Some Length}"
  by (auto simp: budget_bearing_of_def split: option.splits finish_reason.splits)

text \<open>A decoded answer of the Claude API ends in exactly one of three ways: the text of all its
  text blocks, when that is not blank; an empty completion with the telemetry and the budget,
  when there is content and the budget may explain the silence or no other block does; and a
  contract violation with a bounded detail otherwise. In no case is a defect of the crate
  claimed.\<close>

theorem claude_answer_routed:
  assumes "from_str body = Some r"
    and "said = concat (map (\<lambda>b. unwrap_or_empty (cb_text b)) (filter is_text_block (clr_content r)))"
    and "t = claude_telemetry r reasoning trace"
  shows "claude_parse_completion F from_str body reasoning cap trace =
     (if trim said \<noteq> [] then Ok \<lparr> cp_text = said, cp_telemetry = t \<rparr>
      else if clr_content r \<noteq> [] \<and>
        (tm_finish t \<in> {None, Some Length} \<or> set (map cb_type (clr_content r)) = {asc ''text''})
      then Err (EmptyCompletion t cap)
      else Err (ResponseContract NoMessage
        (take MAX_CONTRACT_DETAIL_CHARS (no_message_detail F t (map cb_type (clr_content r))))))"
proof -
  have "claude_budget_or_text r reasoning trace \<longleftrightarrow> clr_content r \<noteq> [] \<and>
        (tm_finish t \<in> {None, Some Length} \<or> set (map cb_type (clr_content r)) = {asc ''text''})"
    using assms(3) by (cases "clr_content r")
      (auto simp: claude_budget_or_text_def budget_may_explain is_text_block_def list_all_iff)
  then show ?thesis
    unfolding claude_parse_eq assms(1) option.case Let_def assms(2,3)
    by (simp add: response_contract_def)
qed

theorem claude_answer_routed_witness:
  "claude_parse_completion plain_fmt
     (\<lambda>_. Some \<lparr> clr_content = [\<lparr> cb_type = asc ''thinking'', cb_text = None, cb_thinking = Some (asc ''hm'') \<rparr>,
         \<lparr> cb_type = asc ''text'', cb_text = None, cb_thinking = None \<rparr>],
       clr_stop_reason = Some (asc ''max_tokens''), clr_usage = None \<rparr>) [] RcDefault 50 False
   = Err (EmptyCompletion \<lparr> tm_finish = Some Length, tm_completion_tokens = None,
       tm_prompt_tokens = None, tm_reasoning = Measured 2 None \<rparr> 50)"
  by (subst claude_answer_routed [OF refl refl refl])
    (simp add: claude_telemetry_def readable_thinking_eq is_thinking_block_def is_text_block_def
      unwrap_or_empty_def finish_from_wire_def STOP_WORDS_def LENGTH_WORDS_def)

end
