(* ===== verification/Claude_Cli.thy ===== *)
theory Claude_Cli
  imports Provider_Url
begin

text \<open>
  The provider that runs the Claude command line tool
  (\<open>src/src/providers/claude_cli.rs\<close>): its construction, the concurrent writing of the
  prompt and reaping of the child, the classification of what came back and the bounded
  diagnoses. The child process is a parameter: how it takes its input and what each poll of its
  two futures answers. What \<open>serde_json\<close> makes of its output is a parameter too. The
  message of an I/O error is a text. Log lines are not modelled.
\<close>

section \<open>The provider\<close>

record cli_provider =
  cli_model_id :: ustr
  cli_binary :: ustr

definition DEFAULT_BINARY :: ustr where "DEFAULT_BINARY = asc ''claude''"

text \<open>The environment gives the value of a variable that is set and is text.\<close>

definition cli_with_binary ::
  "(ustr \<Rightarrow> ustr option) \<Rightarrow> ustr \<Rightarrow> ustr \<Rightarrow> (cli_provider, provider_error) result" where
  "cli_with_binary env binary model =
     (if env (asc ''CLAUDECODE'') \<noteq> None then Err NestedSession
      else and_then (resolve_claude_alias model) (\<lambda>model_id.
        Ok \<lparr> cli_model_id = model_id, cli_binary = binary \<rparr>))"

definition cli_new :: "(ustr \<Rightarrow> ustr option) \<Rightarrow> ustr \<Rightarrow> (cli_provider, provider_error) result" where
  "cli_new env model =
     (if env (asc ''CLAUDECODE'') \<noteq> None then Err NestedSession
      else and_then (resolve_claude_alias model) (\<lambda>model_id.
        Ok \<lparr> cli_model_id = model_id, cli_binary = DEFAULT_BINARY \<rparr>))"

definition cli_build_args :: "cli_provider \<Rightarrow> ustr \<Rightarrow> ustr list" where
  "cli_build_args p system_prompt =
     [asc ''--print'', asc ''--output-format'', asc ''json'', asc ''--model'', cli_model_id p,
      asc ''--system-prompt'', system_prompt]"

section \<open>Bounded diagnoses\<close>

definition cap_to_error_budget :: "ustr \<Rightarrow> ustr" where
  "cap_to_error_budget s =
     (if utf8_len s \<le> MAX_ERROR_BODY_PREFIX_BYTES then s
      else mark_within_cap s MAX_ERROR_BODY_PREFIX_BYTES)"

definition ENVELOPE_DIAGNOSIS_PREFIX :: ustr where
  "ENVELOPE_DIAGNOSIS_PREFIX = asc ''cli envelope: ''"
definition PROMPT_WRITE_DIAGNOSIS_PREFIX :: ustr where
  "PROMPT_WRITE_DIAGNOSIS_PREFIX = asc ''prompt write did not complete: ''"
definition REAP_DIAGNOSIS_PREFIX :: ustr where
  "REAP_DIAGNOSIS_PREFIX = asc ''child reap failed: ''"

definition label_with :: "ustr \<Rightarrow> ustr \<Rightarrow> ustr" where
  "label_with prefix rendered =
     (let cap = MAX_ERROR_BODY_PREFIX_BYTES
      in if utf8_len prefix \<ge> cap then mark_within_cap prefix cap
         else let budget = cap - utf8_len prefix
              in if utf8_len rendered \<le> budget then prefix @ rendered
                 else prefix @ mark_within_cap rendered budget)"

definition label_envelope_diagnosis :: "ustr \<Rightarrow> ustr" where
  "label_envelope_diagnosis r = label_with ENVELOPE_DIAGNOSIS_PREFIX r"
definition label_prompt_write_diagnosis :: "ustr \<Rightarrow> ustr" where
  "label_prompt_write_diagnosis e = label_with PROMPT_WRITE_DIAGNOSIS_PREFIX e"
definition label_reap_diagnosis :: "ustr \<Rightarrow> ustr" where
  "label_reap_diagnosis e = label_with REAP_DIAGNOSIS_PREFIX e"

section \<open>The envelope\<close>

datatype api_error_status = StatusAbsent | StatusUnreadable | StatusValue int

record cli_usage =
  cu_input_tokens :: "nat option"
  cu_output_tokens :: "nat option"

record cli_output =
  cv_is_error :: bool
  cv_result :: ustr
  cv_stop_reason :: "ustr option"
  cv_api_error_status :: api_error_status
  cv_usage :: "cli_usage option"

text \<open>The fields as serde reads them, the status still an untyped value \<open>'v\<close>; a text that is no
  envelope gives the message of the decoding error.\<close>

record 'v cli_wire =
  cw_is_error :: bool
  cw_result :: ustr
  cw_stop_reason :: "ustr option"
  cw_api_error_status :: "'v option"
  cw_usage :: "cli_usage option"

record 'v cli_json =
  cj_envelope :: "ustr \<Rightarrow> ('v cli_wire, ustr) result"
  cj_i64 :: "'v \<Rightarrow> int option"

definition de_api_error_status :: "'v cli_json \<Rightarrow> 'v \<Rightarrow> api_error_status" where
  "de_api_error_status J v =
     (case cj_i64 J v of Some n \<Rightarrow> StatusValue n | None \<Rightarrow> StatusUnreadable)"

definition cli_output_from_str :: "'v cli_json \<Rightarrow> ustr \<Rightarrow> (cli_output, ustr) result" where
  "cli_output_from_str J raw =
     and_then (cj_envelope J raw) (\<lambda>w.
       Ok \<lparr> cv_is_error = cw_is_error w, cv_result = cw_result w, cv_stop_reason = cw_stop_reason w,
         cv_api_error_status = (case cw_api_error_status w of
             None \<Rightarrow> StatusAbsent | Some v \<Rightarrow> de_api_error_status J v),
         cv_usage = cw_usage w \<rparr>)"

definition MIN_HTTP_STATUS :: int where "MIN_HTTP_STATUS = 100"
definition MAX_HTTP_STATUS :: int where "MAX_HTTP_STATUS = 599"

definition u16_try_from :: "int \<Rightarrow> nat option" where
  "u16_try_from n = (if 0 \<le> n \<and> n < 2 ^ 16 then Some (nat n) else None)"

definition classify_envelope_error :: "cli_output \<Rightarrow> int option \<Rightarrow> provider_error" where
  "classify_envelope_error out exit_code =
     (let status = (case cv_api_error_status out of
            StatusValue n \<Rightarrow> if MIN_HTTP_STATUS \<le> n \<and> n \<le> MAX_HTTP_STATUS then u16_try_from n else None
          | StatusUnreadable \<Rightarrow> None
          | StatusAbsent \<Rightarrow> None)
      in case status of
           Some st \<Rightarrow> Http st (cap_to_error_budget (cv_result out)) [] None
         | None \<Rightarrow> Process exit_code (label_envelope_diagnosis (cv_result out)))"

definition parse_envelope :: "'v cli_json \<Rightarrow> ustr \<Rightarrow> (cli_output, provider_error) result" where
  "parse_envelope J raw =
     (case cli_output_from_str J raw of
        Err e \<Rightarrow> Err (Process None (cap_to_error_budget (asc ''failed to parse CLI output: '' @ e)))
      | Ok out \<Rightarrow> if cv_is_error out then Err (classify_envelope_error out None) else Ok out)"

section \<open>A completion from the envelope\<close>

definition str_strip_suffix :: "ustr \<Rightarrow> ustr \<Rightarrow> ustr option" where
  "str_strip_suffix s p = (if ends_with s p then Some (take (length s - length p) s) else None)"

definition cli_strip_code_fences :: "ustr \<Rightarrow> ustr" where
  "cli_strip_code_fences s =
     (let stripped = (case str_strip_prefix s (asc ''```json'' @ [LF]) of
            Some i \<Rightarrow> Some i
          | None \<Rightarrow> str_strip_prefix s (asc ''```'' @ [LF]))
      in case stripped of
           Some i \<Rightarrow> (case str_strip_suffix i (LF # asc ''```'') of Some j \<Rightarrow> j | None \<Rightarrow> i)
         | None \<Rightarrow> s)"

fun cli_reasoning :: "reasoning_control \<Rightarrow> reasoning_state" where
  "cli_reasoning RcDisabled = Unsupported (asc ''anthropic-cli'') None None"
| "cli_reasoning RcDefault = NotMeasured"

definition cli_usage_default :: cli_usage where
  "cli_usage_default = \<lparr> cu_input_tokens = None, cu_output_tokens = None \<rparr>"

definition cli_parse_completion ::
  "'v cli_json \<Rightarrow> ustr \<Rightarrow> reasoning_control \<Rightarrow> (completion, provider_error) result" where
  "cli_parse_completion J raw reasoning =
     and_then (parse_envelope J raw) (\<lambda>out.
       let t = cli_strip_code_fences (cv_result out);
           usage = (case cv_usage out of Some u \<Rightarrow> u | None \<Rightarrow> cli_usage_default);
           t1 = if_measured with_prompt_tokens (cu_input_tokens usage) unmeasured;
           t2 = if_measured with_completion_tokens (cu_output_tokens usage) t1;
           t3 = if_measured (\<lambda>raw. with_finish (finish_from_wire raw)) (cv_stop_reason out) t2;
           t4 = with_reasoning (cli_reasoning reasoning) t3
       in Ok (with_telemetry t4 (completion_new t)))"

section \<open>The child process\<close>

datatype write_failure = Truncated ustr | Flush ustr

record process_output =
  po_code :: "int option"
  po_stdout :: "byte list"
  po_stderr :: "byte list"

definition exit_success :: "process_output \<Rightarrow> bool" where
  "exit_success out \<longleftrightarrow> po_code out = Some 0"

text \<open>The outcome of a failed child does not depend on how the write of the prompt ended, which
  is logged only.\<close>

definition classify_child_failure :: "'v cli_json \<Rightarrow> process_output \<Rightarrow> provider_error" where
  "classify_child_failure J out =
     (case cli_output_from_str J (from_utf8_lossy (po_stdout out)) of
        Ok envelope \<Rightarrow>
          if cv_is_error envelope then classify_envelope_error envelope (po_code out)
          else Process (po_code out) (label_envelope_diagnosis (cv_result envelope))
      | Err _ \<Rightarrow> Process (po_code out) (cap_to_error_budget (from_utf8_lossy (po_stderr out))))"

record child_stdin =
  cs_write_all :: "byte list \<Rightarrow> (unit, ustr) result"
  cs_shutdown :: "(unit, ustr) result"

definition write_prompt :: "child_stdin option \<Rightarrow> ustr \<Rightarrow> (unit, write_failure) result" where
  "write_prompt stdin user_prompt =
     (case stdin of
        None \<Rightarrow> Ok ()
      | Some s \<Rightarrow>
          (case cs_write_all s (as_bytes user_prompt) of
             Err e \<Rightarrow> Err (Truncated e)
           | Ok _ \<Rightarrow> map_err Flush (cs_shutdown s)))"

text \<open>The two futures are polled at every wake-up, the write first, and one that was ready is not
  polled again. A list of wake-ups says what each would answer; when it ends the call is still
  pending.\<close>

datatype 'a poll = Pending | Ready 'a

fun poll_slot :: "'a option \<Rightarrow> 'a poll \<Rightarrow> 'a option" where
  "poll_slot (Some v) p = Some v"
| "poll_slot None (Ready v) = Some v"
| "poll_slot None Pending = None"

fun poll_both :: "'a option \<Rightarrow> 'b option \<Rightarrow> ('a poll \<times> 'b poll) list \<Rightarrow> ('a \<times> 'b) option" where
  "poll_both w r [] = None"
| "poll_both w r ((pw, pr) # wakes) =
     (let write_done = poll_slot w pw; wait_done = poll_slot r pr
      in case (write_done, wait_done) of
           (Some a, Some b) \<Rightarrow> Some (a, b)
         | (a, b) \<Rightarrow> poll_both a b wakes)"

text \<open>A spawned child: its input, and per wake-up whether the write is done and what reaping says.\<close>

record child_process =
  cp_stdin :: "child_stdin option"
  cp_wakes :: "(bool \<times> (process_output, ustr) result poll) list"

definition cli_outcome ::
  "'v cli_json \<Rightarrow> reasoning_control \<Rightarrow> (unit, write_failure) result \<Rightarrow> (process_output, ustr) result
     \<Rightarrow> (completion, provider_error) result" where
  "cli_outcome J reasoning write_outcome reaped =
     (case reaped of
        Err e \<Rightarrow> Err (Process None (label_reap_diagnosis e))
      | Ok out \<Rightarrow>
          if \<not> exit_success out then Err (classify_child_failure J out)
          else case write_outcome of
                 Err (Truncated e) \<Rightarrow> Err (Process None (label_prompt_write_diagnosis e))
               | _ \<Rightarrow> cli_parse_completion J (from_utf8_lossy (po_stdout out)) reasoning)"

definition cli_complete ::
  "'v cli_json \<Rightarrow> (ustr \<Rightarrow> ustr list \<Rightarrow> (child_process, ustr) result) \<Rightarrow> cli_provider \<Rightarrow> ustr \<Rightarrow> ustr
     \<Rightarrow> completion_config \<Rightarrow> (completion, provider_error) result option" where
  "cli_complete J spawn p system_prompt user_prompt cfg =
     (case spawn (cli_binary p) (cli_build_args p system_prompt) of
        Err e \<Rightarrow> Some (Err (Process None
                   (cap_to_error_budget (asc ''failed to spawn claude process: '' @ e))))
      | Ok child \<Rightarrow>
          (let write = write_prompt (cp_stdin child) user_prompt;
               wakes = map (\<lambda>(w, r). (if w then Ready write else Pending, r)) (cp_wakes child)
           in map_option (\<lambda>(write_outcome, reaped). cli_outcome J (cc_reasoning cfg) write_outcome reaped)
                (poll_both None None wakes)))"

section \<open>Every diagnosis is bounded\<close>

lemma cap_to_error_budget_le: "utf8_len (cap_to_error_budget s) \<le> MAX_ERROR_BODY_PREFIX_BYTES"
  by (simp add: cap_to_error_budget_def mark_within_cap_le)

lemma label_with_le: "utf8_len (label_with p s) \<le> MAX_ERROR_BODY_PREFIX_BYTES"
proof (cases "utf8_len p \<ge> MAX_ERROR_BODY_PREFIX_BYTES")
  case True
  then show ?thesis by (simp add: label_with_def mark_within_cap_le)
next
  case False
  then show ?thesis
    using mark_within_cap_le [of s "MAX_ERROR_BODY_PREFIX_BYTES - utf8_len p"]
    by (auto simp: label_with_def Let_def)
qed

text \<open>The label of a diagnosis is never what is cut.\<close>

lemma label_with_prefix:
  "utf8_len p < MAX_ERROR_BODY_PREFIX_BYTES \<Longrightarrow> starts_with (label_with p s) p"
  by (auto simp: label_with_def Let_def starts_with_iff)

fun bounded_failure :: "provider_error \<Rightarrow> bool" where
  "bounded_failure (Process c t) = (utf8_len t \<le> MAX_ERROR_BODY_PREFIX_BYTES)"
| "bounded_failure (Http st b ra rcv) =
     (100 \<le> st \<and> st \<le> 599 \<and> utf8_len b \<le> MAX_ERROR_BODY_PREFIX_BYTES \<and> ra = [] \<and> rcv = None)"
| "bounded_failure _ = False"

lemma classify_envelope_bounded: "bounded_failure (classify_envelope_error out c)"
  by (auto simp: classify_envelope_error_def label_envelope_diagnosis_def label_with_le
      cap_to_error_budget_le MIN_HTTP_STATUS_def MAX_HTTP_STATUS_def u16_try_from_def Let_def
      split: api_error_status.split option.splits if_splits)

lemma classify_child_bounded: "bounded_failure (classify_child_failure J out)"
  by (auto simp: classify_child_failure_def classify_envelope_bounded label_envelope_diagnosis_def
      label_with_le cap_to_error_budget_le split: result.split)

lemma parse_envelope_bounded: "parse_envelope J raw = Err e \<Longrightarrow> bounded_failure e"
  by (auto simp: parse_envelope_def cap_to_error_budget_le classify_envelope_bounded
      split: result.splits if_splits)

lemma cli_outcome_bounded: "cli_outcome J rc w reaped = Err e \<Longrightarrow> bounded_failure e"
  by (auto simp: cli_outcome_def label_reap_diagnosis_def label_prompt_write_diagnosis_def label_with_le
      classify_child_bounded cli_parse_completion_def res_simps Let_def
      split: result.splits if_splits write_failure.splits dest: parse_envelope_bounded)

lemma cli_complete_bounded: "cli_complete J spawn p sys usr cfg = Some (Err e) \<Longrightarrow> bounded_failure e"
  by (auto simp: cli_complete_def cap_to_error_budget_le Let_def
      split: result.splits dest: cli_outcome_bounded)

text \<open>Whatever the child does, a failed call is reported as a failure of the process or as the
  status the tool reported of its own upstream call: the text is never longer than 8 KiB, a
  status is a valid one between 100 and 599, and it comes without Retry-After values and without
  a time of receipt.\<close>

theorem cli_failure_bounded:
  "case cli_complete J spawn p sys usr cfg of
     None \<Rightarrow> True
   | Some (Ok c) \<Rightarrow> True
   | Some (Err e) \<Rightarrow> bounded_failure e"
  by (auto split: option.split result.split dest: cli_complete_bounded)

section \<open>No outcome is lost\<close>

fun first_ready :: "'a poll list \<Rightarrow> 'a option" where
  "first_ready [] = None"
| "first_ready (Ready v # ps) = Some v"
| "first_ready (Pending # ps) = first_ready ps"

definition or_ready :: "'a option \<Rightarrow> 'a poll list \<Rightarrow> 'a option" where
  "or_ready d ps = (case d of Some v \<Rightarrow> Some v | None \<Rightarrow> first_ready ps)"

lemma or_ready_Cons: "or_ready d (p # ps) = or_ready (poll_slot d p) ps"
  by (cases d; cases p) (simp_all add: or_ready_def)

lemma or_ready_Some [simp]: "or_ready (Some v) ps = Some v"
  by (simp add: or_ready_def)

lemma poll_both_eq:
  "w = None \<or> r = None \<Longrightarrow> poll_both w r wakes =
     (case (or_ready w (map fst wakes), or_ready r (map snd wakes)) of
        (Some a, Some b) \<Rightarrow> Some (a, b) | _ \<Rightarrow> None)"
proof (induction w r wakes rule: poll_both.induct)
  case (1 w r)
  then show ?case by (auto simp: or_ready_def split: option.split)
next
  case (2 w r pw pr wakes)
  let ?w = "poll_slot w pw" and ?r = "poll_slot r pr"
  show ?case
  proof (cases "?w = None \<or> ?r = None")
    case True
    then have "poll_both w r ((pw, pr) # wakes) = poll_both ?w ?r wakes"
      by (auto simp: Let_def split: option.split)
    with 2(1,2) True show ?thesis
      by (cases ?w; cases ?r) (auto simp: or_ready_Cons Let_def)
  next
    case False
    then show ?thesis by (auto simp: or_ready_Cons Let_def)
  qed
qed

lemma poll_both_start:
  "poll_both None None wakes =
     (case (first_ready (map fst wakes), first_ready (map snd wakes)) of
        (Some a, Some b) \<Rightarrow> Some (a, b) | _ \<Rightarrow> None)"
  by (simp add: poll_both_eq or_ready_def)

lemma first_ready_flags:
  "first_ready (map (\<lambda>x. if f x then Ready v else Pending) xs) = (if list_ex f xs then Some v else None)"
  by (induction xs) auto

definition prompt_delivered :: "(unit, write_failure) result \<Rightarrow> bool" where
  "prompt_delivered w \<longleftrightarrow> (\<forall>e. w \<noteq> Err (Truncated e))"

definition cli_telemetry :: "cli_output \<Rightarrow> reasoning_control \<Rightarrow> telemetry" where
  "cli_telemetry out reasoning =
     \<lparr> tm_finish = map_option finish_from_wire (cv_stop_reason out),
       tm_completion_tokens = Option.bind (cv_usage out) cu_output_tokens,
       tm_prompt_tokens = Option.bind (cv_usage out) cu_input_tokens,
       tm_reasoning = cli_reasoning reasoning \<rparr>"

lemma cli_telemetry_built:
  "with_reasoning x (if_measured (\<lambda>raw. with_finish (finish_from_wire raw)) s
     (if_measured with_completion_tokens c (if_measured with_prompt_tokens p unmeasured)))
   = \<lparr> tm_finish = map_option finish_from_wire s, tm_completion_tokens = c, tm_prompt_tokens = p,
       tm_reasoning = x \<rparr>"
  using telemetry_built(3) [of x "map_option finish_from_wire s" c p] by (cases s) simp_all

lemma cli_parse_completion_Ok:
  "cli_parse_completion J raw reasoning = Ok c \<longleftrightarrow>
     (\<exists>out. cli_output_from_str J raw = Ok out \<and> \<not> cv_is_error out
        \<and> c = \<lparr> cp_text = cli_strip_code_fences (cv_result out), cp_telemetry = cli_telemetry out reasoning \<rparr>)"
proof -
  have usage: "cu_input_tokens (case cv_usage out of Some u \<Rightarrow> u | None \<Rightarrow> cli_usage_default)
        = Option.bind (cv_usage out) cu_input_tokens"
    "cu_output_tokens (case cv_usage out of Some u \<Rightarrow> u | None \<Rightarrow> cli_usage_default)
        = Option.bind (cv_usage out) cu_output_tokens" for out
    by (simp_all add: cli_usage_default_def split: option.split)
  show ?thesis
    by (auto simp: cli_parse_completion_def parse_envelope_def res_simps Let_def cli_telemetry_built usage
        cli_telemetry_def with_telemetry_def completion_new_def split: result.splits if_splits)
qed

lemma cli_outcome_Ok:
  "cli_outcome J reasoning w reaped = Ok c \<longleftrightarrow>
     (\<exists>out. reaped = Ok out \<and> exit_success out \<and> prompt_delivered w
        \<and> cli_parse_completion J (from_utf8_lossy (po_stdout out)) reasoning = Ok c)"
  by (auto simp: cli_outcome_def prompt_delivered_def split: result.splits write_failure.splits if_splits)

text \<open>C16: A completion is returned exactly when the child was spawned, its write and its reaping both
  ended, it exited with success, the prompt reached it whole and its output is an envelope that
  reports no error; it then carries the result without its code fence and what the envelope
  measured. The call stays pending exactly while one of the two has not ended: neither outcome
  is lost, however their ends interleave.\<close>

theorem cli_completion_exact:
  "(cli_complete J spawn p sys usr cfg = Some (Ok c) \<longleftrightarrow>
     (\<exists>child out env. spawn (cli_binary p) (cli_build_args p sys) = Ok child
        \<and> list_ex fst (cp_wakes child)
        \<and> first_ready (map snd (cp_wakes child)) = Some (Ok out) \<and> po_code out = Some 0
        \<and> prompt_delivered (write_prompt (cp_stdin child) usr)
        \<and> cli_output_from_str J (from_utf8_lossy (po_stdout out)) = Ok env \<and> \<not> cv_is_error env
        \<and> cp_text c = cli_strip_code_fences (cv_result env)
        \<and> cp_telemetry c = cli_telemetry env (cc_reasoning cfg)))
   \<and> (cli_complete J spawn p sys usr cfg = None \<longleftrightarrow>
     (\<exists>child. spawn (cli_binary p) (cli_build_args p sys) = Ok child
        \<and> (first_ready (map snd (cp_wakes child)) = None \<or> list_all (Not \<circ> fst) (cp_wakes child))))"
proof (cases "spawn (cli_binary p) (cli_build_args p sys)")
  case (Err e)
  then show ?thesis by (simp add: cli_complete_def)
next
  case (Ok child)
  let ?sent = "write_prompt (cp_stdin child) usr"
  let ?ws = "map (\<lambda>(w, r). (if w then Ready ?sent else Pending, r)) (cp_wakes child)"
  have m: "map fst ?ws = map (\<lambda>x. if fst x then Ready ?sent else Pending) (cp_wakes child)"
      "map snd ?ws = map snd (cp_wakes child)"
    by (simp_all add: case_prod_beta)
  have eq: "cli_complete J spawn p sys usr cfg =
      (if list_ex fst (cp_wakes child)
       then map_option (cli_outcome J (cc_reasoning cfg) ?sent) (first_ready (map snd (cp_wakes child)))
       else None)"
    unfolding cli_complete_def Ok result.case Let_def poll_both_start m first_ready_flags
    by (auto split: option.split)
  have never: "list_all (Not \<circ> fst) (cp_wakes child) \<longleftrightarrow> \<not> list_ex fst (cp_wakes child)"
    by (simp add: list_all_iff list_ex_iff)
  show ?thesis
    unfolding eq using Ok never
    by (cases c) (auto simp: cli_outcome_Ok cli_parse_completion_Ok exit_success_def split: if_splits)
qed

end
