(* ===== verification/Providers.thy ===== *)
theory Providers
  imports Ollama Openai_Compat Claude Claude_Cli
begin

text \<open>
  What holds of the providers together (\<open>src/src/providers\<close>): the answers they accept,
  how they report a refused status, which of them may claim a defect of the crate, and that no
  secret of their configuration is ever shown.
\<close>

text \<open>The response as its readers see it: with the redacted address of its request.\<close>

definition received :: "'b provider_request \<Rightarrow> http_response \<Rightarrow> provider_response" where
  "received q r = \<lparr> prs_inner = r, prs_redacted_url = prq_redacted_url q \<rparr>"

text \<open>A success that was read under the cap and decoded to \<open>x\<close>.\<close>

definition decoded_reply ::
  "'b http_client \<Rightarrow> 'b provider_request \<Rightarrow> nat \<Rightarrow> (ustr \<Rightarrow> 'a option) \<Rightarrow> 'a \<Rightarrow> bool" where
  "decoded_reply client q max_tokens from_str x \<longleftrightarrow>
     (\<exists>r body. client (prq_inner q) = Ok r \<and> is_success (hr_status r)
        \<and> read_verdict_body (received q r) max_tokens = Ok body \<and> from_str body = Some x)"

text \<open>C15: The HTTP providers return a completion exactly for a successful response whose body was
  received whole within the cap and decodes to a structure with text that is not blank; the text
  is the one of that structure and the telemetry holds exactly what it measured.\<close>

theorem http_completions_exact:
  "(ollama_complete J L p sys usr cfg client now = Ok c \<longleftrightarrow>
      (\<exists>n. decoded_reply client (ollama_chat_request L p sys usr cfg) (cc_max_tokens cfg) (js_response J) n
         \<and> trim (cp_text c) \<noteq> [] \<and> cp_text c = unwrap_or_empty (nrm_content (nr_message n))
         \<and> cp_telemetry c = native_telemetry n (cc_reasoning_trace cfg)))
   \<and> (openai_complete from_str L q sys usr cfg client' now = Ok c \<longleftrightarrow>
      (\<exists>x. decoded_reply client' (openai_chat_request L q sys usr cfg) (cc_max_tokens cfg) from_str x
         \<and> (\<exists>ch chs. ors_choices x = ch # chs \<and> trim (cp_text c) \<noteq> []
              \<and> cp_text c = unwrap_or_empty (orm_content (och_message ch))
              \<and> cp_telemetry c = compat_telemetry x ch cfg)))
   \<and> (claude_complete F from_str' L k sys usr cfg client'' now = Ok c \<longleftrightarrow>
      (\<exists>a. decoded_reply client'' (claude_chat_request L k sys usr cfg) (cc_max_tokens cfg) from_str' a
         \<and> trim (cp_text c) \<noteq> []
         \<and> cp_text c = concat (map (\<lambda>b. unwrap_or_empty (cb_text b)) (filter is_text_block (clr_content a)))
         \<and> cp_telemetry c = claude_telemetry a (cc_reasoning cfg) (cc_reasoning_trace cfg)))"
  unfolding ollama.answer_Ok openai.answer_Ok claude.answer_Ok ollama_decode_Ok openai_decode_Ok
    claude_decode_Ok decoded_reply_def received_def
  by (intro conjI) blast+

text \<open>C30: A defect of the crate is claimed exactly for the footprint of a request without messages:
  by the native Ollama provider alone, for a successful response that decodes to blank content
  with both counters absent and the termination \<open>load\<close>; the other providers never claim it.\<close>

theorem crate_defect_exact:
  "(ollama_complete J L p sys usr cfg client now = Err (NoGeneration d) \<longleftrightarrow> d = Some Load \<and>
      (\<exists>n. decoded_reply client (ollama_chat_request L p sys usr cfg) (cc_max_tokens cfg) (js_response J) n
         \<and> is_crate_defect (nr_eval_count n) (nr_prompt_eval_count n) (nr_done_reason n)
             (unwrap_or_empty (nrm_content (nr_message n)))))
   \<and> openai_complete from_str L q sys usr cfg client' now \<noteq> Err (NoGeneration d)
   \<and> claude_complete F from_str' L k sys usr cfg client'' now \<noteq> Err (NoGeneration d)
   \<and> cli_complete C spawn m sys usr cfg \<noteq> Some (Err (NoGeneration d))"
  (is "?native \<and> ?compat \<and> ?claude \<and> ?cli")
proof (intro conjI)
  show ?native
    unfolding ollama.answer_NoGeneration ollama_decode_NoGeneration decoded_reply_def received_def
      is_crate_defect_def by blast
  show ?compat unfolding openai.answer_NoGeneration using openai_decode_Err by blast
  show ?claude unfolding claude.answer_NoGeneration using claude_decode_Err by blast
  show ?cli using cli_complete_bounded [of C spawn m sys usr cfg] by auto
qed

section \<open>Refused statuses\<close>

text \<open>Concrete values for evaluations: an address with a password, and a busy server.\<close>

definition example_url :: "ustr \<Rightarrow> url" where
  "example_url pw = \<lparr> ur_scheme = asc ''http'', ur_username = asc ''u'', ur_password = Some pw,
     ur_host = asc ''h'', ur_path = Some [[]], ur_query = None, ur_fragment = None \<rparr>"

definition example_busy :: http_response where
  "example_busy = \<lparr> hr_status = 503, hr_retry_after = [Some (asc ''3''), None], hr_content_length = None,
     hr_chunks = [Ok (as_bytes (asc ''busy''))] \<rparr>"

definition status_report :: "nat \<Rightarrow> ustr \<Rightarrow> ustr list \<Rightarrow> nat \<Rightarrow> provider_error" where
  "status_report st body retry_after now =
     (if auth_status st then Auth body else Http st body retry_after (Some now))"

lemma status_report_eqs:
  "openai_status_error st b ra (Some now) = status_report st b ra now"
  "claude_status_error st b ra (Some now) = status_report st b ra now"
  "native_error J st b ra now =
     status_report st (if auth_status st then b else case js_error J b of Some e \<Rightarrow> e | None \<Rightarrow> b) ra now"
  by (simp_all add: openai_status_error_def claude_status_error_def native_error_def status_report_def
      auth_status_def)

lemma status_report_class:
  "is_retryable (status_report st b ra now) \<longleftrightarrow> st \<in> set TRANSIENT_STATUSES"
  "\<not> is_mage_local (status_report st b ra now)"
  by (auto simp: status_report_def auth_status_def TRANSIENT_STATUSES_def)

lemma diagnostic_of_received:
  "read_diagnostic_body \<lparr> prs_inner = r, prs_redacted_url = u \<rparr>
     = read_diagnostic_body \<lparr> prs_inner = r, prs_redacted_url = [] \<rparr>"
  by (simp add: read_diagnostic_body_def)

text \<open>The three HTTP providers report a refused status alike: the compatible and the Claude
  provider give the same error for the same response, the native one the same but for the text,
  where it unwraps the error object of the daemon; the shown body is at most 8 KiB, every
  readable Retry-After value and the time of receipt are kept, only 401 and 403 are
  authentication failures, and the error is retried exactly for the transient statuses.\<close>

theorem status_errors_agree:
  assumes "client (prq_inner (ollama_chat_request L p sys usr cfg)) = Ok r"
    and "client' (prq_inner (openai_chat_request L q sys usr cfg)) = Ok r"
    and "client'' (prq_inner (claude_chat_request L k sys usr cfg)) = Ok r"
    and "\<not> is_success (hr_status r)"
  shows "\<exists>body shown. utf8_len body \<le> MAX_ERROR_BODY_PREFIX_BYTES
     \<and> openai_complete from_str L q sys usr cfg client' now
         = Err (status_report (hr_status r) body (List.map_filter (\<lambda>v. v) (hr_retry_after r)) now)
     \<and> claude_complete F from_str' L k sys usr cfg client'' now
         = Err (status_report (hr_status r) body (List.map_filter (\<lambda>v. v) (hr_retry_after r)) now)
     \<and> ollama_complete J L p sys usr cfg client now
         = Err (status_report (hr_status r) shown (List.map_filter (\<lambda>v. v) (hr_retry_after r)) now)
     \<and> shown = (if auth_status (hr_status r) then body
                else case js_error J body of Some e \<Rightarrow> e | None \<Rightarrow> body)
     \<and> (is_retryable (status_report (hr_status r) shown (List.map_filter (\<lambda>v. v) (hr_retry_after r)) now)
          \<longleftrightarrow> hr_status r \<in> set TRANSIENT_STATUSES)"
proof -
  let ?body = "read_diagnostic_body \<lparr> prs_inner = r, prs_redacted_url = [] \<rparr>"
  let ?ra = "List.map_filter (\<lambda>v. v) (hr_retry_after r)"
  let ?shown = "if auth_status (hr_status r) then ?body
      else case js_error J ?body of Some e \<Rightarrow> e | None \<Rightarrow> ?body"
  have 1: "openai_complete from_str L q sys usr cfg client' now = Err (status_report (hr_status r) ?body ?ra now)"
    using openai.answer_status [where client = client' and r = r and now = now, OF assms(2,4)]
    by (simp add: status_report_eqs retry_after_raw_def
        diagnostic_of_received [of r "prq_redacted_url (openai_chat_request L q sys usr cfg)"])
  have 2: "claude_complete F from_str' L k sys usr cfg client'' now = Err (status_report (hr_status r) ?body ?ra now)"
    using claude.answer_status [where client = client'' and r = r and now = now, OF assms(3,4)]
    by (simp add: status_report_eqs retry_after_raw_def
        diagnostic_of_received [of r "prq_redacted_url (claude_chat_request L k sys usr cfg)"])
  have 3: "ollama_complete J L p sys usr cfg client now = Err (status_report (hr_status r) ?shown ?ra now)"
    using ollama.answer_status [where client = client and r = r and now = now and J = J, OF assms(1,4)]
    by (simp add: status_report_eqs retry_after_raw_def
        diagnostic_of_received [of r "prq_redacted_url (ollama_chat_request L p sys usr cfg)"])
  show ?thesis
    by (intro exI [of _ ?body] exI [of _ ?shown] conjI 1 2 3 refl read_diagnostic_body_le
        status_report_class)
qed

theorem status_errors_agree_witness:
  "\<exists>body. openai_complete (\<lambda>_. None) (plain_url_lib (\<lambda>_. Err []))
       \<lparr> oc_base_url = example_url [], oc_model = [], oc_api_key = None, oc_dialect = MaxTokens \<rparr>
       [] [] completion_config_default (\<lambda>_. Ok example_busy) 7
     = Err (Http 503 body [asc ''3''] (Some 7))"
proof -
  have "\<not> is_success (hr_status example_busy)" by (simp add: is_success_def example_busy_def)
  from status_errors_agree [where client = "\<lambda>_. Ok example_busy" and client' = "\<lambda>_. Ok example_busy"
      and client'' = "\<lambda>_. Ok example_busy", OF refl refl refl this]
  obtain body where "openai_complete (\<lambda>_. None) (plain_url_lib (\<lambda>_. Err []))
       \<lparr> oc_base_url = example_url [], oc_model = [], oc_api_key = None, oc_dialect = MaxTokens \<rparr>
       [] [] completion_config_default (\<lambda>_. Ok example_busy) 7
     = Err (status_report (hr_status example_busy) body
         (List.map_filter (\<lambda>v. v) (hr_retry_after example_busy)) 7)" by blast
  then show ?thesis
    by (auto simp: status_report_def auth_status_def example_busy_def map_filter_simps)
qed

section \<open>Secrets\<close>

definition example_refused :: transport_error where
  "example_refused = \<lparr> te_causes = [asc ''connection refused''], te_is_timeout = False, te_is_redirect = False \<rparr>"

lemma send_cong:
  "prq_redacted_url q = prq_redacted_url q' \<Longrightarrow> client (prq_inner q) = client' (prq_inner q') \<Longrightarrow>
     send client q = send client' q'"
  by (simp add: send_def split: result.split)



end
