(* ===== verification/Child_Pipes.thy ===== *)
theory Child_Pipes
  imports Claude_Cli
begin

text \<open>
  The two processes behind one call of the command line provider
  (\<open>src/src/providers/claude_cli.rs\<close>, \<open>complete\<close>). Theory \<open>Claude_Cli\<close> takes what each poll of
  the two futures answers as given; here those answers are what comes out of a parent and a
  child that share three pipes of bounded capacity. The parent writes the prompt, closes the
  pipe, drains both outputs and reaps the child; the child is any list of writes and reads. The
  pipes are the documented ones of the operating system: a write blocks while the pipe is full
  and fails once the reader is gone, a read blocks while it is empty and ends once the writer
  is gone. Reaping fails only in the parameter of \<open>Claude_Cli\<close>.
\<close>

section \<open>The processes and their pipes\<close>

record pipe_os =
  cap_stdin :: nat
  cap_stdout :: nat
  cap_stderr :: nat

datatype child_stream = ToStdout | ToStderr

datatype child_action = Emit child_stream "byte list" | ReadUpTo nat | ReadToEnd

record exchange =
  xc_todo :: "byte list"
  xc_write :: "(unit, write_failure) result option"
  xc_stdin :: "byte list"
  xc_prog :: "child_action list"
  xc_code :: "int option"
  xc_exited :: bool
  xc_input :: "byte list"
  xc_stdout :: "byte list"
  xc_stderr :: "byte list"
  xc_got_out :: "byte list"
  xc_got_err :: "byte list"
  xc_reaped :: "process_output option"

definition pipe_start :: "byte list \<Rightarrow> child_action list \<Rightarrow> int option \<Rightarrow> exchange" where
  "pipe_start prompt prog code =
     \<lparr> xc_todo = prompt, xc_write = None, xc_stdin = [], xc_prog = prog, xc_code = code,
       xc_exited = False, xc_input = [], xc_stdout = [], xc_stderr = [], xc_got_out = [],
       xc_got_err = [], xc_reaped = None \<rparr>"

text \<open>What can happen next, each with how much of it happens. A pipe that fails to close and the
  message of a broken one are the operating system's.\<close>

datatype pipe_event =
    WritePrompt nat
  | WriteBroken ustr
  | CloseStdin "(unit, ustr) result"
  | DrainStdout nat
  | DrainStderr nat
  | Reap
  | ChildWrites nat
  | ChildReads nat
  | ChildNext
  | ChildExits

text \<open>The parent polls both futures (\<open>together\<close>), so it drains and reaps while the write is still
  pending. Without it, draining waits for the write to end.\<close>

definition drains :: "bool \<Rightarrow> exchange \<Rightarrow> bool" where
  "drains together s \<longleftrightarrow> (together \<or> xc_write s \<noteq> None) \<and> xc_reaped s = None"

definition reaped_output :: "exchange \<Rightarrow> process_output" where
  "reaped_output s = \<lparr> po_code = xc_code s, po_stdout = xc_got_out s, po_stderr = xc_got_err s \<rparr>"

text \<open>The write future: \<open>write_all\<close>, then \<open>shutdown\<close>, and its end drops the handle, which closes the
  pipe.\<close>

fun write_step :: "pipe_os \<Rightarrow> pipe_event \<Rightarrow> exchange \<Rightarrow> exchange option" where
  "write_step K (WritePrompt n) s =
     (if xc_write s = None \<and> \<not> xc_exited s \<and> 0 < n \<and> n \<le> length (xc_todo s)
         \<and> length (xc_stdin s) + n \<le> cap_stdin K
      then Some (s\<lparr> xc_todo := drop n (xc_todo s), xc_stdin := xc_stdin s @ take n (xc_todo s) \<rparr>)
      else None)"
| "write_step K (WriteBroken e) s =
     (if xc_write s = None \<and> xc_exited s \<and> xc_todo s \<noteq> []
      then Some (s\<lparr> xc_write := Some (Err (Truncated e)) \<rparr>) else None)"
| "write_step K (CloseStdin r) s =
     (if xc_write s = None \<and> xc_todo s = [] then Some (s\<lparr> xc_write := Some (map_err Flush r) \<rparr>)
      else None)"
| "write_step K _ s = None"

text \<open>\<open>wait_with_output\<close>: both outputs are read to their end, and the child is waited for.\<close>

fun wait_step :: "bool \<Rightarrow> pipe_event \<Rightarrow> exchange \<Rightarrow> exchange option" where
  "wait_step together (DrainStdout n) s =
     (if drains together s \<and> 0 < n \<and> n \<le> length (xc_stdout s)
      then Some (s\<lparr> xc_stdout := drop n (xc_stdout s), xc_got_out := xc_got_out s @ take n (xc_stdout s) \<rparr>)
      else None)"
| "wait_step together (DrainStderr n) s =
     (if drains together s \<and> 0 < n \<and> n \<le> length (xc_stderr s)
      then Some (s\<lparr> xc_stderr := drop n (xc_stderr s), xc_got_err := xc_got_err s @ take n (xc_stderr s) \<rparr>)
      else None)"
| "wait_step together Reap s =
     (if drains together s \<and> xc_exited s \<and> xc_stdout s = [] \<and> xc_stderr s = []
      then Some (s\<lparr> xc_reaped := Some (reaped_output s) \<rparr>) else None)"
| "wait_step together _ s = None"

text \<open>The child does the first of its actions, or exits when there is none left.\<close>

fun emit_step :: "pipe_os \<Rightarrow> child_stream \<Rightarrow> byte list \<Rightarrow> exchange \<Rightarrow> exchange option" where
  "emit_step K ToStdout bs s =
     (if length (xc_stdout s) + length bs \<le> cap_stdout K then Some (s\<lparr> xc_stdout := xc_stdout s @ bs \<rparr>)
      else None)"
| "emit_step K ToStderr bs s =
     (if length (xc_stderr s) + length bs \<le> cap_stderr K then Some (s\<lparr> xc_stderr := xc_stderr s @ bs \<rparr>)
      else None)"

definition take_input :: "nat \<Rightarrow> exchange \<Rightarrow> exchange" where
  "take_input n s = s\<lparr> xc_stdin := drop n (xc_stdin s), xc_input := xc_input s @ take n (xc_stdin s) \<rparr>"

definition input_over :: "exchange \<Rightarrow> bool" where
  "input_over s \<longleftrightarrow> xc_stdin s = [] \<and> xc_write s \<noteq> None"

fun child_step :: "pipe_os \<Rightarrow> pipe_event \<Rightarrow> exchange \<Rightarrow> child_action list \<Rightarrow> exchange option" where
  "child_step K (ChildWrites n) s (Emit st bs # rest) =
     (if 0 < n \<and> n \<le> length bs
      then map_option (\<lambda>t. t\<lparr> xc_prog := Emit st (drop n bs) # rest \<rparr>) (emit_step K st (take n bs) s)
      else None)"
| "child_step K (ChildReads n) s (ReadUpTo k # rest) =
     (if 0 < n \<and> n \<le> k \<and> n \<le> length (xc_stdin s)
      then Some ((take_input n s)\<lparr> xc_prog := ReadUpTo (k - n) # rest \<rparr>) else None)"
| "child_step K (ChildReads n) s (ReadToEnd # rest) =
     (if 0 < n \<and> n \<le> length (xc_stdin s) then Some (take_input n s) else None)"
| "child_step K ChildNext s (Emit st [] # rest) = Some (s\<lparr> xc_prog := rest \<rparr>)"
| "child_step K ChildNext s (ReadUpTo k # rest) =
     (if k = 0 \<or> input_over s then Some (s\<lparr> xc_prog := rest \<rparr>) else None)"
| "child_step K ChildNext s (ReadToEnd # rest) =
     (if input_over s then Some (s\<lparr> xc_prog := rest \<rparr>) else None)"
| "child_step K ChildExits s [] = Some (s\<lparr> xc_exited := True \<rparr>)"
| "child_step K _ s _ = None"

definition parent_step :: "pipe_os \<Rightarrow> bool \<Rightarrow> pipe_event \<Rightarrow> exchange \<Rightarrow> exchange option" where
  "parent_step K together e s =
     (case write_step K e s of Some t \<Rightarrow> Some t | None \<Rightarrow> wait_step together e s)"

definition pipe_step :: "pipe_os \<Rightarrow> bool \<Rightarrow> pipe_event \<Rightarrow> exchange \<Rightarrow> exchange option" where
  "pipe_step K together e s =
     (case parent_step K together e s of
        Some t \<Rightarrow> Some t
      | None \<Rightarrow> if xc_exited s then None else child_step K e s (xc_prog s))"

fun pipe_run :: "pipe_os \<Rightarrow> bool \<Rightarrow> pipe_event list \<Rightarrow> exchange \<Rightarrow> exchange option" where
  "pipe_run K together [] s = Some s"
| "pipe_run K together (e # es) s = Option.bind (pipe_step K together e s) (pipe_run K together es)"

definition both_ended :: "exchange \<Rightarrow> bool" where
  "both_ended s \<longleftrightarrow> xc_write s \<noteq> None \<and> xc_reaped s \<noteq> None"

section \<open>What the provider sees of a run\<close>

text \<open>The parent is polled after every event; a poll answers what has come to its end by then.\<close>

definition wake_of :: "exchange \<Rightarrow> bool \<times> (process_output, ustr) result poll" where
  "wake_of s = (xc_write s \<noteq> None, case xc_reaped s of None \<Rightarrow> Pending | Some out \<Rightarrow> Ready (Ok out))"

fun pipe_wakes :: "pipe_os \<Rightarrow> bool \<Rightarrow> pipe_event list \<Rightarrow> exchange \<Rightarrow> (bool \<times> (process_output, ustr) result poll) list"
  where
  "pipe_wakes K together [] s = [wake_of s]"
| "pipe_wakes K together (e # es) s =
     wake_of s # (case pipe_step K together e s of Some t \<Rightarrow> pipe_wakes K together es t | None \<Rightarrow> [])"

definition stdin_of :: "exchange \<Rightarrow> child_stdin" where
  "stdin_of s =
     \<lparr> cs_write_all = (\<lambda>_. case xc_write s of Some (Err (Truncated e)) \<Rightarrow> Err e | _ \<Rightarrow> Ok ()),
       cs_shutdown = (case xc_write s of Some (Err (Flush e)) \<Rightarrow> Err e | _ \<Rightarrow> Ok ()) \<rparr>"

definition piped_child :: "pipe_os \<Rightarrow> bool \<Rightarrow> pipe_event list \<Rightarrow> exchange \<Rightarrow> child_process" where
  "piped_child K together es s =
     \<lparr> cp_stdin = map_option stdin_of (pipe_run K together es s), cp_wakes = pipe_wakes K together es s \<rparr>"

section \<open>What every run keeps\<close>

fun emits :: "child_stream \<Rightarrow> child_action \<Rightarrow> byte list" where
  "emits st (Emit st' bs) = (if st' = st then bs else [])"
| "emits st _ = []"

definition emitted :: "child_stream \<Rightarrow> child_action list \<Rightarrow> byte list" where
  "emitted st prog = concat (map (emits st) prog)"

lemma emitted_simps [simp]:
  "emitted st [] = []"
  "emitted st (a # prog) = emits st a @ emitted st prog"
  "emitted st (as @ bs) = emitted st as @ emitted st bs"
  by (simp_all add: emitted_def)

fun write_kept :: "(unit, write_failure) result option \<Rightarrow> bool \<Rightarrow> byte list \<Rightarrow> bool" where
  "write_kept None exited todo = True"
| "write_kept (Some (Err (Truncated e))) exited todo = (exited \<and> todo \<noteq> [])"
| "write_kept (Some _) exited todo = (todo = [])"

definition bytes_kept :: "byte list \<Rightarrow> child_action list \<Rightarrow> exchange \<Rightarrow> bool" where
  "bytes_kept prompt prog s \<longleftrightarrow>
     xc_input s @ xc_stdin s @ xc_todo s = prompt
   \<and> xc_got_out s @ xc_stdout s @ emitted ToStdout (xc_prog s) = emitted ToStdout prog
   \<and> xc_got_err s @ xc_stderr s @ emitted ToStderr (xc_prog s) = emitted ToStderr prog"

definition ends_kept :: "child_action list \<Rightarrow> int option \<Rightarrow> exchange \<Rightarrow> bool" where
  "ends_kept prog code s \<longleftrightarrow>
     xc_code s = code
   \<and> (xc_exited s \<longrightarrow> xc_prog s = [])
   \<and> write_kept (xc_write s) (xc_exited s) (xc_todo s)
   \<and> (ReadToEnd \<in> set prog \<longrightarrow> ReadToEnd \<in> set (xc_prog s) \<or> xc_todo s = [] \<and> xc_stdin s = [])
   \<and> (\<forall>out. xc_reaped s = Some out \<longrightarrow>
        xc_exited s \<and> xc_stdout s = [] \<and> xc_stderr s = [] \<and> out = reaped_output s)"

named_theorems pipe_defs

lemmas [pipe_defs] = bytes_kept_def ends_kept_def drains_def take_input_def input_over_def
  reaped_output_def

lemma take_drop_append: "take n xs @ drop n xs @ ys = xs @ ys"
  by (metis append_assoc append_take_drop_id)

lemma start_kept: "bytes_kept prompt prog (pipe_start prompt prog code)"
  "ends_kept prog code (pipe_start prompt prog code)"
  by (simp_all add: pipe_defs pipe_start_def)

lemma write_kept_closed: "write_kept (Some (map_err Flush r)) ex todo \<longleftrightarrow> todo = []"
  by (cases r) simp_all

lemma write_kept_exits: "write_kept w ex todo \<Longrightarrow> write_kept w True todo"
  by (induction w ex todo rule: write_kept.induct) auto

lemma write_step_kept:
  assumes "write_step K e s = Some t" "bytes_kept prompt prog s" "ends_kept prog code s"
  shows "bytes_kept prompt prog t \<and> ends_kept prog code t"
  using assms by (cases e) (auto simp: pipe_defs write_kept_closed split: if_splits)

lemma wait_step_kept:
  assumes "wait_step together e s = Some t" "bytes_kept prompt prog s" "ends_kept prog code s"
  shows "bytes_kept prompt prog t \<and> ends_kept prog code t"
  using assms by (cases e) (clarsimp simp: pipe_defs take_drop_append split: if_splits)+

lemma input_over_delivered:
  "input_over s \<Longrightarrow> write_kept (xc_write s) (xc_exited s) (xc_todo s) \<Longrightarrow> \<not> xc_exited s \<Longrightarrow>
     xc_stdin s = [] \<and> xc_todo s = []"
  by (cases "(xc_write s, xc_exited s, xc_todo s)" rule: write_kept.cases) (auto simp: input_over_def)

lemma child_step_kept:
  assumes "child_step K e s (xc_prog s) = Some t" "\<not> xc_exited s"
    and "bytes_kept prompt prog s" "ends_kept prog code s"
  shows "bytes_kept prompt prog t \<and> ends_kept prog code t"
proof (cases "(K, e, s, xc_prog s)" rule: child_step.cases)
  case (1 K' n s' st bs rest)
  then show ?thesis
    using assms by (cases st) (auto simp: pipe_defs take_drop_append split: if_splits)
qed (use assms input_over_delivered [of s] in \<open>auto simp: pipe_defs take_drop_append write_kept_exits split: if_splits\<close>)

lemma pipe_step_kept:
  assumes "pipe_step K together e s = Some t" "bytes_kept prompt prog s" "ends_kept prog code s"
  shows "bytes_kept prompt prog t \<and> ends_kept prog code t"
  using assms write_step_kept wait_step_kept child_step_kept
  unfolding pipe_step_def parent_step_def by (fastforce split: option.splits if_splits)

lemma pipe_run_kept:
  "pipe_run K together es s = Some t \<Longrightarrow> bytes_kept prompt prog s \<Longrightarrow> ends_kept prog code s \<Longrightarrow>
     bytes_kept prompt prog t \<and> ends_kept prog code t"
proof (induction es arbitrary: s)
  case (Cons e es)
  then obtain u where u: "pipe_step K together e s = Some u" "pipe_run K together es u = Some t"
    by (auto simp: bind_eq_Some_conv)
  show ?case
    using Cons.IH [OF u(2)] pipe_step_kept [OF u(1) Cons.prems(2,3)] by blast
qed simp

section \<open>Every run ends\<close>

fun action_work :: "child_action \<Rightarrow> nat" where
  "action_work (Emit st bs) = Suc (2 * length bs)"
| "action_work _ = 1"

definition pipe_measure :: "exchange \<Rightarrow> nat" where
  "pipe_measure s =
     2 * length (xc_todo s) + length (xc_stdin s) + sum_list (map action_work (xc_prog s))
     + length (xc_stdout s) + length (xc_stderr s)
     + (if xc_write s = None then 1 else 0) + (if xc_exited s then 0 else 1)
     + (if xc_reaped s = None then 1 else 0)"

definition pipe_bound :: "byte list \<Rightarrow> child_action list \<Rightarrow> nat" where
  "pipe_bound prompt prog = 2 * length prompt + sum_list (map action_work prog) + 3"

lemma child_step_measure:
  assumes "child_step K e s (xc_prog s) = Some t" "\<not> xc_exited s"
  shows "pipe_measure t < pipe_measure s"
proof (cases "(K, e, s, xc_prog s)" rule: child_step.cases)
  case (1 K' n s' st bs rest)
  then show ?thesis
    using assms by (cases st) (auto simp: pipe_measure_def split: if_splits)
qed (use assms in \<open>auto simp: pipe_measure_def take_input_def split: if_splits\<close>)

lemma parent_step_measure:
  "parent_step K together e s = Some t \<Longrightarrow> pipe_measure t < pipe_measure s"
  by (cases e) (auto simp: parent_step_def pipe_measure_def drains_def split: if_splits)

lemma pipe_step_measure:
  "pipe_step K together e s = Some t \<Longrightarrow> pipe_measure t < pipe_measure s"
  using parent_step_measure child_step_measure
  by (auto simp: pipe_step_def split: option.splits if_splits)

lemma pipe_run_measure:
  "pipe_run K together es s = Some t \<Longrightarrow> length es + pipe_measure t \<le> pipe_measure s"
proof (induction es arbitrary: s)
  case (Cons e es)
  then obtain u where u: "pipe_step K together e s = Some u" "pipe_run K together es u = Some t"
    by (auto simp: bind_eq_Some_conv)
  show ?case
    using Cons.IH [OF u(2)] pipe_step_measure [OF u(1)] by simp
qed simp

section \<open>No run is stuck before its end\<close>

text \<open>One event that is possible in every state whose call is still pending: drain what is there,
  else reap, else let the child go on, and write when the child waits for input.\<close>

fun input_event :: "exchange \<Rightarrow> pipe_event" where
  "input_event s =
     (if xc_stdin s \<noteq> [] then ChildReads 1
      else if xc_write s \<noteq> None then ChildNext
      else if xc_todo s = [] then CloseStdin (Ok ()) else WritePrompt 1)"

fun child_event :: "exchange \<Rightarrow> child_action list \<Rightarrow> pipe_event" where
  "child_event s [] = ChildExits"
| "child_event s (Emit st bs # rest) = (if bs = [] then ChildNext else ChildWrites 1)"
| "child_event s (ReadUpTo k # rest) = (if k = 0 then ChildNext else input_event s)"
| "child_event s (ReadToEnd # rest) = input_event s"

definition next_event :: "exchange \<Rightarrow> pipe_event" where
  "next_event s =
     (if xc_reaped s \<noteq> None then (if xc_todo s = [] then CloseStdin (Ok ()) else WriteBroken [])
      else if xc_stdout s \<noteq> [] then DrainStdout 1
      else if xc_stderr s \<noteq> [] then DrainStderr 1
      else if xc_exited s then Reap
      else child_event s (xc_prog s))"

definition roomy :: "pipe_os \<Rightarrow> bool" where
  "roomy K \<longleftrightarrow> 0 < cap_stdin K \<and> 0 < cap_stdout K \<and> 0 < cap_stderr K"

lemma length_ge_one: "Suc 0 \<le> length xs \<longleftrightarrow> xs \<noteq> []"
  by (cases xs) auto

lemma child_progress:
  assumes "roomy K" "\<not> xc_exited s" "xc_reaped s = None" "xc_stdout s = []" "xc_stderr s = []"
  shows "pipe_step K True (child_event s (xc_prog s)) s \<noteq> None"
proof (cases "(s, xc_prog s)" rule: child_event.cases)
  case (2 s' st bs rest)
  then show ?thesis
    using assms by (cases st; cases bs) (auto simp: pipe_step_def parent_step_def roomy_def)
qed (use assms in \<open>auto simp: pipe_step_def parent_step_def roomy_def input_over_def length_ge_one\<close>)

lemma pipe_progress:
  assumes "roomy K" "ends_kept prog code s" "\<not> both_ended s"
  shows "pipe_step K True (next_event s) s \<noteq> None"
proof (cases "xc_reaped s = None \<and> xc_stdout s = [] \<and> xc_stderr s = [] \<and> \<not> xc_exited s")
  case True
  with child_progress [of K s] assms(1) show ?thesis by (simp add: next_event_def)
next
  case False
  with assms(2,3) show ?thesis
    by (auto simp: next_event_def pipe_step_def parent_step_def drains_def both_ended_def ends_kept_def
        length_ge_one)
qed

lemma ended_stuck:
  assumes "ends_kept prog code s" "both_ended s"
  shows "pipe_step K together e s = None"
  using assms
  by (cases e) (auto simp: pipe_step_def parent_step_def both_ended_def ends_kept_def drains_def)

text \<open>From every state the run can be led to its end.\<close>

fun led :: "pipe_os \<Rightarrow> nat \<Rightarrow> exchange \<Rightarrow> pipe_event list" where
  "led K 0 s = []"
| "led K (Suc n) s =
     (case pipe_step K True (next_event s) s of None \<Rightarrow> [] | Some t \<Rightarrow> next_event s # led K n t)"

section \<open>What the provider makes of a run\<close>


lemma child_step_frame:
  assumes "child_step K e s as = Some t"
  shows "xc_write t = xc_write s \<and> xc_reaped t = xc_reaped s"
proof (cases "(K, e, s, as)" rule: child_step.cases)
  case (1 K' n s' st bs rest)
  then show ?thesis
    using assms by (cases st) (auto split: if_splits)
qed (use assms in \<open>auto simp: take_input_def split: if_splits\<close>)

lemma parent_step_frame:
  "parent_step K together e s = Some t \<Longrightarrow>
     (xc_write s \<noteq> None \<longrightarrow> xc_write t = xc_write s) \<and> (xc_reaped s \<noteq> None \<longrightarrow> xc_reaped t = xc_reaped s)"
  by (cases e) (auto simp: parent_step_def drains_def split: if_splits)

lemma pipe_step_frame:
  "pipe_step K together e s = Some t \<Longrightarrow>
     (xc_write s \<noteq> None \<longrightarrow> xc_write t = xc_write s) \<and> (xc_reaped s \<noteq> None \<longrightarrow> xc_reaped t = xc_reaped s)"
  using parent_step_frame child_step_frame
  by (fastforce simp: pipe_step_def split: option.splits if_splits)

lemma pipe_run_frame:
  "pipe_run K together es s = Some t \<Longrightarrow>
     (xc_write s \<noteq> None \<longrightarrow> xc_write t = xc_write s) \<and> (xc_reaped s \<noteq> None \<longrightarrow> xc_reaped t = xc_reaped s)"
proof (induction es arbitrary: s)
  case (Cons e es)
  then obtain u where u: "pipe_step K together e s = Some u" "pipe_run K together es u = Some t"
    by (auto simp: bind_eq_Some_conv)
  show ?case
    using Cons.IH [OF u(2)] pipe_step_frame [OF u(1)] by auto
qed simp

lemma wakes_write:
  "pipe_run K together es s = Some t \<Longrightarrow> list_ex fst (pipe_wakes K together es s) \<longleftrightarrow> xc_write t \<noteq> None"
proof (induction es arbitrary: s)
  case (Cons e es)
  then obtain u where u: "pipe_step K together e s = Some u" "pipe_run K together es u = Some t"
    by (auto simp: bind_eq_Some_conv)
  show ?case
    using Cons.IH [OF u(2)] u(1) pipe_run_frame [OF Cons.prems] by (auto simp: wake_of_def)
qed (simp add: wake_of_def)

lemma wakes_reaped:
  "pipe_run K together es s = Some t \<Longrightarrow>
     first_ready (map snd (pipe_wakes K together es s)) = map_option Ok (xc_reaped t)"
proof (induction es arbitrary: s)
  case (Cons e es)
  then obtain u where u: "pipe_step K together e s = Some u" "pipe_run K together es u = Some t"
    by (auto simp: bind_eq_Some_conv)
  show ?case
    using Cons.IH [OF u(2)] u(1) pipe_run_frame [OF Cons.prems]
    by (cases "xc_reaped s") (auto simp: wake_of_def)
qed (simp add: wake_of_def split: option.split)

lemma stdin_of_write: "xc_write t = Some w \<Longrightarrow> write_prompt (Some (stdin_of t)) usr = w"
  by (cases w; cases "get_err w") (auto simp: write_prompt_def stdin_of_def)

lemma piped_complete:
  assumes "pipe_run K together es s = Some t"
  shows "cli_complete J (\<lambda>b args. Ok (piped_child K together es s)) p sys usr cfg
    = (if both_ended t
       then Some (cli_outcome J (cc_reasoning cfg) (the (xc_write t)) (Ok (the (xc_reaped t))))
       else None)"
  using wakes_write [OF assms] wakes_reaped [OF assms] stdin_of_write [of t]
  by (auto simp: cli_complete_def piped_child_def assms poll_both_start comp_def case_prod_beta
      first_ready_flags both_ended_def Let_def)

section \<open>Why the two futures are polled together\<close>

text \<open>A parent that drains only after it has written the prompt never gets there, when the child
  fills its error output before it reads: both wait for each other.\<close>

definition blocked :: "pipe_os \<Rightarrow> child_action list \<Rightarrow> exchange \<Rightarrow> bool" where
  "blocked K rest s \<longleftrightarrow>
     xc_write s = None \<and> \<not> xc_exited s \<and> length (xc_stdin s) \<le> cap_stdin K
   \<and> cap_stdin K < length (xc_stdin s) + length (xc_todo s) \<and> length (xc_stderr s) \<le> cap_stderr K
   \<and> (\<exists>chunks. xc_prog s = map (Emit ToStderr) chunks @ rest
        \<and> cap_stderr K < length (xc_stderr s) + length (concat chunks))"

lemma blocked_child:
  assumes "blocked K rest s" "child_step K e s (xc_prog s) = Some t"
  shows "blocked K rest t"
proof -
  obtain chunks where c: "xc_prog s = map (Emit ToStderr) chunks @ rest"
    "cap_stderr K < length (xc_stderr s) + length (concat chunks)"
    using assms(1) by (auto simp: blocked_def)
  then obtain bs chunks' where bs: "chunks = bs # chunks'"
    using assms(1) by (cases chunks) (auto simp: blocked_def)
  show ?thesis
  proof (cases "bs = []")
    case True
    then show ?thesis
      using assms c bs by (cases e) (auto simp: blocked_def split: if_splits)
  next
    case False
    then obtain n where n: "0 < n" "n \<le> length bs" "length (xc_stderr s) + n \<le> cap_stderr K"
      "t = s\<lparr> xc_stderr := xc_stderr s @ take n bs, xc_prog := Emit ToStderr (drop n bs) # map (Emit ToStderr) chunks' @ rest \<rparr>"
      using assms(2) c(1) bs by (cases e; cases bs) (auto split: if_splits)
    show ?thesis
      unfolding blocked_def
    proof (intro conjI exI [of _ "drop n bs # chunks'"])
    qed (use assms(1) c(2) n bs in \<open>auto simp: blocked_def\<close>)
  qed
qed

lemma blocked_step:
  assumes "blocked K rest s" "pipe_step K False e s = Some t"
  shows "blocked K rest t"
proof (cases "parent_step K False e s")
  case None
  with assms blocked_child show ?thesis by (auto simp: pipe_step_def split: if_splits)
next
  case (Some u)
  with assms show ?thesis
    by (cases e) (auto simp: pipe_step_def parent_step_def blocked_def drains_def split: if_splits)
qed

lemma draining_late_hangs:
  assumes "cap_stdin K < length prompt" "cap_stderr K < length (concat burst)"
    and "pipe_run K False es (pipe_start prompt (map (Emit ToStderr) burst @ rest) code) = Some s"
  shows "xc_write s = None \<and> \<not> both_ended s"
proof -
  have run: "pipe_run K False es s0 = Some s \<Longrightarrow> blocked K rest s0 \<Longrightarrow> blocked K rest s" for s0
    by (induction es arbitrary: s0) (auto simp: bind_eq_Some_conv dest: blocked_step)
  have "blocked K rest (pipe_start prompt (map (Emit ToStderr) burst @ rest) code)"
    using assms(1,2) by (auto simp: blocked_def pipe_start_def)
  from run [OF assms(3) this] show ?thesis by (simp add: blocked_def both_ended_def)
qed

section \<open>A call never hangs\<close>

lemma pipe_run_facts:
  assumes "roomy K" "pipe_run K True es (pipe_start (as_bytes usr) prog code) = Some s"
  shows "length es \<le> pipe_bound (as_bytes usr) prog
    \<and> ((\<forall>e. pipe_step K True e s = None) \<longleftrightarrow> both_ended s)
    \<and> cli_complete J (\<lambda>b args. Ok (piped_child K True es (pipe_start (as_bytes usr) prog code))) p sys usr cfg
      = (if both_ended s
         then Some (cli_outcome J (cc_reasoning cfg) (the (xc_write s))
           (Ok \<lparr> po_code = code, po_stdout = emitted ToStdout prog, po_stderr = emitted ToStderr prog \<rparr>))
         else None)
    \<and> xc_input s @ xc_stdin s @ xc_todo s = as_bytes usr
    \<and> (both_ended s \<longrightarrow> (prompt_delivered (the (xc_write s)) \<longleftrightarrow> xc_todo s = [])
         \<and> (ReadToEnd \<in> set prog \<longrightarrow> xc_input s = as_bytes usr))"
proof -
  have kept: "bytes_kept (as_bytes usr) prog s" "ends_kept prog code s"
    using pipe_run_kept [OF assms(2) start_kept] by simp_all
  have "length es \<le> pipe_bound (as_bytes usr) prog"
    using pipe_run_measure [OF assms(2)] by (simp add: pipe_measure_def pipe_bound_def pipe_start_def)
  moreover have "(\<forall>e. pipe_step K True e s = None) \<longleftrightarrow> both_ended s"
    using pipe_progress [OF assms(1) kept(2)] ended_stuck [OF kept(2)] by (cases "both_ended s") auto
  moreover have "both_ended s \<Longrightarrow>
    the (xc_reaped s) = \<lparr> po_code = code, po_stdout = emitted ToStdout prog, po_stderr = emitted ToStderr prog \<rparr>"
    using kept by (auto simp: both_ended_def bytes_kept_def ends_kept_def reaped_output_def)
  moreover have "both_ended s \<Longrightarrow> prompt_delivered (the (xc_write s)) \<longleftrightarrow> xc_todo s = []"
    using kept(2) unfolding ends_kept_def both_ended_def prompt_delivered_def
    by (cases "(xc_write s, xc_exited s, xc_todo s)" rule: write_kept.cases) auto
  moreover have "both_ended s \<Longrightarrow> ReadToEnd \<in> set prog \<Longrightarrow> xc_input s = as_bytes usr"
    using kept by (auto simp: both_ended_def bytes_kept_def ends_kept_def)
  ultimately show ?thesis
    using kept(1) piped_complete [OF assms(2), of J p sys usr cfg] by (simp add: bytes_kept_def)
qed

text \<open>C17: A call of the command line provider never hangs on its child, however the child orders its
  writes and reads, however small the pipes are and however the two processes interleave: a run
  has at most a number of steps that the sizes of the prompt and of the outputs fix, nothing is
  left to happen exactly when both futures have ended, and then the call returns. It has then
  reaped every byte the child wrote, in order, with its exit code; the prompt was written whole or
  its writing is reported as cut off, and a child that reads its input to the end got all of it.\<close>

theorem cli_call_never_hangs:
  assumes "roomy K" "pipe_run K True es (pipe_start (as_bytes usr) prog code) = Some s"
  shows "length es \<le> pipe_bound (as_bytes usr) prog
    \<and> ((\<forall>e. pipe_step K True e s = None) \<longleftrightarrow> both_ended s)
    \<and> cli_complete J (\<lambda>b args. Ok (piped_child K True es (pipe_start (as_bytes usr) prog code))) p sys usr cfg
      = (if both_ended s
         then Some (cli_outcome J (cc_reasoning cfg) (the (xc_write s))
           (Ok \<lparr> po_code = code, po_stdout = emitted ToStdout prog, po_stderr = emitted ToStderr prog \<rparr>))
         else None)
    \<and> xc_input s @ xc_stdin s @ xc_todo s = as_bytes usr
    \<and> (both_ended s \<longrightarrow> (prompt_delivered (the (xc_write s)) \<longleftrightarrow> xc_todo s = [])
         \<and> (ReadToEnd \<in> set prog \<longrightarrow> xc_input s = as_bytes usr))"
  by (rule pipe_run_facts [OF assms])

definition narrow :: pipe_os where "narrow = \<lparr> cap_stdin = 1, cap_stdout = 1, cap_stderr = 1 \<rparr>"

definition narrow_prog :: "child_action list" where
  "narrow_prog = [Emit ToStderr [69, 69], ReadToEnd, Emit ToStdout [33]]"

definition narrow_start :: exchange where
  "narrow_start = pipe_start (as_bytes (asc ''ab'')) narrow_prog (Some 0)"

definition narrow_led :: "pipe_event list" where
  "narrow_led =
     [WritePrompt 1, ChildWrites 1, DrainStderr 1, ChildWrites 1, ChildNext, ChildReads 1, WritePrompt 1,
      CloseStdin (Ok ()), ChildReads 1, ChildNext, ChildWrites 1, ChildNext, ChildExits, DrainStderr 1,
      DrainStdout 1, Reap]"

lemma narrow_run:
  "case pipe_run narrow True narrow_led narrow_start of Some s \<Rightarrow> both_ended s | None \<Rightarrow> False"
  by code_simp

text \<open>Pipes of one byte, a child that writes two bytes of diagnosis before it reads.\<close>

theorem cli_call_never_hangs_witness:
  "\<exists>s. roomy narrow \<and> pipe_run narrow True narrow_led narrow_start = Some s \<and> both_ended s
     \<and> xc_input s = as_bytes (asc ''ab'')
     \<and> (\<forall>J p sys cfg.
          cli_complete J (\<lambda>b args. Ok (piped_child narrow True narrow_led narrow_start)) p sys (asc ''ab'') cfg
          = Some (cli_outcome J (cc_reasoning cfg) (the (xc_write s))
              (Ok \<lparr> po_code = Some 0, po_stdout = [33], po_stderr = [69, 69] \<rparr>)))"
proof -
  obtain s where s: "pipe_run narrow True narrow_led narrow_start = Some s" "both_ended s"
    using narrow_run by (auto split: option.splits)
  have roomy: "roomy narrow" by (simp add: roomy_def narrow_def)
  show ?thesis
    using cli_call_never_hangs [OF roomy s(1) [unfolded narrow_start_def]] s roomy
    unfolding narrow_start_def by (auto simp: narrow_prog_def)
qed

end
