(* ===== verification/Stub_Cli.thy ===== *)
theory Stub_Cli
  imports Child_Pipes
begin

text \<open>
  The stand-in for the command line tool (\<open>src/src/bin/stub_cli.rs\<close>), a child for the provider that
  reproduces the deadlock the provider must not have: \<open>main\<close> as the actions of a child and its
  exit code, read from the configuration beside the executable. What \<open>serde_json\<close> makes of a key is
  a parameter. The outputs never fail here, as the parent drains them to their end.
\<close>

section \<open>The configuration\<close>

text \<open>Per key the value as an unsigned number, as a truth value and as a text.\<close>

record 'v stub_json =
  sj_parse :: "ustr \<Rightarrow> 'v option"
  sj_empty :: 'v
  sj_u64 :: "'v \<Rightarrow> ustr \<Rightarrow> nat option"
  sj_bool :: "'v \<Rightarrow> ustr \<Rightarrow> bool option"
  sj_str :: "'v \<Rightarrow> ustr \<Rightarrow> ustr option"

text \<open>\<open>beside\<close> is the path of a file next to the executable, when that is known.\<close>

definition load_config ::
  "'v stub_json \<Rightarrow> (ustr \<Rightarrow> ustr option) \<Rightarrow> (ustr \<Rightarrow> (ustr, ustr) result) \<Rightarrow> 'v" where
  "load_config J beside read_to_string =
     (let raw = (case beside (asc ''stub.json'') of
            Some p \<Rightarrow> (case read_to_string p of Ok t \<Rightarrow> t | Err _ \<Rightarrow> [])
          | None \<Rightarrow> [])
      in case sj_parse J raw of Some v \<Rightarrow> v | None \<Rightarrow> sj_empty J)"

section \<open>The program\<close>

definition MID_WRITE_EXIT :: nat where "MID_WRITE_EXIT = 42"

text \<open>The burst goes out in chunks of 8192 bytes.\<close>

function stub_burst :: "nat \<Rightarrow> nat \<Rightarrow> byte list list" where
  "stub_burst burst written =
     (if written < burst
      then let taken = min 8192 (burst - written)
           in replicate taken 69 # stub_burst burst (written + taken)
      else [])"
  by pat_completeness auto
termination
  by (relation "measure (\<lambda>(burst, written). burst - written)") auto

declare stub_burst.simps [simp del]

definition burst_bytes :: "'v stub_json \<Rightarrow> 'v \<Rightarrow> nat" where
  "burst_bytes J v = (case sj_u64 J v (asc ''stderr_before_stdin_bytes'') of Some n \<Rightarrow> n | None \<Rightarrow> 0)"

definition exits_mid_write :: "'v stub_json \<Rightarrow> 'v \<Rightarrow> bool" where
  "exits_mid_write J v = (case sj_bool J v (asc ''exits_mid_write'') of Some b \<Rightarrow> b | None \<Rightarrow> False)"

definition stub_reads :: "'v stub_json \<Rightarrow> 'v \<Rightarrow> child_action" where
  "stub_reads J v =
     (case sj_u64 J v (asc ''read_limit'') of Some limit \<Rightarrow> ReadUpTo limit | None \<Rightarrow> ReadToEnd)"

definition stub_says :: "'v stub_json \<Rightarrow> 'v \<Rightarrow> child_stream \<Rightarrow> ustr \<Rightarrow> child_action list" where
  "stub_says J v st key =
     (case sj_str J v key of Some t \<Rightarrow> [Emit st (as_bytes t)] | None \<Rightarrow> [])"

definition stub_exit_code :: "'v stub_json \<Rightarrow> 'v \<Rightarrow> nat" where
  "stub_exit_code J v =
     (case sj_u64 J v (asc ''exit_code'') of Some n \<Rightarrow> if n < 2 ^ 8 then n else 0 | None \<Rightarrow> 0)"

definition stub_main :: "'v stub_json \<Rightarrow> 'v \<Rightarrow> child_action list \<times> nat" where
  "stub_main J v =
     (let burst = map (Emit ToStderr) (stub_burst (burst_bytes J v) 0)
      in if exits_mid_write J v then (burst, MID_WRITE_EXIT)
         else (burst @ stub_reads J v # stub_says J v ToStdout (asc ''stdout'')
                 @ stub_says J v ToStderr (asc ''stderr''),
               stub_exit_code J v))"

section \<open>What the stub writes\<close>

lemma burst_written: "concat (stub_burst burst written) = replicate (burst - written) 69"
proof (induction burst written rule: stub_burst.induct)
  case (1 burst written)
  show ?case
  proof (cases "written < burst")
    case True
    then show ?thesis
      using 1 by (subst stub_burst.simps) (simp add: Let_def flip: replicate_add)
  qed (subst stub_burst.simps, simp)
qed

lemma emitted_burst:
  "emitted ToStderr (map (Emit ToStderr) bss) = concat bss"
  "emitted ToStdout (map (Emit ToStderr) bss) = []"
  by (induction bss) simp_all

lemma emitted_says:
  "emitted st (stub_says J v st' key) =
     (if st' = st then as_bytes (case sj_str J v key of Some t \<Rightarrow> t | None \<Rightarrow> []) else [])"
  by (simp add: stub_says_def as_bytes_def split: option.split)

lemma emits_reads [simp]: "emits st (stub_reads J v) = []"
  by (simp add: stub_reads_def split: option.split)

definition stub_output :: "'v stub_json \<Rightarrow> 'v \<Rightarrow> process_output" where
  "stub_output J v =
     (let burst = replicate (burst_bytes J v) 69;
          says = (\<lambda>key. as_bytes (case sj_str J v key of Some t \<Rightarrow> t | None \<Rightarrow> []))
      in if exits_mid_write J v
         then \<lparr> po_code = Some 42, po_stdout = [], po_stderr = burst \<rparr>
         else \<lparr> po_code = Some (int (stub_exit_code J v)), po_stdout = says (asc ''stdout''),
                po_stderr = burst @ says (asc ''stderr'') \<rparr>)"

lemma stub_emits:
  "\<lparr> po_code = Some (int (snd (stub_main J v))), po_stdout = emitted ToStdout (fst (stub_main J v)),
     po_stderr = emitted ToStderr (fst (stub_main J v)) \<rparr> = stub_output J v"
  by (simp add: stub_main_def stub_output_def Let_def emitted_burst emitted_says burst_written
      MID_WRITE_EXIT_def)

lemma stub_drains:
  "\<not> exits_mid_write J v \<Longrightarrow> sj_u64 J v (asc ''read_limit'') = None \<Longrightarrow>
     ReadToEnd \<in> set (fst (stub_main J v))"
  by (simp add: stub_main_def stub_reads_def)

section \<open>The provider against the stub\<close>

text \<open>The stub does to the provider what its configuration says, and no configuration makes the
  call hang. Once a run is over, an exit code other than 0 is classified from the stub's two
  outputs, whatever became of the prompt; with exit code 0 a prompt that was cut off is an error
  and otherwise the standard output is read as the answer. A stub that neither exits early nor
  limits its reading has the whole prompt, whatever the sizes of its burst and of the prompt.\<close>

theorem stub_call_exact:
  assumes "roomy K"
    and "pipe_run K True es (pipe_start (as_bytes usr) (fst (stub_main SJ v)) (Some (int (snd (stub_main SJ v)))))
      = Some s"
  shows "cli_complete J
      (\<lambda>b args. Ok (piped_child K True es
         (pipe_start (as_bytes usr) (fst (stub_main SJ v)) (Some (int (snd (stub_main SJ v))))))) p sys usr cfg
      = (if \<not> both_ended s then None
         else if po_code (stub_output SJ v) \<noteq> Some 0 then Some (Err (classify_child_failure J (stub_output SJ v)))
         else case the (xc_write s) of
                Err (Truncated e) \<Rightarrow> Some (Err (Process None (label_prompt_write_diagnosis e)))
              | _ \<Rightarrow> Some (cli_parse_completion J (from_utf8_lossy (po_stdout (stub_output SJ v))) (cc_reasoning cfg)))
    \<and> (both_ended s \<or> (\<exists>e t. pipe_step K True e s = Some t))
    \<and> (both_ended s \<and> \<not> exits_mid_write SJ v \<and> sj_u64 SJ v (asc ''read_limit'') = None \<longrightarrow>
         xc_input s = as_bytes usr \<and> prompt_delivered (the (xc_write s)))"
proof -
  note facts = pipe_run_facts [OF assms, unfolded stub_emits, of J p sys cfg]
  have "prompt_delivered (the (xc_write s))" if "both_ended s" "xc_input s = as_bytes usr"
    using facts that by auto
  with facts stub_drains [of SJ v] show ?thesis
    by (auto simp: cli_outcome_def exit_success_def split: result.split write_failure.split)
qed

text \<open>A burst of two bytes through pipes of one.\<close>

definition tiny_stub :: "unit stub_json" where
  "tiny_stub =
     \<lparr> sj_parse = (\<lambda>t. Some ()), sj_empty = (),
       sj_u64 = (\<lambda>v key. if key = asc ''stderr_before_stdin_bytes'' then Some 2 else None),
       sj_bool = (\<lambda>v key. None),
       sj_str = (\<lambda>v key. if key = asc ''stdout'' then Some (asc ''!'') else None) \<rparr>"

lemma tiny_stub_main: "stub_main tiny_stub () = (narrow_prog, 0)"
  by code_simp

lemma tiny_stub_output:
  "stub_output tiny_stub () = \<lparr> po_code = Some 0, po_stdout = [33], po_stderr = [69, 69] \<rparr>
     \<and> \<not> exits_mid_write tiny_stub () \<and> sj_u64 tiny_stub () (asc ''read_limit'') = None"
  by code_simp

theorem stub_call_exact_witness:
  "\<exists>s. roomy narrow \<and> pipe_run narrow True narrow_led narrow_start = Some s \<and> both_ended s
     \<and> xc_input s = as_bytes (asc ''ab'') \<and> prompt_delivered (the (xc_write s))
     \<and> (\<forall>J p sys cfg.
          cli_complete J (\<lambda>b args. Ok (piped_child narrow True narrow_led narrow_start)) p sys (asc ''ab'') cfg
          = Some (cli_parse_completion J (from_utf8_lossy [33]) (cc_reasoning cfg)))"
proof -
  obtain s where s: "pipe_run narrow True narrow_led narrow_start = Some s" "both_ended s"
    using narrow_run by (auto split: option.splits)
  have start: "pipe_start (as_bytes (asc ''ab'')) (fst (stub_main tiny_stub ())) (Some (int (snd (stub_main tiny_stub ()))))
      = narrow_start"
    by (simp add: narrow_start_def tiny_stub_main)
  have roomy: "roomy narrow" by (simp add: roomy_def narrow_def)
  note call = stub_call_exact [of narrow narrow_led "asc ''ab''" tiny_stub "()" s, unfolded start, OF roomy s(1)]
  from call [THEN conjunct2, THEN conjunct2]
  have whole: "xc_input s = as_bytes (asc ''ab'')" "prompt_delivered (the (xc_write s))"
    using s(2) tiny_stub_output by blast+
  then have "case the (xc_write s) of Err (Truncated e) \<Rightarrow> False | _ \<Rightarrow> True"
    by (auto simp: prompt_delivered_def split: result.split write_failure.split)
  with call s whole roomy tiny_stub_output show ?thesis
    by (auto split: result.splits write_failure.splits)
qed

text \<open>The same stub against a parent that would write the whole prompt before it drains.\<close>

lemma stub_hangs_late_drainer:
  assumes "cap_stdin K < length prompt" "cap_stderr K < burst_bytes SJ v"
    and "pipe_run K False es (pipe_start prompt (fst (stub_main SJ v)) code) = Some s"
  shows "\<not> both_ended s"
proof -
  have prog: "\<exists>rest. fst (stub_main SJ v) = map (Emit ToStderr) (stub_burst (burst_bytes SJ v) 0) @ rest"
    by (simp add: stub_main_def Let_def)
  moreover have "cap_stderr K < length (concat (stub_burst (burst_bytes SJ v) 0))"
    by (simp add: burst_written assms(2))
  ultimately show ?thesis
    using draining_late_hangs [OF assms(1), of "stub_burst (burst_bytes SJ v) 0"] assms(3) by auto
qed

end
