(* ===== verification/Smoke_Base.thy ===== *)
theory Smoke_Base
  imports User_Prompt Errors
begin

text \<open>
  What the smoke harness (\<open>smoke/src\<close>) uses of the standard library and no other component
  does: searching and splitting of strings, the lines of a file, paths compared component by
  component, and \<open>smoke/src/paths.rs\<close>. Paths are modelled as on Unix; the two spellings of a
  separator that the harness itself looks for are in its own definitions.
\<close>

section \<open>Searching and splitting\<close>

text \<open>\<open>str::find(p)\<close>: where the first occurrence begins.\<close>

fun find_at :: "ustr \<Rightarrow> ustr \<Rightarrow> nat option" where
  "find_at [] p = (if p = [] then Some 0 else None)"
| "find_at (c # s) p = (if starts_with (c # s) p then Some 0 else map_option Suc (find_at s p))"

lemma find_at_Some: "find_at s p = Some i \<Longrightarrow> s = take i s @ p @ drop (i + length p) s"
proof (induction s p arbitrary: i rule: find_at.induct)
  case (2 c s p)
  show ?case
  proof (cases "starts_with (c # s) p")
    case True
    with "2.prems" have i: "i = 0" by simp
    from True obtain t where "c # s = p @ t" by (auto simp: starts_with_iff)
    with i show ?thesis by simp
  next
    case False
    with "2.prems" obtain j where j: "find_at s p = Some j" "i = Suc j" by auto
    from "2.IH" [OF False j(1)] j(2) show ?thesis by simp
  qed
qed (simp split: if_splits)

lemma find_at_None_iff: "find_at s p = None \<longleftrightarrow> \<not> contains s p"
  by (induction s p rule: find_at.induct) auto

lemma find_at_first: "find_at s p = Some i \<Longrightarrow> j < i \<Longrightarrow> \<not> starts_with (drop j s) p"
proof (induction s p arbitrary: i j rule: find_at.induct)
  case (2 c s p)
  then show ?case by (cases j) (auto split: if_splits)
qed (simp split: if_splits)

text \<open>\<open>str::split_once(p)\<close>.\<close>

definition split_once :: "ustr \<Rightarrow> ustr \<Rightarrow> (ustr \<times> ustr) option" where
  "split_once s p = map_option (\<lambda>i. (take i s, drop (i + length p) s)) (find_at s p)"

lemma split_once_Some: "split_once s p = Some (a, b) \<Longrightarrow> s = a @ p @ b"
  unfolding split_once_def by (auto dest: find_at_Some)

lemma split_once_None_iff: "split_once s p = None \<longleftrightarrow> \<not> contains s p"
  by (simp add: split_once_def find_at_None_iff)

text \<open>\<open>str::split\<close> for a set of separators.\<close>

fun split_by :: "(nat \<Rightarrow> bool) \<Rightarrow> ustr \<Rightarrow> ustr list" where
  "split_by P [] = [[]]"
| "split_by P (c # s) =
     (if P c then [] # split_by P s
      else case split_by P s of p # ps \<Rightarrow> (c # p) # ps | [] \<Rightarrow> [[c]])"

lemma split_by_nonempty [simp]: "split_by P s \<noteq> []"
  by (induction s) (auto split: list.splits)

lemma split_by_no_sep: "l \<in> set (split_by P s) \<Longrightarrow> c \<in> set l \<Longrightarrow> \<not> P c"
proof (induction s arbitrary: l)
  case (Cons d s)
  obtain q qs where q: "split_by P s = q # qs" by (cases "split_by P s") auto
  with Cons show ?case by (fastforce split: if_splits)
qed simp

lemma split_by_free: "(\<And>c. c \<in> set s \<Longrightarrow> \<not> P c) \<Longrightarrow> split_by P s = [s]"
  by (induction s) auto

lemma split_by_append: "P d \<Longrightarrow> split_by P (s @ d # t) = split_by P s @ split_by P t"
proof (induction s)
  case (Cons c s)
  then show ?case by (cases "split_by P s") auto
qed simp

definition split_whitespace :: "ustr \<Rightarrow> ustr list" where
  "split_whitespace s = filter (\<lambda>w. w \<noteq> []) (split_by is_ws s)"

lemma split_whitespace_word:
  "w \<noteq> [] \<Longrightarrow> (\<And>c. c \<in> set w \<Longrightarrow> \<not> is_ws c) \<Longrightarrow> split_whitespace w = [w]"
  by (simp add: split_whitespace_def split_by_free)

lemma split_by_one_word:
  "filter (\<lambda>w. w \<noteq> []) (split_by P s) = [w] \<Longrightarrow> s \<noteq> [] \<Longrightarrow> \<not> P (hd s) \<Longrightarrow> \<not> P (last s) \<Longrightarrow> w = s"
proof -
  assume one: "filter (\<lambda>w. w \<noteq> []) (split_by P s) = [w]" and s: "s \<noteq> []" "\<not> P (hd s)" "\<not> P (last s)"
  have "\<not> P c" if c: "c \<in> set s" for c
  proof
    assume P: "P c"
    from c obtain u v where uv: "s = u @ c # v" by (meson split_list)
    with s P have u: "u \<noteq> []" "\<not> P (hd u)" by (cases u; force)+
    from uv s P have v: "v \<noteq> []" "\<not> P (last v)" by (auto split: if_splits)
    have ex: "\<exists>w \<in> set (split_by P t). w \<noteq> []" if t: "t \<noteq> []" "x \<in> set t" "\<not> P x" for t x
      using t(2,3)
    proof (induction t)
      case (Cons d t)
      obtain q qs where q: "split_by P t = q # qs" by (cases "split_by P t") auto
      with Cons show ?case by auto
    qed simp
    from ex [of u "hd u"] u obtain a where a: "a \<in> set (split_by P u)" "a \<noteq> []" by auto
    from ex [of v "last v"] v obtain b where b: "b \<in> set (split_by P v)" "b \<noteq> []" by auto
    from a obtain a1 a2 where "split_by P u = a1 @ a # a2" by (meson split_list)
    moreover from b obtain b1 b2 where "split_by P v = b1 @ b # b2" by (meson split_list)
    ultimately show False using one uv P a b by (simp add: split_by_append)
  qed
  then have "split_by P s = [s]" by (rule split_by_free)
  with one s show ?thesis by simp
qed

text \<open>\<open>str::lines\<close>: the parts between line feeds, without a final empty one and without the
  carriage return that ends a part.\<close>

definition chop_cr :: "ustr \<Rightarrow> ustr" where
  "chop_cr l = (if l \<noteq> [] \<and> last l = CR then butlast l else l)"

definition str_lines :: "ustr \<Rightarrow> ustr list" where
  "str_lines s =
     (let parts = split_on LF s
      in map chop_cr (if last parts = [] then butlast parts else parts))"

definition to_ascii_uppercase :: "ustr \<Rightarrow> ustr" where
  "to_ascii_uppercase s = map (\<lambda>c. if 97 \<le> c \<and> c \<le> 122 then c - 32 else c) s"

text \<open>A list under \<open>{:?}\<close>.\<close>

definition dbg_list :: "('a \<Rightarrow> ustr) \<Rightarrow> 'a list \<Rightarrow> ustr" where
  "dbg_list f xs = asc ''['' @ join (asc '', '') (map f xs) @ asc '']''"

section \<open>Paths\<close>

definition SLASH :: nat where "SLASH = 47"

datatype path_component = RootDir | CurDir | ParentDir | NormalDir ustr

definition to_component :: "ustr \<Rightarrow> path_component" where
  "to_component p = (if p = asc ''..'' then ParentDir else NormalDir p)"

text \<open>\<open>Path::components\<close>: empty parts and single dots vanish, but for a dot in front.\<close>

definition components :: "ustr \<Rightarrow> path_component list" where
  "components p =
     (let parts = split_on SLASH p;
          kept = map to_component (filter (\<lambda>w. w \<noteq> [] \<and> w \<noteq> asc ''.'') parts)
      in if starts_with p [SLASH] then RootDir # kept
         else if hd parts = asc ''.'' then CurDir # kept
         else kept)"

definition path_eq :: "ustr \<Rightarrow> ustr \<Rightarrow> bool" where
  "path_eq p q \<longleftrightarrow> components p = components q"

definition path_starts_with :: "ustr \<Rightarrow> ustr \<Rightarrow> bool" where
  "path_starts_with p q \<longleftrightarrow> take (length (components q)) (components p) = components q"

definition path_join :: "ustr \<Rightarrow> ustr \<Rightarrow> ustr" where
  "path_join p q =
     (if starts_with q [SLASH] then q
      else if p = [] \<or> last p = SLASH then p @ q
      else p @ [SLASH] @ q)"

definition file_name :: "ustr \<Rightarrow> ustr option" where
  "file_name p =
     (if components p = [] then None
      else case last (components p) of NormalDir n \<Rightarrow> Some n | _ \<Rightarrow> None)"

text \<open>\<open>Path::extension\<close>: what follows the last dot of the file name, unless that dot begins it.\<close>

definition extension :: "ustr \<Rightarrow> ustr option" where
  "extension p =
     Option.bind (file_name p) (\<lambda>n.
       let parts = split_on 46 n
       in if length parts < 2 \<or> butlast parts = [[]] then None else Some (last parts))"

text \<open>The locations of \<open>paths.rs\<close>; \<open>manifest_dir\<close> and \<open>temp_dir\<close> are what the build and the
  operating system answer.\<close>

definition smoke_dir :: "ustr \<Rightarrow> ustr" where
  "smoke_dir manifest_dir = manifest_dir"

definition repo_root :: "ustr \<Rightarrow> ustr" where
  "repo_root manifest_dir = manifest_dir @ asc ''/..''"

definition fixture_dir :: "ustr \<Rightarrow> ustr" where
  "fixture_dir manifest_dir = path_join (smoke_dir manifest_dir) (asc ''fixtures'')"

definition FEATURE_MATRIX_DIR :: ustr where
  "FEATURE_MATRIX_DIR = asc ''magi-smoke-feature-matrix''"

definition feature_matrix_target_dir :: "ustr \<Rightarrow> ustr \<Rightarrow> ustr" where
  "feature_matrix_target_dir temp_dir tag = path_join (path_join temp_dir FEATURE_MATRIX_DIR) tag"

definition metadata_target_dir :: "ustr \<Rightarrow> ustr" where
  "metadata_target_dir temp_dir = path_join temp_dir (asc ''magi-smoke-metadata'')"

lemma hd_split_append: "hd (split_on d (s @ d # t)) = hd (split_on d s)"
  by (simp add: split_on_concat)

lemma starts_with_slash_append: "p \<noteq> [] \<Longrightarrow> starts_with (p @ r) [c] = starts_with p [c]"
  by (cases p) auto

lemma components_append:
  "p \<noteq> [] \<Longrightarrow> components (p @ SLASH # q)
     = components p @ map to_component (filter (\<lambda>w. w \<noteq> [] \<and> w \<noteq> asc ''.'') (split_on SLASH q))"
  by (simp add: components_def Let_def split_on_concat starts_with_slash_append)

lemma components_plain:
  "q \<noteq> [] \<Longrightarrow> SLASH \<notin> set q \<Longrightarrow> q \<noteq> asc ''.'' \<Longrightarrow> components q = [to_component q]"
  by (cases q) (auto simp: components_def Let_def split_on_free simp del: split_on.simps)

lemma components_join:
  assumes "q \<noteq> []" "SLASH \<notin> set q" "q \<noteq> asc ''.''" "p \<noteq> []"
  shows "components (path_join p q) = components p @ [to_component q]"
proof -
  have q: "\<not> starts_with q [SLASH]" using assms by (cases q) auto
  show ?thesis
  proof (cases "last p = SLASH")
    case False
    with assms q show ?thesis
      by (simp add: path_join_def components_append split_on_free del: asc_Cons)
  next
    case True
    then obtain r where r: "p = r @ [SLASH]" using assms by (metis append_butlast_last_id)
    show ?thesis
    proof (cases "r = []")
      case True
      with r assms q show ?thesis
        by (auto simp: path_join_def components_def Let_def split_on_free)
    next
      case False
      with r assms q show ?thesis
        by (simp add: path_join_def components_append split_on_free del: asc_Cons)
    qed
  qed
qed

lemma path_join_starts_with:
  assumes "q \<noteq> []" "SLASH \<notin> set q" "q \<noteq> asc ''.''" "p \<noteq> []"
  shows "path_starts_with (path_join p q) p"
  using components_join [OF assms] by (simp add: path_starts_with_def)

end
