(* ===== verification/Smoke_Outcome.thy ===== *)
theory Smoke_Outcome
  imports Smoke_Base
begin

text \<open>
  \<open>smoke/src/outcome.rs\<close>: what a scenario and a run can come to, the exit code a list of
  scenario states gives, and whose fault a panic is. \<open>manifest_dir\<close> is the package directory
  the build bakes in.
\<close>

section \<open>States and outcomes\<close>

datatype scenario_state =
  Pass | Fail | TimeoutState | Skip ustr | OutOfScope | Observed ustr

datatype run_outcome = Complete | TimedOut | CannotTest | PanickedInCrate | PanickedInHarness

fun is_inconclusive :: "run_outcome \<Rightarrow> bool" where
  "is_inconclusive TimedOut = True"
| "is_inconclusive PanickedInHarness = True"
| "is_inconclusive Complete = False"
| "is_inconclusive CannotTest = False"
| "is_inconclusive PanickedInCrate = False"

section \<open>The exit code\<close>

definition EXIT_FAILED :: nat where "EXIT_FAILED = 1"
definition EXIT_INCONCLUSIVE :: nat where "EXIT_INCONCLUSIVE = 2"
definition EXIT_OK :: nat where "EXIT_OK = 0"

fun skipped_or_late :: "scenario_state \<Rightarrow> bool" where
  "skipped_or_late (Skip _) = True"
| "skipped_or_late TimeoutState = True"
| "skipped_or_late _ = False"

definition exit_code :: "scenario_state list \<Rightarrow> nat" where
  "exit_code states =
     (if states = [] then EXIT_INCONCLUSIVE
      else if Fail \<in> set states then EXIT_FAILED
      else if list_ex skipped_or_late states then EXIT_INCONCLUSIVE
      else EXIT_OK)"

section \<open>Whose panic\<close>

definition HARNESS_ONLY_DEPS :: "ustr list" where "HARNESS_ONLY_DEPS = [asc ''toml'']"

definition path_separator :: "nat \<Rightarrow> bool" where
  "path_separator c \<longleftrightarrow> c = 47 \<or> c = 92"

definition HARNESS_SOURCE_DIR :: ustr where "HARNESS_SOURCE_DIR = asc ''src''"

definition is_harness_source :: "ustr \<Rightarrow> ustr \<Rightarrow> bool" where
  "is_harness_source manifest_dir location \<longleftrightarrow>
     path_starts_with location manifest_dir
     \<or> hd (split_by path_separator location) = HARNESS_SOURCE_DIR"

definition versioned_segment :: "ustr \<Rightarrow> ustr \<Rightarrow> bool" where
  "versioned_segment dep segment \<longleftrightarrow>
     (case Option.bind (str_strip_prefix segment dep) (\<lambda>rest. str_strip_prefix rest (asc ''-'')) of
        Some (c # _) \<Rightarrow> is_ascii_digit c
      | _ \<Rightarrow> False)"

definition is_dependency_source :: "ustr \<Rightarrow> ustr \<Rightarrow> bool" where
  "is_dependency_source location dep \<longleftrightarrow>
     list_ex (versioned_segment dep) (split_by path_separator location)"

definition classify_panic :: "ustr \<Rightarrow> ustr option \<Rightarrow> scenario_state" where
  "classify_panic manifest_dir location =
     (case location of
        None \<Rightarrow> Fail
      | Some loc \<Rightarrow>
          if is_harness_source manifest_dir loc then
            Skip (asc ''panic inside the harness at '' @ loc @ asc '': ours, not the crate's'')
          else if list_ex (is_dependency_source loc) HARNESS_ONLY_DEPS then
            Skip (asc ''panic in a HARNESS-only dependency at '' @ loc)
          else Fail)"

text \<open>\<open>run_catching\<close>: a run gives a value or panics at a location. The hook of
  \<open>install_panic_hook\<close> stores the location of the last panic; the handler takes it, so a
  stored location is never read twice.\<close>

datatype 'a caught = Returned 'a | PanickedAt "ustr option"

definition run_catching ::
  "ustr \<Rightarrow> 'a caught \<Rightarrow> ustr option \<Rightarrow> ('a, run_outcome) result \<times> ustr option" where
  "run_catching manifest_dir fut last_panic_location =
     (case fut of
        Returned v \<Rightarrow> (Ok v, last_panic_location)
      | PanickedAt location \<Rightarrow>
          (Err (case classify_panic manifest_dir location of
                  Skip _ \<Rightarrow> PanickedInHarness
                | _ \<Rightarrow> PanickedInCrate), None))"

section \<open>Exit codes\<close>

lemma exit_code_cases:
  "exit_code states =
     (if Fail \<in> set states then 1
      else if states = [] \<or> list_ex skipped_or_late states then 2 else 0)"
  by (auto simp: exit_code_def EXIT_FAILED_def EXIT_INCONCLUSIVE_def EXIT_OK_def)

lemma skipped_or_late_iff: "skipped_or_late s \<longleftrightarrow> s = TimeoutState \<or> (\<exists>r. s = Skip r)"
  by (cases s) auto

text \<open>The code depends only on which states occur: a report in another order, or one in which
  a state is repeated, exits alike.\<close>

lemma exit_code_set: "set xs = set ys \<Longrightarrow> exit_code xs = exit_code ys"
  by (cases xs; cases ys) (auto simp: exit_code_cases list_ex_iff)

text \<open>Joining two lists of states, the worse code wins, in the order failed, inconclusive, ok.\<close>

fun worse :: "nat \<Rightarrow> nat \<Rightarrow> nat" where
  "worse a b = (if a = EXIT_FAILED \<or> b = EXIT_FAILED then EXIT_FAILED
                else if a = EXIT_INCONCLUSIVE \<or> b = EXIT_INCONCLUSIVE then EXIT_INCONCLUSIVE
                else EXIT_OK)"

lemma exit_code_append:
  "xs \<noteq> [] \<Longrightarrow> ys \<noteq> [] \<Longrightarrow> exit_code (xs @ ys) = worse (exit_code xs) (exit_code ys)"
  by (auto simp: exit_code_cases EXIT_FAILED_def EXIT_INCONCLUSIVE_def EXIT_OK_def)

text \<open>The harness exits with success exactly when at least one scenario was reported and
  every one of them passed, was out of scope or was only observed; it exits with failure exactly
  when some scenario failed; a skipped or late scenario, or no scenario at all, is inconclusive
  and never a success.\<close>

theorem smoke_exit_exact:
  "(exit_code states = EXIT_OK \<longleftrightarrow>
      states \<noteq> [] \<and> list_all (\<lambda>s. s = Pass \<or> s = OutOfScope \<or> (\<exists>o'. s = Observed o')) states)
   \<and> (exit_code states = EXIT_FAILED \<longleftrightarrow> Fail \<in> set states)
   \<and> exit_code states \<in> {EXIT_OK, EXIT_FAILED, EXIT_INCONCLUSIVE}"
proof -
  have good: "s = Pass \<or> s = OutOfScope \<or> (\<exists>x. s = Observed x) \<longleftrightarrow> s \<noteq> Fail \<and> \<not> skipped_or_late s"
    for s by (cases s) auto
  show ?thesis
    unfolding good
    by (auto simp: exit_code_cases EXIT_FAILED_def EXIT_INCONCLUSIVE_def EXIT_OK_def
        list_all_iff list_ex_iff)
qed

section \<open>Panics\<close>

lemma versioned_segment_iff:
  "versioned_segment dep seg \<longleftrightarrow> (\<exists>c v. seg = dep @ asc ''-'' @ c # v \<and> is_ascii_digit c)"
  by (auto simp: versioned_segment_def str_strip_prefix_def starts_with_iff
      split: option.splits list.splits if_splits)

text \<open>A panic is only excused when its location is positively identified; no location at all is
  charged to the crate.\<close>

lemma classify_panic_skip_iff:
  "(\<exists>r. classify_panic m location = Skip r) \<longleftrightarrow>
     (\<exists>loc. location = Some loc \<and>
        (is_harness_source m loc
         \<or> (\<exists>c v. asc ''toml-'' @ c # v \<in> set (split_by path_separator loc) \<and> is_ascii_digit c)))"
  by (auto simp: classify_panic_def HARNESS_ONLY_DEPS_def is_dependency_source_def list_ex_iff
      versioned_segment_iff split: option.splits)

lemma run_catching_takes_location:
  "run_catching m (PanickedAt loc) stored = (Err e, rest) \<Longrightarrow> rest = None \<and> e \<in> {PanickedInCrate, PanickedInHarness}"
  by (auto simp: run_catching_def split: scenario_state.splits)

end
