(* ===== verification/Smoke_Config.thy ===== *)
theory Smoke_Config
  imports Smoke_Base Schema
begin

text \<open>
  \<open>smoke/src/config.rs\<close>: the configuration of the smoke harness, its defaults, the environment
  overrides, and the validation a configuration passes before anything is run. The TOML reader
  is a library: \<open>toml_lib\<close> gives the value a text denotes and the texts of its errors, and the
  derived deserialisation (defaults, required keys, unknown keys refused) is written out over
  that value. The environment is the list of its variables, the file system two functions.
\<close>

section \<open>Data\<close>

record smoke_seat =
  ss_agent :: ustr
  ss_model :: ustr
  ss_lineage :: ustr
  ss_supports_reasoning_control :: bool

record smoke_fallback =
  sf_model :: ustr
  sf_lineage :: ustr

record budgets =
  happy_secs :: nat
  large_payload_secs :: nat
  injected_secs :: nat
  no_backend_secs :: nat

record smoke_config =
  sc_endpoint :: ustr
  sc_probe_timeout_secs :: nat
  sc_payload_target_bytes :: nat
  sc_run_payload_bytes :: nat
  sc_budgets :: budgets
  sc_seats :: "smoke_seat list"
  sc_fallbacks :: "smoke_fallback list"

type_synonym config_error = ustr

definition seat_agent_name :: "rust_fmt \<Rightarrow> smoke_seat \<Rightarrow> (agent_name, config_error) result" where
  "seat_agent_name F s =
     (if ss_agent s = asc ''melchior'' then Ok Melchior
      else if ss_agent s = asc ''balthasar'' then Ok Balthasar
      else if ss_agent s = asc ''caspar'' then Ok Caspar
      else Err (asc ''unknown agent '' @ dbg_str F (ss_agent s)
        @ asc ''; expected melchior, balthasar or caspar''))"

section \<open>Defaults\<close>

definition default_endpoint :: ustr where "default_endpoint = asc ''http://localhost:11434''"
definition default_probe_timeout :: nat where "default_probe_timeout = 10"
definition default_payload_target :: nat where "default_payload_target = 250000"
definition default_run_payload :: nat where "default_run_payload = 2048"

definition default_budgets :: budgets where
  "default_budgets = \<lparr> happy_secs = 120, large_payload_secs = 300, injected_secs = 180,
     no_backend_secs = 30 \<rparr>"

definition default_fallbacks :: "smoke_fallback list" where
  "default_fallbacks =
     [\<lparr> sf_model = asc ''deepseek-v4-pro:cloud'', sf_lineage = asc ''deepseek'' \<rparr>,
      \<lparr> sf_model = asc ''gpt-oss:120b-cloud'', sf_lineage = asc ''openai'' \<rparr>]"

definition default_seats :: "smoke_seat list" where
  "default_seats =
     [\<lparr> ss_agent = asc ''melchior'', ss_model = asc ''qwen3.5:397b-cloud'',
        ss_lineage = asc ''alibaba'', ss_supports_reasoning_control = True \<rparr>,
      \<lparr> ss_agent = asc ''balthasar'', ss_model = asc ''kimi-k2.6:cloud'',
        ss_lineage = asc ''moonshot'', ss_supports_reasoning_control = False \<rparr>,
      \<lparr> ss_agent = asc ''caspar'', ss_model = asc ''glm-5.2:cloud'',
        ss_lineage = asc ''zhipu'', ss_supports_reasoning_control = True \<rparr>]"

definition default_config :: smoke_config where
  "default_config = \<lparr> sc_endpoint = default_endpoint, sc_probe_timeout_secs = default_probe_timeout,
     sc_payload_target_bytes = default_payload_target, sc_run_payload_bytes = default_run_payload,
     sc_budgets = default_budgets, sc_seats = default_seats, sc_fallbacks = default_fallbacks \<rparr>"

section \<open>Reading the file\<close>

text \<open>What a TOML text denotes, as far as the deserialiser distinguishes it; the keys of a table
  are distinct.\<close>

datatype toml = TStr ustr | TInt int | TBool bool | TArr "toml list" | TTable "(ustr \<times> toml) list" | TOther

record toml_lib =
  toml_parse :: "ustr \<Rightarrow> (toml, ustr) result"
  toml_shape_error :: "toml \<Rightarrow> ustr"

fun toml_str :: "toml \<Rightarrow> ustr option" where
  "toml_str (TStr s) = Some s"
| "toml_str _ = None"

fun toml_bool :: "toml \<Rightarrow> bool option" where
  "toml_bool (TBool b) = Some b"
| "toml_bool _ = None"

fun toml_unsigned :: "toml \<Rightarrow> nat option" where
  "toml_unsigned (TInt i) = (if 0 \<le> i then Some (nat i) else None)"
| "toml_unsigned _ = None"

fun toml_table :: "toml \<Rightarrow> (ustr \<times> toml) list option" where
  "toml_table (TTable kvs) = Some kvs"
| "toml_table _ = None"

fun those_list :: "'a option list \<Rightarrow> 'a list option" where
  "those_list [] = Some []"
| "those_list (None # xs) = None"
| "those_list (Some x # xs) = map_option ((#) x) (those_list xs)"

fun toml_list :: "(toml \<Rightarrow> 'a option) \<Rightarrow> toml \<Rightarrow> 'a list option" where
  "toml_list f (TArr vs) = those_list (map f vs)"
| "toml_list f _ = None"

text \<open>A struct with \<open>deny_unknown_fields\<close>: a table whose keys are all known. A field with a
  default is read when the key is there.\<close>

definition known_table :: "ustr list \<Rightarrow> toml \<Rightarrow> (ustr \<times> toml) list option" where
  "known_table keys v =
     Option.bind (toml_table v) (\<lambda>kvs.
       if list_all (\<lambda>(k, _). k \<in> set keys) kvs then Some kvs else None)"

definition field_or :: "(toml \<Rightarrow> 'a option) \<Rightarrow> 'a \<Rightarrow> ustr \<Rightarrow> (ustr \<times> toml) list \<Rightarrow> 'a option" where
  "field_or f d key kvs = (case map_of kvs key of None \<Rightarrow> Some d | Some v \<Rightarrow> f v)"

definition field_required :: "(toml \<Rightarrow> 'a option) \<Rightarrow> ustr \<Rightarrow> (ustr \<times> toml) list \<Rightarrow> 'a option" where
  "field_required f key kvs = Option.bind (map_of kvs key) f"

definition seat_of_toml :: "toml \<Rightarrow> smoke_seat option" where
  "seat_of_toml v =
     Option.bind (known_table [asc ''agent'', asc ''model'', asc ''lineage'',
         asc ''supports_reasoning_control''] v) (\<lambda>kvs.
     Option.bind (field_required toml_str (asc ''agent'') kvs) (\<lambda>agent.
     Option.bind (field_required toml_str (asc ''model'') kvs) (\<lambda>model.
     Option.bind (field_required toml_str (asc ''lineage'') kvs) (\<lambda>lineage.
     Option.bind (field_or toml_bool True (asc ''supports_reasoning_control'') kvs) (\<lambda>reasoning.
       Some \<lparr> ss_agent = agent, ss_model = model, ss_lineage = lineage,
              ss_supports_reasoning_control = reasoning \<rparr>)))))"

definition fallback_of_toml :: "toml \<Rightarrow> smoke_fallback option" where
  "fallback_of_toml v =
     Option.bind (known_table [asc ''model'', asc ''lineage''] v) (\<lambda>kvs.
     Option.bind (field_required toml_str (asc ''model'') kvs) (\<lambda>model.
     Option.bind (field_required toml_str (asc ''lineage'') kvs) (\<lambda>lineage.
       Some \<lparr> sf_model = model, sf_lineage = lineage \<rparr>)))"

definition budgets_of_toml :: "toml \<Rightarrow> budgets option" where
  "budgets_of_toml v =
     Option.bind (known_table [asc ''happy_secs'', asc ''large_payload_secs'', asc ''injected_secs'',
         asc ''no_backend_secs''] v) (\<lambda>kvs.
     Option.bind (field_or toml_unsigned (happy_secs default_budgets) (asc ''happy_secs'') kvs) (\<lambda>h.
     Option.bind (field_or toml_unsigned (large_payload_secs default_budgets) (asc ''large_payload_secs'') kvs) (\<lambda>l.
     Option.bind (field_or toml_unsigned (injected_secs default_budgets) (asc ''injected_secs'') kvs) (\<lambda>i.
     Option.bind (field_or toml_unsigned (no_backend_secs default_budgets) (asc ''no_backend_secs'') kvs) (\<lambda>n.
       Some \<lparr> happy_secs = h, large_payload_secs = l, injected_secs = i, no_backend_secs = n \<rparr>)))))"

definition config_of_toml :: "toml \<Rightarrow> smoke_config option" where
  "config_of_toml v =
     Option.bind (known_table [asc ''endpoint'', asc ''probe_timeout_secs'', asc ''payload_target_bytes'',
         asc ''run_payload_bytes'', asc ''budgets'', asc ''seats'', asc ''fallbacks''] v) (\<lambda>kvs.
     Option.bind (field_or toml_str default_endpoint (asc ''endpoint'') kvs) (\<lambda>e.
     Option.bind (field_or toml_unsigned default_probe_timeout (asc ''probe_timeout_secs'') kvs) (\<lambda>p.
     Option.bind (field_or toml_unsigned default_payload_target (asc ''payload_target_bytes'') kvs) (\<lambda>t.
     Option.bind (field_or toml_unsigned default_run_payload (asc ''run_payload_bytes'') kvs) (\<lambda>r.
     Option.bind (field_or budgets_of_toml default_budgets (asc ''budgets'') kvs) (\<lambda>b.
     Option.bind (field_or (toml_list seat_of_toml) default_seats (asc ''seats'') kvs) (\<lambda>s.
     Option.bind (field_or (toml_list fallback_of_toml) default_fallbacks (asc ''fallbacks'') kvs) (\<lambda>f.
       Some \<lparr> sc_endpoint = e, sc_probe_timeout_secs = p, sc_payload_target_bytes = t,
              sc_run_payload_bytes = r, sc_budgets = b, sc_seats = s, sc_fallbacks = f \<rparr>))))))))"

definition config_from_str :: "toml_lib \<Rightarrow> ustr \<Rightarrow> (smoke_config, config_error) result" where
  "config_from_str L txt =
     and_then (toml_parse L txt) (\<lambda>v.
       case config_of_toml v of Some c \<Rightarrow> Ok c | None \<Rightarrow> Err (toml_shape_error L v))"

section \<open>Runs and their budgets\<close>

datatype run_id =
    HappySmall | Large62k | RotationRun | DegradationRun | CrateDefectRun | MixedTrio
  | Large62kNoReasoning | PoolEligibility | EndpointBlip | EndpointDownRun
  | DialectMaxTokens | DialectMaxCompletionTokens | NoBackend

fun run_id_str :: "run_id \<Rightarrow> ustr" where
  "run_id_str HappySmall = asc ''happy_small''"
| "run_id_str Large62k = asc ''large_62k''"
| "run_id_str RotationRun = asc ''rotation''"
| "run_id_str DegradationRun = asc ''degradation''"
| "run_id_str CrateDefectRun = asc ''crate_defect''"
| "run_id_str MixedTrio = asc ''mixed_trio''"
| "run_id_str Large62kNoReasoning = asc ''large_62k_no_reasoning''"
| "run_id_str PoolEligibility = asc ''pool_eligibility''"
| "run_id_str EndpointBlip = asc ''endpoint_blip''"
| "run_id_str EndpointDownRun = asc ''endpoint_down''"
| "run_id_str DialectMaxTokens = asc ''dialect_max_tokens''"
| "run_id_str DialectMaxCompletionTokens = asc ''dialect_max_completion_tokens''"
| "run_id_str NoBackend = asc ''no_backend''"

fun uses_backend :: "run_id \<Rightarrow> bool" where
  "uses_backend NoBackend = False"
| "uses_backend _ = True"

fun budget_secs :: "budgets \<Rightarrow> run_id \<Rightarrow> nat" where
  "budget_secs b HappySmall = happy_secs b"
| "budget_secs b Large62k = large_payload_secs b"
| "budget_secs b Large62kNoReasoning = large_payload_secs b"
| "budget_secs b RotationRun = injected_secs b"
| "budget_secs b DegradationRun = injected_secs b"
| "budget_secs b CrateDefectRun = injected_secs b"
| "budget_secs b MixedTrio = injected_secs b"
| "budget_secs b EndpointBlip = injected_secs b"
| "budget_secs b EndpointDownRun = injected_secs b"
| "budget_secs b PoolEligibility = happy_secs b"
| "budget_secs b DialectMaxTokens = happy_secs b"
| "budget_secs b DialectMaxCompletionTokens = happy_secs b"
| "budget_secs b NoBackend = no_backend_secs b"

definition run_budget :: "smoke_config \<Rightarrow> run_id \<Rightarrow> duration" where
  "run_budget c run = secs (budget_secs (sc_budgets c) run)"

definition probe_timeout :: "smoke_config \<Rightarrow> duration" where
  "probe_timeout c = secs (sc_probe_timeout_secs c)"

definition longest_backend_budget :: "smoke_config \<Rightarrow> duration" where
  "longest_backend_budget c =
     secs (max (max (happy_secs (sc_budgets c)) (large_payload_secs (sc_budgets c)))
               (injected_secs (sc_budgets c)))"

definition NO_MODEL_DECLARED :: ustr where "NO_MODEL_DECLARED = asc ''no-model-declared-in-config''"

definition probe_model :: "smoke_config \<Rightarrow> ustr" where
  "probe_model c =
     (if sc_fallbacks c \<noteq> [] then sf_model (last (sc_fallbacks c))
      else if sc_seats c \<noteq> [] then ss_model (last (sc_seats c))
      else NO_MODEL_DECLARED)"

section \<open>Validation\<close>

definition MAX_PROBE_TIMEOUT_SECS :: nat where "MAX_PROBE_TIMEOUT_SECS = 600"
definition MAX_BUDGET_SECS :: nat where "MAX_BUDGET_SECS = 4 * 60 * 60"
definition MIN_PAYLOAD_TARGET_BYTES :: nat where "MIN_PAYLOAD_TARGET_BYTES = 100000"
definition MIN_RUN_PAYLOAD_BYTES :: nat where "MIN_RUN_PAYLOAD_BYTES = 1"
definition PROBE_RETRY_FACTOR :: nat where "PROBE_RETRY_FACTOR = 3"

definition PREFLIGHT_BACKEND_WINDOWS :: "nat list" where
  "PREFLIGHT_BACKEND_WINDOWS = [1, 1, PROBE_RETRY_FACTOR]"

definition ENDPOINT_SCHEMES :: "ustr list" where
  "ENDPOINT_SCHEMES = [asc ''http://'', asc ''https://'']"

definition authority_terminator :: "nat \<Rightarrow> bool" where
  "authority_terminator c \<longleftrightarrow> c = 47 \<or> c = 63 \<or> c = 35"

definition USERINFO_SEPARATOR :: nat where "USERINFO_SEPARATOR = 64"
definition QUERY_SEPARATOR :: nat where "QUERY_SEPARATOR = 63"

definition worst_probe_window :: "nat \<Rightarrow> nat" where
  "worst_probe_window timeout =
     foldl (\<lambda>acc m. sat_add U64_MAX acc (sat_mul U64_MAX timeout m)) 0 PREFLIGHT_BACKEND_WINDOWS"

definition shortest_backend_run :: "budgets \<Rightarrow> nat" where
  "shortest_backend_run b = min (min (happy_secs b) (large_payload_secs b)) (injected_secs b)"

definition validate_probe_window :: "smoke_config \<Rightarrow> (unit, config_error) result" where
  "validate_probe_window c =
     (let worst = worst_probe_window (sc_probe_timeout_secs c);
          shortest = shortest_backend_run (sc_budgets c)
      in if worst > shortest then
           Err (asc ''probe_timeout_secs='' @ show_nat (sc_probe_timeout_secs c)
             @ asc '' lets the preflight run '' @ show_nat (length PREFLIGHT_BACKEND_WINDOWS)
             @ asc '' bounded backend request(s) for a total of '' @ show_nat worst
             @ asc ''s, more than the shortest backend run budget ('' @ show_nat shortest
             @ asc ''s): the preflight would outlast the run it protects'')
         else Ok ())"

definition endpoint_host :: "ustr \<Rightarrow> ustr" where
  "endpoint_host after_scheme = hd (split_by authority_terminator after_scheme)"

definition validate_endpoint :: "rust_fmt \<Rightarrow> smoke_config \<Rightarrow> (unit, config_error) result" where
  "validate_endpoint F c =
     (case find_map (str_strip_prefix (sc_endpoint c)) ENDPOINT_SCHEMES of
        None \<Rightarrow>
          Err (asc ''endpoint must start with one of '' @ dbg_list (dbg_str F) ENDPOINT_SCHEMES
            @ asc ''; got '' @ dbg_str F (sc_endpoint c) @ [SPC] @ EM_DASH
            @ asc '' a value that is not a URL fails at the first request instead of here, a layer away from the typo'')
      | Some after_scheme \<Rightarrow>
          let host = endpoint_host after_scheme
          in if host = [] then Err (asc ''endpoint has no host: '' @ dbg_str F (sc_endpoint c))
             else if list_ex is_ws host then
               Err (asc ''endpoint host contains whitespace: '' @ dbg_str F (sc_endpoint c))
             else if USERINFO_SEPARATOR \<in> set host then
               Err (asc ''endpoint carries userinfo (a `user:password@` component). It is refused rather than redacted, because the endpoint is printed by the preflight and embedded by the transport library in error text this harness does not author ''
                 @ EM_DASH
                 @ asc '' and from there it reaches the run's report. Put the credential where the backend takes it out of band, and give `endpoint` a bare host.'')
             else if QUERY_SEPARATOR \<in> set (sc_endpoint c) then
               Err (asc ''endpoint carries a query string, which is how a query-authenticated backend takes a credential ''
                 @ EM_DASH
                 @ asc '' and the query is the component the crate under test MEASURED reaching error text. It is also unusable here: every request appends its own path, which would land after the query. Give `endpoint` a bare base URL.'')
             else Ok ())"

definition budget_in_range :: "ustr \<times> nat \<Rightarrow> (unit, config_error) result" where
  "budget_in_range = (\<lambda>(name, v).
     if v = 0 \<or> v > MAX_BUDGET_SECS then
       Err (asc ''budgets.'' @ name @ asc '' must be in 1..='' @ show_nat MAX_BUDGET_SECS
         @ asc '': zero caps a run at nothing, and a budget beyond the ceiling stops being a cap at all ''
         @ EM_DASH @ asc '' a run that can last a day reports a TIME failure nobody will ever see'')
     else Ok ())"

definition config_validate :: "rust_fmt \<Rightarrow> smoke_config \<Rightarrow> (unit, config_error) result" where
  "config_validate F c =
     (if sc_probe_timeout_secs c = 0 \<or> sc_probe_timeout_secs c > MAX_PROBE_TIMEOUT_SECS then
        Err (asc ''probe_timeout_secs must be in 1..='' @ show_nat MAX_PROBE_TIMEOUT_SECS
          @ asc ''; 0 disables the contention probe silently'')
      else
        and_then (check_all budget_in_range
          [(asc ''happy_secs'', happy_secs (sc_budgets c)),
           (asc ''large_payload_secs'', large_payload_secs (sc_budgets c)),
           (asc ''injected_secs'', injected_secs (sc_budgets c)),
           (asc ''no_backend_secs'', no_backend_secs (sc_budgets c))]) (\<lambda>_.
        and_then (validate_probe_window c) (\<lambda>_.
        and_then (validate_endpoint F c) (\<lambda>_.
          if sc_payload_target_bytes c < MIN_PAYLOAD_TARGET_BYTES then
            Err (asc ''payload_target_bytes must be >= '' @ show_nat MIN_PAYLOAD_TARGET_BYTES
              @ asc '': below that the large-payload scenario stops being large and certifies exactly what never fails'')
          else if sc_run_payload_bytes c < MIN_RUN_PAYLOAD_BYTES then
            Err (asc ''run_payload_bytes must be >= '' @ show_nat MIN_RUN_PAYLOAD_BYTES
              @ asc '': an empty payload makes every backend run analyse nothing, and a run that analysed nothing still reports ''
              @ EM_DASH @ asc '' so the suite would go green over an input that was never sent'')
          else Ok ()))))"

section \<open>The environment\<close>

definition SMOKE_NAMESPACE :: ustr where "SMOKE_NAMESPACE = asc ''MAGI_SMOKE_''"

definition ENV_OVERRIDES :: "(ustr \<times> ustr) list" where
  "ENV_OVERRIDES =
     [(asc ''MAGI_SMOKE_ENDPOINT'', asc ''endpoint''),
      (asc ''MAGI_SMOKE_PROBE_TIMEOUT_SECS'', asc ''probe_timeout_secs''),
      (asc ''MAGI_SMOKE_PAYLOAD_TARGET_BYTES'', asc ''payload_target_bytes''),
      (asc ''MAGI_SMOKE_RUN_PAYLOAD_BYTES'', asc ''run_payload_bytes''),
      (asc ''MAGI_SMOKE_BUDGET_HAPPY_SECS'', asc ''budgets.happy_secs''),
      (asc ''MAGI_SMOKE_BUDGET_LARGE_SECS'', asc ''budgets.large_payload_secs''),
      (asc ''MAGI_SMOKE_BUDGET_INJECTED_SECS'', asc ''budgets.injected_secs''),
      (asc ''MAGI_SMOKE_BUDGET_NO_BACKEND_SECS'', asc ''budgets.no_backend_secs'')]"

definition parse_num :: "ustr \<Rightarrow> ustr \<Rightarrow> (nat, config_error) result" where
  "parse_num key raw =
     (case parse_u64 raw of Some n \<Rightarrow> Ok n | None \<Rightarrow> Err (key @ asc '': not a number''))"

definition apply_env_override ::
  "ustr \<Rightarrow> ustr \<Rightarrow> smoke_config \<Rightarrow> (smoke_config, config_error) result" where
  "apply_env_override key raw base =
     (let num = (\<lambda>upd. and_then (parse_num key raw) (\<lambda>n. Ok (upd n base)));
          budget = (\<lambda>upd. num (\<lambda>n. sc_budgets_update (upd n)))
      in if key = asc ''MAGI_SMOKE_ENDPOINT'' then Ok (base\<lparr> sc_endpoint := raw \<rparr>)
         else if key = asc ''MAGI_SMOKE_PROBE_TIMEOUT_SECS'' then
           num (\<lambda>n c. c\<lparr> sc_probe_timeout_secs := n \<rparr>)
         else if key = asc ''MAGI_SMOKE_BUDGET_HAPPY_SECS'' then budget (\<lambda>n b. b\<lparr> happy_secs := n \<rparr>)
         else if key = asc ''MAGI_SMOKE_BUDGET_LARGE_SECS'' then budget (\<lambda>n b. b\<lparr> large_payload_secs := n \<rparr>)
         else if key = asc ''MAGI_SMOKE_BUDGET_INJECTED_SECS'' then budget (\<lambda>n b. b\<lparr> injected_secs := n \<rparr>)
         else if key = asc ''MAGI_SMOKE_BUDGET_NO_BACKEND_SECS'' then budget (\<lambda>n b. b\<lparr> no_backend_secs := n \<rparr>)
         else if key = asc ''MAGI_SMOKE_PAYLOAD_TARGET_BYTES'' then
           num (\<lambda>n c. c\<lparr> sc_payload_target_bytes := n \<rparr>)
         else if key = asc ''MAGI_SMOKE_RUN_PAYLOAD_BYTES'' then
           num (\<lambda>n c. c\<lparr> sc_run_payload_bytes := n \<rparr>)
         else if starts_with key SMOKE_NAMESPACE then
           Err (key @ asc '': unknown override. Known keys: '' @ join (asc '', '') (map fst ENV_OVERRIDES))
         else Ok base)"

definition reject_unknown_smoke_vars ::
  "rust_fmt \<Rightarrow> (ustr \<times> ustr) list \<Rightarrow> (unit, config_error) result" where
  "reject_unknown_smoke_vars F vars =
     check_all (\<lambda>(k, _).
       if starts_with k SMOKE_NAMESPACE \<and> \<not> list_ex (\<lambda>(n, _). n = k) ENV_OVERRIDES then
         Err (asc ''unknown environment variable '' @ k
           @ asc '': the MAGI_SMOKE_ namespace is fail-closed. Known: ''
           @ dbg_list (dbg_str F) (map fst ENV_OVERRIDES))
       else Ok ()) vars"

text \<open>The loop of \<open>load_or_fail\<close> over the override keys.\<close>

fun apply_overrides ::
  "(ustr \<times> ustr) list \<Rightarrow> ustr list \<Rightarrow> smoke_config \<Rightarrow> (smoke_config, config_error) result" where
  "apply_overrides vars [] c = Ok c"
| "apply_overrides vars (key # keys) c =
     (case map_of vars key of
        None \<Rightarrow> apply_overrides vars keys c
      | Some raw \<Rightarrow> and_then (apply_env_override key raw c) (apply_overrides vars keys))"

record smoke_host =
  sh_exists :: "ustr \<Rightarrow> bool"
  sh_read :: "ustr \<Rightarrow> (ustr, ustr) result"
  sh_vars :: "(ustr \<times> ustr) list"

definition config_base ::
  "toml_lib \<Rightarrow> smoke_host \<Rightarrow> ustr option \<Rightarrow> (smoke_config \<times> ustr, config_error) result" where
  "config_base L H path =
     (case path of
        Some p \<Rightarrow>
          if sh_exists H p then
            and_then (map_err (\<lambda>e. p @ asc '': '' @ e) (sh_read H p)) (\<lambda>txt.
            and_then (config_from_str L txt) (\<lambda>c. Ok (c, asc ''config: '' @ p)))
          else Err (p @ asc '': file was given but does not exist '' @ EM_DASH
            @ asc '' refusing to fall back to defaults'')
      | None \<Rightarrow> Ok (default_config, asc ''config: built-in defaults''))"

definition load_or_fail ::
  "rust_fmt \<Rightarrow> toml_lib \<Rightarrow> smoke_host \<Rightarrow> ustr option \<Rightarrow> (smoke_config \<times> ustr, config_error) result" where
  "load_or_fail F L H path =
     and_then (config_base L H path) (\<lambda>(base, origin).
     and_then (apply_overrides (sh_vars H) (map fst ENV_OVERRIDES) base) (\<lambda>cfg.
     and_then (reject_unknown_smoke_vars F (sh_vars H)) (\<lambda>_.
     and_then (config_validate F cfg) (\<lambda>_. Ok (cfg, origin)))))"

section \<open>The defaults\<close>

text \<open>A file that sets nothing gives the built-in configuration.\<close>

lemma config_of_empty: "config_of_toml (TTable []) = Some default_config"
  by (simp add: config_of_toml_def known_table_def field_or_def default_config_def)

lemma field_known:
  "known_table keys v = Some kvs \<longleftrightarrow> v = TTable kvs \<and> list_all (\<lambda>(k, _). k \<in> set keys) kvs"
  by (cases v) (auto simp: known_table_def)

lemma those_list_map_Some: "(\<And>x. x \<in> set xs \<Longrightarrow> f x = Some (g x)) \<Longrightarrow> those_list (map f xs) = Some (map g xs)"
  by (induction xs) auto

text \<open>A file that writes every key out is read back as written.\<close>

definition toml_of_seat :: "smoke_seat \<Rightarrow> toml" where
  "toml_of_seat s = TTable [(asc ''agent'', TStr (ss_agent s)), (asc ''model'', TStr (ss_model s)),
     (asc ''lineage'', TStr (ss_lineage s)),
     (asc ''supports_reasoning_control'', TBool (ss_supports_reasoning_control s))]"

definition toml_of_fallback :: "smoke_fallback \<Rightarrow> toml" where
  "toml_of_fallback f = TTable [(asc ''model'', TStr (sf_model f)), (asc ''lineage'', TStr (sf_lineage f))]"

definition toml_of_budgets :: "budgets \<Rightarrow> toml" where
  "toml_of_budgets b = TTable [(asc ''happy_secs'', TInt (int (happy_secs b))),
     (asc ''large_payload_secs'', TInt (int (large_payload_secs b))),
     (asc ''injected_secs'', TInt (int (injected_secs b))),
     (asc ''no_backend_secs'', TInt (int (no_backend_secs b)))]"

definition toml_of_config :: "smoke_config \<Rightarrow> toml" where
  "toml_of_config c = TTable [(asc ''endpoint'', TStr (sc_endpoint c)),
     (asc ''probe_timeout_secs'', TInt (int (sc_probe_timeout_secs c))),
     (asc ''payload_target_bytes'', TInt (int (sc_payload_target_bytes c))),
     (asc ''run_payload_bytes'', TInt (int (sc_run_payload_bytes c))),
     (asc ''budgets'', toml_of_budgets (sc_budgets c)),
     (asc ''seats'', TArr (map toml_of_seat (sc_seats c))),
     (asc ''fallbacks'', TArr (map toml_of_fallback (sc_fallbacks c)))]"

lemma seat_roundtrip: "seat_of_toml (toml_of_seat s) = Some s"
  by (simp add: seat_of_toml_def toml_of_seat_def known_table_def field_required_def field_or_def)

lemma fallback_roundtrip: "fallback_of_toml (toml_of_fallback f) = Some f"
  by (simp add: fallback_of_toml_def toml_of_fallback_def known_table_def field_required_def)

lemma budgets_roundtrip: "budgets_of_toml (toml_of_budgets b) = Some b"
  by (simp add: budgets_of_toml_def toml_of_budgets_def known_table_def field_or_def)

lemma config_roundtrip: "config_of_toml (toml_of_config c) = Some c"
  by (simp add: config_of_toml_def toml_of_config_def known_table_def field_or_def
      seat_roundtrip fallback_roundtrip budgets_roundtrip comp_def
      those_list_map_Some [where g = "\<lambda>x. x"])

section \<open>What a validated configuration guarantees\<close>

lemma probe_window_exact: "t \<le> MAX_PROBE_TIMEOUT_SECS \<Longrightarrow> worst_probe_window t = 5 * t"
  by (simp add: worst_probe_window_def PREFLIGHT_BACKEND_WINDOWS_def PROBE_RETRY_FACTOR_def
      MAX_PROBE_TIMEOUT_SECS_def sat_add_def sat_mul_def U64_MAX_def)

lemma budget_in_range_iff: "budget_in_range (n, v) = Ok () \<longleftrightarrow> 1 \<le> v \<and> v \<le> MAX_BUDGET_SECS"
  by (auto simp: budget_in_range_def)

text \<open>The endpoint an accepted configuration carries: one of the two schemes, a host without
  whitespace and without credentials, no query.\<close>

definition endpoint_ok :: "ustr \<Rightarrow> bool" where
  "endpoint_ok e \<longleftrightarrow>
     (\<exists>rest. (e = asc ''http://'' @ rest \<or> e = asc ''https://'' @ rest)
        \<and> endpoint_host rest \<noteq> []
        \<and> list_all (\<lambda>c. \<not> is_ws c \<and> c \<noteq> USERINFO_SEPARATOR) (endpoint_host rest))
     \<and> QUERY_SEPARATOR \<notin> set e"

lemma str_strip_prefix_Some: "str_strip_prefix s p = Some r \<longleftrightarrow> s = p @ r"
  by (auto simp: str_strip_prefix_def starts_with_iff)

lemma str_strip_prefix_append [simp]: "str_strip_prefix (p @ r) p = Some r"
  by (simp add: str_strip_prefix_Some)

lemma strip_scheme:
  "find_map (str_strip_prefix e) ENDPOINT_SCHEMES = Some r
     \<longleftrightarrow> e = asc ''http://'' @ r \<or> e = asc ''https://'' @ r"
proof (cases "str_strip_prefix e (asc ''http://'')")
  case None
  then have "e \<noteq> asc ''http://'' @ r" by (auto simp: str_strip_prefix_Some [symmetric] simp del: asc_Cons)
  with None show ?thesis
    by (auto simp: ENDPOINT_SCHEMES_def str_strip_prefix_Some simp del: asc_Cons split: option.splits)
next
  case (Some x)
  then have e: "e = asc ''http://'' @ x" by (simp only: str_strip_prefix_Some)
  then have "e \<noteq> asc ''https://'' @ r" by simp
  with e Some show ?thesis by (auto simp: ENDPOINT_SCHEMES_def simp del: asc_Cons)
qed

lemma validate_endpoint_iff: "validate_endpoint F c = Ok () \<longleftrightarrow> endpoint_ok (sc_endpoint c)"
proof -
  have "(\<exists>r. find_map (str_strip_prefix e) ENDPOINT_SCHEMES = Some r \<and> P r)
     \<longleftrightarrow> (\<exists>r. (e = asc ''http://'' @ r \<or> e = asc ''https://'' @ r) \<and> P r)" for e P
    by (simp only: strip_scheme)
  moreover have "validate_endpoint F c = Ok () \<longleftrightarrow>
    (\<exists>r. find_map (str_strip_prefix (sc_endpoint c)) ENDPOINT_SCHEMES = Some r
       \<and> endpoint_host r \<noteq> [] \<and> list_all (\<lambda>x. \<not> is_ws x \<and> x \<noteq> USERINFO_SEPARATOR) (endpoint_host r)
       \<and> QUERY_SEPARATOR \<notin> set (sc_endpoint c))"
    by (auto simp: validate_endpoint_def Let_def list_ex_iff list_all_iff split: option.splits)
  ultimately show ?thesis by (auto simp: endpoint_ok_def)
qed

lemma config_window_fits:
  assumes "config_validate F c = Ok ()"
  shows "5 * sc_probe_timeout_secs c \<le> shortest_backend_run (sc_budgets c)"
proof -
  have t: "sc_probe_timeout_secs c \<le> MAX_PROBE_TIMEOUT_SECS"
    using assms by (auto simp: config_validate_def split: if_splits)
  have "validate_probe_window c = Ok ()"
    using assms by (auto simp: config_validate_def and_then_Ok_iff split: if_splits)
  with t show ?thesis
    by (auto simp: validate_probe_window_def Let_def probe_window_exact split: if_splits)
qed

text \<open>Validation accepts exactly the configurations that are safe to run: the probe window and
  every budget are positive and bounded, the five probe windows the preflight may spend fit in the
  shortest backend budget, the endpoint is an HTTP base address that carries neither credentials
  nor a query, and both payload sizes reach their floors.\<close>

theorem smoke_config_valid_exact:
  "config_validate F c = Ok () \<longleftrightarrow>
     1 \<le> sc_probe_timeout_secs c \<and> sc_probe_timeout_secs c \<le> 600
     \<and> list_all (\<lambda>v. 1 \<le> v \<and> v \<le> 14400)
          [happy_secs (sc_budgets c), large_payload_secs (sc_budgets c),
           injected_secs (sc_budgets c), no_backend_secs (sc_budgets c)]
     \<and> 5 * sc_probe_timeout_secs c \<le> shortest_backend_run (sc_budgets c)
     \<and> endpoint_ok (sc_endpoint c)
     \<and> 100000 \<le> sc_payload_target_bytes c \<and> 1 \<le> sc_run_payload_bytes c"
proof -
  have win: "validate_probe_window c = Ok () \<longleftrightarrow>
      5 * sc_probe_timeout_secs c \<le> shortest_backend_run (sc_budgets c)"
    if "sc_probe_timeout_secs c \<le> MAX_PROBE_TIMEOUT_SECS"
    using that by (auto simp: validate_probe_window_def Let_def probe_window_exact)
  show ?thesis
  proof (cases "1 \<le> sc_probe_timeout_secs c \<and> sc_probe_timeout_secs c \<le> MAX_PROBE_TIMEOUT_SECS")
    case True
    then have "config_validate F c = Ok () \<longleftrightarrow>
        list_all (\<lambda>v. 1 \<le> v \<and> v \<le> MAX_BUDGET_SECS)
          [happy_secs (sc_budgets c), large_payload_secs (sc_budgets c),
           injected_secs (sc_budgets c), no_backend_secs (sc_budgets c)]
        \<and> validate_probe_window c = Ok () \<and> validate_endpoint F c = Ok ()
        \<and> MIN_PAYLOAD_TARGET_BYTES \<le> sc_payload_target_bytes c
        \<and> MIN_RUN_PAYLOAD_BYTES \<le> sc_run_payload_bytes c"
      by (auto simp: config_validate_def res_simps budget_in_range_iff)
    with True win show ?thesis
      by (auto simp: validate_endpoint_iff MAX_PROBE_TIMEOUT_SECS_def MAX_BUDGET_SECS_def
          MIN_PAYLOAD_TARGET_BYTES_def MIN_RUN_PAYLOAD_BYTES_def)
  next
    case False
    then have "config_validate F c \<noteq> Ok ()" by (auto simp: config_validate_def)
    with False show ?thesis by (auto simp: MAX_PROBE_TIMEOUT_SECS_def)
  qed
qed

lemma default_config_valid: "config_validate F default_config = Ok ()"
proof -
  have "endpoint_ok default_endpoint"
    unfolding endpoint_ok_def default_endpoint_def
    by (rule conjI, rule exI [of _ "asc ''localhost:11434''"])
      (simp_all add: endpoint_host_def authority_terminator_def is_ws_def USERINFO_SEPARATOR_def
        QUERY_SEPARATOR_def)
  then show ?thesis
    by (simp add: smoke_config_valid_exact default_config_def default_probe_timeout_def
        default_budgets_def shortest_backend_run_def default_payload_target_def default_run_payload_def)
qed

section \<open>Overrides\<close>

text \<open>What one field of the configuration is after an override: the value of its own key, parsed,
  or what it was.\<close>

definition overridden_by :: "ustr \<Rightarrow> (ustr \<Rightarrow> 'a option) \<Rightarrow> (smoke_config \<Rightarrow> 'a) \<Rightarrow> bool" where
  "overridden_by key val field \<longleftrightarrow>
     (\<forall>k raw base c. apply_env_override k raw base = Ok c \<longrightarrow>
        Some (field c) = (if k = key then val raw else Some (field base)))"

lemma if_OkE:
  "(if b then x else y) = Ok c \<Longrightarrow> (b \<Longrightarrow> x = Ok c \<Longrightarrow> P) \<Longrightarrow> (\<not> b \<Longrightarrow> y = Ok c \<Longrightarrow> P) \<Longrightarrow> P"
  by (simp split: if_splits)

lemma parse_num_Ok: "parse_num key raw = Ok n \<longleftrightarrow> parse_u64 raw = Some n"
  by (simp add: parse_num_def split: option.splits)

lemma override_keys_distinct: "distinct (map fst ENV_OVERRIDES)"
  by (simp add: ENV_OVERRIDES_def)

lemma override_endpoint: "overridden_by (asc ''MAGI_SMOKE_ENDPOINT'') Some sc_endpoint"
  unfolding overridden_by_def apply_env_override_def Let_def
  by (intro allI impI, elim if_OkE) (simp_all add: and_then_Ok_iff, auto)

lemma override_sc_probe_timeout_secs:
  "overridden_by (asc ''MAGI_SMOKE_PROBE_TIMEOUT_SECS'') parse_u64 (sc_probe_timeout_secs)"
  unfolding overridden_by_def apply_env_override_def Let_def
  by (intro allI impI, elim if_OkE) (simp_all add: and_then_Ok_iff parse_num_Ok, auto)

lemma override_sc_payload_target_bytes:
  "overridden_by (asc ''MAGI_SMOKE_PAYLOAD_TARGET_BYTES'') parse_u64 (sc_payload_target_bytes)"
  unfolding overridden_by_def apply_env_override_def Let_def
  by (intro allI impI, elim if_OkE) (simp_all add: and_then_Ok_iff parse_num_Ok, auto)

lemma override_sc_run_payload_bytes:
  "overridden_by (asc ''MAGI_SMOKE_RUN_PAYLOAD_BYTES'') parse_u64 (sc_run_payload_bytes)"
  unfolding overridden_by_def apply_env_override_def Let_def
  by (intro allI impI, elim if_OkE) (simp_all add: and_then_Ok_iff parse_num_Ok, auto)

lemma override_happy_secs:
  "overridden_by (asc ''MAGI_SMOKE_BUDGET_HAPPY_SECS'') parse_u64 (happy_secs \<circ> sc_budgets)"
  unfolding overridden_by_def apply_env_override_def Let_def
  by (intro allI impI, elim if_OkE) (simp_all add: and_then_Ok_iff parse_num_Ok, auto)

lemma override_large_payload_secs:
  "overridden_by (asc ''MAGI_SMOKE_BUDGET_LARGE_SECS'') parse_u64 (large_payload_secs \<circ> sc_budgets)"
  unfolding overridden_by_def apply_env_override_def Let_def
  by (intro allI impI, elim if_OkE) (simp_all add: and_then_Ok_iff parse_num_Ok, auto)

lemma override_injected_secs:
  "overridden_by (asc ''MAGI_SMOKE_BUDGET_INJECTED_SECS'') parse_u64 (injected_secs \<circ> sc_budgets)"
  unfolding overridden_by_def apply_env_override_def Let_def
  by (intro allI impI, elim if_OkE) (simp_all add: and_then_Ok_iff parse_num_Ok, auto)

lemma override_no_backend_secs:
  "overridden_by (asc ''MAGI_SMOKE_BUDGET_NO_BACKEND_SECS'') parse_u64 (no_backend_secs \<circ> sc_budgets)"
  unfolding overridden_by_def apply_env_override_def Let_def
  by (intro allI impI, elim if_OkE) (simp_all add: and_then_Ok_iff parse_num_Ok, auto)

lemma apply_overrides_field:
  assumes "overridden_by key val field" "distinct keys" "apply_overrides vars keys base = Ok c"
  shows "Some (field c) =
    (case (if key \<in> set keys then map_of vars key else None) of
       Some raw \<Rightarrow> val raw | None \<Rightarrow> Some (field base))"
  using assms(2,3)
proof (induction vars keys base rule: apply_overrides.induct)
  case (2 vars k keys b)
  show ?case
  proof (cases "map_of vars k")
    case None
    with 2 show ?thesis by auto
  next
    case (Some raw)
    with "2.prems" obtain d where d: "apply_env_override k raw b = Ok d"
      and r: "apply_overrides vars keys d = Ok c" by (auto simp: and_then_Ok_iff)
    have one: "Some (field d) = (if k = key then val raw else Some (field b))"
      using assms(1) d unfolding overridden_by_def by blast
    from "2.IH"(2) [OF Some _ r] "2.prems"(1) one Some show ?thesis by (auto split: option.splits)
  qed
qed simp

lemma apply_env_override_seats:
  "apply_env_override key raw base = Ok c \<Longrightarrow>
     sc_seats c = sc_seats base \<and> sc_fallbacks c = sc_fallbacks base"
  unfolding apply_env_override_def Let_def by (elim if_OkE) (auto simp only: and_then_Ok_iff, simp_all)

lemma apply_overrides_seats:
  "apply_overrides vars keys base = Ok c \<Longrightarrow>
     sc_seats c = sc_seats base \<and> sc_fallbacks c = sc_fallbacks base"
proof (induction vars keys base rule: apply_overrides.induct)
  case (2 vars key keys b)
  show ?case
  proof (cases "map_of vars key")
    case None
    with 2 show ?thesis by simp
  next
    case (Some raw)
    with "2.prems" obtain d where d: "apply_env_override key raw b = Ok d"
      and r: "apply_overrides vars keys d = Ok c" by (auto simp: and_then_Ok_iff)
    from "2.IH"(2) [OF Some r] apply_env_override_seats [OF d] show ?thesis by simp
  qed
qed simp

lemma reject_unknown_iff:
  "reject_unknown_smoke_vars F vars = Ok () \<longleftrightarrow>
     list_all (\<lambda>(k, v). starts_with k SMOKE_NAMESPACE \<longrightarrow> k \<in> set (map fst ENV_OVERRIDES)) vars"
proof -
  have "list_ex (\<lambda>(n, y). n = k) ENV_OVERRIDES \<longleftrightarrow> k \<in> set (map fst ENV_OVERRIDES)" for k
    unfolding list_ex_iff set_map image_iff case_prod_beta by blast
  then show ?thesis
    by (simp add: reject_unknown_smoke_vars_def check_all_Ok_iff list_all_iff case_prod_beta
        del: set_map)
qed

text \<open>A configuration that loads is the file's (or the built-in one) with each field replaced by
  the parsed value of its own environment variable when that variable is set, whatever the other
  variables are; the seats and the fallbacks come from the file alone. Every variable of the
  harness's namespace is a known one, and the whole is validated once, after all overrides.\<close>

theorem env_overrides_exact:
  assumes "load_or_fail F L H path = Ok (cfg, origin)"
  shows "\<exists>base. config_base L H path = Ok (base, origin)
    \<and> sc_endpoint cfg = (case map_of (sh_vars H) (asc ''MAGI_SMOKE_ENDPOINT'') of
         Some raw \<Rightarrow> raw | None \<Rightarrow> sc_endpoint base)
    \<and> list_all (\<lambda>(key, field). Some (field cfg) =
         (case map_of (sh_vars H) key of Some raw \<Rightarrow> parse_u64 raw | None \<Rightarrow> Some (field base)))
       [(asc ''MAGI_SMOKE_PROBE_TIMEOUT_SECS'', sc_probe_timeout_secs),
        (asc ''MAGI_SMOKE_PAYLOAD_TARGET_BYTES'', sc_payload_target_bytes),
        (asc ''MAGI_SMOKE_RUN_PAYLOAD_BYTES'', sc_run_payload_bytes),
        (asc ''MAGI_SMOKE_BUDGET_HAPPY_SECS'', happy_secs \<circ> sc_budgets),
        (asc ''MAGI_SMOKE_BUDGET_LARGE_SECS'', large_payload_secs \<circ> sc_budgets),
        (asc ''MAGI_SMOKE_BUDGET_INJECTED_SECS'', injected_secs \<circ> sc_budgets),
        (asc ''MAGI_SMOKE_BUDGET_NO_BACKEND_SECS'', no_backend_secs \<circ> sc_budgets)]
    \<and> sc_seats cfg = sc_seats base \<and> sc_fallbacks cfg = sc_fallbacks base
    \<and> list_all (\<lambda>(k, v). starts_with k SMOKE_NAMESPACE \<longrightarrow> k \<in> set (map fst ENV_OVERRIDES)) (sh_vars H)
    \<and> config_validate F cfg = Ok ()"
proof -
  from assms obtain base where base: "config_base L H path = Ok (base, origin)"
    and ov: "apply_overrides (sh_vars H) (map fst ENV_OVERRIDES) base = Ok cfg"
    and un: "reject_unknown_smoke_vars F (sh_vars H) = Ok ()"
    and val: "config_validate F cfg = Ok ()"
    by (auto simp: load_or_fail_def and_then_Ok_iff case_prod_beta)
  note eff = apply_overrides_field [OF _ override_keys_distinct ov]
  have key: "(if k \<in> set (map fst ENV_OVERRIDES) then map_of (sh_vars H) k else None) = map_of (sh_vars H) k"
    if "k \<in> set (map fst ENV_OVERRIDES)" for k using that by simp
  have num: "Some (field cfg) = (case map_of (sh_vars H) k of Some raw \<Rightarrow> parse_u64 raw | None \<Rightarrow> Some (field base))"
    if "overridden_by k parse_u64 field" "k \<in> set (map fst ENV_OVERRIDES)" for k field
    using eff [OF that(1)] unfolding key [OF that(2)] .
  have "sc_endpoint cfg = (case map_of (sh_vars H) (asc ''MAGI_SMOKE_ENDPOINT'') of
      Some raw \<Rightarrow> raw | None \<Rightarrow> sc_endpoint base)"
    using eff [OF override_endpoint] by (simp add: ENV_OVERRIDES_def split: option.splits)
  moreover note num [OF override_sc_probe_timeout_secs]
    num [OF override_sc_payload_target_bytes]
    num [OF override_sc_run_payload_bytes]
    num [OF override_happy_secs]
    num [OF override_large_payload_secs]
    num [OF override_injected_secs]
    num [OF override_no_backend_secs]
  ultimately show ?thesis
    using base val apply_overrides_seats [OF ov] un [unfolded reject_unknown_iff]
    by (simp add: ENV_OVERRIDES_def del: asc_Cons)
qed

definition env_example :: smoke_host where
  "env_example = \<lparr> sh_exists = (\<lambda>_. False), sh_read = (\<lambda>_. Err []),
     sh_vars = [(asc ''PATH'', asc ''/bin''), (asc ''MAGI_SMOKE_BUDGET_HAPPY_SECS'', asc ''90'')] \<rparr>"

lemma env_example_loads:
  "load_or_fail plain_fmt \<lparr> toml_parse = (\<lambda>_. Err []), toml_shape_error = (\<lambda>_. []) \<rparr> env_example None
     = Ok (default_config\<lparr> sc_budgets := default_budgets\<lparr> happy_secs := 90 \<rparr> \<rparr>, asc ''config: built-in defaults'')"
proof -
  let ?c = "default_config\<lparr> sc_budgets := default_budgets\<lparr> happy_secs := 90 \<rparr> \<rparr>"
  have "config_validate plain_fmt ?c = Ok ()"
    using default_config_valid [of plain_fmt]
    by (simp add: smoke_config_valid_exact default_config_def default_budgets_def
        default_probe_timeout_def shortest_backend_run_def)
  moreover have "parse_u64 (asc ''90'') = Some 90"
    by (simp add: parse_u64_def is_ascii_digit_def U64_MAX_def)
  then have "apply_env_override (asc ''MAGI_SMOKE_BUDGET_HAPPY_SECS'') (asc ''90'') default_config = Ok ?c"
    by (simp add: apply_env_override_def parse_num_def default_config_def)
  then have "apply_overrides (sh_vars env_example) (map fst ENV_OVERRIDES) default_config = Ok ?c"
    by (simp add: ENV_OVERRIDES_def env_example_def)
  moreover have "reject_unknown_smoke_vars plain_fmt (sh_vars env_example) = Ok ()"
    by (simp add: reject_unknown_iff env_example_def SMOKE_NAMESPACE_def ENV_OVERRIDES_def)
  ultimately show ?thesis by (simp add: load_or_fail_def config_base_def)
qed

theorem env_overrides_exact_witness:
  "Some (happy_secs (sc_budgets (default_config\<lparr> sc_budgets := default_budgets\<lparr> happy_secs := 90 \<rparr> \<rparr>)))
     = parse_u64 (asc ''90'')"
  using env_overrides_exact [OF env_example_loads] by (auto simp: env_example_def)

end
