(* ===== verification/Smoke_Files.thy ===== *)
theory Smoke_Files
  imports Smoke_Base Utf8
begin

text \<open>
  What the harness sees of a file system. A directory listing is what \<open>read_dir\<close> answers: an
  error, or the entries in the order the system gives them, each itself possibly unreadable. An
  entry has a name, which need not be Unicode, and a node; a link is never followed by a walk,
  but reading a link gives the content behind it. Sub-directories are nested in the value, so a
  listing is a finite tree and every walk over it ends.
\<close>

record io_error =
  io_not_found :: bool
  io_text :: ustr

text \<open>A name: Unicode, or the lossy rendering of one that is not.\<close>

datatype fs_name = UnicodeName ustr | ForeignName ustr

fun name_lossy :: "fs_name \<Rightarrow> ustr" where
  "name_lossy (UnicodeName n) = n"
| "name_lossy (ForeignName n) = n"

datatype fs_node =
    FileNode "(byte list, io_error) result"
  | DirNode "((fs_name \<times> fs_node, io_error) result list, io_error) result"
  | LinkNode "(byte list, io_error) result"
  | OpaqueNode io_error

type_synonym fs_entry = "(fs_name \<times> fs_node, io_error) result"
type_synonym fs_listing = "(fs_entry list, io_error) result"

definition entry_path :: "ustr \<Rightarrow> fs_name \<Rightarrow> ustr" where
  "entry_path dir n = path_join dir (name_lossy n)"

definition INVALID_UTF8 :: io_error where
  "INVALID_UTF8 = \<lparr> io_not_found = False, io_text = asc ''stream did not contain valid UTF-8'' \<rparr>"

text \<open>\<open>read_to_string\<close>.\<close>

definition decode_text :: "byte list \<Rightarrow> (ustr, io_error) result" where
  "decode_text bs = (case from_utf8 bs of Some s \<Rightarrow> Ok s | None \<Rightarrow> Err INVALID_UTF8)"

definition read_text :: "(byte list, io_error) result \<Rightarrow> (ustr, io_error) result" where
  "read_text r = and_then r decode_text"

section \<open>The size of a tree\<close>

definition entry_size :: "fs_entry \<Rightarrow> nat" where
  "entry_size = size_result (size_prod (\<lambda>x. 0) size) (\<lambda>x. 0)"

lemma entry_size_listed:
  "Ok (n, nd) \<in> set es \<Longrightarrow> size nd < size_list entry_size es"
proof (induction es)
  case (Cons e es)
  then show ?case by (auto simp: entry_size_def)
qed simp

function listing_weight :: "fs_listing \<Rightarrow> nat" and node_weight :: "fs_node \<Rightarrow> nat" where
  "listing_weight (Ok es) =
     Suc (sum_list (map (\<lambda>e. case e of Ok (n, nd) \<Rightarrow> node_weight nd | Err _ \<Rightarrow> 0) es))"
| "listing_weight (Err _) = 1"
| "node_weight (DirNode l) = Suc (listing_weight l)"
| "node_weight (FileNode c) = 0"
| "node_weight (LinkNode c) = 0"
| "node_weight (OpaqueNode e) = 0"
  by pat_completeness auto

termination
proof (relation "measure (case_sum (size_result (size_list entry_size) (\<lambda>x. 0)) size)", goal_cases)
  case prems: (2 es e p nd nd2)
  show ?case
    using prems entry_size_listed [where es = es] by (auto intro: less_SucI)
next
  case (3 l)
  then show ?case by (simp add: entry_size_def)
qed auto

lemma listing_weight_pos [simp]: "0 < listing_weight l"
  by (cases l) auto

end
