(* ===== verification/Smoke_Payload.thy ===== *)
theory Smoke_Payload
  imports Smoke_Files "HOL-Library.List_Lexorder" "HOL-Library.Multiset"
begin

text \<open>
  \<open>smoke/src/payload.rs\<close>: the text a backend run analyses, cut from the repository's own Rust
  sources to an exact number of bytes, in an order that does not depend on the machine. The
  sources of a root are a listing; a collected file carries what reading it gives.
\<close>

type_synonym source_file = "ustr \<times> (byte list, io_error) result"

definition path_key :: "ustr \<Rightarrow> byte list" where
  "path_key p = as_bytes (map (\<lambda>c. if c = 92 then 47 else c) p)"

definition sort_deterministically :: "source_file list \<Rightarrow> source_file list" where
  "sort_deterministically files = sort_key (\<lambda>f. path_key (fst f)) files"

section \<open>Collecting\<close>

abbreviation both :: "('a list \<times> 'b list) list \<Rightarrow> 'a list \<times> 'b list" where
  "both rs \<equiv> (concat (map fst rs), concat (map snd rs))"

lemma entry_size_mem: "e \<in> set es \<Longrightarrow> entry_size e < Suc (size_list entry_size es)"
  by (induction es) auto

function collect_subdir :: "ustr \<Rightarrow> fs_listing \<Rightarrow> source_file list \<times> ustr list"
  and collect_entry :: "ustr \<Rightarrow> fs_entry \<Rightarrow> source_file list \<times> ustr list" where
  "collect_subdir dir (Err e) = ([], [asc ''could not read the directory '' @ dir @ asc '': '' @ io_text e])"
| "collect_subdir dir (Ok entries) = both (map (collect_entry dir) entries)"
| "collect_entry base (Err e) = ([], [asc ''could not read an entry of '' @ base @ asc '': '' @ io_text e])"
| "collect_entry base (Ok (n, OpaqueNode e)) =
     ([], [asc ''could not inspect '' @ entry_path base n @ asc '': '' @ io_text e])"
| "collect_entry base (Ok (n, LinkNode c)) = ([], [])"
| "collect_entry base (Ok (n, DirNode l)) = collect_subdir (entry_path base n) l"
| "collect_entry base (Ok (n, FileNode c)) =
     (if extension (entry_path base n) = Some (asc ''rs'') then ([(entry_path base n, c)], []) else ([], []))"
  by pat_completeness auto

termination
  by (relation "measure (case_sum (\<lambda>(d, l). Suc (size_result (size_list entry_size) (\<lambda>x. 0) l))
      (\<lambda>(d, e). entry_size e))") (auto dest!: entry_size_mem, auto simp: entry_size_def)

definition collect_from_entries :: "ustr \<Rightarrow> fs_entry list \<Rightarrow> source_file list \<times> ustr list" where
  "collect_from_entries base entries = both (map (collect_entry base) entries)"

definition collect_rs :: "ustr \<Rightarrow> fs_listing \<Rightarrow> source_file list \<times> ustr list" where
  "collect_rs base listing =
     (case listing of
        Ok entries \<Rightarrow> collect_from_entries base entries
      | Err e \<Rightarrow>
          if io_not_found e then ([], [])
          else ([], [base @ asc '': root exists but could not be read: '' @ io_text e
            @ asc ''. The payload would silently lose whatever it holds, so generation stops instead.'']))"

section \<open>Generating\<close>

record payload =
  pl_text :: ustr
  pl_bytes :: nat

definition ROOTS :: "ustr list" where "ROOTS = [asc ''src'', asc ''tests'', asc ''examples'']"
definition BOUNDARY_PAD :: nat where "BOUNDARY_PAD = 32"

fun add_files :: "nat \<Rightarrow> source_file list \<Rightarrow> ustr \<Rightarrow> (ustr, ustr) result" where
  "add_files target [] acc = Ok acc"
| "add_files target ((path, content) # files) acc =
     (if utf8_len acc \<ge> target then Ok acc
      else case read_text content of
        Ok txt \<Rightarrow> add_files target files (acc @ txt)
      | Err e \<Rightarrow> Err (asc ''could not read '' @ path @ asc '': '' @ io_text e
          @ asc ''. Skipping it would make the payload depend on which files happened to be readable, so the same tree would stop producing the same bytes ''
          @ EM_DASH @ asc '' the one property the deterministic order above exists to provide.''))"

fun add_roots :: "ustr \<Rightarrow> (ustr \<Rightarrow> fs_listing) \<Rightarrow> nat \<Rightarrow> ustr list \<Rightarrow> ustr \<Rightarrow> (ustr, ustr) result" where
  "add_roots repo tree target [] acc = Ok acc"
| "add_roots repo tree target (r # rs) acc =
     (if utf8_len acc \<ge> target then Ok acc
      else
        let base = path_join repo r; (files, walk_errors) = collect_rs base (tree base)
        in if walk_errors \<noteq> [] then
             Err (asc ''the walk of '' @ base @ asc '' could not inspect everything it found: ''
               @ join (asc ''; '') walk_errors
               @ asc ''. Dropping those entries would make the payload depend on the state of the machine, which is the one property the deterministic order exists to remove.'')
           else and_then (add_files target (sort_deterministically files) acc)
                  (add_roots repo tree target rs))"

definition generate_payload ::
  "rust_fmt \<Rightarrow> ustr \<Rightarrow> (ustr \<Rightarrow> fs_listing) \<Rightarrow> nat \<Rightarrow> (payload, ustr) result" where
  "generate_payload F repo tree target =
     and_then (add_roots repo tree target ROOTS []) (\<lambda>acc.
       if utf8_len acc < target then
         Err (asc ''generated payload is '' @ show_nat (utf8_len acc) @ asc '' bytes but the target is ''
           @ show_nat target @ asc '', even after widening to '' @ dbg_list (dbg_str F) ROOTS
           @ asc ''. Falling short is the CORRECT failure: the answer is to widen the source set further, NEVER to lower the target ''
           @ EM_DASH @ asc '' lowering it turns this scenario into the blind spot it exists to cover.'')
       else
         let cut = floor_prefix target acc;
             padded = cut @ replicate (target - utf8_len cut) BOUNDARY_PAD
         in Ok \<lparr> pl_text = padded, pl_bytes = utf8_len padded \<rparr>)"

section \<open>Exactly the bytes asked for\<close>

lemma utf8_len_replicate_pad [simp]: "utf8_len (replicate n BOUNDARY_PAD) = n"
  by (induction n) (simp_all add: BOUNDARY_PAD_def utf8_len1_def)

lemma floor_prefix_close:
  "target \<le> utf8_len s \<Longrightarrow> target - utf8_len (floor_prefix target s) \<le> 3"
proof (induction target s rule: floor_prefix.induct)
  case (2 n c s)
  have "utf8_len1 c \<le> 4" by (simp add: utf8_len1_def)
  with 2 show ?case by (cases "utf8_len1 c \<le> n") auto
qed simp

text \<open>The text of all the sources, in the order of the roots and, within a root, of the sort.\<close>

definition file_text :: "source_file \<Rightarrow> ustr" where
  "file_text f = (case read_text (snd f) of Ok t \<Rightarrow> t | Err _ \<Rightarrow> [])"

definition source_text :: "ustr \<Rightarrow> (ustr \<Rightarrow> fs_listing) \<Rightarrow> ustr list \<Rightarrow> ustr" where
  "source_text repo tree rs =
     concat (map (\<lambda>r. concat (map file_text
       (sort_deterministically (fst (collect_rs (path_join repo r) (tree (path_join repo r))))))) rs)"

lemma add_files_prefix:
  "add_files target files acc = Ok t \<Longrightarrow> \<exists>u. acc @ concat (map file_text files) = t @ u"
proof (induction target files acc rule: add_files.induct)
  case (2 target path content files acc)
  show ?case
  proof (cases "target \<le> utf8_len acc")
    case False
    with "2.prems" obtain x where x: "read_text content = Ok x"
      and r: "add_files target files (acc @ x) = Ok t" by (auto split: result.splits)
    from "2.IH" [OF False x r] x show ?thesis by (simp add: file_text_def)
  qed (use 2 in simp)
qed simp

text \<open>The loop only stops early when it has enough, so a short result has read everything.\<close>

lemma add_files_short:
  "add_files target files acc = Ok t \<Longrightarrow> utf8_len t < target \<Longrightarrow> t = acc @ concat (map file_text files)"
proof (induction target files acc rule: add_files.induct)
  case (2 target path content files acc)
  show ?case
  proof (cases "target \<le> utf8_len acc")
    case False
    with "2.prems" obtain x where x: "read_text content = Ok x"
      and r: "add_files target files (acc @ x) = Ok t" by (auto split: result.splits)
    from "2.IH" [OF False x r "2.prems"(2)] x show ?thesis by (simp add: file_text_def)
  qed (use 2 in simp)
qed simp

lemma add_roots_stop: "target \<le> utf8_len acc \<Longrightarrow> add_roots repo tree target rs acc = Ok acc"
  by (cases rs) auto

lemma add_roots_prefix:
  "add_roots repo tree target rs acc = Ok t \<Longrightarrow> \<exists>u. acc @ source_text repo tree rs = t @ u"
proof (induction repo tree target rs acc rule: add_roots.induct)
  case (2 repo tree target r rs acc)
  let ?base = "path_join repo r"
  let ?files = "sort_deterministically (fst (collect_rs ?base (tree ?base)))"
  show ?case
  proof (cases "target \<le> utf8_len acc")
    case False
    with "2.prems" obtain a where e: "snd (collect_rs ?base (tree ?base)) = []"
      and f: "add_files target ?files acc = Ok a" and r: "add_roots repo tree target rs a = Ok t"
      by (auto simp: Let_def and_then_Ok_iff split: prod.splits if_splits)
    from "2.IH" [OF False refl refl prod.collapse _ r] e
    obtain u where u: "a @ source_text repo tree rs = t @ u" by auto
    show ?thesis
    proof (cases "utf8_len a < target")
      case True
      with u add_files_short [OF f] show ?thesis by (simp add: source_text_def)
    next
      case False
      then have "t = a" using r add_roots_stop [of target a] by simp
      moreover obtain v where "acc @ concat (map file_text ?files) = a @ v"
        using add_files_prefix [OF f] by blast
      then have "acc @ source_text repo tree (r # rs) = a @ (v @ source_text repo tree rs)"
        by (simp add: source_text_def)
      ultimately show ?thesis by blast
    qed
  qed (use 2 in simp)
qed (simp add: source_text_def)

text \<open>A generated payload has exactly the bytes the configuration asks for: it is a beginning of
  the repository's own sources, in a fixed order, completed by at most three blanks where the cut
  fell inside a character.\<close>

theorem payload_exact:
  assumes "generate_payload F repo tree target = Ok p"
  shows "utf8_len (pl_text p) = target \<and> pl_bytes p = target
    \<and> (\<exists>cut pad rest. pl_text p = cut @ replicate pad 32 \<and> pad \<le> 3
          \<and> source_text repo tree ROOTS = cut @ rest)"
proof -
  from assms obtain acc where acc: "add_roots repo tree target ROOTS [] = Ok acc"
    and enough: "target \<le> utf8_len acc"
    and p: "p = (let cut = floor_prefix target acc;
        padded = cut @ replicate (target - utf8_len cut) BOUNDARY_PAD
      in \<lparr> pl_text = padded, pl_bytes = utf8_len padded \<rparr>)"
    by (auto simp: generate_payload_def and_then_Ok_iff Let_def split: if_splits)
  let ?cut = "floor_prefix target acc"
  obtain u where u: "source_text repo tree ROOTS = acc @ u" using add_roots_prefix [OF acc] by auto
  obtain t where t: "acc = ?cut @ t" using floor_prefix_prefix by blast
  have "source_text repo tree ROOTS = ?cut @ (t @ u)" using u t by (metis append.assoc)
  moreover have "pl_text p = ?cut @ replicate (target - utf8_len ?cut) 32"
    using p by (simp add: Let_def BOUNDARY_PAD_def)
  moreover have "utf8_len ?cut \<le> target" by (rule floor_prefix_le)
  then have "utf8_len (pl_text p) = target" "pl_bytes p = target"
    using p by (simp_all add: Let_def)
  ultimately show ?thesis using floor_prefix_close [OF enough] by blast
qed

section \<open>Independence of the listing order\<close>

text \<open>Two listings of the same tree: the entries of every directory in some other order.\<close>

inductive same_tree :: "fs_listing \<Rightarrow> fs_listing \<Rightarrow> bool"
  and same_entry :: "fs_entry \<Rightarrow> fs_entry \<Rightarrow> bool" where
  "same_tree (Err e) (Err e)"
| "list_all2 same_entry es es' \<Longrightarrow> mset es' = mset fs \<Longrightarrow> same_tree (Ok es) (Ok fs)"
| "same_entry e e"
| "same_tree l l' \<Longrightarrow> same_entry (Ok (n, DirNode l)) (Ok (n, DirNode l'))"
monos list.rel_mono_strong

lemma mset_concat_map:
  "list_all2 (\<lambda>e e'. mset (f e) = mset (f e')) es es' \<Longrightarrow> mset es' = mset fs \<Longrightarrow>
     mset (concat (map f es)) = mset (concat (map f fs))"
proof -
  assume a: "list_all2 (\<lambda>e e'. mset (f e) = mset (f e')) es es'" and m: "mset es' = mset fs"
  from a have "mset (concat (map f es)) = mset (concat (map f es'))"
    by (induction es es' rule: list_all2_induct) auto
  also have "\<dots> = sum_mset (image_mset (\<lambda>e. mset (f e)) (mset es'))"
    by (simp add: mset_concat comp_def flip: sum_mset_sum_list)
  also have "\<dots> = mset (concat (map f fs))"
    by (simp add: m mset_concat comp_def flip: sum_mset_sum_list)
  finally show ?thesis .
qed

lemma same_tree_collects:
  "same_tree l l' \<Longrightarrow> mset (fst (collect_subdir d l)) = mset (fst (collect_subdir d l'))
     \<and> mset (snd (collect_subdir d l)) = mset (snd (collect_subdir d l'))"
  "same_entry e e' \<Longrightarrow> mset (fst (collect_entry d e)) = mset (fst (collect_entry d e'))
     \<and> mset (snd (collect_entry d e)) = mset (snd (collect_entry d e'))"
proof (induction arbitrary: d and d rule: same_tree_same_entry.inducts)
  case (2 es es' fs)
  from 2(1) have "list_all2 (\<lambda>e e'. mset (fst (collect_entry d e)) = mset (fst (collect_entry d e'))) es es'"
    "list_all2 (\<lambda>e e'. mset (snd (collect_entry d e)) = mset (snd (collect_entry d e'))) es es'"
    by (auto elim!: list.rel_mono_strong)
  from mset_concat_map [OF this(1) 2(2)] mset_concat_map [OF this(2) 2(2)]
  show ?case by (simp add: comp_def)
qed auto

lemma collect_rs_subdir:
  "collect_rs base (Ok es) = collect_subdir base (Ok es)"
  by (simp add: collect_rs_def collect_from_entries_def)

lemma same_tree_collect_rs:
  assumes "same_tree l l'"
  shows "mset (fst (collect_rs base l)) = mset (fst (collect_rs base l'))
    \<and> mset (snd (collect_rs base l)) = mset (snd (collect_rs base l'))"
  using assms
proof cases
  case (2 es es' fs)
  then show ?thesis using same_tree_collects(1) [OF assms, of base] by (simp add: collect_rs_subdir)
qed simp

lemma filter_one: "distinct zs \<Longrightarrow> k \<in> set zs \<Longrightarrow> filter (\<lambda>x. x = k) zs = [k]"
  by (induction zs) (auto simp: filter_empty_conv)

lemma sort_deterministic:
  assumes "mset xs = mset ys" "distinct (map (\<lambda>f. path_key (fst f)) ys)"
  shows "sort_deterministically xs = sort_deterministically ys"
proof -
  let ?k = "\<lambda>f. path_key (fst f)"
  have inj: "inj_on ?k (set ys)" using assms(2) by (simp add: distinct_map)
  have set: "set xs = set ys" using assms(1) by (rule mset_eq_setD)
  have dx: "distinct xs" using assms mset_eq_imp_distinct_iff by (metis distinct_map)
  have "filter (\<lambda>x. ?k k = ?k x) (sort_key ?k ys) = filter (\<lambda>x. ?k k = ?k x) xs" if "k \<in> set ys" for k
  proof -
    have one: "filter (\<lambda>x. ?k k = ?k x) zs = [k]" if z: "distinct zs" "set zs = set ys" for zs
    proof -
      have "filter (\<lambda>x. ?k k = ?k x) zs = filter (\<lambda>x. x = k) zs"
        using inj \<open>k \<in> set ys\<close> z(2) by (intro filter_cong) (auto dest: inj_onD)
      also have "\<dots> = [k]" using z \<open>k \<in> set ys\<close> by (simp add: filter_one)
      finally show ?thesis .
    qed
    show ?thesis using one [of xs] one [of "sort_key ?k ys"] dx set assms(2)
      by (simp add: distinct_map)
  qed
  then show ?thesis
    unfolding sort_deterministically_def
    by (intro properties_for_sort_key) (use assms(1) set in auto)
qed

text \<open>The files below a root can be told apart by their sort keys.\<close>

definition keys_distinct :: "ustr \<Rightarrow> (ustr \<Rightarrow> fs_listing) \<Rightarrow> bool" where
  "keys_distinct repo tree \<longleftrightarrow>
     list_all (\<lambda>r. distinct (map (\<lambda>f. path_key (fst f))
        (fst (collect_rs (path_join repo r) (tree (path_join repo r)))))) ROOTS"

definition same_sources :: "ustr \<Rightarrow> (ustr \<Rightarrow> fs_listing) \<Rightarrow> (ustr \<Rightarrow> fs_listing) \<Rightarrow> bool" where
  "same_sources repo tree tree' \<longleftrightarrow>
     list_all (\<lambda>r. same_tree (tree (path_join repo r)) (tree' (path_join repo r))) ROOTS"

lemma add_roots_same:
  assumes "list_all (\<lambda>r. same_tree (tree (path_join repo r)) (tree' (path_join repo r))) rs"
    and "list_all (\<lambda>r. distinct (map (\<lambda>f. path_key (fst f))
        (fst (collect_rs (path_join repo r) (tree' (path_join repo r)))))) rs"
  shows "add_roots repo tree target rs acc = Ok t \<longleftrightarrow> add_roots repo tree' target rs acc = Ok t"
  using assms
proof (induction rs arbitrary: acc)
  case (Cons r rs)
  let ?base = "path_join repo r"
  from Cons.prems have m: "same_tree (tree ?base) (tree' ?base)" by simp
  note c = same_tree_collect_rs [OF m, of ?base]
  have sorted: "sort_deterministically (fst (collect_rs ?base (tree ?base)))
      = sort_deterministically (fst (collect_rs ?base (tree' ?base)))"
    using c Cons.prems by (intro sort_deterministic) auto
  have empty: "snd (collect_rs ?base (tree ?base)) = [] \<longleftrightarrow> snd (collect_rs ?base (tree' ?base)) = []"
    using c by (metis mset_zero_iff)
  have rest: "add_roots repo tree target rs a = Ok t \<longleftrightarrow> add_roots repo tree' target rs a = Ok t" for a
    using Cons by simp
  show ?case
    using sorted empty by (simp add: Let_def case_prod_beta and_then_Ok_iff rest)
qed simp

text \<open>The payload does not depend on the order in which the file system lists the sources:
  for two listings of one tree, at every level in whatever order, the same text is generated, or
  none is, as long as no two source paths differ only in the spelling of a separator.\<close>

theorem payload_order_independent:
  assumes "same_sources repo tree tree'" "keys_distinct repo tree'"
  shows "generate_payload F repo tree target = Ok p \<longleftrightarrow> generate_payload F repo tree' target = Ok p"
  using add_roots_same [OF assms [unfolded same_sources_def keys_distinct_def]]
  by (simp add: generate_payload_def and_then_Ok_iff)

definition example_file :: "string \<Rightarrow> string \<Rightarrow> fs_entry" where
  "example_file name content = Ok (UnicodeName (asc name), FileNode (Ok (as_bytes (asc content))))"

definition example_tree :: "fs_entry list \<Rightarrow> ustr \<Rightarrow> fs_listing" where
  "example_tree es path =
     (if path = asc ''src'' then Ok es else Err \<lparr> io_not_found = True, io_text = [] \<rparr>)"

definition example_ab :: "fs_entry list" where
  "example_ab = [example_file ''a.rs'' ''ab'', example_file ''b.rs'' ''cd'']"

lemma example_read:
  "read_text (Ok (as_bytes (asc ''ab''))) = Ok (asc ''ab'')"
  "read_text (Ok (as_bytes (asc ''cd''))) = Ok (asc ''cd'')"
  by (simp_all add: read_text_def decode_text_def from_utf8_as_bytes is_scalar_def)

lemma example_entry:
  "collect_entry (asc ''src'') (example_file ''a.rs'' t)
     = ([(asc ''src/a.rs'', Ok (as_bytes (asc t)))], [])"
  "collect_entry (asc ''src'') (example_file ''b.rs'' t)
     = ([(asc ''src/b.rs'', Ok (as_bytes (asc t)))], [])"
  by (simp_all add: example_file_def entry_path_def path_join_def SLASH_def extension_def file_name_def
      components_def to_component_def Let_def)

lemma example_collects:
  "collect_rs (asc ''src'') (example_tree example_ab (asc ''src''))
     = ([(asc ''src/a.rs'', Ok (as_bytes (asc ''ab''))), (asc ''src/b.rs'', Ok (as_bytes (asc ''cd'')))], [])"
  "collect_rs (asc ''src'') (example_tree (rev example_ab) (asc ''src''))
     = ([(asc ''src/b.rs'', Ok (as_bytes (asc ''cd''))), (asc ''src/a.rs'', Ok (as_bytes (asc ''ab'')))], [])"
  "r = asc ''tests'' \<or> r = asc ''examples'' \<Longrightarrow> collect_rs r (example_tree es r) = ([], [])"
  by (auto simp: example_tree_def collect_rs_def collect_from_entries_def example_ab_def example_entry
      simp del: asc_Cons) (simp_all)

lemma example_join: "r \<in> set ROOTS \<Longrightarrow> path_join [] r = r"
  by (auto simp: ROOTS_def path_join_def SLASH_def)

lemma example_sorted:
  "sort_deterministically [(asc ''src/a.rs'', x), (asc ''src/b.rs'', y)]
     = [(asc ''src/a.rs'', x), (asc ''src/b.rs'', y)]"
  by (simp add: sort_deterministically_def path_key_def as_bytes_def encode1_def)

lemma example_payload:
  "generate_payload plain_fmt [] (example_tree example_ab) 3 = Ok \<lparr> pl_text = asc ''abc'', pl_bytes = 3 \<rparr>"
proof -
  have "add_roots [] (example_tree example_ab) 3 ROOTS [] = Ok (asc ''abcd'')"
    using example_join example_collects(1) example_collects(3) [of "asc ''tests''" example_ab]
    by (simp add: ROOTS_def Let_def example_sorted example_read utf8_len1_def del: asc_Cons,
        simp add: utf8_len1_def)
  then show ?thesis
    by (simp add: generate_payload_def utf8_len1_def Let_def)
qed

theorem payload_exact_witness: "utf8_len (asc ''abc'') = 3"
  using payload_exact [OF example_payload] by simp

theorem payload_order_independent_witness:
  "generate_payload plain_fmt [] (example_tree (rev example_ab)) 3 = Ok \<lparr> pl_text = asc ''abc'', pl_bytes = 3 \<rparr>"
proof -
  have "same_tree (Ok (rev example_ab)) (Ok example_ab)"
    by (rule same_tree_same_entry.intros(2) [of "rev example_ab" "rev example_ab"])
      (auto intro: list.rel_refl same_tree_same_entry.intros(3))
  then have "same_sources [] (example_tree (rev example_ab)) (example_tree example_ab)"
    by (auto simp: same_sources_def ROOTS_def path_join_def SLASH_def example_tree_def
        intro: same_tree_same_entry.intros(1))
  moreover have "keys_distinct [] (example_tree example_ab)"
    using example_join example_collects(1) example_collects(3) [of _ example_ab]
    by (simp add: keys_distinct_def ROOTS_def path_key_def as_bytes_def encode1_def)
  ultimately show ?thesis using example_payload payload_order_independent by blast
qed

end
