(* ===== verification/Smoke_Proxy.thy ===== *)
theory Smoke_Proxy
  imports Smoke_Base Ollama "HOL-Library.List_Lexorder"
begin

text \<open>
  \<open>smoke/src/proxy.rs\<close>: the spy proxy between the crate under test and the backend. It records
  every request, relays it unchanged, and can be told to answer a model's completions itself or
  to drop its connections. The state is a record; a poisoned lock only sets the degraded flag.
  The upstream, the method grammar and SHA-256 are parameters (\<open>proxy_env\<close>), JSON is \<open>json_lib\<close>.
\<close>

section \<open>Injections\<close>

text \<open>The counters of dropped connections, per model in key order.\<close>

datatype injection =
    FailModel ustr nat
  | ReplayBody ustr nat "byte list"
  | DropConnection nat "(ustr \<times> nat) list"

definition drop_connection :: "ustr list \<Rightarrow> nat \<Rightarrow> injection" where
  "drop_connection ms drop_first_n =
     DropConnection drop_first_n (map (\<lambda>m. (m, 0)) (sort (remdups ms)))"

fun injection_models :: "injection \<Rightarrow> ustr list" where
  "injection_models (FailModel m _) = [m]"
| "injection_models (ReplayBody m _ _) = [m]"
| "injection_models (DropConnection _ dropped) = map fst dropped"

datatype injected = Respond nat "byte list" | Drop

section \<open>Records\<close>

definition COMPLETIONS_PATH :: ustr where "COMPLETIONS_PATH = asc ''/api/chat''"
definition COMPAT_COMPLETIONS_PATH :: ustr where
  "COMPAT_COMPLETIONS_PATH = asc ''/v1/chat/completions''"
definition COMPLETION_PATHS :: "ustr list" where
  "COMPLETION_PATHS = [COMPLETIONS_PATH, COMPAT_COMPLETIONS_PATH]"
definition RECORDED_RESPONSE_PATHS :: "ustr list" where
  "RECORDED_RESPONSE_PATHS = [asc ''/api/show'', asc ''/api/tags'']"

record request_record =
  rr_path :: ustr
  rr_body_sha256 :: ustr
  rr_response_status :: nat
  rr_response_recorded :: bool
  rr_response_sha256 :: ustr
  rr_response_body :: "byte list"

definition rr_endpoint :: "request_record \<Rightarrow> ustr" where
  "rr_endpoint r = (case split_once (rr_path r) (asc ''?'') of None \<Rightarrow> rr_path r | Some (p, _) \<Rightarrow> p)"

definition is_completion :: "request_record \<Rightarrow> bool" where
  "is_completion r \<longleftrightarrow> rr_endpoint r \<in> set COMPLETION_PATHS"

definition record_of :: "(byte list \<Rightarrow> ustr) \<Rightarrow> byte list \<Rightarrow> ustr \<Rightarrow> request_record" where
  "record_of sha body path =
     \<lparr> rr_path = path, rr_body_sha256 = sha body, rr_response_status = 0,
       rr_response_recorded = False, rr_response_sha256 = [], rr_response_body = [] \<rparr>"

definition with_recorded_response ::
  "(byte list \<Rightarrow> ustr) \<Rightarrow> nat \<Rightarrow> byte list \<Rightarrow> nat \<Rightarrow> request_record \<Rightarrow> request_record" where
  "with_recorded_response sha status body cap r =
     r\<lparr> rr_response_status := status, rr_response_recorded := True,
        rr_response_sha256 := sha body, rr_response_body := take (min (length body) cap) body \<rparr>"

definition with_status_only :: "nat \<Rightarrow> request_record \<Rightarrow> request_record" where
  "with_status_only status r = r\<lparr> rr_response_status := status \<rparr>"

section \<open>The proxy\<close>

definition MIN_RECORDED_BODY_CAP :: nat where "MIN_RECORDED_BODY_CAP = 2 ^ 20"
definition UPSTREAM_UNREACHABLE_STATUS :: nat where "UPSTREAM_UNREACHABLE_STATUS = 502"
definition REQUEST_UNREADABLE_STATUS :: nat where "REQUEST_UNREADABLE_STATUS = 500"
definition RELAY_BUILD_FAILED_STATUS :: nat where "RELAY_BUILD_FAILED_STATUS = 502"
definition LOCAL_BUILD_FAILED_STATUS :: nat where "LOCAL_BUILD_FAILED_STATUS = 500"
definition METHOD_UNRELAYABLE_STATUS :: nat where "METHOD_UNRELAYABLE_STATUS = LOCAL_BUILD_FAILED_STATUS"
definition MAX_CONSECUTIVE_ACCEPT_FAILURES :: nat where "MAX_CONSECUTIVE_ACCEPT_FAILURES = 200"

definition REQUEST_UNREADABLE_BODY :: "byte list" where
  "REQUEST_UNREADABLE_BODY = as_bytes (asc ''spy proxy: could not read the request body'')"
definition BUILD_FAILED_BODY :: "byte list" where
  "BUILD_FAILED_BODY = as_bytes (asc ''spy proxy: could not build the response it meant to send'')"

definition max_recorded_body :: "nat \<Rightarrow> nat" where
  "max_recorded_body payload_target = max (sat_mul USIZE_MAX payload_target 2) MIN_RECORDED_BODY_CAP"

definition HOP_BY_HOP_HEADERS :: "ustr list" where
  "HOP_BY_HOP_HEADERS =
     [asc ''connection'', asc ''keep-alive'', asc ''proxy-authenticate'', asc ''proxy-authorization'',
      asc ''te'', asc ''trailer'', asc ''transfer-encoding'', asc ''upgrade'']"

definition is_hop_by_hop :: "ustr \<Rightarrow> bool" where
  "is_hop_by_hop name \<longleftrightarrow> name \<in> set HOP_BY_HOP_HEADERS"

record spy_proxy =
  px_base_url :: ustr
  px_records :: "request_record list"
  px_records_poisoned :: bool
  px_degraded :: bool
  px_injection :: "injection option"
  px_injection_poisoned :: bool
  px_record_cap :: nat

definition proxy_start :: "ustr \<Rightarrow> nat \<Rightarrow> spy_proxy" where
  "proxy_start address payload_target =
     \<lparr> px_base_url = asc ''http://'' @ address, px_records = [], px_records_poisoned = False,
       px_degraded = False, px_injection = None, px_injection_poisoned = False,
       px_record_cap = max_recorded_body payload_target \<rparr>"

definition degrade :: "spy_proxy \<Rightarrow> spy_proxy" where
  "degrade p = p\<lparr> px_degraded := True \<rparr>"

definition degrade_if :: "bool \<Rightarrow> spy_proxy \<Rightarrow> spy_proxy" where
  "degrade_if b p = (if b then degrade p else p)"

definition proxy_mark :: "spy_proxy \<Rightarrow> nat \<times> spy_proxy" where
  "proxy_mark p = (length (px_records p), degrade_if (px_records_poisoned p) p)"

definition records_since :: "nat \<Rightarrow> spy_proxy \<Rightarrow> request_record list \<times> spy_proxy" where
  "records_since since p =
     ((if since \<le> length (px_records p) then drop since (px_records p) else []),
      degrade_if (px_records_poisoned p) p)"

definition set_injection :: "injection option \<Rightarrow> spy_proxy \<Rightarrow> spy_proxy" where
  "set_injection i p = (degrade_if (px_injection_poisoned p) p)\<lparr> px_injection := i \<rparr>"

definition proxy_push :: "request_record \<Rightarrow> spy_proxy \<Rightarrow> spy_proxy" where
  "proxy_push rec p =
     (degrade_if (px_records_poisoned p) p)\<lparr> px_records := px_records p @ [rec] \<rparr>"

section \<open>Accepting\<close>

datatype accept_action = BackOff | GiveUpAccepting

definition accept_failure_action :: "nat \<Rightarrow> accept_action" where
  "accept_failure_action consecutive =
     (if consecutive \<ge> MAX_CONSECUTIVE_ACCEPT_FAILURES then GiveUpAccepting else BackOff)"

text \<open>The accept loop over the outcomes of \<open>accept\<close>, \<open>True\<close> for a connection: how many
  connections were served, whether the loop is still alive, the counter and the proxy.\<close>

fun accept_loop :: "bool list \<Rightarrow> nat \<Rightarrow> nat \<Rightarrow> spy_proxy \<Rightarrow> nat \<times> bool \<times> spy_proxy" where
  "accept_loop [] failures served p = (served, True, p)"
| "accept_loop (True # as) failures served p = accept_loop as 0 (served + 1) p"
| "accept_loop (False # as) failures served p =
     (let n = sat_add U32_MAX failures 1
      in case accept_failure_action n of
           BackOff \<Rightarrow> accept_loop as n served (degrade p)
         | GiveUpAccepting \<Rightarrow> (served, False, degrade p))"

section \<open>Answering a request\<close>

text \<open>A drop is claimed while the counter is below the limit; the largest limit never runs out.\<close>

definition claims_drop :: "nat \<Rightarrow> nat \<Rightarrow> bool \<times> nat" where
  "claims_drop drop_first_n dropped =
     (if drop_first_n = U32_MAX then (True, dropped)
      else if dropped < drop_first_n then (True, dropped + 1)
      else (False, dropped))"

definition model_of :: "'v json_lib \<Rightarrow> ustr \<Rightarrow> ustr option" where
  "model_of J body_text =
     Option.bind (js_value J body_text) (\<lambda>v. Option.bind (js_get J v (asc ''model'')) (js_text J))"

definition names_model :: "'v json_lib \<Rightarrow> ustr \<Rightarrow> ustr \<Rightarrow> bool" where
  "names_model J body_text model \<longleftrightarrow> model_of J body_text = Some model"

fun claim_from :: "nat \<Rightarrow> ustr \<Rightarrow> (ustr \<times> nat) list \<Rightarrow> bool \<times> (ustr \<times> nat) list" where
  "claim_from n m [] = (False, [])"
| "claim_from n m ((k, c) # rest) =
     (if k = m then (let (b, c') = claims_drop n c in (b, (k, c') # rest))
      else (let (b, rest') = claim_from n m rest in (b, (k, c) # rest')))"

definition injected_response ::
  "'v json_lib \<Rightarrow> byte list \<Rightarrow> ustr \<Rightarrow> spy_proxy \<Rightarrow> injected option \<times> spy_proxy" where
  "injected_response J body path p =
     (if path \<notin> set COMPLETION_PATHS then (None, p)
      else
        let q = degrade_if (px_injection_poisoned p) p; txt = from_utf8_lossy body
        in case px_injection q of
             None \<Rightarrow> (None, q)
           | Some (FailModel m status) \<Rightarrow>
               ((if names_model J txt m then Some (Respond status []) else None), q)
           | Some (ReplayBody m status b) \<Rightarrow>
               ((if names_model J txt m then Some (Respond status b) else None), q)
           | Some (DropConnection n dropped) \<Rightarrow>
               (case model_of J txt of
                  None \<Rightarrow> (None, q)
                | Some m \<Rightarrow>
                    let (b, dropped') = claim_from n m dropped
                    in ((if b then Some Drop else None),
                        q\<lparr> px_injection := Some (DropConnection n dropped') \<rparr>)))"

section \<open>Relaying\<close>

type_synonym http_headers = "(ustr \<times> byte list) list"

text \<open>What the upstream is sent and answers; a body is a stream of chunks that may break off.\<close>

record up_request =
  up_method :: ustr
  up_url :: ustr
  up_headers :: http_headers
  up_body :: "byte list"

record proxy_reply =
  pr_status :: nat
  pr_headers :: http_headers
  pr_body :: "(byte list, unit) result list"

record proxy_env =
  pe_sha :: "byte list \<Rightarrow> ustr"
  pe_method_ok :: "ustr \<Rightarrow> bool"
  pe_upstream :: "up_request \<Rightarrow> proxy_reply option"

text \<open>The part of the client's request the proxy reads; \<open>in_body\<close> is \<open>None\<close> when it broke off.\<close>

record incoming =
  in_path :: ustr
  in_query :: "ustr option"
  in_method :: ustr
  in_headers :: http_headers
  in_body :: "byte list option"

definition fixed :: "byte list \<Rightarrow> (byte list, unit) result list" where
  "fixed bytes = [Ok bytes]"

definition build_failed :: "nat \<Rightarrow> proxy_reply" where
  "build_failed status = \<lparr> pr_status = status, pr_headers = [], pr_body = fixed BUILD_FAILED_BODY \<rparr>"

text \<open>The statuses the \<open>http\<close> crate builds a response for.\<close>

definition valid_status :: "nat \<Rightarrow> bool" where
  "valid_status s \<longleftrightarrow> 100 \<le> s \<and> s \<le> 999"

definition build_response :: "nat \<Rightarrow> nat \<Rightarrow> http_headers \<Rightarrow> (byte list, unit) result list \<Rightarrow> proxy_reply" where
  "build_response fallback status headers body =
     (if valid_status status then \<lparr> pr_status = status, pr_headers = headers, pr_body = body \<rparr>
      else build_failed fallback)"

fun trim_end_slashes :: "ustr \<Rightarrow> ustr" where
  "trim_end_slashes s = rev (dropWhile (\<lambda>c. c = SLASH) (rev s))"

definition relayed_header :: "ustr \<Rightarrow> bool" where
  "relayed_header name \<longleftrightarrow>
     \<not> (is_hop_by_hop name \<or> name = asc ''host'' \<or> name = asc ''content-length'')"

text \<open>\<open>response_chunk_stream\<close>: nothing follows an error.\<close>

fun chunk_stream :: "(byte list, unit) result list \<Rightarrow> (byte list, unit) result list" where
  "chunk_stream [] = []"
| "chunk_stream (Ok c # cs) = Ok c # chunk_stream cs"
| "chunk_stream (Err e # cs) = [Err e]"

definition forward ::
  "proxy_env \<Rightarrow> ustr \<Rightarrow> ustr \<Rightarrow> http_headers \<Rightarrow> byte list \<Rightarrow> ustr \<Rightarrow> spy_proxy \<Rightarrow> proxy_reply \<times> spy_proxy" where
  "forward E verb path headers body upstream p =
     (if \<not> pe_method_ok E verb then (build_failed METHOD_UNRELAYABLE_STATUS, degrade p)
      else
        case pe_upstream E \<lparr> up_method = verb, up_url = trim_end_slashes upstream @ path,
               up_headers = filter (\<lambda>(n, v). relayed_header n) headers, up_body = body \<rparr> of
          Some r \<Rightarrow>
            (build_response RELAY_BUILD_FAILED_STATUS (pr_status r)
               (filter (\<lambda>(n, v). \<not> is_hop_by_hop n) (pr_headers r)) (chunk_stream (pr_body r)), p)
        | None \<Rightarrow>
            (build_response RELAY_BUILD_FAILED_STATUS UPSTREAM_UNREACHABLE_STATUS []
               (fixed (as_bytes (asc ''upstream unreachable''))), p))"

fun buffer_body :: "nat \<Rightarrow> byte list \<Rightarrow> (byte list, unit) result list \<Rightarrow> byte list option" where
  "buffer_body cap buf [] = Some buf"
| "buffer_body cap buf (Err _ # _) = None"
| "buffer_body cap buf (Ok d # ds) =
     (if sat_add USIZE_MAX (length buf) (length d) > cap then None
      else buffer_body cap (buf @ d) ds)"

definition forward_buffered ::
  "proxy_env \<Rightarrow> ustr \<Rightarrow> ustr \<Rightarrow> http_headers \<Rightarrow> byte list \<Rightarrow> ustr \<Rightarrow> spy_proxy
     \<Rightarrow> (nat \<times> http_headers \<times> byte list option) \<times> spy_proxy" where
  "forward_buffered E verb path headers body upstream p =
     (let (resp, q) = forward E verb path headers body upstream p
      in ((pr_status resp, pr_headers resp, buffer_body (px_record_cap q) [] (pr_body resp)), q))"

text \<open>The handler. \<open>None\<close> is a connection cut without an answer.\<close>

definition request_target :: "incoming \<Rightarrow> ustr" where
  "request_target r = (case in_query r of None \<Rightarrow> in_path r | Some q \<Rightarrow> in_path r @ asc ''?'' @ q)"

definition proxy_handle ::
  "proxy_env \<Rightarrow> 'v json_lib \<Rightarrow> ustr \<Rightarrow> incoming \<Rightarrow> spy_proxy \<Rightarrow> proxy_reply option \<times> spy_proxy" where
  "proxy_handle E J upstream r p =
     (case in_body r of
        None \<Rightarrow>
          (Some (build_response LOCAL_BUILD_FAILED_STATUS REQUEST_UNREADABLE_STATUS []
             (fixed REQUEST_UNREADABLE_BODY)), degrade p)
      | Some bytes \<Rightarrow>
          let rec = record_of (pe_sha E) bytes (request_target r);
              (inj_answer, p1) = injected_response J bytes (in_path r) p
          in case inj_answer of
               Some Drop \<Rightarrow> (None, p1)
             | Some (Respond status body) \<Rightarrow>
                 let p2 = proxy_push (with_recorded_response (pe_sha E) status body (px_record_cap p1) rec) p1
                 in (Some (build_response LOCAL_BUILD_FAILED_STATUS status [] (fixed body)),
                     degrade_if (\<not> valid_status status) p2)
             | None \<Rightarrow>
                 if in_path r \<in> set RECORDED_RESPONSE_PATHS then
                   let ((status, headers, out), p2) =
                         forward_buffered E (in_method r) (request_target r) (in_headers r) bytes upstream p1
                   in case out of
                        None \<Rightarrow>
                          (Some (build_failed RELAY_BUILD_FAILED_STATUS),
                           proxy_push (with_status_only RELAY_BUILD_FAILED_STATUS rec) (degrade p2))
                      | Some body \<Rightarrow>
                          (Some (build_response RELAY_BUILD_FAILED_STATUS status headers (fixed body)),
                           proxy_push (with_recorded_response (pe_sha E) status body (px_record_cap p2) rec) p2)
                 else
                   let (resp, p2) =
                         forward E (in_method r) (request_target r) (in_headers r) bytes upstream p1
                   in (Some resp, proxy_push (with_status_only (pr_status resp) rec) p2))"

section \<open>Dropping connections under any interleaving\<close>

text \<open>Handlers run concurrently; what they do to the shared state is atomic: claim an injected
  answer, push a record, latch the degraded flag. A trace is any sequence of these.\<close>

datatype proxy_event = Claim "byte list" ustr | Push request_record | Latch

fun proxy_step :: "'v json_lib \<Rightarrow> proxy_event \<Rightarrow> spy_proxy \<Rightarrow> injected option \<times> spy_proxy" where
  "proxy_step J (Claim body path) p = injected_response J body path p"
| "proxy_step J (Push rec) p = (None, proxy_push rec p)"
| "proxy_step J Latch p = (None, degrade p)"

text \<open>The completions that name model \<open>m\<close>, and the answers they get along a trace.\<close>

fun names_completion :: "'v json_lib \<Rightarrow> ustr \<Rightarrow> proxy_event \<Rightarrow> bool" where
  "names_completion J m (Claim body path) \<longleftrightarrow> path \<in> set COMPLETION_PATHS \<and> names_model J (from_utf8_lossy body) m"
| "names_completion J m _ \<longleftrightarrow> False"

fun answers_for :: "'v json_lib \<Rightarrow> ustr \<Rightarrow> proxy_event list \<Rightarrow> spy_proxy \<Rightarrow> injected option list" where
  "answers_for J m [] p = []"
| "answers_for J m (e # es) p =
     (let (a, q) = proxy_step J e p
      in if names_completion J m e then a # answers_for J m es q else answers_for J m es q)"

lemma claim_from_None: "map_of dropped m = None \<Longrightarrow> claim_from n m dropped = (False, dropped)"
  by (induction dropped) (auto split: if_splits)

lemma claim_from_Some:
  "map_of dropped m = Some c \<Longrightarrow>
     fst (claim_from n m dropped) = fst (claims_drop n c)
     \<and> map_of (snd (claim_from n m dropped)) = (map_of dropped)(m \<mapsto> snd (claims_drop n c))"
proof (induction dropped)
  case (Cons x dropped)
  obtain k d where x: "x = (k, d)" by (cases x)
  show ?case
  proof (cases "k = m")
    case True
    with Cons.prems x show ?thesis by (simp add: case_prod_beta Let_def fun_eq_iff)
  next
    case False
    with Cons x show ?thesis by (auto simp: case_prod_beta Let_def fun_eq_iff)
  qed
qed simp

lemma claim_from_other: "m' \<noteq> m \<Longrightarrow> map_of (snd (claim_from n m' dropped)) m = map_of dropped m"
proof (cases "map_of dropped m'")
  case None
  then show ?thesis by (simp add: claim_from_None)
next
  case (Some c)
  moreover assume "m' \<noteq> m"
  ultimately show ?thesis using claim_from_Some [OF Some] by simp
qed

definition drop_state :: "nat \<Rightarrow> ustr \<Rightarrow> nat option \<Rightarrow> spy_proxy \<Rightarrow> bool" where
  "drop_state n m c p \<longleftrightarrow> (\<exists>dropped. px_injection p = Some (DropConnection n dropped) \<and> map_of dropped m = c)"

lemma drop_state_frame:
  assumes "drop_state n m c p" "\<not> names_completion J m e"
  shows "drop_state n m c (snd (proxy_step J e p))"
  using assms
  by (cases e) (auto simp: drop_state_def injected_response_def degrade_if_def degrade_def proxy_push_def
      Let_def names_model_def claim_from_other case_prod_beta split: option.splits)

lemma drop_state_claim:
  assumes "drop_state n m (Some c) p" "names_completion J m e"
  shows "fst (proxy_step J e p) = (if fst (claims_drop n c) then Some Drop else None)
    \<and> drop_state n m (Some (snd (claims_drop n c))) (snd (proxy_step J e p))"
  using assms claim_from_Some [of _ m c n]
  by (cases e) (auto simp: drop_state_def injected_response_def degrade_if_def degrade_def
      Let_def names_model_def case_prod_beta)

lemma drop_state_unlisted:
  assumes "drop_state n m None p" "names_completion J m e"
  shows "fst (proxy_step J e p) = None \<and> drop_state n m None (snd (proxy_step J e p))"
  using assms
  by (cases e) (auto simp: drop_state_def injected_response_def degrade_if_def degrade_def
      Let_def names_model_def case_prod_beta claim_from_None)

lemma answers_unlisted:
  "drop_state n m None p \<Longrightarrow>
     answers_for J m es p = replicate (length (filter (names_completion J m) es)) None"
proof (induction es arbitrary: p)
  case (Cons e es)
  then show ?case
    using drop_state_frame [of n m None p J e] drop_state_unlisted [of n m p J e]
    by (auto simp: Let_def case_prod_beta)
qed simp

lemma answers_unbounded:
  "drop_state U32_MAX m (Some c) p \<Longrightarrow>
     answers_for J m es p = replicate (length (filter (names_completion J m) es)) (Some Drop)"
proof (induction es arbitrary: p)
  case (Cons e es)
  then show ?case
    using drop_state_frame [of U32_MAX m "Some c" p J e] drop_state_claim [of U32_MAX m c p J e]
    by (auto simp: Let_def case_prod_beta claims_drop_def)
qed simp

lemma answers_bounded:
  assumes "n \<noteq> U32_MAX"
  shows "drop_state n m (Some c) p \<Longrightarrow>
     answers_for J m es p =
       (let total' = length (filter (names_completion J m) es); k = min (n - c) total'
        in replicate k (Some Drop) @ replicate (total' - k) None)"
proof (induction es arbitrary: p c)
  case (Cons e es)
  show ?case
  proof (cases "names_completion J m e")
    case False
    with Cons drop_state_frame [of n m "Some c" p J e] show ?thesis
      by (auto simp: Let_def case_prod_beta)
  next
    case True
    note step = drop_state_claim [OF Cons.prems True]
    show ?thesis
    proof (cases "c < n")
      case True
      with assms have c: "claims_drop n c = (True, c + 1)" by (simp add: claims_drop_def)
      from True have "n - c = Suc (n - (c + 1))" by simp
      with Cons.IH [of "c + 1" "snd (proxy_step J e p)"] step c \<open>names_completion J m e\<close> show ?thesis
        by (auto simp: Let_def case_prod_beta)
    next
      case False
      with assms have "claims_drop n c = (False, c)" by (simp add: claims_drop_def)
      with Cons.IH [of c "snd (proxy_step J e p)"] step \<open>names_completion J m e\<close> False show ?thesis
        by (auto simp: Let_def case_prod_beta)
    qed
  qed
qed simp

text \<open>C24: However the handlers of concurrent requests interleave, a drop injection cuts exactly the
  first \<open>n\<close> completions of each listed model and no other: all later ones, and every completion of a
  model that is not listed, pass through; with the largest limit every one is cut.\<close>

theorem drops_exactly_first:
  assumes "px_injection p = Some (drop_connection ms n)"
  shows "answers_for J m es p =
    (let asked = length (filter (names_completion J m) es);
         cut = (if m \<notin> set ms then 0 else if n = U32_MAX then asked else min n asked)
     in replicate cut (Some Drop) @ replicate (asked - cut) None)"
proof -
  have "map_of (map (\<lambda>m. (m, 0::nat)) (sort (remdups ms))) m = (if m \<in> set ms then Some 0 else None)"
    by (simp add: map_of_map_restrict restrict_map_def comp_def)
  then have st: "drop_state n m (if m \<in> set ms then Some 0 else None) p"
    using assms by (simp add: drop_state_def drop_connection_def)
  show ?thesis
  proof (cases "m \<in> set ms")
    case False
    with st answers_unlisted [of n m p J es] show ?thesis by (simp add: Let_def)
  next
    case True
    with st have st0: "drop_state n m (Some 0) p" by simp
    show ?thesis
    proof (cases "n = U32_MAX")
      case unbounded: True
      with answers_unbounded [of m 0 p J es] st0 True show ?thesis by (simp add: Let_def)
    next
      case False
      from answers_bounded [OF False st0] True False show ?thesis by (simp add: Let_def)
    qed
  qed
qed

definition drop_example_lib :: "ustr json_lib" where
  "drop_example_lib = \<lparr> js_response = (\<lambda>_. None), js_error = (\<lambda>_. None), js_value = Some,
     js_get = (\<lambda>v k. Some v), js_entries = (\<lambda>_. None), js_items = (\<lambda>_. None), js_text = Some,
     js_u64 = (\<lambda>_. None) \<rparr>"

text \<open>Three completions of the listed model \<open>m\<close>, one of another in between, limit two.\<close>

definition drop_example_trace :: "proxy_event list" where
  "drop_example_trace =
     (let ask = (\<lambda>m. Claim (as_bytes (asc m)) COMPLETIONS_PATH) in [ask ''m'', ask ''k'', Latch, ask ''m'', ask ''m''])"

lemma drop_example_names:
  "length (filter (names_completion drop_example_lib (asc ''m'')) drop_example_trace) = 3"
  by (simp add: drop_example_trace_def Let_def names_model_def model_of_def drop_example_lib_def
      from_utf8_lossy_as_bytes is_scalar_def COMPLETION_PATHS_def)

theorem drops_exactly_first_witness:
  "answers_for drop_example_lib (asc ''m'') drop_example_trace
     ((proxy_start (asc ''h'') 0)\<lparr> px_injection := Some (drop_connection [asc ''m''] 2) \<rparr>)
   = [Some Drop, Some Drop, None]"
proof -
  let ?p = "(proxy_start (asc ''h'') 0)\<lparr> px_injection := Some (drop_connection [asc ''m''] 2) \<rparr>"
  have "px_injection ?p = Some (drop_connection [asc ''m''] 2)" by simp
  from drops_exactly_first [OF this, of drop_example_lib "asc ''m''" drop_example_trace]
  moreover have "replicate 2 (Some Drop) = [Some Drop, Some Drop]" by (simp add: numeral_2_eq_2)
  moreover have "replicate (3 - 2) None = [None]" by simp
  ultimately show ?thesis by (simp add: Let_def drop_example_names U32_MAX_def del: asc_Cons)
qed

section \<open>What is recorded\<close>

fun pushed :: "proxy_event list \<Rightarrow> request_record list" where
  "pushed [] = []"
| "pushed (Push rec # es) = rec # pushed es"
| "pushed (_ # es) = pushed es"

fun proxy_run :: "'v json_lib \<Rightarrow> proxy_event list \<Rightarrow> spy_proxy \<Rightarrow> spy_proxy" where
  "proxy_run J [] p = p"
| "proxy_run J (e # es) p = proxy_run J es (snd (proxy_step J e p))"

lemma injected_response_frame [simp]:
  "px_records (snd (injected_response J b path p)) = px_records p"
  "px_record_cap (snd (injected_response J b path p)) = px_record_cap p"
  "px_records_poisoned (snd (injected_response J b path p)) = px_records_poisoned p"
  by (auto simp: injected_response_def Let_def degrade_if_def degrade_def case_prod_beta
      split: option.splits injection.splits)

lemma degrade_frame [simp]:
  "px_records (degrade p) = px_records p" "px_record_cap (degrade p) = px_record_cap p"
  "px_records (degrade_if b p) = px_records p" "px_record_cap (degrade_if b p) = px_record_cap p"
  by (simp_all add: degrade_def degrade_if_def)

lemma proxy_push_records [simp]: "px_records (proxy_push rec p) = px_records p @ [rec]"
  by (simp add: proxy_push_def)

lemma proxy_run_records: "px_records (proxy_run J es p) = px_records p @ pushed es"
proof (induction es arbitrary: p)
  case (Cons e es)
  then show ?case by (cases e) auto
qed simp

text \<open>What is read since a mark is what was pushed since, whatever else happened to the proxy.\<close>

lemma records_since_mark:
  "fst (records_since (fst (proxy_mark p)) (proxy_run J es (snd (proxy_mark p)))) = pushed es"
  by (simp add: records_since_def proxy_mark_def proxy_run_records)

section \<open>Transparency\<close>

lemma buffer_body_whole:
  "length buf + sum_list (map length cs) \<le> cap \<Longrightarrow> cap \<le> USIZE_MAX \<Longrightarrow>
     buffer_body cap buf (map Ok cs) = Some (buf @ concat cs)"
  by (induction cs arbitrary: buf) (auto simp: sat_add_def)

lemma chunk_stream_Ok [simp]: "chunk_stream (map Ok cs) = map Ok cs"
  by (induction cs) auto

lemma injected_None_degraded:
  "\<not> px_injection_poisoned p \<Longrightarrow> px_degraded (snd (injected_response J b path p)) = px_degraded p"
  by (auto simp: injected_response_def Let_def degrade_if_def case_prod_beta
      split: option.splits injection.splits)

definition relayed_request :: "incoming \<Rightarrow> byte list \<Rightarrow> ustr \<Rightarrow> up_request" where
  "relayed_request r bytes upstream =
     \<lparr> up_method = in_method r, up_url = trim_end_slashes upstream @ request_target r,
       up_headers = filter (\<lambda>(n, v). relayed_header n) (in_headers r), up_body = bytes \<rparr>"

lemma forward_answered:
  assumes "pe_method_ok E (in_method r)" "pe_upstream E (relayed_request r bytes upstream) = Some reply"
    and "valid_status (pr_status reply)"
  shows "forward E (in_method r) (request_target r) (in_headers r) bytes upstream q =
    (\<lparr> pr_status = pr_status reply, pr_headers = filter (\<lambda>(n, v). \<not> is_hop_by_hop n) (pr_headers reply),
       pr_body = chunk_stream (pr_body reply) \<rparr>, q)"
  using assms by (simp add: forward_def relayed_request_def build_response_def)

lemma concat_get_ok [simp]: "concat (map (get_ok \<circ> Ok) cs) = concat cs"
  by (simp add: comp_def)

text \<open>C29: When no injection takes the request, the client gets the backend's own answer: its status,
  its headers but the hop-by-hop ones, and its bytes; the backend gets the client's method, target
  and body; and exactly one record is added, of that target, of the hash of that body and of that
  status, with the hash of the whole answer on the two paths whose answers are kept.\<close>

theorem proxy_transparent:
  assumes "in_body r = Some bytes" "pe_method_ok E (in_method r)"
    and "fst (injected_response J bytes (in_path r) p) = None"
    and "pe_upstream E (relayed_request r bytes upstream) = Some reply"
    and "valid_status (pr_status reply)" "pr_body reply = map Ok chunks"
    and "length (concat chunks) \<le> px_record_cap p" "px_record_cap p \<le> USIZE_MAX"
  shows "\<exists>out p' rec. proxy_handle E J upstream r p = (Some out, p')
    \<and> pr_status out = pr_status reply
    \<and> pr_headers out = filter (\<lambda>(n, v). \<not> is_hop_by_hop n) (pr_headers reply)
    \<and> list_all is_ok (pr_body out) \<and> concat (map get_ok (pr_body out)) = concat chunks
    \<and> px_records p' = px_records p @ [rec]
    \<and> rr_path rec = request_target r \<and> rr_body_sha256 rec = pe_sha E bytes
    \<and> rr_response_status rec = pr_status reply
    \<and> (if in_path r \<in> set RECORDED_RESPONSE_PATHS
        then rr_response_sha256 rec = pe_sha E (concat chunks) \<and> rr_response_body rec = concat chunks
        else \<not> rr_response_recorded rec)"
proof -
  obtain p1 where p1: "injected_response J bytes (in_path r) p = (None, p1)"
    using assms(3) by (metis prod.collapse)
  have fr: "px_records p1 = px_records p" "px_record_cap p1 = px_record_cap p"
    using injected_response_frame(1,2) [of J bytes "in_path r" p] p1 by simp_all
  have len: "sum_list (map length chunks) \<le> px_record_cap p" using assms(7) by (simp add: length_concat)
  have buf: "buffer_body (px_record_cap p) [] (map Ok chunks) = Some (concat chunks)"
    using buffer_body_whole [of "[]" chunks "px_record_cap p"] len assms(8) by simp
  have list_ok: "list_all is_ok (map Ok cs)" for cs :: "byte list list"
    by (simp add: list_all_iff)
  note fw = forward_answered [OF assms(2,4,5)]
  show ?thesis
  proof (cases "in_path r \<in> set RECORDED_RESPONSE_PATHS")
    case True
    with assms(1,5,6,7) p1 fr buf show ?thesis
      by (simp add: proxy_handle_def Let_def forward_buffered_def fw build_response_def fixed_def
          with_recorded_response_def record_of_def)
  next
    case False
    with assms(1,6) p1 fr list_ok show ?thesis
      by (simp add: proxy_handle_def Let_def fw with_status_only_def record_of_def)
  qed
qed

text \<open>A relay that cannot be completed on a path whose answers are compared is never quiet.\<close>

lemma proxy_breaks_loudly:
  assumes "in_body r = Some bytes" "in_path r \<in> set RECORDED_RESPONSE_PATHS"
    and "fst (injected_response J bytes (in_path r) p) = None"
    and "proxy_handle E J upstream r p = (Some out, p')" "\<not> px_degraded p'"
  shows "\<exists>b. pr_body out = fixed b \<and> (\<exists>rec. last (px_records p') = rec \<and> rr_response_recorded rec \<and> rr_response_sha256 rec = pe_sha E b)
    \<or> \<not> valid_status (rr_response_status (last (px_records p')))"
proof -
  obtain p1 where p1: "injected_response J bytes (in_path r) p = (None, p1)"
    using assms(3) by (metis prod.collapse)
  with assms show ?thesis
    by (auto simp: proxy_handle_def Let_def proxy_push_def degrade_if_def degrade_def build_response_def
        with_recorded_response_def case_prod_beta split: option.splits if_splits)
qed

definition echo_env :: proxy_env where
  "echo_env = \<lparr> pe_sha = (\<lambda>_. asc ''h''), pe_method_ok = (\<lambda>_. True),
     pe_upstream = (\<lambda>q. Some \<lparr> pr_status = 200, pr_headers = [(asc ''te'', []), (asc ''etag'', [1])],
        pr_body = [Ok (up_body q)] \<rparr>) \<rparr>"

definition echo_request :: incoming where
  "echo_request = \<lparr> in_path = asc ''/api/show'', in_query = None, in_method = asc ''POST'',
     in_headers = [], in_body = Some [7, 8] \<rparr>"

theorem proxy_transparent_witness:
  "\<exists>out p' rec. proxy_handle echo_env drop_example_lib (asc ''http://b/'') echo_request (proxy_start (asc ''a'') 0)
       = (Some out, p')
     \<and> pr_headers out = [(asc ''etag'', [1])] \<and> concat (map get_ok (pr_body out)) = [7, 8]
     \<and> px_records p' = [rec] \<and> rr_response_body rec = [7, 8]"
proof -
  have cap: "px_record_cap (proxy_start (asc ''a'') 0) = 2 ^ 20"
    by (simp add: proxy_start_def max_recorded_body_def MIN_RECORDED_BODY_CAP_def sat_mul_def)
  have none: "fst (injected_response drop_example_lib [7, 8] (in_path echo_request) (proxy_start (asc ''a'') 0)) = None"
    by (simp add: injected_response_def echo_request_def COMPLETION_PATHS_def COMPLETIONS_PATH_def
        COMPAT_COMPLETIONS_PATH_def)
  have "in_path echo_request \<in> set RECORDED_RESPONSE_PATHS"
    by (simp add: echo_request_def RECORDED_RESPONSE_PATHS_def)
  moreover have "filter (\<lambda>(n, v). \<not> is_hop_by_hop n) [(asc ''te'', []), (asc ''etag'', [1 :: byte])] = [(asc ''etag'', [1])]"
    by (simp add: is_hop_by_hop_def HOP_BY_HOP_HEADERS_def)
  moreover have "px_records (proxy_start (asc ''a'') 0) = []" by (simp add: proxy_start_def)
  moreover note proxy_transparent [where E = echo_env and J = drop_example_lib and r = echo_request
      and bytes = "[7, 8]" and p = "proxy_start (asc ''a'') 0" and upstream = "asc ''http://b/''"
      and chunks = "[[7, 8]]", OF _ _ none]
  ultimately show ?thesis
    using cap by (auto simp: echo_request_def echo_env_def relayed_request_def valid_status_def USIZE_MAX_def
        U64_MAX_def simp del: asc_Cons)
qed

end
