(* ===== verification/Smoke_Runner.thy ===== *)
theory Smoke_Runner
  imports Smoke_Outcome Smoke_Config Smoke_Payload Smoke_Proxy Orchestrator Providers
begin

text \<open>
  \<open>smoke/src/runner.rs\<close>: the runs of the harness. A run specification builds an instance of the
  crate against the proxy, analyses its payload under a budget, and is retried once when the
  first attempt is inconclusive. The instance is the model of the crate itself (\<open>build\<close>,
  \<open>analyze\<close>); what happens around one attempt, whether its timer fires first, a panic, the
  requests the proxy sees meanwhile, is an argument (\<open>attempt_env\<close>).
\<close>

section \<open>Assertions\<close>

record assertion =
  as_name :: ustr
  as_state :: scenario_state

definition assertion_skip :: "ustr \<Rightarrow> ustr \<Rightarrow> assertion" where
  "assertion_skip name reason = \<lparr> as_name = name, as_state = Skip reason \<rparr>"

definition assertion_out_of_scope :: "ustr \<Rightarrow> assertion" where
  "assertion_out_of_scope name = \<lparr> as_name = name, as_state = OutOfScope \<rparr>"

definition assert_that :: "ustr \<Rightarrow> bool \<Rightarrow> assertion" where
  "assert_that name held = \<lparr> as_name = name, as_state = (if held then Pass else Fail) \<rparr>"

datatype error_class = CrateFailure | Environment

record timings =
  tm_worst_case_per_seat :: duration
  tm_rotations_configured :: nat
  tm_schema_retry :: bool
  tm_agent_ceiling :: duration
  tm_retry_client_timeout :: duration
  tm_retry_limited_max :: nat
  tm_retry_base_delay :: duration

record completion_evidence =
  ev_cap :: nat
  ev_telemetry :: telemetry

datatype build_outcome = Built | DidNotBuild | CouldNotRun

text \<open>What the assertions of a scenario read.\<close>

record run_context =
  cx_run :: run_id
  cx_erosion_probe_body :: "byte list option"
  cx_erosion_probe_status :: "nat option"
  cx_report :: "magi_report option"
  cx_error :: "ustr option"
  cx_error_class :: "error_class option"
  cx_reported_endpoint_down :: bool
  cx_records :: "request_record list"
  cx_proxy_degraded :: bool
  cx_budget_exceeded :: "duration option"
  cx_direct_probe_body :: "byte list option"
  cx_direct_probe_status :: "nat option"
  cx_probe_record :: "request_record option"
  cx_probe_sent_body :: "ustr option"
  cx_injected_agent :: "agent_name option"
  cx_build_matrix :: "(ustr \<times> build_outcome) list option"
  cx_repo_status_before :: "ustr option"
  cx_timings :: "timings option"
  cx_completion :: "completion_evidence option"

datatype source = FromRun run_id | FromPreflight | FromSession | FromBuild

datatype backend_need = NeedsBackend | NeedsNone

record scenario =
  sn_id :: ustr
  sn_source :: source
  sn_backend_tag :: backend_need
  sn_assert :: "run_context \<Rightarrow> assertion list"

section \<open>Run specifications\<close>

datatype provider_kind = KOllama | KExternalStub | KMixed | KSingle dialect

record run_spec =
  rs_id :: run_id
  rs_seats :: "smoke_seat list"
  rs_payload :: payload
  rs_injection :: "injection option"
  rs_fallbacks :: "smoke_fallback list"
  rs_providers :: provider_kind
  rs_reasoning :: reasoning_control
  rs_trace :: bool

record run_result =
  rn_run :: run_id
  rn_outcome :: run_outcome
  rn_report :: "magi_report option"
  rn_error :: "ustr option"
  rn_error_class :: "error_class option"
  rn_reported_endpoint_down :: bool
  rn_records :: "request_record list"
  rn_proxy_degraded :: bool
  rn_attempts :: nat
  rn_budget_exceeded :: "duration option"
  rn_injected_agent :: "agent_name option"
  rn_completion :: "completion_evidence option"

definition run_cannot_test :: "run_id \<Rightarrow> ustr \<Rightarrow> run_result" where
  "run_cannot_test run reason =
     \<lparr> rn_run = run, rn_outcome = CannotTest, rn_report = None, rn_error = Some reason,
       rn_error_class = Some Environment, rn_reported_endpoint_down = False, rn_records = [],
       rn_proxy_degraded = False, rn_attempts = 1, rn_budget_exceeded = None,
       rn_injected_agent = None, rn_completion = None \<rparr>"

definition attempts_for :: "run_outcome \<Rightarrow> nat" where
  "attempts_for first = (if is_inconclusive first then 2 else 1)"

definition BLIP_SEATS :: nat where "BLIP_SEATS = 2"
definition DIALECT_PROBE_CAP :: nat where "DIALECT_PROBE_CAP = 16"
definition INJECTED_FAILURE_STATUS :: nat where "INJECTED_FAILURE_STATUS = 500"

definition stage_e1_run_ids :: "bool \<Rightarrow> run_id list" where
  "stage_e1_run_ids no_backend =
     (if no_backend then [NoBackend]
      else [HappySmall, RotationRun, DegradationRun, Large62kNoReasoning, PoolEligibility, MixedTrio,
            Large62k, CrateDefectRun, EndpointBlip, EndpointDownRun, DialectMaxTokens,
            DialectMaxCompletionTokens, NoBackend])"

text \<open>\<open>generate\<close> is \<open>payload::generate\<close> on the repository, \<open>defect_body\<close> the bytes of the fixture the
  build embeds.\<close>

definition eligibility_fallbacks :: "smoke_config \<Rightarrow> smoke_fallback list" where
  "eligibility_fallbacks c =
     (case sc_seats c of
        first # second # _ \<Rightarrow>
          sc_fallbacks c @ [\<lparr> sf_model = ss_model second, sf_lineage = ss_lineage first \<rparr>]
      | _ \<Rightarrow> sc_fallbacks c)"

definition all_specs ::
  "smoke_config \<Rightarrow> (nat \<Rightarrow> (payload, ustr) result) \<Rightarrow> byte list \<Rightarrow> bool \<Rightarrow> (run_spec list, ustr) result" where
  "all_specs c generate defect_body no_backend =
     and_then (generate (sc_run_payload_bytes c)) (\<lambda>small.
       let spec = (\<lambda>run pool load inject kind reasoning trace.
              \<lparr> rs_id = run, rs_seats = sc_seats c, rs_payload = load, rs_injection = inject,
                rs_fallbacks = pool, rs_providers = kind, rs_reasoning = reasoning, rs_trace = trace \<rparr>);
           fb = sc_fallbacks c;
           no_backend_spec = spec NoBackend fb small None KExternalStub RcDefault False;
           injected_seat = (if sc_seats c = [] then [] else ss_model (last (sc_seats c)))
       in if no_backend then Ok [no_backend_spec]
          else
            and_then (generate (sc_payload_target_bytes c)) (\<lambda>large_no_reasoning.
            and_then (generate (sc_payload_target_bytes c)) (\<lambda>large.
              Ok [spec HappySmall fb small None KOllama RcDefault False,
                  spec RotationRun fb small (Some (FailModel injected_seat INJECTED_FAILURE_STATUS)) KOllama RcDefault False,
                  spec DegradationRun [] small (Some (FailModel injected_seat INJECTED_FAILURE_STATUS)) KOllama RcDefault False,
                  spec Large62kNoReasoning fb large_no_reasoning None KOllama RcDisabled False,
                  spec PoolEligibility (eligibility_fallbacks c) small None KOllama RcDefault False,
                  spec MixedTrio [] small None KMixed RcDisabled False,
                  spec Large62k fb large None KOllama RcDefault True,
                  spec CrateDefectRun fb small (Some (ReplayBody injected_seat 200 defect_body)) KOllama RcDefault False,
                  spec EndpointBlip fb small
                    (Some (drop_connection (map ss_model (take BLIP_SEATS (sc_seats c))) 1)) KOllama RcDefault False,
                  spec EndpointDownRun fb small
                    (Some (drop_connection (map ss_model (sc_seats c) @ map sf_model fb) U32_MAX)) KOllama RcDefault False,
                  spec DialectMaxTokens [] small None (KSingle MaxTokens) RcDefault False,
                  spec DialectMaxCompletionTokens [] small None (KSingle MaxCompletionTokens) RcDefault False,
                  no_backend_spec])))"

section \<open>Building the instance under test\<close>

text \<open>How providers are built, and the probe side of the one that has it.\<close>

record net_lib =
  nl_url :: url_lib
  nl_client :: client_builder
  nl_probe :: "provider \<Rightarrow> provider_probe"

definition provider_of :: "ustr \<Rightarrow> provider" where
  "provider_of model = \<lparr> pr_slot = None, pr_model = model \<rparr>"

definition ollama_at :: "rust_fmt \<Rightarrow> net_lib \<Rightarrow> ustr \<Rightarrow> ustr \<Rightarrow> (provider, ustr) result" where
  "ollama_at F N base_url model =
     and_then (map_err (show_provider_error F) (ollama_new (nl_url N) (nl_client N) base_url model))
       (\<lambda>_. Ok (provider_of model))"

definition compat_at :: "rust_fmt \<Rightarrow> net_lib \<Rightarrow> ustr \<Rightarrow> ustr \<Rightarrow> dialect \<Rightarrow> (openai_provider, ustr) result" where
  "compat_at F N base_url model d =
     map_err (show_provider_error F)
       (openai_with_dialect (nl_url N) (nl_client N) (base_url @ asc ''/v1'') model None d DEFAULT_CLIENT_TIMEOUT)"

definition seat_lineage :: "smoke_seat \<Rightarrow> lineage" where
  "seat_lineage s = lineage_new (ss_lineage s)"

fun seats_ollama ::
  "rust_fmt \<Rightarrow> net_lib \<Rightarrow> ustr \<Rightarrow> smoke_seat list \<Rightarrow> magi_builder \<Rightarrow> (magi_builder, ustr) result" where
  "seats_ollama F N base_url [] b = Ok b"
| "seats_ollama F N base_url (s # ss) b =
     and_then (ollama_at F N base_url (ss_model s)) (\<lambda>p.
     and_then (seat_agent_name F s) (\<lambda>name.
       seats_ollama F N base_url ss (with_probing_agent (nl_probe N) name p (seat_lineage s) b)))"

fun pool_ollama ::
  "rust_fmt \<Rightarrow> net_lib \<Rightarrow> ustr \<Rightarrow> smoke_fallback list \<Rightarrow> fallback_pool \<Rightarrow> (fallback_pool, ustr) result" where
  "pool_ollama F N base_url [] pool = Ok pool"
| "pool_ollama F N base_url (f # fs) pool =
     and_then (ollama_at F N base_url (sf_model f)) (\<lambda>p.
       pool_ollama F N base_url fs
         (pool_push_with_probe (sf_model f) (lineage_new (sf_lineage f)) (nl_probe N p) pool))"

text \<open>The mixed trio: all seats but the last are native, the last is OpenAI-compatible.\<close>

fun seats_mixed ::
  "rust_fmt \<Rightarrow> net_lib \<Rightarrow> ustr \<Rightarrow> smoke_seat list \<Rightarrow> magi_builder \<Rightarrow> (magi_builder, ustr) result" where
  "seats_mixed F N base_url [] b = Ok b"
| "seats_mixed F N base_url (s # ss) b =
     and_then (seat_agent_name F s) (\<lambda>name.
       if ss = [] then
         and_then (compat_at F N base_url (ss_model s) MaxTokens) (\<lambda>_.
           seats_mixed F N base_url ss (with_agent name (provider_of (ss_model s)) (seat_lineage s) b))
       else
         and_then (ollama_at F N base_url (ss_model s)) (\<lambda>p.
           seats_mixed F N base_url ss (with_probing_agent (nl_probe N) name p (seat_lineage s) b)))"

definition STUB :: provider where "STUB = provider_of (asc ''none'')"

fun seats_stub :: "rust_fmt \<Rightarrow> smoke_seat list \<Rightarrow> magi_builder \<Rightarrow> (magi_builder, ustr) result" where
  "seats_stub F [] b = Ok b"
| "seats_stub F (s # ss) b =
     and_then (seat_agent_name F s) (\<lambda>name. seats_stub F ss (with_agent name STUB (seat_lineage s) b))"

text \<open>What the stub answers, for any call (\<open>external.rs\<close>).\<close>

definition stub_complete :: "(completion, provider_error) result" where
  "stub_complete = Err (external (asc ''simulated outside failure'') XServerError)"

definition run_completion_config :: "reasoning_control \<Rightarrow> bool \<Rightarrow> completion_config" where
  "run_completion_config reasoning trace =
     cc_with_reasoning_trace trace (cc_with_reasoning reasoning completion_config_default)"

definition built :: "rust_fmt \<Rightarrow> world \<Rightarrow> magi_builder \<Rightarrow> (magi, ustr) result" where
  "built F w b = map_err (show_magi_error F) (snd (build w b))"

definition build_magi_against ::
  "rust_fmt \<Rightarrow> net_lib \<Rightarrow> world \<Rightarrow> ustr \<Rightarrow> smoke_seat list \<Rightarrow> smoke_fallback list
     \<Rightarrow> provider_kind \<Rightarrow> reasoning_control \<Rightarrow> bool \<Rightarrow> (magi, ustr) result" where
  "build_magi_against F N w base_url seats fallbacks kind reasoning trace =
     (case seats of
        [] \<Rightarrow> Err (asc ''no seats configured'')
      | first # _ \<Rightarrow>
          (case kind of
             KOllama \<Rightarrow>
               and_then (ollama_at F N base_url (ss_model first)) (\<lambda>default.
               and_then (seats_ollama F N base_url seats (builder_new default)) (\<lambda>b.
               and_then (pool_ollama F N base_url fallbacks pool_builder) (\<lambda>pool.
                 built F w (with_completion_config (run_completion_config reasoning trace)
                   (with_fallback_pool pool b)))))
           | KMixed \<Rightarrow>
               and_then (ollama_at F N base_url (ss_model first)) (\<lambda>default.
               and_then (seats_mixed F N base_url seats (builder_new default)) (\<lambda>b.
                 built F w (with_completion_config (run_completion_config reasoning trace) b)))
           | KExternalStub \<Rightarrow>
               and_then (seats_stub F seats (builder_new STUB)) (built F w)
           | KSingle _ \<Rightarrow>
               Err (asc ''a single-completion run builds no trio; it is dispatched to one direct completion, never to the builder'')))"

section \<open>One run\<close>

fun classify_error :: "magi_error \<Rightarrow> error_class" where
  "classify_error (EndpointDown _) = Environment"
| "classify_error (InsufficientAgents _ _) = Environment"
| "classify_error _ = CrateFailure"

fun is_endpoint_down :: "magi_error \<Rightarrow> bool" where
  "is_endpoint_down (EndpointDown _) = True"
| "is_endpoint_down _ = False"

text \<open>The mage an injection is aimed at: only when it names one model, and a seat has it.\<close>

definition injected_agent :: "rust_fmt \<Rightarrow> run_spec \<Rightarrow> agent_name option" where
  "injected_agent F spec =
     Option.bind (rs_injection spec) (\<lambda>inject.
       case injection_models inject of
         [model] \<Rightarrow>
           Option.bind (find (\<lambda>s. ss_model s = model) (rs_seats spec)) (\<lambda>s.
             case seat_agent_name F s of Ok n \<Rightarrow> Some n | Err _ \<Rightarrow> None)
       | _ \<Rightarrow> None)"

text \<open>The surroundings of one attempt: whether the budget runs out first, a panic and where, what
  the proxy sees, the world and the state \<open>analyze\<close> reads, and for a single completion the HTTP
  client, the decoder and the clock.\<close>

record attempt_env =
  ae_elapsed :: bool
  ae_panic :: "ustr option option"
  ae_events :: "proxy_event list"
  ae_world :: world
  ae_nonce :: nat
  ae_warn :: warn_state
  ae_decode :: "ustr \<Rightarrow> openai_response option"
  ae_client :: "openai_request http_client"
  ae_now :: nat

definition timed_out :: "run_id \<Rightarrow> duration \<Rightarrow> agent_name option \<Rightarrow> run_result" where
  "timed_out run cap agent =
     \<lparr> rn_run = run, rn_outcome = TimedOut, rn_report = None, rn_error = None, rn_error_class = None,
       rn_reported_endpoint_down = False, rn_records = [], rn_proxy_degraded = False, rn_attempts = 1,
       rn_budget_exceeded = Some cap, rn_injected_agent = agent, rn_completion = None \<rparr>"

definition complete_once ::
  "rust_fmt \<Rightarrow> net_lib \<Rightarrow> 'v json_lib \<Rightarrow> attempt_env \<Rightarrow> run_spec \<Rightarrow> dialect \<Rightarrow> nat \<Rightarrow> spy_proxy
     \<Rightarrow> run_result \<times> spy_proxy" where
  "complete_once F N J E spec d since p =
     (if rs_seats spec = [] then (run_cannot_test (rs_id spec) (asc ''no seats configured''), p)
      else
        let seat = last (rs_seats spec)
        in case and_then (seat_agent_name F seat) (\<lambda>name.
             and_then (compat_at F N (px_base_url p) (ss_model seat) d) (\<lambda>provider. Ok (name, provider))) of
             Err e \<Rightarrow> (run_cannot_test (rs_id spec) e, p)
           | Ok (name, provider) \<Rightarrow>
               let config = (run_completion_config (rs_reasoning spec) (rs_trace spec))\<lparr> cc_max_tokens := DIALECT_PROBE_CAP \<rparr>;
                   answer = openai_complete (ae_decode E) (nl_url N) provider (wo_embedded (ae_world E) name)
                     (pl_text (rs_payload spec)) config (ae_client E) (ae_now E);
                   (evidence, err, cls) =
                     (case answer of
                        Ok c \<Rightarrow> (Some \<lparr> ev_cap = DIALECT_PROBE_CAP, ev_telemetry = cp_telemetry c \<rparr>, None, None)
                      | Err (EmptyCompletion t cap) \<Rightarrow> (Some \<lparr> ev_cap = cap, ev_telemetry = t \<rparr>, None, None)
                      | Err e \<Rightarrow> (None, Some (show_provider_error F e), Some Environment));
                   (recs, p2) = records_since since (proxy_run J (ae_events E) p)
               in (\<lparr> rn_run = rs_id spec, rn_outcome = Complete, rn_report = None, rn_error = err,
                     rn_error_class = cls, rn_reported_endpoint_down = False, rn_records = recs,
                     rn_proxy_degraded = px_degraded p2, rn_attempts = 1, rn_budget_exceeded = None,
                     rn_injected_agent = None, rn_completion = evidence \<rparr>, p2))"

definition run_once ::
  "rust_fmt \<Rightarrow> net_lib \<Rightarrow> 'v json_lib \<Rightarrow> attempt_env \<Rightarrow> run_spec \<Rightarrow> spy_proxy \<Rightarrow> run_result \<times> spy_proxy" where
  "run_once F N J E spec p =
     (let (since, p1) = proxy_mark p
      in case rs_providers spec of
           KSingle d \<Rightarrow> complete_once F N J E spec d since p1
         | kind \<Rightarrow>
             (case build_magi_against F N (ae_world E) (px_base_url p1) (rs_seats spec) (rs_fallbacks spec)
                 kind (rs_reasoning spec) (rs_trace spec) of
                Err e \<Rightarrow> (run_cannot_test (rs_id spec) e, p1)
              | Ok M \<Rightarrow>
                  let r = snd (analyze (ae_world E) M Design (pl_text (rs_payload spec)) (ae_nonce E) (ae_warn E));
                      (report, err, cls, down) =
                        (case r of
                           Ok rep \<Rightarrow> (Some rep, None, None, False)
                         | Err e \<Rightarrow> (None, Some (show_magi_error F e), Some (classify_error e), is_endpoint_down e));
                      (recs, p2) = records_since since (proxy_run J (ae_events E) p1)
                  in (\<lparr> rn_run = rs_id spec, rn_outcome = Complete, rn_report = report, rn_error = err,
                        rn_error_class = cls, rn_reported_endpoint_down = down, rn_records = recs,
                        rn_proxy_degraded = px_degraded p2, rn_attempts = 1, rn_budget_exceeded = None,
                        rn_injected_agent = injected_agent F spec, rn_completion = None \<rparr>, p2)))"

text \<open>One attempt under the budget of its run. The mark is taken before the timer can fire.\<close>

definition attempt_run ::
  "rust_fmt \<Rightarrow> net_lib \<Rightarrow> 'v json_lib \<Rightarrow> ustr \<Rightarrow> smoke_config \<Rightarrow> attempt_env \<Rightarrow> run_spec \<Rightarrow> spy_proxy
     \<Rightarrow> run_result \<times> spy_proxy" where
  "attempt_run F N J manifest_dir c E spec p =
     (let cap = run_budget c (rs_id spec);
          unfinished = proxy_run J (ae_events E) (snd (proxy_mark p))
      in if ae_elapsed E then (timed_out (rs_id spec) cap (injected_agent F spec), unfinished)
         else
           case ae_panic E of
             None \<Rightarrow> run_once F N J E spec p
           | Some loc \<Rightarrow>
               (case fst (run_catching manifest_dir (PanickedAt loc :: unit caught) None) of
                  Err outcome \<Rightarrow>
                    ((timed_out (rs_id spec) cap (injected_agent F spec))\<lparr> rn_outcome := outcome, rn_budget_exceeded := None \<rparr>,
                     unfinished)
                | Ok _ \<Rightarrow> run_once F N J E spec p))"

text \<open>A run, with its one retry. A clone of an injection shares the counters of the specification,
  so what the proxy counted is what the specification holds afterwards.\<close>

definition execute_one ::
  "rust_fmt \<Rightarrow> net_lib \<Rightarrow> 'v json_lib \<Rightarrow> ustr \<Rightarrow> smoke_config \<Rightarrow> attempt_env \<Rightarrow> attempt_env \<Rightarrow> run_spec \<Rightarrow> spy_proxy
     \<Rightarrow> run_result \<times> run_spec \<times> spy_proxy" where
  "execute_one F N J manifest_dir c E E' spec p =
     (let p1 = set_injection (rs_injection spec) p;
          (first, p2) = attempt_run F N J manifest_dir c E spec p1;
          (final, p3) =
            (if attempts_for (rn_outcome first) > 1 then
               let (retried, q) = attempt_run F N J manifest_dir c E' spec p2
               in (retried\<lparr> rn_attempts := 2 \<rparr>, q)
             else (first, p2))
      in (final, spec\<lparr> rs_injection := px_injection p3 \<rparr>, set_injection None p3))"

section \<open>Probes and timings\<close>

record transparency_probe =
  tp_sent_body :: "ustr option"
  tp_record :: "request_record option"
  tp_direct_response :: "byte list option"
  tp_direct_status :: "nat option"

record erosion_probe =
  ep_response :: "byte list option"
  ep_status :: "nat option"

record runner =
  ru_config :: smoke_config
  ru_proxy :: spy_proxy
  ru_probe :: transparency_probe
  ru_erosion :: erosion_probe

definition runner_new :: "smoke_config \<Rightarrow> spy_proxy \<Rightarrow> runner" where
  "runner_new c p =
     \<lparr> ru_config = c, ru_proxy = p,
       ru_probe = \<lparr> tp_sent_body = None, tp_record = None, tp_direct_response = None, tp_direct_status = None \<rparr>,
       ru_erosion = \<lparr> ep_response = None, ep_status = None \<rparr> \<rparr>"

definition PROBE_MODEL :: ustr where "PROBE_MODEL = asc ''smoke-transparency-probe''"

definition probe_is_in_scope :: "run_id list \<Rightarrow> bool" where
  "probe_is_in_scope runs \<longleftrightarrow> list_ex uses_backend runs"

text \<open>A bounded request to a base address: the status and the bytes, or nothing.\<close>

type_synonym probe_request = "ustr \<Rightarrow> ustr \<Rightarrow> duration \<Rightarrow> (nat \<times> byte list) option"

definition prime_transparency_probe ::
  "'v json_lib \<Rightarrow> probe_request \<Rightarrow> proxy_event list \<Rightarrow> ustr \<Rightarrow> run_id list \<Rightarrow> runner \<Rightarrow> runner" where
  "prime_transparency_probe J show_request events backend runs R =
     (if \<not> probe_is_in_scope runs then R
      else
        let window = probe_timeout (ru_config R);
            body = asc ''{\"model\":\"'' @ PROBE_MODEL @ asc ''\"}'';
            (since, p1) = proxy_mark (ru_proxy R);
            p2 = proxy_run J events p1
        in case (show_request (px_base_url p1) body window, show_request backend body window) of
             (Some _, Some (direct_status, direct_body)) \<Rightarrow>
               let (recs, p3) = records_since since p2
               in R\<lparr> ru_proxy := p3, ru_probe :=
                    \<lparr> tp_sent_body = Some body, tp_record = (case recs of r # _ \<Rightarrow> Some r | [] \<Rightarrow> None),
                      tp_direct_response = Some direct_body, tp_direct_status = Some direct_status \<rparr> \<rparr>
           | _ \<Rightarrow> R\<lparr> ru_proxy := p2 \<rparr>)"

definition prime_erosion_probe :: "probe_request \<Rightarrow> ustr \<Rightarrow> run_id list \<Rightarrow> runner \<Rightarrow> runner" where
  "prime_erosion_probe chat_request backend runs R =
     (if \<not> probe_is_in_scope runs then R
      else
        case sc_seats (ru_config R) of
          [] \<Rightarrow> R
        | first # _ \<Rightarrow>
            (case chat_request backend
                (asc ''{\"model\":\"'' @ ss_model first @ asc ''\",\"stream\":false}'')
                (probe_timeout (ru_config R)) of
               Some (status, response) \<Rightarrow>
                 R\<lparr> ru_erosion := \<lparr> ep_response = Some response, ep_status = Some status \<rparr> \<rparr>
             | None \<Rightarrow> R))"

definition build_with_absurd_timings :: "rust_fmt \<Rightarrow> world \<Rightarrow> duration \<Rightarrow> (magi, ustr) result" where
  "build_with_absurd_timings F w limit = built F w (with_timeout limit (builder_new STUB))"

definition timings_of :: "magi \<Rightarrow> timings" where
  "timings_of M =
     \<lparr> tm_worst_case_per_seat = worst_case_per_seat M, tm_rotations_configured = 0,
       tm_schema_retry = mf_retry_on_schema_error magi_config_default,
       tm_agent_ceiling = mf_timeout magi_config_default,
       tm_retry_client_timeout = DEFAULT_CLIENT_TIMEOUT,
       tm_retry_limited_max = limited_max_retries retry_config_default,
       tm_retry_base_delay = base_delay retry_config_default \<rparr>"

definition shipped_timings :: "world \<Rightarrow> timings option" where
  "shipped_timings w =
     (case snd (build w (builder_new STUB)) of Ok M \<Rightarrow> Some (timings_of M) | Err _ \<Rightarrow> None)"

section \<open>What a run reports\<close>

lemma attempts_for_cases: "attempts_for r > 1 \<longleftrightarrow> r = TimedOut \<or> r = PanickedInHarness"
  by (cases r) (auto simp: attempts_for_def)

text \<open>What the harness may read off a result: which outcome goes with which evidence.\<close>

definition result_shape :: "run_result \<Rightarrow> bool" where
  "result_shape r \<longleftrightarrow>
     (case rn_outcome r of
        Complete \<Rightarrow>
          rn_budget_exceeded r = None
          \<and> length (filter (\<lambda>b. b) [rn_report r \<noteq> None, rn_error r \<noteq> None, rn_completion r \<noteq> None]) = 1
          \<and> (rn_error r = None \<longleftrightarrow> rn_error_class r = None)
          \<and> (rn_reported_endpoint_down r \<longrightarrow> rn_error_class r = Some Environment)
      | CannotTest \<Rightarrow> rn_error r \<noteq> None \<and> rn_error_class r = Some Environment \<and> rn_report r = None \<and> rn_completion r = None
      | TimedOut \<Rightarrow> rn_budget_exceeded r \<noteq> None \<and> rn_report r = None \<and> rn_error r = None \<and> rn_completion r = None
      | _ \<Rightarrow> rn_budget_exceeded r = None \<and> rn_report r = None \<and> rn_error r = None \<and> rn_completion r = None)"

lemma run_cannot_test_shape: "result_shape (run_cannot_test run e)"
  by (simp add: result_shape_def run_cannot_test_def)

lemma endpoint_down_environment: "is_endpoint_down e \<Longrightarrow> classify_error e = Environment"
  by (cases e) auto

lemma complete_once_shape:
  "result_shape (fst (complete_once F N J E spec d since p))
     \<and> rn_run (fst (complete_once F N J E spec d since p)) = rs_id spec"
  by (auto simp: complete_once_def Let_def case_prod_beta run_cannot_test_shape run_cannot_test_def
      split: result.splits provider_error.splits) (auto simp: result_shape_def run_cannot_test_def)

lemma run_once_shape:
  "result_shape (fst (run_once F N J E spec p)) \<and> rn_run (fst (run_once F N J E spec p)) = rs_id spec
     \<and> rn_outcome (fst (run_once F N J E spec p)) \<in> {Complete, CannotTest}"
proof -
  have single: "rn_outcome (fst (complete_once F N J E spec d since p)) \<in> {Complete, CannotTest}" for d since p
    by (auto simp: complete_once_def Let_def case_prod_beta run_cannot_test_def
        split: result.splits provider_error.splits)
  show ?thesis
    using complete_once_shape [of F N J E spec] single
    by (auto simp: run_once_def Let_def case_prod_beta run_cannot_test_def result_shape_def
        endpoint_down_environment split: provider_kind.splits result.splits)
qed

lemma attempt_run_shape:
  assumes "attempt_run F N J m c E spec p = (r, q)"
  shows "result_shape r \<and> rn_run r = rs_id spec
    \<and> (rn_outcome r = TimedOut \<longleftrightarrow> ae_elapsed E)
    \<and> (ae_elapsed E \<longrightarrow> rn_budget_exceeded r = Some (run_budget c (rs_id spec)))"
proof (cases "ae_elapsed E")
  case True
  with assms show ?thesis by (auto simp: attempt_run_def Let_def timed_out_def result_shape_def)
next
  case False
  show ?thesis
  proof (cases "ae_panic E")
    case None
    with False assms have "run_once F N J E spec p = (r, q)" by (simp add: attempt_run_def Let_def)
    with run_once_shape [of F N J E spec p] False show ?thesis by auto
  next
    case (Some loc)
    with False assms show ?thesis
      by (auto simp: attempt_run_def Let_def timed_out_def result_shape_def run_catching_def
          split: scenario_state.splits)
  qed
qed

lemma result_shape_attempts [simp]: "result_shape (r\<lparr> rn_attempts := n \<rparr>) = result_shape r"
  by (cases "rn_outcome r") (simp_all add: result_shape_def)

lemma set_injection_field [simp]: "px_injection (set_injection i p) = i"
  by (simp add: set_injection_def)


definition late_env :: "proxy_event list \<Rightarrow> attempt_env" where
  "late_env es = \<lparr> ae_elapsed = True, ae_panic = None, ae_events = es, ae_world = sample_world, ae_nonce = 0,
     ae_warn = warn_state_new, ae_decode = (\<lambda>_. None), ae_client = (\<lambda>_. Ok example_busy), ae_now = 0 \<rparr>"

definition blip_spec :: run_spec where
  "blip_spec = \<lparr> rs_id = EndpointBlip, rs_seats = default_seats, rs_payload = \<lparr> pl_text = [], pl_bytes = 0 \<rparr>,
     rs_injection = Some (drop_connection [asc ''m''] 1), rs_fallbacks = default_fallbacks,
     rs_providers = KOllama, rs_reasoning = RcDefault, rs_trace = False \<rparr>"

definition plain_net :: net_lib where
  "plain_net = \<lparr> nl_url = plain_url_lib (\<lambda>_. Err []), nl_client = (\<lambda>_. Ok ()),
     nl_probe = (\<lambda>p. \<lparr> pb_declared_model = Some (pr_model p) \<rparr>) \<rparr>"

lemma late_attempt:
  "attempt_run plain_fmt plain_net drop_example_lib [] default_config (late_env es) blip_spec q
     = (timed_out EndpointBlip (secs 180) (injected_agent plain_fmt blip_spec),
        proxy_run drop_example_lib es (snd (proxy_mark q)))"
  by (simp add: attempt_run_def late_env_def blip_spec_def run_budget_def default_config_def
      default_budgets_def)


section \<open>A bounded drop injection across the retry\<close>

lemma drop_state_run:
  "drop_state n m (Some c) p \<Longrightarrow> n \<noteq> U32_MAX \<Longrightarrow> c \<le> n \<Longrightarrow>
     drop_state n m (Some (min n (c + length (filter (names_completion J m) es)))) (proxy_run J es p)"
proof (induction es arbitrary: c p)
  case (Cons e es)
  show ?case
  proof (cases "names_completion J m e")
    case False
    from Cons.IH [OF drop_state_frame [OF Cons.prems(1) False]] Cons.prems False show ?thesis by simp
  next
    case True
    note st = drop_state_claim [OF Cons.prems(1) True]
    show ?thesis
    proof (cases "c < n")
      case lt: True
      with Cons.prems(2) have "snd (claims_drop n c) = c + 1" by (simp add: claims_drop_def)
      with Cons.IH [of "c + 1" "snd (proxy_step J e p)"] st Cons.prems lt True show ?thesis
        by (simp add: add.commute add.left_commute)
    next
      case False
      with Cons.prems(2) have "snd (claims_drop n c) = c" by (simp add: claims_drop_def)
      with Cons.IH [of c "snd (proxy_step J e p)"] st Cons.prems False True show ?thesis by simp
    qed
  qed
qed (simp add: min_absorb2)

lemma drop_state_degrade [simp]:
  "drop_state n m c (degrade_if b p) \<longleftrightarrow> drop_state n m c p"
  by (simp add: drop_state_def degrade_if_def degrade_def)

text \<open>The retry of a run that drops connections does not start the run over: the retried attempt
  goes on from the counters the first one left, so when the first attempt already cut a model as
  often as the injection says, no completion of that model is cut in the second, whatever happens
  in it, and the failure the run exists to provoke does not occur.\<close>

theorem retry_runs_uncut:
  assumes "rs_injection spec = Some (drop_connection ms n)" "m \<in> set ms" "n \<noteq> U32_MAX"
    and "ae_elapsed E" "n \<le> length (filter (names_completion J m) (ae_events E))"
    and "attempt_run F N J manifest_dir c E spec (set_injection (rs_injection spec) p) = (first, p2)"
  shows "attempts_for (rn_outcome first) = 2
    \<and> answers_for J m es p2 = replicate (length (filter (names_completion J m) es)) None"
proof -
  let ?p = "set_injection (rs_injection spec) p"
  have "map_of (map (\<lambda>m. (m, 0::nat)) (sort (remdups ms))) m = Some 0"
    using assms(2) by (simp add: map_of_map_restrict restrict_map_def comp_def)
  then have "drop_state n m (Some 0) ?p"
    using assms(1) by (simp add: drop_state_def drop_connection_def)
  then have "drop_state n m (Some 0) (snd (proxy_mark ?p))" by (simp add: proxy_mark_def)
  from drop_state_run [OF this assms(3), of J "ae_events E"] assms(5)
  have "drop_state n m (Some n) (proxy_run J (ae_events E) (snd (proxy_mark ?p)))"
    by (simp add: min_absorb1)
  moreover have "p2 = proxy_run J (ae_events E) (snd (proxy_mark ?p))" "rn_outcome first = TimedOut"
    using assms(4,6) by (auto simp: attempt_run_def Let_def timed_out_def)
  ultimately show ?thesis
    using answers_bounded [OF assms(3), of m n p2 J es] by (simp add: Let_def attempts_for_def)
qed

theorem retry_runs_uncut_witness:
  "answers_for drop_example_lib (asc ''m'') drop_example_trace
     (proxy_run drop_example_lib drop_example_trace
        (snd (proxy_mark (set_injection (rs_injection blip_spec) (proxy_start (asc ''h'') 0)))))
   = replicate 3 None"
proof -
  have l: "1 \<le> length (filter (names_completion drop_example_lib (asc ''m'')) (ae_events (late_env drop_example_trace)))"
    by (simp add: late_env_def drop_example_names del: asc_Cons)
  have "1 \<noteq> U32_MAX" by (simp add: U32_MAX_def)
  moreover have "rs_injection blip_spec = Some (drop_connection [asc ''m''] 1)" by (simp add: blip_spec_def)
  moreover have "ae_elapsed (late_env drop_example_trace)" by (simp add: late_env_def)
  ultimately show ?thesis
    using retry_runs_uncut [OF _ _ _ _ l late_attempt, of "[asc ''m'']" drop_example_trace] drop_example_names
    by (simp add: set_injection_def del: asc_Cons)
qed

section \<open>The runs of a session\<close>

definition payload_for :: "smoke_config \<Rightarrow> run_id \<Rightarrow> nat" where
  "payload_for c run =
     (if run = Large62k \<or> run = Large62kNoReasoning then sc_payload_target_bytes c else sc_run_payload_bytes c)"

text \<open>The specifications of a session are exactly the runs that are announced, in the announced
  order; all of them use the configured seats, each analyses a payload of the size its class asks
  for, only the runs that are about an injected failure inject one, and only the run that needs no
  backend uses the stub.\<close>

theorem specs_are_the_announced_runs:
  assumes "all_specs c generate defect no_backend = Ok specs"
    and "\<And>n p. generate n = Ok p \<Longrightarrow> pl_bytes p = n"
  shows "map rs_id specs = stage_e1_run_ids no_backend
    \<and> list_all (\<lambda>s. rs_seats s = sc_seats c
        \<and> pl_bytes (rs_payload s) = payload_for c (rs_id s)
        \<and> (rs_injection s \<noteq> None \<longleftrightarrow> rs_id s \<in> {RotationRun, DegradationRun, CrateDefectRun, EndpointBlip, EndpointDownRun})
        \<and> (rs_providers s = KExternalStub \<longleftrightarrow> \<not> uses_backend (rs_id s))) specs"
  using assms(1)
  by (auto simp: all_specs_def and_then_Ok_iff Let_def stage_e1_run_ids_def payload_for_def
      dest!: assms(2) split: if_splits)

theorem specs_are_the_announced_runs_witness:
  "\<exists>specs. all_specs default_config (\<lambda>n. Ok \<lparr> pl_text = replicate n 97, pl_bytes = n \<rparr>) [] False = Ok specs
     \<and> map rs_id specs = stage_e1_run_ids False"
proof -
  obtain specs where s: "all_specs default_config (\<lambda>n. Ok \<lparr> pl_text = replicate n 97, pl_bytes = n \<rparr>) [] False = Ok specs"
    by (simp add: all_specs_def Let_def)
  from specs_are_the_announced_runs [OF s] s show ?thesis by auto
qed

end
