(* ===== verification/Smoke_Fixtures.thy ===== *)
theory Smoke_Fixtures
  imports Smoke_Files Smoke_Config
begin

text \<open>
  \<open>smoke/src/fixtures.rs\<close>: the manifest of recorded backend answers and its audit against the
  directory that holds them. \<open>sha\<close> is the hexadecimal SHA-256 of the \<open>sha2\<close> crate; reading a
  declared file is a function of its path, and the directory is a listing.
\<close>

definition QUOTE :: ustr where "QUOTE = [39]"

section \<open>The manifest\<close>

record fixture_entry =
  fx_scenario :: ustr
  fx_path :: ustr
  fx_sha256 :: ustr
  fx_currency :: ustr

type_synonym fixture_manifest = "fixture_entry list"

definition KNOWN_REASONS :: "ustr list" where
  "KNOWN_REASONS = [asc ''cold-start'', asc ''no-reproducible'', asc ''deprecated'']"

definition UNVERIFIED_PREFIX :: ustr where "UNVERIFIED_PREFIX = asc ''unverified: ''"
definition VERIFIED_BY_PREFIX :: ustr where "VERIFIED_BY_PREFIX = asc ''verified-by: ''"
definition MANIFEST_FILENAME :: ustr where "MANIFEST_FILENAME = asc ''manifest.toml''"

definition NON_FIXTURE_FILES :: "ustr list" where
  "NON_FIXTURE_FILES = [MANIFEST_FILENAME, asc ''README.md'', asc ''wanted.txt'']"

definition entry_of_toml :: "toml \<Rightarrow> fixture_entry option" where
  "entry_of_toml v =
     Option.bind (toml_table v) (\<lambda>kvs.
     Option.bind (field_required toml_str (asc ''scenario'') kvs) (\<lambda>s.
     Option.bind (field_required toml_str (asc ''path'') kvs) (\<lambda>p.
     Option.bind (field_required toml_str (asc ''sha256'') kvs) (\<lambda>h.
     Option.bind (field_required toml_str (asc ''currency'') kvs) (\<lambda>c.
       Some \<lparr> fx_scenario = s, fx_path = p, fx_sha256 = h, fx_currency = c \<rparr>)))))"

definition manifest_of_toml :: "toml \<Rightarrow> fixture_manifest option" where
  "manifest_of_toml v =
     Option.bind (toml_table v) (field_or (toml_list entry_of_toml) [] (asc ''fixture''))"

definition manifest_from_str :: "toml_lib \<Rightarrow> ustr \<Rightarrow> (fixture_manifest, ustr) result" where
  "manifest_from_str L txt =
     map_err (\<lambda>e. asc ''invalid fixture manifest: '' @ e)
       (and_then (toml_parse L txt) (\<lambda>v.
          case manifest_of_toml v of Some m \<Rightarrow> Ok m | None \<Rightarrow> Err (toml_shape_error L v)))"

type_synonym file_reader = "ustr \<Rightarrow> (byte list, io_error) result"

definition manifest_load :: "toml_lib \<Rightarrow> file_reader \<Rightarrow> ustr \<Rightarrow> (fixture_manifest, ustr) result" where
  "manifest_load L reader dir =
     (let path = path_join dir MANIFEST_FILENAME
      in case read_text (reader path) of
           Ok txt \<Rightarrow> manifest_from_str L txt
         | Err e \<Rightarrow> if io_not_found e then Ok [] else Err (path @ asc '': '' @ io_text e))"

section \<open>The audit\<close>

record fixture_audit =
  fa_missing :: "ustr list"
  fa_orphans :: "ustr list"
  fa_corrupt :: "ustr list"
  fa_total :: nat
  fa_unverified :: nat

record fixture_summary =
  fs_total :: nat
  fs_unverified :: nat

definition audit_default :: fixture_audit where
  "audit_default = \<lparr> fa_missing = [], fa_orphans = [], fa_corrupt = [], fa_total = 0, fa_unverified = 0 \<rparr>"

definition audit_is_clean :: "fixture_audit \<Rightarrow> bool" where
  "audit_is_clean a \<longleftrightarrow> fa_missing a = [] \<and> fa_orphans a = [] \<and> fa_corrupt a = []"

definition audit_summary :: "fixture_audit \<Rightarrow> fixture_summary" where
  "audit_summary a = \<lparr> fs_total = fa_total a, fs_unverified = fa_unverified a \<rparr>"

abbreviation missing :: "ustr \<Rightarrow> fixture_audit \<Rightarrow> fixture_audit" where
  "missing m a \<equiv> a\<lparr> fa_missing := fa_missing a @ [m] \<rparr>"

abbreviation orphan :: "ustr \<Rightarrow> fixture_audit \<Rightarrow> fixture_audit" where
  "orphan m a \<equiv> a\<lparr> fa_orphans := fa_orphans a @ [m] \<rparr>"

abbreviation corrupt :: "ustr \<Rightarrow> fixture_audit \<Rightarrow> fixture_audit" where
  "corrupt m a \<equiv> a\<lparr> fa_corrupt := fa_corrupt a @ [m] \<rparr>"

definition UNVERIFIED_WARNING_PERCENT :: nat where "UNVERIFIED_WARNING_PERCENT = 30"

definition report_line :: "fixture_summary \<Rightarrow> ustr" where
  "report_line s =
     asc ''fixtures: '' @ show_nat (fs_total s) @ asc '' declared, ''
     @ show_nat (sat_sub (fs_total s) (fs_unverified s)) @ asc '' verified by a live scenario, ''
     @ show_nat (fs_unverified s) @ asc '' unverified''"

definition unverified_warning :: "fixture_summary \<Rightarrow> ustr option" where
  "unverified_warning s =
     (if fs_total s = 0 \<or> fs_unverified s * 100 \<le> fs_total s * UNVERIFIED_WARNING_PERCENT then None
      else Some (asc ''WARNING: '' @ show_nat (fs_unverified s) @ asc '' of '' @ show_nat (fs_total s)
        @ asc '' fixtures are unverified (over '' @ show_nat UNVERIFIED_WARNING_PERCENT
        @ asc ''%). Their bytes are the ones recorded, but nothing re-checked that the backend still answers that way. This does not block the release; it is here because a count that lives only in a run's output is lost by the time anyone decides.''))"

definition offending_component :: "ustr \<Rightarrow> ustr option" where
  "offending_component path =
     (if path = [] then Some (asc ''it is empty'')
      else if 47 \<in> set path \<or> 92 \<in> set path then Some (asc ''it contains a path separator'')
      else if path = asc ''..'' \<or> path = asc ''.'' then
        Some (asc ''it names a directory rather than a file'')
      else None)"

definition check_currency ::
  "rust_fmt \<Rightarrow> fixture_entry \<Rightarrow> ustr list \<Rightarrow> fixture_audit \<Rightarrow> fixture_audit" where
  "check_currency F entry live audit =
     (case str_strip_prefix (fx_currency entry) UNVERIFIED_PREFIX of
        Some reason \<Rightarrow>
          (let a = (if trim reason \<notin> set KNOWN_REASONS then
                      corrupt (fx_path entry @ asc '': unrecognized currency reason '' @ QUOTE
                        @ trim reason @ QUOTE @ asc ''. Accepted: '' @ dbg_list (dbg_str F) KNOWN_REASONS
                        @ asc ''. Widening the list must be deliberate.'') audit
                    else audit)
           in a\<lparr> fa_unverified := fa_unverified a + 1 \<rparr>)
      | None \<Rightarrow>
          (case str_strip_prefix (fx_currency entry) VERIFIED_BY_PREFIX of
             Some who \<Rightarrow>
               (let ident = trim who
                in if ident = [] then
                     corrupt (fx_path entry @ asc '': currency claims 'verified-by' and names nobody. A re-check by an unnamed party cannot be found, repeated or retired.'') audit
                   else if ident \<notin> set live then
                     corrupt (fx_path entry @ asc '': currency claims to be verified by '' @ QUOTE @ ident
                       @ QUOTE @ asc '', which no live scenario implements. The claim outlived whatever used to make it, so this fixture's answer is of unknown currency rather than current.'') audit
                   else audit)
           | None \<Rightarrow>
               corrupt (fx_path entry @ asc '': unrecognized currency form '' @ QUOTE @ fx_currency entry
                 @ QUOTE @ asc ''. Expected 'verified-by: <id>' or 'unverified: <reason>'.'') audit))"

text \<open>One entry of the manifest, in the order of the code: the corpus is flat, the scenario is
  live, the bytes hash as recorded, the currency is a known form.\<close>

definition verify_entry ::
  "rust_fmt \<Rightarrow> (byte list \<Rightarrow> ustr) \<Rightarrow> file_reader \<Rightarrow> ustr \<Rightarrow> ustr list
     \<Rightarrow> fixture_entry \<Rightarrow> fixture_audit \<Rightarrow> fixture_audit" where
  "verify_entry F sha reader dir live entry audit =
     (case offending_component (fx_path entry) of
        Some bad \<Rightarrow>
          corrupt (fx_path entry
            @ asc '': the fixture corpus is FLAT, and this path is not a member of it ('' @ bad
            @ asc ''). It would be read from outside the one directory level this audit crosses, so the audit could not be clean.'') audit
      | None \<Rightarrow>
          if fx_scenario entry \<notin> set live then
            orphan (fx_path entry @ asc '': names scenario '' @ fx_scenario entry
              @ asc '', which no live scenario implements'') audit
          else
            let a = (case reader (path_join dir (fx_path entry)) of
                Err e \<Rightarrow> missing (fx_path entry @ asc '': '' @ io_text e) audit
              | Ok bytes \<Rightarrow>
                  if sha bytes \<noteq> fx_sha256 entry
                  then corrupt (fx_path entry @ asc '': hash mismatch'') audit else audit)
            in check_currency F entry live a)"

text \<open>One entry of the directory. \<open>file_type\<close> fails for an entry that cannot be inspected, and
  that counts as a directory.\<close>

fun counts_as_dir :: "fs_node \<Rightarrow> bool" where
  "counts_as_dir (DirNode _) = True"
| "counts_as_dir (OpaqueNode _) = True"
| "counts_as_dir (FileNode _) = False"
| "counts_as_dir (LinkNode _) = False"

definition cross_entry ::
  "rust_fmt \<Rightarrow> ustr \<Rightarrow> ustr set \<Rightarrow> fs_entry \<Rightarrow> fixture_audit \<Rightarrow> fixture_audit" where
  "cross_entry F dir declared entry audit =
     (case entry of
        Err e \<Rightarrow>
          corrupt (dir @ asc '': an entry of the fixture directory could not be read: '' @ io_text e
            @ asc ''. The corpus was NOT fully seen, so this audit cannot be clean.'') audit
      | Ok (ForeignName n, _) \<Rightarrow>
          corrupt (dir @ asc '': entry named '' @ dbg_str F n
            @ asc '' is not valid UTF-8, so it cannot be compared with any manifest path ''
            @ EM_DASH @ asc '' whether it is declared is unknowable, not clean.'') audit
      | Ok (UnicodeName name, node) \<Rightarrow>
          if name \<in> set NON_FIXTURE_FILES then audit
          else if counts_as_dir node then
            corrupt (dir @ asc '': '' @ name
              @ asc '' is a directory, and this walk does not recurse '' @ EM_DASH
              @ asc '' the fixture corpus is FLAT. Nothing inside it was compared with the manifest, so this audit cannot be clean.'') audit
          else if name \<notin> declared then
            orphan (name @ asc '': on disk and declared by nobody '' @ EM_DASH
              @ asc '' copied for nothing, and its currency is unknowable'') audit
          else audit)"

definition manifest_verify ::
  "rust_fmt \<Rightarrow> (byte list \<Rightarrow> ustr) \<Rightarrow> file_reader \<Rightarrow> fs_listing \<Rightarrow> ustr \<Rightarrow> ustr list
     \<Rightarrow> fixture_manifest \<Rightarrow> fixture_audit" where
  "manifest_verify F sha reader listing dir live entries =
     (let declared = set (map fx_path entries);
          checked = fold (verify_entry F sha reader dir live) entries audit_default;
          crossed = (case listing of
            Err e \<Rightarrow> corrupt (dir @ asc '': fixture directory could not be read: '' @ io_text e) checked
          | Ok es \<Rightarrow> fold (cross_entry F dir declared) es checked)
      in crossed\<lparr> fa_total := length entries \<rparr>)"

section \<open>A clean audit\<close>

definition currency_ok :: "ustr list \<Rightarrow> ustr \<Rightarrow> bool" where
  "currency_ok live c \<longleftrightarrow>
     (\<exists>r. c = UNVERIFIED_PREFIX @ r \<and> trim r \<in> set KNOWN_REASONS)
     \<or> (\<exists>w. c = VERIFIED_BY_PREFIX @ w \<and> trim w \<noteq> [] \<and> trim w \<in> set live)"

definition entry_ok :: "(byte list \<Rightarrow> ustr) \<Rightarrow> file_reader \<Rightarrow> ustr \<Rightarrow> ustr list \<Rightarrow> fixture_entry \<Rightarrow> bool" where
  "entry_ok sha reader dir live e \<longleftrightarrow>
     offending_component (fx_path e) = None \<and> fx_scenario e \<in> set live
     \<and> (\<exists>bytes. reader (path_join dir (fx_path e)) = Ok bytes \<and> sha bytes = fx_sha256 e)
     \<and> currency_ok live (fx_currency e)"

fun disk_entry_ok :: "ustr set \<Rightarrow> fs_entry \<Rightarrow> bool" where
  "disk_entry_ok declared (Err _) = False"
| "disk_entry_ok declared (Ok (ForeignName _, _)) = False"
| "disk_entry_ok declared (Ok (UnicodeName n, node)) \<longleftrightarrow>
     n \<in> set NON_FIXTURE_FILES \<or> n \<in> declared \<and> \<not> counts_as_dir node"

lemma audit_clean_updates [simp]:
  "\<not> audit_is_clean (missing m a)" "\<not> audit_is_clean (orphan m a)" "\<not> audit_is_clean (corrupt m a)"
  "audit_is_clean (a\<lparr> fa_unverified := n \<rparr>) \<longleftrightarrow> audit_is_clean a"
  "audit_is_clean (a\<lparr> fa_total := n \<rparr>) \<longleftrightarrow> audit_is_clean a"
  by (simp_all add: audit_is_clean_def)

lemma prefixes_differ: "UNVERIFIED_PREFIX @ r \<noteq> VERIFIED_BY_PREFIX @ w"
  by (simp add: UNVERIFIED_PREFIX_def VERIFIED_BY_PREFIX_def)

lemma check_currency_clean:
  "audit_is_clean (check_currency F e live a) \<longleftrightarrow> audit_is_clean a \<and> currency_ok live (fx_currency e)"
proof (cases "str_strip_prefix (fx_currency e) UNVERIFIED_PREFIX")
  case (Some r)
  then have c: "fx_currency e = UNVERIFIED_PREFIX @ r" by (simp only: str_strip_prefix_Some)
  then have "currency_ok live (fx_currency e) \<longleftrightarrow> trim r \<in> set KNOWN_REASONS"
    by (simp add: currency_ok_def prefixes_differ)
  with Some show ?thesis by (simp add: check_currency_def Let_def)
next
  case None
  then have no: "fx_currency e \<noteq> UNVERIFIED_PREFIX @ r" for r
    by (metis option.distinct(1) str_strip_prefix_append)
  show ?thesis
  proof (cases "str_strip_prefix (fx_currency e) VERIFIED_BY_PREFIX")
    case (Some w)
    then have c: "fx_currency e = VERIFIED_BY_PREFIX @ w" by (simp only: str_strip_prefix_Some)
    with no have "currency_ok live (fx_currency e) \<longleftrightarrow> trim w \<noteq> [] \<and> trim w \<in> set live"
      by (simp add: currency_ok_def)
    with None Some show ?thesis by (simp add: check_currency_def Let_def)
  next
    case None': None
    then have "fx_currency e \<noteq> VERIFIED_BY_PREFIX @ w" for w
      by (metis option.distinct(1) str_strip_prefix_append)
    with None None' no show ?thesis by (simp add: check_currency_def currency_ok_def)
  qed
qed

lemma verify_entry_clean:
  "audit_is_clean (verify_entry F sha reader dir live e a)
     \<longleftrightarrow> audit_is_clean a \<and> entry_ok sha reader dir live e"
  by (auto simp: verify_entry_def entry_ok_def check_currency_clean Let_def split: option.splits result.splits)

lemma cross_entry_clean:
  "audit_is_clean (cross_entry F dir declared e a) \<longleftrightarrow> audit_is_clean a \<and> disk_entry_ok declared e"
  by (cases "(declared, e)" rule: disk_entry_ok.cases) (auto simp: cross_entry_def)

lemma fold_clean:
  "(\<And>x a. audit_is_clean (f x a) \<longleftrightarrow> audit_is_clean a \<and> P x) \<Longrightarrow>
     audit_is_clean (fold f xs a) \<longleftrightarrow> audit_is_clean a \<and> list_all P xs"
  by (induction xs arbitrary: a) auto

text \<open>The audit of the fixture corpus is clean exactly when the directory could be read to the
  end, everything in it is a declared file (or one of the three that are not fixtures), and every
  declared fixture is a plain member of that directory which a live scenario uses, is there with
  the recorded hash, and states a currency of a known form.\<close>

theorem fixture_audit_exact:
  "audit_is_clean (manifest_verify F sha reader listing dir live entries) \<longleftrightarrow>
     (case listing of Err _ \<Rightarrow> False
      | Ok es \<Rightarrow> list_all (disk_entry_ok (set (map fx_path entries))) es)
     \<and> list_all (entry_ok sha reader dir live) entries"
proof -
  have "audit_is_clean audit_default" by (simp add: audit_is_clean_def audit_default_def)
  moreover note fold_clean [where f = "verify_entry F sha reader dir live", OF verify_entry_clean]
  moreover note fold_clean [where f = "cross_entry F dir (set (map fx_path entries))", OF cross_entry_clean]
  ultimately show ?thesis
    by (auto simp: manifest_verify_def Let_def split: result.splits)
qed

section \<open>What the audit counts\<close>

lemma check_currency_unverified:
  "fa_unverified (check_currency F e live a)
     = fa_unverified a + (if starts_with (fx_currency e) UNVERIFIED_PREFIX then 1 else 0)"
  by (auto simp: check_currency_def Let_def str_strip_prefix_def)

lemma verify_entry_unverified:
  "entry_ok sha reader dir live e \<Longrightarrow>
     fa_unverified (verify_entry F sha reader dir live e a)
       = fa_unverified a + (if starts_with (fx_currency e) UNVERIFIED_PREFIX then 1 else 0)"
  by (auto simp: verify_entry_def entry_ok_def check_currency_unverified Let_def)

lemma cross_entry_unverified [simp]: "fa_unverified (cross_entry F dir d e a) = fa_unverified a"
  by (auto simp: cross_entry_def split: result.splits prod.splits fs_name.splits)

lemma fold_cross_unverified: "fa_unverified (fold (cross_entry F dir d) es a) = fa_unverified a"
  by (induction es arbitrary: a) auto

lemma fold_verify_unverified:
  "list_all (entry_ok sha reader dir live) es \<Longrightarrow>
     fa_unverified (fold (verify_entry F sha reader dir live) es a)
       = fa_unverified a + length (filter (\<lambda>e. starts_with (fx_currency e) UNVERIFIED_PREFIX) es)"
  by (induction es arbitrary: a) (auto simp: verify_entry_unverified)

text \<open>A clean audit counts every declared fixture and every unverified one once, so the summary
  line of the certificate accounts for all of them.\<close>

lemma clean_summary:
  "audit_is_clean (manifest_verify F sha reader listing dir live entries) \<Longrightarrow>
     audit_summary (manifest_verify F sha reader listing dir live entries)
       = \<lparr> fs_total = length entries,
           fs_unverified = length (filter (\<lambda>e. starts_with (fx_currency e) UNVERIFIED_PREFIX) entries) \<rparr>"
  unfolding fixture_audit_exact
  by (auto simp: audit_summary_def manifest_verify_def Let_def fold_cross_unverified
      fold_verify_unverified audit_default_def split: result.splits)

lemma warning_iff:
  "unverified_warning s \<noteq> None \<longleftrightarrow> 0 < fs_total s \<and> 30 * fs_total s < 100 * fs_unverified s"
  by (auto simp: unverified_warning_def UNVERIFIED_WARNING_PERCENT_def)

end
