(* ===== verification/Smoke_Preflight.thy ===== *)
theory Smoke_Preflight
  imports Smoke_Runner Smoke_Fixtures
begin

text \<open>
  \<open>smoke/src/preflight.rs\<close>: everything the harness checks before it spends anything, in a fixed
  order: the trio and its pool, the fixture corpus, the isolation of the package, the tracked
  lock file, the backend, the contention probe, the proxy, and the announced cost. The requests
  and the commands it issues are arguments (\<open>preflight_env\<close>); the time each request may take is
  part of the result, because the configuration promises a bound on it.
\<close>

section \<open>Stages\<close>

datatype stage = StConfig | StFixtures | StWorkspace | StLock | StBackend | StProbe | StProxy

record preflight_error =
  pfe_stage :: stage
  pfe_msg :: ustr

fun dbg_stage :: "stage \<Rightarrow> ustr" where
  "dbg_stage StConfig = asc ''Config''"
| "dbg_stage StFixtures = asc ''Fixtures''"
| "dbg_stage StWorkspace = asc ''Workspace''"
| "dbg_stage StLock = asc ''Lock''"
| "dbg_stage StBackend = asc ''Backend''"
| "dbg_stage StProbe = asc ''Probe''"
| "dbg_stage StProxy = asc ''Proxy''"

definition preflight_step_order :: "ustr list" where
  "preflight_step_order = [asc ''config'', asc ''fixtures'', asc ''workspace'', asc ''lock'',
     asc ''backend'', asc ''probe'', asc ''proxy'', asc ''cost'']"

definition show_preflight_error :: "preflight_error \<Rightarrow> ustr" where
  "show_preflight_error e =
     (case index_of (\<lambda>s. s = map ascii_lower (dbg_stage (pfe_stage e))) preflight_step_order of
        Some i \<Rightarrow> dbg_stage (pfe_stage e) @ asc '': '' @ pfe_msg e @ asc '' (step '' @ show_nat (i + 1)
          @ asc '' of '' @ show_nat (length preflight_step_order) @ asc '' in the preflight order)''
      | None \<Rightarrow> dbg_stage (pfe_stage e) @ asc '': '' @ pfe_msg e)"

definition cannot_test_at :: "stage \<Rightarrow> ('a, ustr) result \<Rightarrow> ('a, preflight_error) result" where
  "cannot_test_at st r = map_err (\<lambda>m. \<lparr> pfe_stage = st, pfe_msg = m \<rparr>) r"

section \<open>The trio\<close>

definition REQUIRED_SEATS :: nat where "REQUIRED_SEATS = 3"

definition SEAT_FIX :: ustr where
  "SEAT_FIX = asc ''Copy magi-smoke.toml.example to magi-smoke.toml and edit it, or drop the `seats` override to fall back to the built-in trio.''"

text \<open>The first key met a second time, with the value it was first inserted with.\<close>

fun first_duplicate :: "(ustr \<times> ustr) list \<Rightarrow> (ustr \<times> ustr) list \<Rightarrow> (ustr \<times> ustr \<times> ustr) option" where
  "first_duplicate seen [] = None"
| "first_duplicate seen ((k, v) # rest) =
     (case map_of seen k of
        Some first \<Rightarrow> Some (first, k, v)
      | None \<Rightarrow> first_duplicate ((k, v) # seen) rest)"

definition no_duplicate ::
  "(ustr \<Rightarrow> ustr \<Rightarrow> ustr \<Rightarrow> ustr) \<Rightarrow> (ustr \<times> ustr) list \<Rightarrow> (unit, ustr) result" where
  "no_duplicate msg kvs =
     (case first_duplicate [] kvs of Some (first, k, v) \<Rightarrow> Err (msg first v k) | None \<Rightarrow> Ok ())"

fun agents_once :: "rust_fmt \<Rightarrow> agent_name list \<Rightarrow> smoke_seat list \<Rightarrow> (unit, ustr) result" where
  "agents_once F seen [] = Ok ()"
| "agents_once F seen (s # ss) =
     and_then (seat_agent_name F s) (\<lambda>name.
       if name \<in> set seen then
         Err (asc ''config seats '' @ dbg_str F (ss_agent s)
           @ asc '' twice: the builder registers one provider per agent, so the second silently replaces the first and the trio is short a mage without anything saying so. ''
           @ SEAT_FIX)
       else agents_once F (name # seen) ss)"

definition check_seats :: "rust_fmt \<Rightarrow> smoke_config \<Rightarrow> (unit, ustr) result" where
  "check_seats F c =
     (let seats = sc_seats c; fbs = sc_fallbacks c; q = dbg_str F
      in if seats = [] then
           Err (asc ''config has zero seats: every backend run needs models, so the harness would start and be unable to execute a single one. '' @ SEAT_FIX)
         else if length seats \<noteq> REQUIRED_SEATS then
           Err (asc ''config has '' @ show_nat (length seats) @ asc '' seats but a MAGI run is a trio of ''
             @ show_nat REQUIRED_SEATS
             @ asc '': the degradation scenario asserts that exactly two of three agents answered, so any other number makes it report a red row about the crate for a mistake in this file. ''
             @ SEAT_FIX)
         else if fbs = [] then
           Err (asc ''config declares no [[fallbacks]]: the rotation run needs at least one candidate to rotate INTO, and without one it reports a red row about the crate for a mistake in this file. '' @ SEAT_FIX)
         else if length fbs < BLIP_SEATS then
           Err (asc ''config declares '' @ show_nat (length fbs) @ asc '' [[fallbacks]] but the ''
             @ run_id_str EndpointBlip @ asc '' run needs at least '' @ show_nat BLIP_SEATS
             @ asc '': it cuts '' @ show_nat BLIP_SEATS
             @ asc '' seats at once and they rotate concurrently, each into a lineage no live mage holds, so with fewer candidates one seat has nowhere to go and the run reports a red row about the crate for a section short in this file. ''
             @ SEAT_FIX)
         else
           and_then (check_all (\<lambda>f.
             if list_ex (\<lambda>s. ss_lineage s = sf_lineage f) seats then
               Err (asc ''fallback '' @ q (sf_model f) @ asc '' declares lineage '' @ q (sf_lineage f)
                 @ asc '', which a seat already uses: rotating to it reaches the same lineage the run was trying to leave, so the scenario would pass over a rotation that proved nothing. ''
                 @ SEAT_FIX)
             else Ok ()) fbs) (\<lambda>_.
           and_then (no_duplicate (\<lambda>first v k.
             asc ''fallbacks '' @ q first @ asc '' and '' @ q v @ asc '' both declare lineage '' @ q k
               @ asc '': a run-wide condemnation takes every candidate on one lineage down together, so the second is not a second chance and the pool is one deep while looking two. ''
               @ SEAT_FIX) (map (\<lambda>f. (sf_lineage f, sf_model f)) fbs)) (\<lambda>_.
           and_then (no_duplicate (\<lambda>first v k.
             asc ''seats '' @ q first @ asc '' and '' @ q v @ asc '' both declare lineage '' @ q k
               @ asc '': a run-wide lineage condemnation takes down BOTH of them at once, so the degradation scenario sees one agent where it asserts two and reports a red row about the crate for a mistake in this file. ''
               @ SEAT_FIX) (map (\<lambda>s. (ss_lineage s, ss_agent s)) seats)) (\<lambda>_.
           and_then (no_duplicate (\<lambda>first v k.
             asc ''seats '' @ q first @ asc '' and '' @ q v @ asc '' both declare model '' @ q k
               @ asc '': an injected failure is matched by '' @ [LF]
               @ asc ''                 MODEL, so one injection takes down both of them and the degradation scenario '' @ [LF]
               @ asc ''                 sees one agent where it asserts two '' @ EM_DASH
               @ asc '' a red row about the crate for a mistake '' @ [LF]
               @ asc ''                 in this file. '' @ SEAT_FIX)
             (map (\<lambda>s. (ss_model s, ss_agent s)) seats)) (\<lambda>_.
           and_then (check_all (\<lambda>f.
             case find (\<lambda>s. ss_model s = sf_model f) seats of
               Some s \<Rightarrow>
                 Err (asc ''fallback '' @ q (sf_model f) @ asc '' declares model '' @ q (sf_model f)
                   @ asc '', which seat '' @ q (ss_agent s) @ asc '' already uses: an injected '' @ [LF]
                   @ asc ''                 failure is matched by MODEL, so rotating there is served the same refusal the '' @ [LF]
                   @ asc ''                 run was rotating away from and the scenario reports a red row about the crate '' @ [LF]
                   @ asc ''                 for a candidate that could never have worked. '' @ SEAT_FIX)
             | None \<Rightarrow> Ok ()) fbs) (\<lambda>_.
           and_then (no_duplicate (\<lambda>first v k.
             asc ''fallbacks on lineages '' @ q first @ asc '' and '' @ q v @ asc '' both declare model '' @ q k
               @ asc '': an injected failure is matched by MODEL, so the second candidate is served the same refusal as the first and the pool is one deep while looking two. ''
               @ SEAT_FIX) (map (\<lambda>f. (sf_model f, sf_lineage f)) fbs)) (\<lambda>_.
             agents_once F [] seats)))))))"

section \<open>The package and its lock file\<close>

text \<open>What the commands, the file system and the network answer. The contention probe is asked at
  most twice, so its answers are indexed by the attempt; every request gets the window it may
  take.\<close>

record listing_reply =
  lr_status :: nat
  lr_chunks :: "(byte list, ustr) result list"

record probe_reply =
  br_status :: nat
  br_text :: "(ustr, ustr) result"

record probe_chat =
  pb_model :: ustr
  pb_prompt :: ustr
  pb_stream :: bool
  pb_num_predict :: nat

record preflight_env =
  pv_metadata :: "(byte list, ustr) result"
  pv_json_error :: "byte list \<Rightarrow> ustr"
  pv_canonical :: "ustr \<Rightarrow> (ustr, ustr) result"
  pv_lock_listed :: "(bool, ustr) result"
  pv_client :: "duration \<Rightarrow> (unit, ustr) result"
  pv_status_text :: "nat \<Rightarrow> ustr"
  pv_get :: "ustr \<Rightarrow> duration \<Rightarrow> (listing_reply, ustr) result"
  pv_post :: "nat \<Rightarrow> ustr \<Rightarrow> probe_chat \<Rightarrow> duration \<Rightarrow> (probe_reply, ustr) result"
  pv_bind :: "(ustr, ustr) result"
  pv_reader :: file_reader
  pv_fixtures :: fs_listing
  pv_sha :: "byte list \<Rightarrow> ustr"
  pv_audit_pretty :: "fixture_audit \<Rightarrow> ustr"

definition check_workspace_isolation ::
  "'v json_lib \<Rightarrow> preflight_env \<Rightarrow> ustr \<Rightarrow> (unit, ustr) result" where
  "check_workspace_isolation J E smoke =
     and_then (map_err (\<lambda>e. asc ''workspace_root: could not run cargo metadata in '' @ smoke @ asc '': '' @ e)
       (pv_metadata E)) (\<lambda>out.
     and_then (case Option.bind (from_utf8 out) (js_value J) of
         Some v \<Rightarrow> Ok v
       | None \<Rightarrow> Err (asc ''workspace_root: cargo metadata output: '' @ pv_json_error E out)) (\<lambda>v.
     and_then (case Option.bind (js_get J v (asc ''workspace_root'')) (js_text J) of
         Some r \<Rightarrow> Ok r
       | None \<Rightarrow> Err (asc ''workspace_root: cargo metadata returned no workspace_root; the isolation check cannot be answered, so it fails closed rather than guessing'')) (\<lambda>reported_root.
     and_then (map_err (\<lambda>e. asc ''workspace_root: '' @ e) (pv_canonical E reported_root)) (\<lambda>reported.
     and_then (map_err (\<lambda>e. asc ''workspace_root: smoke dir: '' @ e) (pv_canonical E smoke)) (\<lambda>expected.
       if \<not> path_eq reported expected then
         Err (asc ''workspace_root is '' @ reported_root
           @ asc '', not smoke/: the repository root absorbed the harness. The crate'' @ QUOTE @ asc ''s gate commands now reach it, which rule 3 forbids.'')
       else Ok ())))))"

definition check_lock_is_tracked :: "preflight_env \<Rightarrow> (unit, ustr) result" where
  "check_lock_is_tracked E =
     and_then (map_err (\<lambda>e. asc ''git ls-files failed: '' @ e) (pv_lock_listed E)) (\<lambda>listed.
       if listed then Ok ()
       else Err (asc ''smoke/Cargo.lock is NOT tracked: the `!smoke/Cargo.lock` negation in .gitignore stopped applying, so the reproducibility that motivated tracking it does not exist''))"

section \<open>The backend and the models it holds\<close>

definition REACHABILITY_PATH :: ustr where "REACHABILITY_PATH = asc ''/api/tags''"
definition PROBE_MAX_TOKENS :: nat where "PROBE_MAX_TOKENS = 1"
definition PROBE_PROMPT :: ustr where "PROBE_PROMPT = asc ''hi''"
definition MAX_LISTING_BODY_BYTES :: nat where "MAX_LISTING_BODY_BYTES = 1024 * 1024"

definition listed_models :: "'v json_lib \<Rightarrow> byte list \<Rightarrow> ustr list option" where
  "listed_models J body =
     Option.bind (Option.bind (from_utf8 body) (js_value J)) (\<lambda>v.
     Option.bind (Option.bind (js_get J v (asc ''models'')) (js_items J)) (\<lambda>models.
       those (map (\<lambda>m.
         Option.bind (case js_get J m (asc ''name'') of
             Some n \<Rightarrow> Some n
           | None \<Rightarrow> js_get J m (asc ''model'')) (js_text J)) models)))"

text \<open>The body is read chunk by chunk; one that outgrows the cap counts as unreadable.\<close>

fun read_listing ::
  "byte list \<Rightarrow> (byte list, ustr) result list \<Rightarrow> (byte list option, ustr) result" where
  "read_listing acc [] = Ok (Some acc)"
| "read_listing acc (Err e # _) = Err e"
| "read_listing acc (Ok chunk # rest) =
     (if sat_add USIZE_MAX (length acc) (length chunk) > MAX_LISTING_BODY_BYTES then Ok None
      else read_listing (acc @ chunk) rest)"

definition backend_reachable ::
  "'v json_lib \<Rightarrow> preflight_env \<Rightarrow> ustr \<Rightarrow> duration \<Rightarrow> (ustr list option, ustr) result" where
  "backend_reachable J E endpoint window =
     and_then (map_err (\<lambda>e. asc ''backend reachability: '' @ e) (pv_client E window)) (\<lambda>_.
     and_then (map_err (\<lambda>e. asc ''backend at '' @ endpoint @ asc '' did not answer: '' @ e)
       (pv_get E (endpoint @ REACHABILITY_PATH) window)) (\<lambda>resp.
       if \<not> is_success (lr_status resp) then
         Err (asc ''backend at '' @ endpoint @ asc '' answered with status '' @ pv_status_text E (lr_status resp))
       else
         and_then (map_err (\<lambda>e. asc ''backend at '' @ endpoint
             @ asc '' answered but its listing could not be read: '' @ e) (read_listing [] (lr_chunks resp)))
           (\<lambda>body. Ok (Option.bind body (listed_models J)))))"

definition holds :: "ustr \<Rightarrow> ustr \<Rightarrow> bool" where
  "holds listed declared \<longleftrightarrow>
     listed = declared \<or> str_strip_suffix listed (asc '':latest'') = Some declared"

definition declared_models :: "smoke_config \<Rightarrow> (ustr \<times> ustr) list" where
  "declared_models c =
     map (\<lambda>s. (ss_agent s, ss_model s)) (sc_seats c)
     @ map (\<lambda>f. (asc ''rotation'', sf_model f)) (sc_fallbacks c)"

definition check_seat_models :: "rust_fmt \<Rightarrow> smoke_config \<Rightarrow> ustr list option \<Rightarrow> (unit, ustr) result" where
  "check_seat_models F c listing =
     (case listing of
        None \<Rightarrow> Ok ()
      | Some listed \<Rightarrow>
          let absent = map (\<lambda>(who, model). who @ asc '' declares '' @ dbg_str F model)
                (filter (\<lambda>(_, model). \<not> list_ex (\<lambda>held. holds held model) listed) (declared_models c))
          in if absent = [] then Ok ()
             else Err (asc ''the backend does not hold '' @ show_nat (length absent)
               @ asc '' of the configured models ('' @ join (asc ''; '') absent @ asc ''). It lists ''
               @ dbg_list (dbg_str F) listed
               @ asc ''. A model it cannot serve makes that mage fail to answer '' @ EM_DASH
               @ asc '' or leaves rotation with nowhere to go '' @ EM_DASH
               @ asc '' which the runs report as a red row about the crate for a mistake in this file. Pull the model, or correct the entry. ''
               @ SEAT_FIX))"

section \<open>The contention probe\<close>

datatype inconclusive = NotFound | UnsuccessfulStatus nat | NoGeneration

datatype probe_outcome = Served | Inconclusive inconclusive

definition classify_probe_body :: "'v json_lib \<Rightarrow> ustr \<Rightarrow> probe_outcome" where
  "classify_probe_body J body =
     (let parsed = js_value J body;
          field = (\<lambda>key. Option.bind parsed (\<lambda>v. js_get J v key));
          done_reason = Option.bind (field (asc ''done_reason'')) (js_text J);
          eval_count = Option.bind (field (asc ''eval_count'')) (js_u64 J)
      in case (done_reason, eval_count) of
           (Some reason, Some n) \<Rightarrow>
             if reason \<noteq> asc ''load'' \<and> n > 0 then Served else Inconclusive NoGeneration
         | _ \<Rightarrow> Inconclusive NoGeneration)"

definition probe_request_of :: "smoke_config \<Rightarrow> probe_chat" where
  "probe_request_of c =
     \<lparr> pb_model = probe_model c, pb_prompt = PROBE_PROMPT, pb_stream = False,
       pb_num_predict = PROBE_MAX_TOKENS \<rparr>"

definition try_once ::
  "'v json_lib \<Rightarrow> preflight_env \<Rightarrow> nat \<Rightarrow> smoke_config \<Rightarrow> duration \<Rightarrow> (probe_outcome, ustr) result" where
  "try_once J E attempt c window =
     map_err (\<lambda>e. asc ''probe: '' @ e) (
       and_then (pv_client E window) (\<lambda>_.
       and_then (pv_post E attempt (sc_endpoint c @ COMPLETIONS_PATH) (probe_request_of c) window) (\<lambda>resp.
         if br_status resp = 404 then Ok (Inconclusive NotFound)
         else if \<not> is_success (br_status resp) then Ok (Inconclusive (UnsuccessfulStatus (br_status resp)))
         else and_then (br_text resp) (\<lambda>body. Ok (classify_probe_body J body)))))"

definition probe_inconclusive_message :: "rust_fmt \<Rightarrow> smoke_config \<Rightarrow> inconclusive \<Rightarrow> ustr" where
  "probe_inconclusive_message F c seen =
     (let neither = (\<lambda>what remedy.
            asc ''cannot test: the endpoint at '' @ sc_endpoint c @ [SPC] @ what @ asc '' at '' @ COMPLETIONS_PATH
            @ asc '' for model '' @ dbg_str F (probe_model c)
            @ asc ''. Either way it never entered the inference queue, so NOTHING was established about contention - a saturated backend answers just as fast as an idle one. ''
            @ remedy)
      in case seen of
           NotFound \<Rightarrow>
             neither (asc ''answered with 404, so the request was rejected outright. Two causes are possible and the harness cannot tell them apart: the backend does not hold that model, or it does not serve that path'')
               (asc ''Pull the model, or point the endpoint at a backend that serves this path.'')
         | UnsuccessfulStatus code \<Rightarrow>
             asc ''cannot test: the endpoint at '' @ sc_endpoint c
             @ asc '' answered the contention probe with HTTP '' @ show_nat code
             @ asc ''                  at '' @ COMPLETIONS_PATH @ asc '' for model '' @ dbg_str F (probe_model c)
             @ asc ''. Nothing was generated, so it never                  entered the inference queue and NOTHING was established about contention. Fix                  what the status reports; a backend returning errors cannot be probed for load.''
         | NoGeneration \<Rightarrow>
             neither (asc ''answered successfully but reported NO generation - no termination reason, a `load` one, or no completion tokens. The backend replied without ever queueing work'')
               (asc ''Check that the model is loaded and able to generate; a warm-up request often resolves it.''))"

definition probe_failure_message :: ustr where
  "probe_failure_message =
     asc ''cannot test: the endpoint did not answer a trivial request in time. Two causes are possible and the harness cannot tell them apart: contention (another client holding the backend) or a cold model still loading. The probe already retried once with a widened window. Note that the model it names is the LAST declared fallback, which on a local backend is the one least likely to be resident ''
     @ EM_DASH @ asc '' so the cold start may be the probe'' @ QUOTE @ asc ''s own: make it resident once, or raise probe_timeout_secs.''"

text \<open>The probe, with the windows of the requests it made.\<close>

definition probe ::
  "rust_fmt \<Rightarrow> 'v json_lib \<Rightarrow> preflight_env \<Rightarrow> smoke_config \<Rightarrow> duration \<Rightarrow> (unit, ustr) result \<times> duration list" where
  "probe F J E c window =
     (case try_once J E 0 c window of
        Ok Served \<Rightarrow> (Ok (), [window])
      | Ok (Inconclusive why) \<Rightarrow> (Err (probe_inconclusive_message F c why), [window])
      | Err _ \<Rightarrow>
          let wide = window * PROBE_RETRY_FACTOR
          in (case try_once J E 1 c wide of
                Ok Served \<Rightarrow> Ok ()
              | Ok (Inconclusive why) \<Rightarrow> Err (probe_inconclusive_message F c why)
              | Err _ \<Rightarrow> Err probe_failure_message, [window, wide]))"

definition raise_proxy :: "preflight_env \<Rightarrow> smoke_config \<Rightarrow> bool \<Rightarrow> (spy_proxy, preflight_error) result" where
  "raise_proxy E c break_proxy =
     cannot_test_at StProxy
       (if break_proxy then
          Err (asc ''proxy: refused to start (--break-proxy). This is a HARNESS fault, never a verdict about the crate: no scenario is reported as passed.'')
        else
          map_err (\<lambda>e. asc ''proxy: could not start: '' @ e)
            (and_then (pv_bind E) (\<lambda>address.
             and_then (pv_client E (longest_backend_budget c)) (\<lambda>_.
               Ok (proxy_start address (sc_payload_target_bytes c))))))"

section \<open>The announced cost and the receipt\<close>

definition TOKEN_ESTIMATE_DIVISOR :: nat where "TOKEN_ESTIMATE_DIVISOR = 4"

definition is_large_payload :: "run_id \<Rightarrow> bool" where
  "is_large_payload run \<longleftrightarrow> run = Large62k \<or> run = Large62kNoReasoning"

definition payload_bytes_for :: "smoke_config \<Rightarrow> run_id \<Rightarrow> nat" where
  "payload_bytes_for c run =
     (if is_large_payload run then sc_payload_target_bytes c else sc_run_payload_bytes c)"

fun is_single_completion :: "run_id \<Rightarrow> bool" where
  "is_single_completion DialectMaxTokens = True"
| "is_single_completion DialectMaxCompletionTokens = True"
| "is_single_completion _ = False"

definition completions_for :: "smoke_config \<Rightarrow> run_id \<Rightarrow> nat" where
  "completions_for c run = (if is_single_completion run then 1 else length (sc_seats c))"

fun output_cap_for :: "run_id \<Rightarrow> nat" where
  "output_cap_for DialectMaxTokens = DIALECT_PROBE_CAP"
| "output_cap_for _ = cc_max_tokens completion_config_default"

definition backend_runs_of :: "bool \<Rightarrow> run_id list" where
  "backend_runs_of no_backend = filter uses_backend (stage_e1_run_ids no_backend)"

definition input_tokens :: "smoke_config \<Rightarrow> run_id list \<Rightarrow> nat" where
  "input_tokens c runs =
     foldl (\<lambda>acc r. sat_add USIZE_MAX acc
       (sat_mul USIZE_MAX (payload_bytes_for c r div TOKEN_ESTIMATE_DIVISOR) (completions_for c r))) 0 runs"

definition output_tokens :: "smoke_config \<Rightarrow> run_id list \<Rightarrow> nat" where
  "output_tokens c runs =
     foldl (\<lambda>acc r. sat_add USIZE_MAX acc (sat_mul USIZE_MAX (output_cap_for r) (completions_for c r))) 0 runs"

definition announce_cost :: "smoke_config \<Rightarrow> bool \<Rightarrow> ustr" where
  "announce_cost c no_backend =
     (let runs = backend_runs_of no_backend
      in if runs = [] then
           asc ''preflight: no run in this partition reaches the backend, so nothing will be spent on it''
         else
           let inputs = input_tokens c runs; outputs = output_tokens c runs;
               default_cap = show_nat (cc_max_tokens completion_config_default);
               expected_secs = sum_list (map (\<lambda>r. as_secs (run_budget c r)) runs)
           in asc ''preflight: '' @ show_nat (length runs) @ asc '' backend run(s) about to start (''
              @ join (asc '', '') (map run_id_str runs) @ asc ''), spending ~'' @ show_nat inputs
              @ asc '' input tokens in total (bytes/4 per completion, '' @ show_nat (length (sc_seats c))
              @ asc '' completions per trio run and one per dialect run, a coarse bound, not a measurement) and up to ~''
              @ show_nat outputs @ asc '' output tokens (each completion'' @ QUOTE @ asc ''s cap: '' @ default_cap
              @ asc '' by default, '' @ show_nat DIALECT_PROBE_CAP
              @ asc '' for the dialect run whose cap the backend honours, and the default again for the one whose cap the measured backend discards), ~''
              @ show_nat (sat_add USIZE_MAX inputs outputs) @ asc '' tokens in all; expected time budget ~''
              @ show_nat expected_secs @ asc ''s in total'')"

record cost_ledger =
  cl_announced :: bool
  cl_measured :: "duration list"
  cl_backend_runs :: nat

definition ledger_new :: cost_ledger where
  "ledger_new = \<lparr> cl_announced = False, cl_measured = [], cl_backend_runs = 0 \<rparr>"

definition ledger_announce :: "smoke_config \<Rightarrow> bool \<Rightarrow> cost_ledger \<Rightarrow> ustr \<times> cost_ledger" where
  "ledger_announce c no_backend l =
     (announce_cost c no_backend,
      l\<lparr> cl_announced := True, cl_backend_runs := length (backend_runs_of no_backend) \<rparr>)"

text \<open>Work that takes \<open>elapsed\<close>.\<close>

definition ledger_measure :: "duration \<Rightarrow> cost_ledger \<Rightarrow> cost_ledger" where
  "ledger_measure elapsed l = l\<lparr> cl_measured := cl_measured l @ [elapsed] \<rparr>"

text \<open>A binary64 number with one digit after the point: the tenths nearest to its exact value.\<close>

definition show_tenths :: "f64 \<Rightarrow> ustr" where
  "show_tenths v =
     (case v of
        Fin x \<Rightarrow> let n = nat (round_half_even (10 * x)) in show_nat (n div 10) @ asc ''.'' @ show_nat (n mod 10)
      | _ \<Rightarrow> asc ''inf'')"

definition ledger_record :: "cost_ledger \<Rightarrow> (ustr, ustr) result" where
  "ledger_record l =
     (if \<not> cl_announced l then
        Err (asc ''the real cost cannot be recorded before the estimate was announced: R31 asks for the estimate FIRST, because after the spend it is a receipt and before it, it is a decision the operator can still make'')
      else if length (cl_measured l) \<noteq> cl_backend_runs l then
        Err (asc ''the real cost cannot be recorded from '' @ show_nat (length (cl_measured l))
          @ asc '' interval(s) for '' @ show_nat (cl_backend_runs l)
          @ asc '' announced backend run(s): the receipt bills one interval per run, so a different number means the call site measured something other than the runs ''
          @ EM_DASH
          @ asc '' one interval for all of them sweeps in whatever sits between, and an extra one bills work the estimate never announced'')
      else Ok (show_nat (cl_backend_runs l) @ asc '' backend run(s) in ''
        @ show_tenths (as_secs_f64 (sum_list (cl_measured l))) @ asc ''s''))"

section \<open>Stale directories\<close>

definition parse_u32 :: "ustr \<Rightarrow> nat option" where
  "parse_u32 s = (case parse_u64 s of Some n \<Rightarrow> if n \<le> U32_MAX then Some n else None | None \<Rightarrow> None)"

definition TEMP_PREFIX :: ustr where "TEMP_PREFIX = asc ''magi-smoke-''"

text \<open>The process a directory of this harness belongs to, read off its name.\<close>

definition owner_of :: "ustr \<Rightarrow> nat option" where
  "owner_of name =
     Option.bind (str_strip_prefix name TEMP_PREFIX) (\<lambda>rest.
     Option.bind (split_once rest (asc ''-'')) (\<lambda>(p, _). parse_u32 p))"

definition stale :: "(nat \<Rightarrow> bool) \<Rightarrow> fs_entry \<Rightarrow> bool" where
  "stale alive entry \<longleftrightarrow>
     (case entry of
        Ok (UnicodeName name, _) \<Rightarrow> (case owner_of name of Some p \<Rightarrow> \<not> alive p | None \<Rightarrow> False)
      | _ \<Rightarrow> False)"

text \<open>The directories the sweep tries to remove.\<close>

definition sweep_stale_temps :: "(nat \<Rightarrow> bool) \<Rightarrow> ustr \<Rightarrow> fs_listing \<Rightarrow> ustr list" where
  "sweep_stale_temps alive base listing =
     (case listing of
        Err _ \<Rightarrow> []
      | Ok entries \<Rightarrow>
          concat (map (\<lambda>e. case e of
            Ok (name, _) \<Rightarrow> if stale alive e then [entry_path base name] else []
          | Err _ \<Rightarrow> []) entries))"

section \<open>The preflight\<close>

record announcement =
  an_proxy :: spy_proxy
  an_cost :: ustr
  an_ledger :: cost_ledger
  an_fixtures :: fixture_summary

definition check_fixtures ::
  "rust_fmt \<Rightarrow> toml_lib \<Rightarrow> preflight_env \<Rightarrow> ustr \<Rightarrow> ustr list \<Rightarrow> (fixture_summary, ustr) result" where
  "check_fixtures F L E dir live =
     and_then (manifest_load L (pv_reader E) dir) (\<lambda>m.
       let audit = manifest_verify F (pv_sha E) (pv_reader E) (pv_fixtures E) dir live m
       in if \<not> audit_is_clean audit then
            Err (asc ''fixture corpus: '' @ show_nat (length (fa_missing audit)) @ asc '' missing, ''
              @ show_nat (length (fa_orphans audit)) @ asc '' orphaned, ''
              @ show_nat (length (fa_corrupt audit)) @ asc '' corrupt'' @ [LF] @ pv_audit_pretty E audit)
          else Ok (audit_summary audit))"

text \<open>The two steps that need a live backend, with the windows they spent.\<close>

definition check_backend ::
  "rust_fmt \<Rightarrow> 'v json_lib \<Rightarrow> preflight_env \<Rightarrow> smoke_config \<Rightarrow> (unit, preflight_error) result \<times> duration list" where
  "check_backend F J E c =
     (let window = probe_timeout c
      in case cannot_test_at StBackend
           (and_then (backend_reachable J E (sc_endpoint c) window) (check_seat_models F c)) of
           Err e \<Rightarrow> (Err e, [window])
         | Ok _ \<Rightarrow>
             let (r, ws) = probe F J E c window in (cannot_test_at StProbe r, window # ws))"

definition preflight_run ::
  "rust_fmt \<Rightarrow> toml_lib \<Rightarrow> 'v json_lib \<Rightarrow> preflight_env \<Rightarrow> ustr \<Rightarrow> smoke_config \<Rightarrow> ustr list \<Rightarrow> bool \<Rightarrow> bool
     \<Rightarrow> (announcement, preflight_error) result \<times> duration list" where
  "preflight_run F L J E manifest_dir c live break_proxy no_backend =
     (case and_then (cannot_test_at StConfig (check_seats F c)) (\<lambda>_.
           and_then (cannot_test_at StFixtures (check_fixtures F L E (fixture_dir manifest_dir) live)) (\<lambda>summary.
           and_then (cannot_test_at StWorkspace (check_workspace_isolation J E (smoke_dir manifest_dir))) (\<lambda>_.
           and_then (cannot_test_at StLock (check_lock_is_tracked E)) (\<lambda>_. Ok summary)))) of
        Err e \<Rightarrow> (Err e, [])
      | Ok summary \<Rightarrow>
          let (backend, ws) = (if no_backend then (Ok (), []) else check_backend F J E c)
          in (and_then backend (\<lambda>_.
              and_then (raise_proxy E c break_proxy) (\<lambda>p.
                let (cost, ledger) = ledger_announce c no_backend ledger_new
                in Ok \<lparr> an_proxy = p, an_cost = cost, an_ledger = ledger, an_fixtures = summary \<rparr>)), ws))"

section \<open>The trio the harness accepts\<close>

lemma duplicate_agent_None:
  "first_duplicate seen kvs = None \<longleftrightarrow>
     distinct (map fst kvs) \<and> set (map fst kvs) \<inter> fst ` set seen = {}"
proof (induction kvs arbitrary: seen)
  case (Cons kv rest)
  obtain k v where kv: "kv = (k, v)" by (cases kv)
  show ?case
  proof (cases "map_of seen k")
    case None
    then have "k \<notin> fst ` set seen" by (simp add: map_of_eq_None_iff)
    with None show ?thesis by (auto simp: kv Cons.IH)
  next
    case (Some first)
    then have "k \<in> fst ` set seen" by (metis map_of_eq_None_iff option.distinct(1))
    with Some show ?thesis by (auto simp: kv)
  qed
qed simp

lemma no_duplicate_iff: "no_duplicate msg kvs = Ok () \<longleftrightarrow> distinct (map fst kvs)"
  using duplicate_agent_None [of "[]" kvs] by (auto simp: no_duplicate_def split: option.splits)

lemma agents_once_iff:
  "agents_once F seen ss = Ok () \<longleftrightarrow>
     (\<exists>names. map (seat_agent_name F) ss = map Ok names \<and> distinct names \<and> set names \<inter> set seen = {})"
proof (induction ss arbitrary: seen)
  case (Cons s ss)
  show ?case
  proof (cases "seat_agent_name F s")
    case name: (Ok name)
    have "agents_once F seen (s # ss) = Ok () \<longleftrightarrow> name \<notin> set seen \<and>
        (\<exists>names. map (seat_agent_name F) ss = map Ok names \<and> distinct names \<and> set names \<inter> set (name # seen) = {})"
      by (simp add: name Cons.IH)
    also have "\<dots> \<longleftrightarrow> (\<exists>names. map (seat_agent_name F) (s # ss) = map Ok names \<and> distinct names \<and> set names \<inter> set seen = {})"
    proof (intro iffI; elim conjE exE)
      fix names
      assume "name \<notin> set seen" "map (seat_agent_name F) ss = map Ok names" "distinct names"
        "set names \<inter> set (name # seen) = {}"
      then show "\<exists>names. map (seat_agent_name F) (s # ss) = map Ok names \<and> distinct names \<and> set names \<inter> set seen = {}"
        by (intro exI [of _ "name # names"]) (auto simp: name)
    next
      fix names
      assume "map (seat_agent_name F) (s # ss) = map Ok names" "distinct names" "set names \<inter> set seen = {}"
      then show "name \<notin> set seen \<and>
        (\<exists>names. map (seat_agent_name F) ss = map Ok names \<and> distinct names \<and> set names \<inter> set (name # seen) = {})"
        by (cases names) (auto simp: name)
    qed
    finally show ?thesis .
  next
    case (Err e)
    then show ?thesis by (auto simp: Cons_eq_map_conv)
  qed
qed simp

lemma agent_name_UNIV: "(UNIV :: agent_name set) = {Melchior, Balthasar, Caspar}"
  by (auto intro: agent_name.exhaust)

lemma three_names:
  assumes "length (names :: agent_name list) = 3"
  shows "distinct names \<longleftrightarrow> set names = UNIV"
proof
  assume d: "distinct names"
  have "card (set names) = card (UNIV :: agent_name set)"
    using d assms by (simp add: distinct_card agent_name_UNIV)
  moreover have "finite (UNIV :: agent_name set)" by (simp add: agent_name_UNIV)
  ultimately show "set names = UNIV" by (intro card_subset_eq) simp_all
next
  assume "set names = UNIV"
  then show "distinct names"
    by (intro card_distinct) (simp add: assms agent_name_UNIV)
qed

lemma find_absent:
  "(case find P xs of None \<Rightarrow> Ok () | Some s \<Rightarrow> Err (g s)) = Ok () \<longleftrightarrow> (\<forall>x\<in>set xs. \<not> P x)"
  by (simp add: find_None_iff_all [symmetric] split: option.splits)

lemma check_seats_iff:
  "check_seats F c = Ok () \<longleftrightarrow>
     length (sc_seats c) = 3 \<and> 2 \<le> length (sc_fallbacks c)
     \<and> distinct (map ss_lineage (sc_seats c) @ map sf_lineage (sc_fallbacks c))
     \<and> distinct (map ss_model (sc_seats c) @ map sf_model (sc_fallbacks c))
     \<and> (\<exists>names. map (seat_agent_name F) (sc_seats c) = map Ok names \<and> distinct names)"
proof (cases "length (sc_seats c) = 3 \<and> 2 \<le> length (sc_fallbacks c)")
  case True
  then have "check_seats F c = Ok () \<longleftrightarrow>
     (\<forall>f\<in>set (sc_fallbacks c). \<forall>s\<in>set (sc_seats c). ss_lineage s \<noteq> sf_lineage f)
     \<and> distinct (map sf_lineage (sc_fallbacks c)) \<and> distinct (map ss_lineage (sc_seats c))
     \<and> distinct (map ss_model (sc_seats c))
     \<and> (\<forall>f\<in>set (sc_fallbacks c). \<forall>s\<in>set (sc_seats c). ss_model s \<noteq> sf_model f)
     \<and> distinct (map sf_model (sc_fallbacks c))
     \<and> (\<exists>names. map (seat_agent_name F) (sc_seats c) = map Ok names \<and> distinct names)"
    by (auto simp: check_seats_def Let_def REQUIRED_SEATS_def BLIP_SEATS_def and_then_Ok_iff check_all_Ok_iff
        no_duplicate_iff agents_once_iff comp_def find_absent list_ex_iff simp del: asc_Cons)
  with True show ?thesis by auto
next
  case False
  then show ?thesis
    by (auto simp: check_seats_def Let_def REQUIRED_SEATS_def BLIP_SEATS_def simp del: asc_Cons)
qed

text \<open>The preflight accepts exactly the configurations the scenarios are written for: three seats
  that are the three mages, at least two rotation candidates, and no lineage and no model name
  declared twice among seats and candidates.\<close>

theorem preflight_seats_exact:
  "check_seats F c = Ok () \<longleftrightarrow>
     length (sc_seats c) = 3 \<and> 2 \<le> length (sc_fallbacks c)
     \<and> distinct (map ss_lineage (sc_seats c) @ map sf_lineage (sc_fallbacks c))
     \<and> distinct (map ss_model (sc_seats c) @ map sf_model (sc_fallbacks c))
     \<and> (\<exists>names. map (seat_agent_name F) (sc_seats c) = map Ok names \<and> set names = UNIV)"
  unfolding check_seats_iff using three_names by (metis length_map)

text \<open>The comparison is on the text of the file. The crate reads a lineage trimmed, so two seats may
  pass the check and share a lineage all the same.\<close>

definition twin_lineages :: smoke_config where
  "twin_lineages = default_config\<lparr> sc_seats :=
     [\<lparr> ss_agent = asc ''melchior'', ss_model = asc ''a'', ss_lineage = asc ''x'', ss_supports_reasoning_control = True \<rparr>,
      \<lparr> ss_agent = asc ''balthasar'', ss_model = asc ''b'', ss_lineage = asc ''x '', ss_supports_reasoning_control = True \<rparr>,
      \<lparr> ss_agent = asc ''caspar'', ss_model = asc ''c'', ss_lineage = asc ''y'', ss_supports_reasoning_control = True \<rparr>] \<rparr>"

lemma seats_twins_accepted:
  "check_seats F twin_lineages = Ok ()
     \<and> seat_lineage (sc_seats twin_lineages ! 0) = seat_lineage (sc_seats twin_lineages ! 1)"
proof
  show "check_seats F twin_lineages = Ok ()"
    unfolding check_seats_iff twin_lineages_def
    by (simp add: default_config_def default_fallbacks_def seat_agent_name_def)
       (rule exI [of _ "[Melchior, Balthasar, Caspar]"], simp)
  show "seat_lineage (sc_seats twin_lineages ! 0) = seat_lineage (sc_seats twin_lineages ! 1)"
    by (simp add: twin_lineages_def seat_lineage_def lineage_new_def trim_def trim_start_def trim_end_def is_ws_def)
qed

section \<open>The windows the preflight spends\<close>

lemma probe_windows: "sum_list (snd (probe F J E c window)) \<le> 4 * window"
  by (auto simp: probe_def Let_def PROBE_RETRY_FACTOR_def split: result.splits probe_outcome.splits)

lemma backend_windows: "sum_list (snd (check_backend F J E c)) \<le> 5 * probe_timeout c"
  using probe_windows [of F J E c "probe_timeout c"]
  by (auto simp: check_backend_def Let_def split: result.splits prod.splits)

text \<open>C26: Under a configuration that was accepted, everything the preflight may wait for the backend,
  every retry included, fits in the budget of each run it protects.\<close>

theorem preflight_fits_every_run:
  assumes "config_validate F c = Ok ()" and "uses_backend run"
  shows "sum_list (snd (preflight_run F L J E dir c live break_proxy no_backend)) \<le> run_budget c run"
proof -
  have "sum_list (snd (preflight_run F L J E dir c live break_proxy no_backend)) \<le> 5 * probe_timeout c"
    using backend_windows [of F J E c] by (auto simp: preflight_run_def Let_def split: result.splits prod.splits)
  moreover have "5 * sc_probe_timeout_secs c \<le> shortest_backend_run (sc_budgets c)"
    using assms(1) by (simp add: config_window_fits)
  then have "5 * sc_probe_timeout_secs c \<le> budget_secs (sc_budgets c) run"
    using assms(2) by (cases run) (auto simp: shortest_backend_run_def)
  then have "5 * probe_timeout c \<le> run_budget c run"
    by (simp add: probe_timeout_def run_budget_def secs_def NANOS_def)
  ultimately show ?thesis by simp
qed

section \<open>The first step that fails\<close>

text \<open>Whether each step passes, on its own.\<close>

definition backend_passes :: "rust_fmt \<Rightarrow> 'v json_lib \<Rightarrow> preflight_env \<Rightarrow> smoke_config \<Rightarrow> bool" where
  "backend_passes F J E c \<longleftrightarrow>
     (case backend_reachable J E (sc_endpoint c) (probe_timeout c) of
        Ok listed \<Rightarrow> is_ok (check_seat_models F c listed)
      | Err _ \<Rightarrow> False)"

definition probe_passes :: "'v json_lib \<Rightarrow> preflight_env \<Rightarrow> smoke_config \<Rightarrow> bool" where
  "probe_passes J E c \<longleftrightarrow>
     (let t = probe_timeout c
      in try_once J E 0 c t = Ok Served
         \<or> \<not> is_ok (try_once J E 0 c t) \<and> try_once J E 1 c (3 * t) = Ok Served)"

definition step_passes ::
  "rust_fmt \<Rightarrow> toml_lib \<Rightarrow> 'v json_lib \<Rightarrow> preflight_env \<Rightarrow> ustr \<Rightarrow> smoke_config \<Rightarrow> ustr list \<Rightarrow> bool \<Rightarrow> bool
     \<Rightarrow> stage \<Rightarrow> bool" where
  "step_passes F L J E dir c live break_proxy no_backend st \<longleftrightarrow>
     (case st of
        StConfig \<Rightarrow> is_ok (check_seats F c)
      | StFixtures \<Rightarrow> is_ok (check_fixtures F L E (fixture_dir dir) live)
      | StWorkspace \<Rightarrow> is_ok (check_workspace_isolation J E (smoke_dir dir))
      | StLock \<Rightarrow> pv_lock_listed E = Ok True
      | StBackend \<Rightarrow> no_backend \<or> backend_passes F J E c
      | StProbe \<Rightarrow> no_backend \<or> probe_passes J E c
      | StProxy \<Rightarrow> \<not> break_proxy \<and> is_ok (pv_bind E) \<and> is_ok (pv_client E (longest_backend_budget c)))"

definition STAGES :: "stage list" where
  "STAGES = [StConfig, StFixtures, StWorkspace, StLock, StBackend, StProbe, StProxy]"

lemma cannot_test_at_cases:
  "cannot_test_at st r = (case r of Ok x \<Rightarrow> Ok x | Err m \<Rightarrow> Err \<lparr> pfe_stage = st, pfe_msg = m \<rparr>)"
  by (cases r) (simp_all add: cannot_test_at_def)

lemma probe_ok_iff: "is_ok (fst (probe F J E c (probe_timeout c))) \<longleftrightarrow> probe_passes J E c"
  by (auto simp: probe_def probe_passes_def Let_def PROBE_RETRY_FACTOR_def mult.commute
      split: result.splits probe_outcome.splits)

lemma lock_ok_iff: "is_ok (check_lock_is_tracked E) \<longleftrightarrow> pv_lock_listed E = Ok True"
  by (cases "pv_lock_listed E") (auto simp: check_lock_is_tracked_def)

lemma raise_proxy_cases:
  "raise_proxy E c b =
     (if \<not> b \<and> is_ok (pv_bind E) \<and> is_ok (pv_client E (longest_backend_budget c))
      then Ok (proxy_start (get_ok (pv_bind E)) (sc_payload_target_bytes c))
      else Err \<lparr> pfe_stage = StProxy, pfe_msg = pfe_msg (get_err (raise_proxy E c b)) \<rparr>)"
  by (cases "pv_bind E"; cases "pv_client E (longest_backend_budget c)")
     (auto simp: raise_proxy_def cannot_test_at_def)

lemma check_backend_stage:
  "(case fst (check_backend F J E c) of Ok _ \<Rightarrow> None | Err e \<Rightarrow> Some (pfe_stage e))
     = (if \<not> backend_passes F J E c then Some StBackend
        else if \<not> probe_passes J E c then Some StProbe else None)"
proof (cases "backend_reachable J E (sc_endpoint c) (probe_timeout c)")
  case (Ok listed)
  show ?thesis
  proof (cases "check_seat_models F c listed")
    case (Ok u)
    with \<open>backend_reachable J E (sc_endpoint c) (probe_timeout c) = Ok listed\<close> show ?thesis
      using probe_ok_iff [of F J E c]
      by (cases "probe F J E c (probe_timeout c)"; cases "fst (probe F J E c (probe_timeout c))")
         (auto simp: check_backend_def backend_passes_def cannot_test_at_def)
  next
    case (Err e)
    with Ok show ?thesis by (simp add: check_backend_def backend_passes_def cannot_test_at_def Let_def)
  qed
next
  case (Err e)
  then show ?thesis by (simp add: check_backend_def backend_passes_def cannot_test_at_def Let_def)
qed

text \<open>C23: The preflight reports the first of its steps that does not pass, in the announced order; it
  succeeds exactly when all of them pass; and the two steps that need a backend are left out
  exactly in the partition that has none.\<close>

theorem preflight_first_failure:
  "(case fst (preflight_run F L J E dir c live break_proxy no_backend) of
      Ok _ \<Rightarrow> None | Err e \<Rightarrow> Some (pfe_stage e))
     = find (\<lambda>st. \<not> step_passes F L J E dir c live break_proxy no_backend st) STAGES"
proof (cases "is_ok (check_seats F c) \<and> is_ok (check_fixtures F L E (fixture_dir dir) live)
    \<and> is_ok (check_workspace_isolation J E (smoke_dir dir)) \<and> is_ok (check_lock_is_tracked E)")
  case True
  then obtain u1 u2 u3 u4 where ok: "check_seats F c = Ok u1"
      "check_fixtures F L E (fixture_dir dir) live = Ok u2"
      "check_workspace_isolation J E (smoke_dir dir) = Ok u3" "check_lock_is_tracked E = Ok u4"
    by (auto simp: is_ok_iff)
  from ok(4) lock_ok_iff [of E] have lock: "pv_lock_listed E = Ok True" by simp
  let ?b = "if no_backend then (Ok (), []) else check_backend F J E c"
  have b: "(case fst ?b of Ok _ \<Rightarrow> None | Err e \<Rightarrow> Some (pfe_stage e))
     = (if \<not> (no_backend \<or> backend_passes F J E c) then Some StBackend
        else if \<not> (no_backend \<or> probe_passes J E c) then Some StProbe else None)"
    using check_backend_stage [of F J E c] by auto
  have "(case fst (preflight_run F L J E dir c live break_proxy no_backend) of
      Ok _ \<Rightarrow> None | Err e \<Rightarrow> Some (pfe_stage e))
     = (case fst ?b of Err e \<Rightarrow> Some (pfe_stage e)
        | Ok _ \<Rightarrow> (case raise_proxy E c break_proxy of Ok _ \<Rightarrow> None | Err e \<Rightarrow> Some (pfe_stage e)))"
    by (auto simp: preflight_run_def ok cannot_test_at_def ledger_announce_def Let_def
        split: result.splits prod.splits)
  also have "\<dots> = find (\<lambda>st. \<not> step_passes F L J E dir c live break_proxy no_backend st) STAGES"
    using b by (subst raise_proxy_cases)
      (auto simp: STAGES_def step_passes_def ok lock split: result.splits if_splits)
  finally show ?thesis .
next
  case False
  then show ?thesis
    by (auto simp: preflight_run_def cannot_test_at_cases STAGES_def step_passes_def lock_ok_iff [symmetric]
        split: result.splits)
qed


theorem preflight_fits_every_run_witness:
  "\<forall>F L (J :: unit json_lib) E dir live b nb.
     sum_list (snd (preflight_run F L J E dir default_config live b nb)) \<le> run_budget default_config HappySmall"
  by (intro allI preflight_fits_every_run) (simp_all add: default_config_valid)

section \<open>Stale directories\<close>

lemma sweep_exact:
  "p \<in> set (sweep_stale_temps alive base (Ok entries)) \<longleftrightarrow>
     (\<exists>name node pid. Ok (UnicodeName name, node) \<in> set entries \<and> p = path_join base name
        \<and> owner_of name = Some pid \<and> \<not> alive pid)"
proof -
  have "stale alive e \<longleftrightarrow> (\<exists>name node pid. e = Ok (UnicodeName name, node) \<and> owner_of name = Some pid \<and> \<not> alive pid)"
    for e
    by (cases e; cases "fst (get_ok e)"; cases "owner_of (name_lossy (fst (get_ok e)))")
       (auto simp: stale_def split: prod.splits)
  then have "stale alive (Ok (n, nd)) \<longleftrightarrow>
      (\<exists>name pid. n = UnicodeName name \<and> owner_of name = Some pid \<and> \<not> alive pid)" for n nd
    by simp
  note st = this
  have "p \<in> set (sweep_stale_temps alive base (Ok entries)) \<longleftrightarrow>
      (\<exists>n nd. Ok (n, nd) \<in> set entries \<and> stale alive (Ok (n, nd)) \<and> p = entry_path base n)"
    by (force simp: sweep_stale_temps_def split: result.splits if_splits)
  then show ?thesis unfolding st by (auto simp: entry_path_def; blast)
qed

text \<open>The directories the harness means to keep between sessions have no owner, so no sweep takes
  them.\<close>

lemma kept_directories: "owner_of FEATURE_MATRIX_DIR = None" "owner_of (asc ''magi-smoke-metadata'') = None"
  by (simp_all add: owner_of_def FEATURE_MATRIX_DIR_def TEMP_PREFIX_def str_strip_prefix_def split_once_def
      parse_u32_def parse_u64_def is_ascii_digit_def)

end
