(* ===== verification/Smoke_Report.thy ===== *)
theory Smoke_Report
  imports Smoke_Preflight
begin

text \<open>
  \<open>smoke/src/report.rs\<close> and \<open>git.rs\<close>: the rows of a session, their rendering, the exit code, and the
  release certificate: when it is due, what it says, and how it is written and verified against
  the working tree. The answers of git and of the file system are arguments; the certificate
  file is explicit state, its text or its absence.
\<close>

section \<open>Rows and reports\<close>

datatype cycle_run = FirstCycle | SecondCycle

record assertion_row =
  rw_scenario_id :: ustr
  rw_scenario :: ustr
  rw_run_id :: "run_id option"
  rw_state :: scenario_state
  rw_budget_exceeded :: "duration option"

record report =
  rp_rows :: "assertion_row list"
  rp_run :: cycle_run

definition PASS_MARKER :: ustr where "PASS_MARKER = asc ''PASS''"
definition FAIL_MARKER :: ustr where "FAIL_MARKER = asc ''FAIL''"
definition TIMEOUT_MARKER :: ustr where "TIMEOUT_MARKER = asc ''TIMEOUT''"
definition SKIP_MARKER :: ustr where "SKIP_MARKER = asc ''SKIP''"
definition OUT_OF_SCOPE_MARKER :: ustr where "OUT_OF_SCOPE_MARKER = asc ''OUT_OF_SCOPE''"
definition OBSERVED_MARKER :: ustr where "OBSERVED_MARKER = asc ''OBSERVED''"

fun state_marker :: "scenario_state \<Rightarrow> ustr" where
  "state_marker Pass = PASS_MARKER"
| "state_marker Fail = FAIL_MARKER"
| "state_marker TimeoutState = TIMEOUT_MARKER"
| "state_marker (Skip _) = SKIP_MARKER"
| "state_marker OutOfScope = OUT_OF_SCOPE_MARKER"
| "state_marker (Observed _) = OBSERVED_MARKER"

definition NO_RUN :: "run_id option" where "NO_RUN = None"

definition run_label :: "run_id option \<Rightarrow> ustr" where
  "run_label run = (case run of Some r \<Rightarrow> run_id_str r | None \<Rightarrow> asc ''(no run)'')"

fun cycle_run_label :: "cycle_run \<Rightarrow> ustr" where
  "cycle_run_label FirstCycle = asc ''first''"
| "cycle_run_label SecondCycle = asc ''second''"

definition format_row :: "assertion_row \<Rightarrow> ustr" where
  "format_row row =
     asc ''['' @ state_marker (rw_state row) @ asc ''] '' @ rw_scenario_id row @ asc '' run=''
     @ run_label (rw_run_id row) @ [SPC] @ EM_DASH @ [SPC] @ rw_scenario row
     @ (case rw_state row of
          Skip reason \<Rightarrow> asc '' (skipped: '' @ reason @ asc '')''
        | Observed reading \<Rightarrow> asc '' (observed: '' @ reading @ asc '')''
        | _ \<Rightarrow> [])
     @ (case rw_budget_exceeded row of
          Some over \<Rightarrow> asc '' (exceeded its '' @ show_tenths (as_secs_f64 over) @ asc ''s budget)''
        | None \<Rightarrow> [])"

definition render_human :: "report \<Rightarrow> ustr" where
  "render_human r =
     asc ''magi-smoke report '' @ EM_DASH @ asc '' cycle run: '' @ cycle_run_label (rp_run r) @ [LF]
     @ concat (map (\<lambda>row. format_row row @ [LF]) (rp_rows r))"

text \<open>The JSON rendering up to its text: the fields of the document.\<close>

record row_json =
  rj_scenario_id :: ustr
  rj_scenario :: ustr
  rj_run_id :: ustr
  rj_state :: ustr
  rj_detail :: "ustr option"
  rj_budget_secs :: "f64 option"

fun state_json :: "scenario_state \<Rightarrow> ustr \<times> ustr option" where
  "state_json Pass = (asc ''pass'', None)"
| "state_json Fail = (asc ''fail'', None)"
| "state_json TimeoutState = (asc ''timeout'', None)"
| "state_json (Skip reason) = (asc ''skip'', Some reason)"
| "state_json OutOfScope = (asc ''out_of_scope'', None)"
| "state_json (Observed reading) = (asc ''observed'', Some reading)"

definition row_to_json :: "assertion_row \<Rightarrow> row_json" where
  "row_to_json row =
     (let (st, detail) = state_json (rw_state row)
      in \<lparr> rj_scenario_id = rw_scenario_id row, rj_scenario = rw_scenario row,
           rj_run_id = run_label (rw_run_id row), rj_state = st, rj_detail = detail,
           rj_budget_secs = map_option as_secs_f64 (rw_budget_exceeded row) \<rparr>)"

definition render_json :: "(ustr \<Rightarrow> row_json list \<Rightarrow> (ustr, ustr) result) \<Rightarrow> report \<Rightarrow> ustr" where
  "render_json pretty r =
     (case pretty (cycle_run_label (rp_run r)) (map row_to_json (rp_rows r)) of
        Ok t \<Rightarrow> t
      | Err e \<Rightarrow> asc ''{\"error\": \"failed to render JSON: '' @ e @ asc ''\"}'')"

definition rows_of :: "ustr \<Rightarrow> run_id option \<Rightarrow> assertion list \<Rightarrow> duration option \<Rightarrow> assertion_row list" where
  "rows_of scenario_id run assertions over =
     map (\<lambda>a. \<lparr> rw_scenario_id = scenario_id, rw_scenario = as_name a, rw_run_id = run, rw_state = as_state a,
       rw_budget_exceeded = (case as_state a of TimeoutState \<Rightarrow> over | _ \<Rightarrow> None) \<rparr>) assertions"

definition report_cannot_test :: "ustr \<Rightarrow> cycle_run \<Rightarrow> report" where
  "report_cannot_test reason run =
     \<lparr> rp_rows = [\<lparr> rw_scenario_id = asc ''preflight'', rw_scenario = asc ''the harness could not test'',
         rw_run_id = NO_RUN, rw_state = Skip reason, rw_budget_exceeded = None \<rparr>],
       rp_run = run \<rparr>"

definition report_states :: "report \<Rightarrow> scenario_state list" where
  "report_states r = map rw_state (rp_rows r)"

definition report_exit_code :: "report \<Rightarrow> nat" where
  "report_exit_code r = exit_code (report_states r)"

section \<open>The date of a certificate\<close>

definition EPOCH_YEAR :: nat where "EPOCH_YEAR = 1970"

definition MONTH_LENGTHS :: "nat list" where
  "MONTH_LENGTHS = [31, 28, 31, 30, 31, 30, 31, 31, 30, 31, 30, 31]"

definition is_leap :: "nat \<Rightarrow> bool" where
  "is_leap y \<longleftrightarrow> (4 dvd y \<and> \<not> 100 dvd y) \<or> 400 dvd y"

definition year_length :: "nat \<Rightarrow> nat" where
  "year_length y = (if is_leap y then 366 else 365)"

function year_loop :: "nat \<Rightarrow> nat \<Rightarrow> nat \<times> nat" where
  "year_loop days year =
     (if days < year_length year then (year, days)
      else year_loop (days - year_length year) (year + 1))"
  by pat_completeness auto

termination
  by (relation "measure fst") (auto simp: year_length_def split: if_splits)

fun month_loop :: "nat \<Rightarrow> nat list \<Rightarrow> nat \<Rightarrow> nat \<Rightarrow> nat \<Rightarrow> nat \<times> nat" where
  "month_loop year [] i days month = (month, days)"
| "month_loop year (l # ls) i days month =
     (let len = (if i = 1 \<and> is_leap year then 29 else l)
      in if days < len then (month, days)
         else month_loop year ls (i + 1) (days - len) (month + 1))"

definition date_of :: "nat \<Rightarrow> nat \<times> nat \<times> nat" where
  "date_of epoch_secs =
     (let (year, in_year) = year_loop (epoch_secs div 86400) EPOCH_YEAR;
          (month, in_month) = month_loop year MONTH_LENGTHS 0 in_year 1
      in (year, month, in_month + 1))"

definition pad_zeros :: "nat \<Rightarrow> nat \<Rightarrow> ustr" where
  "pad_zeros width n =
     replicate (width - length (show_nat n)) 48 @ show_nat n"

text \<open>An instant before the epoch (\<open>None\<close>) counts as the epoch.\<close>

definition iso_date_utc :: "duration option \<Rightarrow> ustr" where
  "iso_date_utc since_epoch =
     (let (y, m, d) = date_of (as_secs (case since_epoch of Some t \<Rightarrow> t | None \<Rightarrow> 0))
      in pad_zeros 4 y @ asc ''-'' @ pad_zeros 2 m @ asc ''-'' @ pad_zeros 2 d)"

section \<open>The certificate\<close>

record certificate_facts =
  cf_version :: "ustr option"
  cf_commit :: "ustr option"
  cf_date :: ustr
  cf_mode :: ustr
  cf_cost :: "ustr option"
  cf_round :: nat
  cf_invocation :: ustr
  cf_fixtures :: fixture_summary

definition certificate_refusal :: "report \<Rightarrow> certificate_facts \<Rightarrow> ustr option" where
  "certificate_refusal r facts =
     (if rp_run r \<noteq> SecondCycle then
        Some (asc ''this is not the certifying run (pass --smoke-2 for SMOKE #2)'')
      else if cf_version facts = None then
        Some (asc ''the magi-core version could not be resolved, so there is nothing to certify a run against'')
      else if cf_commit facts = None then
        Some (asc ''the commit could not be resolved, and a certificate is a claim about one specific commit'')
      else if cf_cost facts = None then
        Some (asc ''the ledger refused to produce a receipt, so the run'' @ QUOTE
          @ asc ''s real cost is unknown and the historical series this document exists for would gain an entry nothing measured'')
      else if \<not> list_ex (\<lambda>row. rw_state row = Pass) (rp_rows r) then
        Some (asc ''no scenario PASSED in this run, so there is no evidence to certify -- an                  empty or wholly unrun table cannot support the claim a certificate makes'')
      else if list_ex (\<lambda>row. rw_state row = TimeoutState) (rp_rows r) then
        Some (asc ''a scenario TIMED OUT, so its property was never established -- unlike a                  skip, which is a recorded decision, a timeout is an unknown'')
      else if list_ex (\<lambda>row. rw_state row = Fail) (rp_rows r) then
        Some (asc ''an assertion FAILED in this run, and a certificate is a claim that none did'')
      else None)"

definition large_payload_priority :: "run_id option \<Rightarrow> nat" where
  "large_payload_priority run = (if run = Some Large62k then 0 else 1)"

definition UNION_NOTE :: ustr where
  "UNION_NOTE = asc ''> NOTE: this certificate covers the ONE invocation named above. A green release is the      union of several '' @ EM_DASH
     @ asc '' the preflight stops at its first failure, so the scenarios that need      it to stop at different steps cannot share a command line.''"

definition LARGE_PAYLOAD_NOT_EXERCISED :: ustr where
  "LARGE_PAYLOAD_NOT_EXERCISED = asc ''> NOTE: the large payload class was **not exercised** by this run. No assertion below speaks to it.''"

definition invocation_or_bare :: "ustr \<Rightarrow> ustr" where
  "invocation_or_bare flags = (if trim flags = [] then asc ''cargo run (no flags)'' else flags)"

definition unresolved :: "ustr option \<Rightarrow> ustr" where
  "unresolved v = (case v of Some x \<Rightarrow> x | None \<Rightarrow> asc ''UNRESOLVED'')"

definition count_rows :: "(scenario_state \<Rightarrow> bool) \<Rightarrow> assertion_row list \<Rightarrow> nat" where
  "count_rows P rows = length (filter (\<lambda>row. P (rw_state row)) rows)"

fun is_observed :: "scenario_state \<Rightarrow> bool" where
  "is_observed (Observed _) = True"
| "is_observed _ = False"

definition certificate_rows :: "assertion_row list \<Rightarrow> assertion_row list" where
  "certificate_rows rows = sort_key (\<lambda>row. large_payload_priority (rw_run_id row)) rows"

definition certificate_lines :: "assertion_row list \<Rightarrow> certificate_facts \<Rightarrow> ustr list" where
  "certificate_lines rows facts =
     (let passed = count_rows (\<lambda>s. s = Pass) rows; seen = count_rows is_observed rows
      in [asc ''# Smoke Certificate'', [],
          asc ''- version: '' @ unresolved (cf_version facts),
          asc ''- commit: '' @ unresolved (cf_commit facts),
          asc ''- date: '' @ cf_date facts @ asc '' (UTC)'',
          asc ''- dependency mode: '' @ cf_mode facts,
          asc ''- real cost: '' @ unresolved (cf_cost facts),
          asc ''- rounds needed: '' @ show_nat (cf_round facts),
          asc ''- invocation: '' @ invocation_or_bare (cf_invocation facts),
          asc ''- '' @ report_line (cf_fixtures facts),
          asc ''- result: '' @ show_nat passed @ asc '' passed, '' @ show_nat seen @ asc '' observed, ''
            @ show_nat (length rows - passed - seen) @ asc '' not passed, '' @ show_nat (length rows)
            @ asc '' total'',
          [], UNION_NOTE]
         @ (case unverified_warning (cf_fixtures facts) of Some w \<Rightarrow> [[], w] | None \<Rightarrow> [])
         @ (if list_ex (\<lambda>row. rw_run_id row = Some Large62k) rows then [] else [LARGE_PAYLOAD_NOT_EXERCISED])
         @ [[]]
         @ map format_row (certificate_rows rows))"

definition certificate_text :: "assertion_row list \<Rightarrow> certificate_facts \<Rightarrow> ustr" where
  "certificate_text rows facts = concat (map (\<lambda>l. l @ [LF]) (certificate_lines rows facts))"

definition render_certificate :: "report \<Rightarrow> certificate_facts \<Rightarrow> ustr option" where
  "render_certificate r facts =
     (case certificate_refusal r facts of
        Some _ \<Rightarrow> None
      | None \<Rightarrow> Some (certificate_text (rp_rows r) facts))"

section \<open>Git\<close>

record git_output =
  go_success :: bool
  go_stdout :: "byte list"
  go_stderr :: "byte list"
  go_decode_error :: ustr

definition STATUS_ARGS :: "ustr list" where
  "STATUS_ARGS = [asc ''status'', asc ''--porcelain'', asc ''--untracked-files=all'']"

text \<open>\<open>go_decode_error\<close> is how the standard library describes output that is not UTF-8. \<open>git\<close> is what
  running git with these arguments in a directory gives.\<close>

type_synonym git = "ustr list \<Rightarrow> ustr \<Rightarrow> (git_output, ustr) result"

definition status_porcelain :: "git \<Rightarrow> ustr \<Rightarrow> (ustr, ustr) result" where
  "status_porcelain git dir =
     and_then (map_err (\<lambda>e. asc ''failed to run git status in '' @ dir @ asc '': '' @ e) (git STATUS_ARGS dir)) (\<lambda>out.
       if \<not> go_success out then
         Err (asc ''git status failed in '' @ dir @ asc '': '' @ from_utf8_lossy (go_stderr out))
       else case from_utf8 (go_stdout out) of
         Some s \<Rightarrow> Ok s
       | None \<Rightarrow> Err (asc ''git status output was not UTF-8: '' @ go_decode_error out))"

section \<open>Writing the certificate\<close>

definition CERT_PATH :: ustr where "CERT_PATH = asc ''docs/test/smoke-certificate.md''"

text \<open>What the surroundings answer while the certificate is written: git before and after, the
  directory, the write (and what a failed one leaves), the removal.\<close>

record cert_env =
  ce_git_before :: git
  ce_git_after :: git
  ce_mkdir :: "(unit, ustr) result"
  ce_write :: "(unit, ustr) result"
  ce_torn :: "ustr option"
  ce_remove :: "(unit, ustr) result"

definition foreign_line :: "ustr \<Rightarrow> bool" where
  "foreign_line l \<longleftrightarrow> \<not> ends_with (trim_end l) CERT_PATH"

text \<open>The certificate did not survive its verification: it is removed, or the message says it could
  not be.\<close>

definition discard :: "cert_env \<Rightarrow> ustr \<Rightarrow> ustr \<Rightarrow> (ustr \<Rightarrow> ustr) \<Rightarrow> (unit, ustr) result \<times> ustr option" where
  "discard E content removed kept =
     (case ce_remove E of Ok _ \<Rightarrow> (Err removed, None) | Err e \<Rightarrow> (Err (kept e), Some content))"

definition write_and_verify_certificate_in ::
  "cert_env \<Rightarrow> ustr \<Rightarrow> ustr \<Rightarrow> ustr option \<Rightarrow> (unit, ustr) result \<times> ustr option" where
  "write_and_verify_certificate_in E base content file =
     (case status_porcelain (ce_git_before E) base of
        Err e \<Rightarrow> (Err e, file)
      | Ok status \<Rightarrow>
          if trim status \<noteq> [] then
            (Err (asc ''refusing to write a certificate over uncommitted changes in '' @ base @ asc '': '' @ status), file)
          else
            let target = path_join base CERT_PATH
            in case ce_mkdir E of
                 Err e \<Rightarrow> (Err (asc ''could not create '' @ path_join base (asc ''docs/test'') @ asc '': '' @ e), file)
               | Ok _ \<Rightarrow>
                   (case ce_write E of
                      Err e \<Rightarrow> (Err (asc ''could not write '' @ target @ asc '': '' @ e), ce_torn E)
                    | Ok _ \<Rightarrow>
                        (case status_porcelain (ce_git_after E) base of
                           Err e \<Rightarrow>
                             discard E content
                               (asc ''the tree could not be re-read after writing, so the certificate was deleted rather than left claiming a version nothing verified: '' @ e)
                               (\<lambda>rm. asc ''the tree could not be re-read after writing ('' @ e
                                 @ asc ''), and the certificate could NOT be deleted either ('' @ rm
                                 @ asc ''): it is STILL ON DISK at '' @ target
                                 @ asc '' and must be removed by hand before anyone cites it'')
                         | Ok after \<Rightarrow>
                             if list_ex foreign_line (str_lines after) then
                               discard E content
                                 (asc ''the tree changed while the certificate was being written, so it was deleted rather than left claiming a version it may not describe: '' @ after)
                                 (\<lambda>rm. asc ''the tree changed while the certificate was being written, and it could NOT be removed (''
                                   @ rm @ asc ''), so '' @ target
                                   @ asc '' is STILL ON DISK and may claim a version it does not describe '' @ EM_DASH
                                   @ asc '' delete it by hand before citing it: '' @ after)
                             else (Ok (), Some content))))"

definition note_certificate_failure :: "ustr \<Rightarrow> report \<Rightarrow> report" where
  "note_certificate_failure reason r =
     r\<lparr> rp_rows := rp_rows r @
       [\<lparr> rw_scenario_id = asc ''certificate'', rw_scenario = asc ''the release certificate was written and verified'',
          rw_run_id = NO_RUN, rw_state = Skip reason, rw_budget_exceeded = None \<rparr>] \<rparr>"

definition write_certificate_in ::
  "cert_env \<Rightarrow> ustr \<Rightarrow> certificate_facts \<Rightarrow> report \<Rightarrow> ustr option \<Rightarrow> report \<times> ustr option" where
  "write_certificate_in E base facts r file =
     (case render_certificate r facts of
        None \<Rightarrow> (r, file)
      | Some txt \<Rightarrow>
          let (res, file') = write_and_verify_certificate_in E base txt file
          in case res of
               Ok _ \<Rightarrow> (r, file')
             | Err e \<Rightarrow> (note_certificate_failure e r, file'))"

section \<open>The calendar\<close>

declare year_loop.simps [simp del]

definition month_length :: "nat \<Rightarrow> nat \<Rightarrow> nat" where
  "month_length y m =
     (if m = 2 then (if is_leap y then 29 else 28) else if m \<in> {4, 6, 9, 11} then 30 else 31)"

definition valid_date :: "nat \<Rightarrow> nat \<Rightarrow> nat \<Rightarrow> bool" where
  "valid_date y m d \<longleftrightarrow> 1 \<le> m \<and> m \<le> 12 \<and> 1 \<le> d \<and> d \<le> month_length y m"

text \<open>Days before a year, by the rule of the Gregorian calendar, and before a month of a year.\<close>

definition year_start :: "nat \<Rightarrow> nat" where
  "year_start y = 365 * y + (y + 3) div 4 + (y + 399) div 400 - (y + 99) div 100"

definition month_start :: "nat \<Rightarrow> nat \<Rightarrow> nat" where
  "month_start y m = sum (month_length y) {1..<m}"

definition day_number :: "nat \<Rightarrow> nat \<Rightarrow> nat \<Rightarrow> nat" where
  "day_number y m d = year_start y + month_start y m + (d - 1)"

lemma ceil_div_Suc: "0 < k \<Longrightarrow> (Suc y + (k - 1)) div k = (y + (k - 1)) div k + (if k dvd y then 1 else 0)"
  for k y :: nat
proof -
  assume k: "0 < k"
  have "(Suc y + (k - 1)) div k = Suc (y div k)"
    using k by (simp add: div_add_self2 [symmetric])
  moreover have "(y + (k - 1)) div k = (if k dvd y then y div k else Suc (y div k))"
  proof (cases "k dvd y")
    case True
    then obtain q where "y = k * q" ..
    then have "(y + (k - 1)) div k = q + (k - 1) div k" using k by (simp only: div_mult_self4)
    also have "\<dots> = y div k" using k \<open>y = k * q\<close> by simp
    finally show ?thesis using True by simp
  next
    case False
    then have r: "1 \<le> y mod k" "y mod k < k" using k by (auto simp: dvd_eq_mod_eq_0)
    have "y + (k - 1) = Suc (y div k) * k + (y mod k - 1)"
      using r div_mult_mod_eq [of y k] by simp
    then have "(y + (k - 1)) div k = (Suc (y div k) * k + (y mod k - 1)) div k" by (rule arg_cong)
    also have "\<dots> = Suc (y div k) + (y mod k - 1) div k" using k by (subst div_mult_self3) simp_all
    also have "\<dots> = Suc (y div k)" using r by simp
    finally show ?thesis using False by simp
  qed
  ultimately show ?thesis by simp
qed

lemma year_start_Suc: "year_start (Suc y) = year_start y + year_length y"
proof -
  have le: "(y + 99) div 100 \<le> (y + 3) div 4"
    using div_le_mono [of "y + 99" "25 * (y + 3)" 100] div_mult2_eq [of "25 * (y + 3)" 25 4] by simp
  have s4: "(Suc y + 3) div 4 = (y + 3) div 4 + (if 4 dvd y then 1 else 0)"
    using ceil_div_Suc [of 4 y] by simp
  have s100: "(Suc y + 99) div 100 = (y + 99) div 100 + (if 100 dvd y then 1 else 0)"
    using ceil_div_Suc [of 100 y] by simp
  have s400: "(Suc y + 399) div 400 = (y + 399) div 400 + (if 400 dvd y then 1 else 0)"
    using ceil_div_Suc [of 400 y] by simp
  have d1: "400 dvd y \<Longrightarrow> 100 dvd y" by (rule dvd_trans [of 100 400 y]) simp_all
  have d2: "100 dvd y \<Longrightarrow> 4 dvd y" by (rule dvd_trans [of 4 100 y]) simp_all
  have flat: "365 * Suc y + (a + (if p4 then 1 else 0)) + (c + (if p400 then 1 else 0)) - (b + (if p100 then 1 else 0))
      = 365 * y + a + c - b + (if (p4 \<and> \<not> p100) \<or> p400 then 366 else 365)"
    if "b \<le> a" "p400 \<longrightarrow> p100" "p100 \<longrightarrow> p4" for a b c :: nat and p4 p100 p400
    using that by (cases p4; cases p100; cases p400) simp_all
  show ?thesis
    unfolding year_start_def year_length_def is_leap_def s4 s100 s400
    by (rule flat) (use le d1 d2 in blast)+
qed

lemma month_start_Suc: "1 \<le> m \<Longrightarrow> month_start y (Suc m) = month_start y m + month_length y m"
  by (simp add: month_start_def sum.atLeastLessThan_Suc)

text \<open>Consecutive blocks: a position lies in one of them only.\<close>

lemma block_unique:
  assumes step: "\<And>n. a \<le> n \<Longrightarrow> f (Suc n) = f n + len n" and "a \<le> m" "a \<le> n"
    and "f m \<le> N" "N < f m + len m" "f n \<le> N" "N < f n + (len n :: nat)"
  shows "m = n"
proof -
  have mono: "f i \<le> f j" if "a \<le> i" "i \<le> j" for i j
    using that(2,1) by (induction rule: dec_induct) (auto simp: step)
  have less: "\<not> i < j" if "a \<le> i" "N < f i + len i" "f j \<le> N" for i j
  proof
    assume "i < j"
    then have "f (Suc i) \<le> f j" using that by (intro mono) auto
    with that show False by (simp add: step)
  qed
  show ?thesis using less [of m n] less [of n m] assms(2-) by force
qed

lemma year_loop_exact:
  "year_loop days y = (y', d') \<Longrightarrow> y \<le> y' \<and> d' < year_length y' \<and> year_start y + days = year_start y' + d'"
proof (induction days y rule: year_loop.induct)
  case (1 days y)
  show ?case
  proof (cases "days < year_length y")
    case True
    with "1.prems" show ?thesis by (subst (asm) year_loop.simps) simp
  next
    case False
    with "1.prems" have "year_loop (days - year_length y) (y + 1) = (y', d')"
      by (subst (asm) year_loop.simps) simp
    from "1.IH" [OF False this] False show ?thesis by (simp add: year_start_Suc)
  qed
qed

lemma month_loop_exact:
  assumes "month_loop y ls i d (Suc i) = (m, d')"
    and "\<And>k. k < length ls \<Longrightarrow> (if i + k = 1 \<and> is_leap y then 29 else ls ! k) = month_length y (Suc (i + k))"
    and "month_start y (Suc i) + d < month_start y (Suc i + length ls)"
  shows "Suc i \<le> m \<and> m \<le> i + length ls \<and> d' < month_length y m
    \<and> month_start y (Suc i) + d = month_start y m + d'"
  using assms
proof (induction ls arbitrary: i d)
  case (Cons l ls)
  let ?len = "if i = 1 \<and> is_leap y then 29 else l"
  from Cons.prems(2) [of 0] have len: "?len = month_length y (Suc i)"
    by (simp only: length_Cons zero_less_Suc add_0_right nth_Cons_0)
  show ?case
  proof (cases "d < ?len")
    case True
    with Cons.prems(1) have "m = Suc i" "d' = d" by (auto simp: Let_def split: if_splits)
    with True len show ?thesis by simp
  next
    case False
    with Cons.prems(1) have r: "month_loop y ls (Suc i) (d - ?len) (Suc (Suc i)) = (m, d')"
      by (simp only: month_loop.simps Let_def if_False Suc_eq_plus1)
    have lens: "(if Suc i + k = 1 \<and> is_leap y then 29 else ls ! k) = month_length y (Suc (Suc i + k))"
      if "k < length ls" for k
      using Cons.prems(2) [of "Suc k"] that
      by (simp only: length_Cons Suc_less_eq nth_Cons_Suc add_Suc_right add_Suc)
    have st: "month_start y (Suc (Suc i)) = month_start y (Suc i) + ?len"
      unfolding len by (rule month_start_Suc) simp
    have "month_start y (Suc (Suc i)) + (d - ?len) < month_start y (Suc (Suc i) + length ls)"
      using Cons.prems(3) False unfolding st by simp
    from Cons.IH [OF r lens this] show ?thesis using False unfolding st by auto
  qed
qed simp

lemma month_lengths_exact:
  "k < length MONTH_LENGTHS \<Longrightarrow>
     (if k = 1 \<and> is_leap y then 29 else MONTH_LENGTHS ! k) = month_length y (Suc k)"
  by (simp add: MONTH_LENGTHS_def less_Suc_eq numeral_2_eq_2) (elim disjE; simp add: month_length_def)

lemma months_fill_year: "month_start y 13 = year_length y"
  by (simp add: month_start_def month_length_def year_length_def atLeastLessThan_nat_numeral)


lemma month_start_mono: "1 \<le> a \<Longrightarrow> a \<le> b \<Longrightarrow> month_start y a \<le> month_start y b"
proof (induction b)
  case (Suc b)
  then show ?case by (cases "a = Suc b") (simp_all add: month_start_Suc)
qed simp

lemma date_of_valid:
  assumes "date_of s = (y, m, d)"
  shows "1970 \<le> y \<and> valid_date y m d \<and> day_number y m d = day_number 1970 1 1 + s div 86400"
proof -
  obtain y' r where yl: "year_loop (s div 86400) EPOCH_YEAR = (y', r)" by (cases "year_loop (s div 86400) EPOCH_YEAR")
  obtain m' r' where ml: "month_loop y' MONTH_LENGTHS 0 r 1 = (m', r')" by (cases "month_loop y' MONTH_LENGTHS 0 r 1")
  have eqs: "y = y'" "m = m'" "d = r' + 1" using assms ml by (simp_all add: date_of_def yl)
  from year_loop_exact [OF yl] have Y: "1970 \<le> y'" "r < year_length y'" "year_start 1970 + s div 86400 = year_start y' + r"
    by (simp_all add: EPOCH_YEAR_def)
  have len: "length MONTH_LENGTHS = 12" by (simp add: MONTH_LENGTHS_def)
  have z: "month_start y' (Suc 0) = 0" for y' by (simp add: month_start_def)
  have "Suc 0 \<le> m' \<and> m' \<le> 0 + length MONTH_LENGTHS \<and> r' < month_length y' m'
      \<and> month_start y' (Suc 0) + r = month_start y' m' + r'"
  proof (rule month_loop_exact [where i = 0])
    show "month_loop y' MONTH_LENGTHS 0 r (Suc 0) = (m', r')" using ml by simp
    show "(if 0 + k = 1 \<and> is_leap y' then 29 else MONTH_LENGTHS ! k) = month_length y' (Suc (0 + k))"
      if "k < length MONTH_LENGTHS" for k
      using month_lengths_exact [OF that] by simp
    show "month_start y' (Suc 0) + r < month_start y' (Suc 0 + length MONTH_LENGTHS)"
      using Y(2) months_fill_year [of y'] by (simp add: len z)
  qed
  with Y show ?thesis by (auto simp: eqs len z valid_date_def day_number_def)
qed

lemma day_number_unique:
  assumes "valid_date y m d" "valid_date y' m' d'" "day_number y m d = day_number y' m' d'"
  shows "y = y' \<and> m = m' \<and> d = d'"
proof -
  define N where "N = day_number y m d"
  have block: "year_start a \<le> N \<and> N < year_start a + year_length a
      \<and> month_start a b \<le> N - year_start a \<and> N - year_start a < month_start a b + month_length a b
      \<and> c = N - year_start a - month_start a b + 1"
    if v: "valid_date a b c" "N = day_number a b c" for a b c
  proof -
    have "month_start a b + month_length a b \<le> month_start a 13"
      using v month_start_Suc [of b a] month_start_mono [of "Suc b" 13 a] by (auto simp: valid_date_def)
    with v months_fill_year [of a] show ?thesis by (auto simp: valid_date_def day_number_def)
  qed
  note b1 = block [OF assms(1) N_def] and b2 = block [OF assms(2), of, OF N_def [unfolded assms(3)]]
  have y: "y = y'"
    by (rule block_unique [where f = year_start and len = year_length and a = 0 and N = N])
       (use b1 b2 in \<open>auto simp: year_start_Suc\<close>)
  have m: "m = m'"
    by (rule block_unique [where f = "month_start y" and len = "month_length y" and a = 1 and N = "N - year_start y"])
       (use b1 b2 assms(1,2) in \<open>auto simp: month_start_Suc valid_date_def y\<close>)
  from b1 b2 show ?thesis by (simp add: y m)
qed

text \<open>The date printed on a certificate is the date of the Gregorian calendar: the one valid date
  whose number of days since 1 January 1970 is that of the instant.\<close>

theorem certificate_date_exact:
  "date_of s = (y, m, d) \<longleftrightarrow>
     1970 \<le> y \<and> valid_date y m d \<and> day_number y m d = day_number 1970 1 1 + s div 86400"
proof -
  obtain y' m' d' where e: "date_of s = (y', m', d')" by (cases "date_of s")
  from date_of_valid [OF e] day_number_unique [of y' m' d' y m d] show ?thesis
    unfolding e by auto
qed

lemma year_loop_bound: "365 * (fst (year_loop days y) - y) \<le> days"
proof (induction days y rule: year_loop.induct)
  case (1 days y)
  show ?case
  proof (cases "days < year_length y")
    case True
    then show ?thesis by (simp add: year_loop.simps)
  next
    case False
    from "1.IH" [OF False] False year_loop_exact [of "days - year_length y" "y + 1"]
    have "365 * (fst (year_loop (days - year_length y) (y + 1)) - y) \<le> days"
      by (cases "year_loop (days - year_length y) (y + 1)") (auto simp: year_length_def split: if_splits)
    with False show ?thesis by (simp add: year_loop.simps [of days])
  qed
qed

text \<open>The year is a 32-bit counter in the code; no instant of the next three billion years fills it.\<close>

lemma date_year_fits: "s \<le> 10 ^ 17 \<Longrightarrow> fst (date_of s) \<le> U32_MAX"
  using year_loop_bound [of "s div 86400" EPOCH_YEAR]
  by (auto simp: date_of_def EPOCH_YEAR_def U32_MAX_def split: prod.splits)


section \<open>When a certificate is due\<close>

lemma no_refusal_iff:
  "certificate_refusal r facts = None \<longleftrightarrow>
     rp_run r = SecondCycle \<and> cf_version facts \<noteq> None \<and> cf_commit facts \<noteq> None \<and> cf_cost facts \<noteq> None
     \<and> Pass \<in> set (report_states r) \<and> TimeoutState \<notin> set (report_states r) \<and> Fail \<notin> set (report_states r)"
proof -
  have "list_ex (\<lambda>row. rw_state row = st) (rp_rows r) \<longleftrightarrow> st \<in> set (report_states r)" for st
    by (auto simp: list_ex_iff report_states_def)
  then show ?thesis by (simp add: certificate_refusal_def del: asc_Cons)
qed

lemma exit_code_no_fail: "xs \<noteq> [] \<Longrightarrow> exit_code xs \<noteq> EXIT_FAILED \<longleftrightarrow> Fail \<notin> set xs"
  by (auto simp: exit_code_cases EXIT_FAILED_def EXIT_INCONCLUSIVE_def EXIT_OK_def)

text \<open>A certificate is rendered exactly for the certifying run that knows its version, its commit
  and its cost, in which something passed, nothing timed out, and whose exit code is not that of
  a failure.\<close>

theorem certificate_only_when_due:
  "render_certificate r facts \<noteq> None \<longleftrightarrow>
     rp_run r = SecondCycle \<and> cf_version facts \<noteq> None \<and> cf_commit facts \<noteq> None \<and> cf_cost facts \<noteq> None
     \<and> Pass \<in> set (report_states r) \<and> TimeoutState \<notin> set (report_states r)
     \<and> report_exit_code r \<noteq> EXIT_FAILED"
proof -
  have "Pass \<in> set (report_states r) \<Longrightarrow> Fail \<notin> set (report_states r) \<longleftrightarrow> report_exit_code r \<noteq> EXIT_FAILED"
    unfolding report_exit_code_def by (subst exit_code_no_fail) auto
  moreover have "render_certificate r facts \<noteq> None \<longleftrightarrow> certificate_refusal r facts = None"
    by (simp add: render_certificate_def split: option.splits)
  ultimately show ?thesis unfolding no_refusal_iff by auto
qed

text \<open>The table of a certificate: every row once, those of the large payload first, otherwise in the
  order of the report.\<close>

lemma insort_priority:
  assumes "\<forall>x\<in>set as. f x = (0 :: nat)" "\<forall>x\<in>set bs. f x = 1" "f y \<le> 1"
  shows "insort_key f y (as @ bs) = (if f y = 0 then y # as @ bs else as @ y # bs)"
  using assms by (induction as) (auto intro!: insort_is_Cons)

lemma certificate_rows_exact:
  "certificate_rows rows =
     filter (\<lambda>row. rw_run_id row = Some Large62k) rows @ filter (\<lambda>row. rw_run_id row \<noteq> Some Large62k) rows"
proof (induction rows)
  case (Cons row rows)
  have "certificate_rows (row # rows) =
      insort_key (\<lambda>row. large_payload_priority (rw_run_id row)) row (certificate_rows rows)"
    by (simp add: certificate_rows_def)
  also have "\<dots> = (if large_payload_priority (rw_run_id row) = 0
      then row # certificate_rows rows
      else filter (\<lambda>row. rw_run_id row = Some Large62k) rows @ row # filter (\<lambda>row. rw_run_id row \<noteq> Some Large62k) rows)"
    unfolding Cons.IH by (rule insort_priority) (auto simp: large_payload_priority_def)
  finally show ?case by (simp add: large_payload_priority_def Cons.IH)
qed (simp add: certificate_rows_def)

section \<open>What is left on disk\<close>

text \<open>The answers of a git whose status prints a given text.\<close>

definition printing :: "ustr \<Rightarrow> git" where
  "printing t = (\<lambda>args dir. Ok \<lparr> go_success = True, go_stdout = as_bytes t, go_stderr = [], go_decode_error = [] \<rparr>)"

lemma status_printing: "list_all is_scalar t \<Longrightarrow> status_porcelain (printing t) dir = Ok t"
  by (simp add: status_porcelain_def printing_def from_utf8_as_bytes)

definition verified :: "cert_env \<Rightarrow> ustr \<Rightarrow> bool" where
  "verified E base \<longleftrightarrow>
     (\<exists>before after. status_porcelain (ce_git_before E) base = Ok before \<and> trim before = []
        \<and> status_porcelain (ce_git_after E) base = Ok after
        \<and> list_all (\<lambda>l. ends_with (trim_end l) CERT_PATH) (str_lines after))"

lemma write_Ok:
  "write_and_verify_certificate_in E base content file = (Ok u, f) \<Longrightarrow> f = Some content \<and> verified E base"
  by (auto simp: write_and_verify_certificate_in_def verified_def discard_def Let_def foreign_line_def
      list_ex_iff list_all_iff split: result.splits if_splits)

lemma noted_exit:
  "Fail \<notin> set (report_states r) \<Longrightarrow> report_exit_code (note_certificate_failure reason r) = EXIT_INCONCLUSIVE"
  by (auto simp: report_exit_code_def report_states_def note_certificate_failure_def exit_code_def)

lemma certificate_change:
  assumes "write_certificate_in E base facts r file = (r', file')" and "file' \<noteq> file"
  shows "\<exists>txt. render_certificate r facts = Some txt
    \<and> (r' = r \<and> file' = Some txt \<and> verified E base
       \<or> (\<exists>reason. r' = note_certificate_failure reason r) \<and> report_exit_code r' = EXIT_INCONCLUSIVE)"
proof -
  obtain cert where t: "render_certificate r facts = Some cert"
    using assms by (cases "render_certificate r facts") (auto simp: write_certificate_in_def)
  then have nofail: "Fail \<notin> set (report_states r)"
    using no_refusal_iff [of r facts] by (auto simp: render_certificate_def split: option.splits)
  obtain res f where w: "write_and_verify_certificate_in E base cert file = (res, f)"
    by (cases "write_and_verify_certificate_in E base cert file")
  show ?thesis
  proof (cases res)
    case (Ok u)
    with w assms(1) t have "r' = r" "file' = f" by (simp_all add: write_certificate_in_def)
    with t write_Ok [OF w [unfolded Ok]] show ?thesis by simp
  next
    case (Err e)
    with w assms(1) t have "r' = note_certificate_failure e r" by (simp add: write_certificate_in_def)
    with t noted_exit [OF nofail] show ?thesis by auto
  qed
qed

text \<open>Whenever the certificate on disk changes, a certificate was due, and either it is on disk and
  was verified against a tree that was clean before and shows no other path after, or the report
  says that it was not and the session is inconclusive.\<close>

theorem certificate_file_honest:
  assumes "write_certificate_in E base facts r file = (r', file')" and "file' \<noteq> file"
  shows "\<exists>txt. render_certificate r facts = Some txt
    \<and> (r' = r \<and> file' = Some txt \<and> verified E base
       \<or> (\<exists>reason. r' = note_certificate_failure reason r) \<and> report_exit_code r' = EXIT_INCONCLUSIVE)"
  using assms by (rule certificate_change)

definition passed_report :: report where
  "passed_report = \<lparr> rp_rows = rows_of (asc ''S4'') (Some Large62k) [assert_that (asc ''it holds'') True] None,
     rp_run = SecondCycle \<rparr>"

definition example_facts :: certificate_facts where
  "example_facts = \<lparr> cf_version = Some (asc ''4.1.0''), cf_commit = Some (asc ''c0ffee''), cf_date = asc ''2026-01-01'',
     cf_mode = asc ''tree'', cf_cost = Some (asc ''1 backend run(s) in 2.0s''), cf_round = 1,
     cf_invocation = [], cf_fixtures = \<lparr> fs_total = 0, fs_unverified = 0 \<rparr> \<rparr>"

definition tree_env :: "ustr \<Rightarrow> cert_env" where
  "tree_env after = \<lparr> ce_git_before = printing [], ce_git_after = printing after, ce_mkdir = Ok (),
     ce_write = Ok (), ce_torn = None, ce_remove = Ok () \<rparr>"

lemma example_due: "render_certificate passed_report example_facts = Some (certificate_text (rp_rows passed_report) example_facts)"
  using no_refusal_iff [of passed_report example_facts]
  by (simp add: render_certificate_def passed_report_def example_facts_def report_states_def rows_of_def assert_that_def)

lemma tree_env_simps:
  "status_porcelain (ce_git_before (tree_env after)) dir = Ok []"
  "list_all is_scalar after \<Longrightarrow> status_porcelain (ce_git_after (tree_env after)) dir = Ok after"
  "ce_mkdir (tree_env after) = Ok ()" "ce_write (tree_env after) = Ok ()" "ce_remove (tree_env after) = Ok ()"
  by (simp_all add: tree_env_def status_printing)

lemma write_in_tree:
  assumes "list_all is_scalar after"
  shows "list_ex foreign_line (str_lines after) \<Longrightarrow>
      \<exists>e. write_and_verify_certificate_in (tree_env after) base content file = (Err e, None)"
    and "\<not> list_ex foreign_line (str_lines after) \<Longrightarrow>
      write_and_verify_certificate_in (tree_env after) base content file = (Ok (), Some content)"
  using assms
  by (simp_all add: write_and_verify_certificate_in_def Let_def tree_env_simps discard_def
      trim_def trim_start_def trim_end_def)

lemmas line_eval = str_lines_def chop_cr_def foreign_line_def ends_with_def CERT_PATH_def trim_end_def is_ws_def

theorem certificate_file_honest_witness:
  "\<exists>txt. render_certificate passed_report example_facts = Some txt
    \<and> (passed_report = passed_report \<and> Some txt = Some txt \<and> verified (tree_env []) (asc ''r'')
       \<or> (\<exists>reason. passed_report = note_certificate_failure reason passed_report)
         \<and> report_exit_code passed_report = EXIT_INCONCLUSIVE)"
proof -
  have "write_certificate_in (tree_env []) (asc ''r'') example_facts passed_report None
      = (passed_report, Some (certificate_text (rp_rows passed_report) example_facts))"
    using write_in_tree(2) [of "[]"] by (simp add: write_certificate_in_def example_due str_lines_def)
  from certificate_file_honest [OF this] show ?thesis by auto
qed

text \<open>An error after the write removes the file, whatever was there: an earlier certificate is gone,
  although the documentation promises that every error leaves the file as it was found.\<close>

lemma earlier_certificate_lost:
  "\<exists>e. write_and_verify_certificate_in (tree_env (asc '' M src/lib.rs'')) base content (Some old) = (Err e, None)"
  by (rule write_in_tree(1)) (simp_all add: is_scalar_def line_eval)

text \<open>The comparison by suffix also accepts a change of another file whose path ends alike.\<close>

lemma other_path_accepted:
  "write_and_verify_certificate_in (tree_env (asc ''?? smoke/docs/test/smoke-certificate.md'')) base content file
     = (Ok (), Some content)"
  by (rule write_in_tree(2)) (simp_all add: is_scalar_def line_eval)

end
