(* ===== verification/Smoke_Scenarios_E1.thy ===== *)
theory Smoke_Scenarios_E1
  imports Smoke_Report
begin

text \<open>
  \<open>smoke/src/scenarios/e1.rs\<close>: the twelve harness scenarios. A scenario is a function from what
  was observed (\<open>run_context\<close>) to its assertions. What the functions ask the machine beyond the
  context (git, the JSON library, the hash) is \<open>scenario_env\<close>.
\<close>

section \<open>Surroundings and shared steps\<close>

record 'v scenario_env =
  sv_fmt :: rust_fmt
  sv_json :: "'v json_lib"
  sv_sha :: "byte list \<Rightarrow> ustr"
  sv_serializes :: "magi_report \<Rightarrow> bool"
  sv_git :: git
  sv_repo :: ustr
  sv_world :: world

definition json_of_bytes :: "'v json_lib \<Rightarrow> byte list \<Rightarrow> 'v option" where
  "json_of_bytes J body = Option.bind (from_utf8 body) (js_value J)"

text \<open>The values of a map over the mages, in the order of the map.\<close>

definition mage_values :: "(agent_name \<rightharpoonup> 'a) \<Rightarrow> 'a list" where
  "mage_values m = List.map_filter m agents_asc"

text \<open>Every row skipped for one reason; and the reason a run gives for having no report.\<close>

definition skips :: "ustr list \<Rightarrow> ustr \<Rightarrow> assertion list" where
  "skips names reason = map (\<lambda>n. assertion_skip n reason) names"

definition error_or :: "ustr \<Rightarrow> run_context \<Rightarrow> ustr" where
  "error_or reason ctx = (case cx_error ctx of Some e \<Rightarrow> e | None \<Rightarrow> reason)"

definition CERT_PATH_SUFFIX :: ustr where "CERT_PATH_SUFFIX = asc ''docs/test/smoke-certificate.md''"

definition preflight_error_for_stage :: "run_context \<Rightarrow> ustr \<Rightarrow> ustr option" where
  "preflight_error_for_stage ctx stage_prefix =
     (case cx_error ctx of
        None \<Rightarrow> None
      | Some e \<Rightarrow> if starts_with e stage_prefix then Some e else None)"

section \<open>S1: an outside provider\<close>

definition s1_external_provider_fails_typed :: "run_context \<Rightarrow> assertion list" where
  "s1_external_provider_fails_typed ctx =
     (let NAME = asc ''an outside LlmProvider fails typed, classified mage-local (never endpoint-down)''
      in case cx_error ctx of
           None \<Rightarrow> [assertion_skip NAME (asc ''the offline run produced no typed error to read: either it did not run, or it unexpectedly succeeded'')]
         | Some err \<Rightarrow>
             [assert_that NAME (contains err (asc ''insufficient agents'') \<and> \<not> contains err (asc ''endpoint down''))])"

section \<open>S2: the happy path\<close>

definition NAME_ANALYZE_PRODUCED_A_REPORT :: ustr where
  "NAME_ANALYZE_PRODUCED_A_REPORT = asc ''analyze() produced a report rather than failing in a typed way''"

definition analyze_produced_a_report :: "run_context \<Rightarrow> assertion" where
  "analyze_produced_a_report ctx =
     (case (cx_error ctx, cx_error_class ctx) of
        (None, _) \<Rightarrow>
          assertion_skip NAME_ANALYZE_PRODUCED_A_REPORT
            (asc ''the run produced neither a report nor an error, so it never happened'')
      | (Some e, Some Environment) \<Rightarrow>
          assertion_skip NAME_ANALYZE_PRODUCED_A_REPORT
            (asc ''the crate reported an environment failure, correctly: '' @ e)
      | (Some _, _) \<Rightarrow> assert_that NAME_ANALYZE_PRODUCED_A_REPORT False)"

definition S2_VERDICTS :: ustr where "S2_VERDICTS = asc ''all three mages returned a verdict''"
definition S2_DEGRADED :: ustr where "S2_DEGRADED = asc ''the run is not degraded''"
definition S2_JSON :: ustr where "S2_JSON = asc ''the report serializes to JSON''"
definition S2_NO_INJECTION :: ustr where
  "S2_NO_INJECTION = asc ''at least one completion reached the proxy, and none carried the failure status this harness injects''"

definition s2_injection :: "run_context \<Rightarrow> assertion" where
  "s2_injection ctx =
     (if cx_proxy_degraded ctx then
        assertion_skip S2_NO_INJECTION (asc ''the proxy registry degraded during this run; a partial record could fail an assertion the crate satisfied perfectly'')
      else
        let completions = filter is_completion (cx_records ctx)
        in if completions = [] then assert_that S2_NO_INJECTION False
           else if list_ex (\<lambda>r. rr_response_status r = INJECTED_FAILURE_STATUS) completions then
             assertion_skip S2_NO_INJECTION
               (asc ''a completion came back '' @ show_nat INJECTED_FAILURE_STATUS
                @ asc '' on a run that injects nothing, so the backend failed on its own; the crate recovered and produced a report, and this assertion cannot tell the two sources apart'')
           else assert_that S2_NO_INJECTION True)"

definition s2_happy_path_against_real_backend :: "'v scenario_env \<Rightarrow> run_context \<Rightarrow> assertion list" where
  "s2_happy_path_against_real_backend S ctx =
     (case cx_report ctx of
        None \<Rightarrow>
          skips [S2_VERDICTS, S2_DEGRADED, S2_JSON, S2_NO_INJECTION] (error_or (asc ''the run never happened'') ctx)
          @ [analyze_produced_a_report ctx]
      | Some report \<Rightarrow>
          [assert_that S2_VERDICTS (length (mr_agents report) = 3),
           assert_that S2_DEGRADED (\<not> mr_degraded report),
           assert_that S2_JSON (sv_serializes S report),
           s2_injection ctx])"

definition S2B_NAMES :: "ustr list" where
  "S2B_NAMES = [asc ''the request the proxy relayed is byte-identical to ours'',
     asc ''and so is the response it relayed back'',
     asc ''and the status it relayed is the one the backend gave'']"

definition s2b_the_proxy_is_transparent :: "'v scenario_env \<Rightarrow> run_context \<Rightarrow> assertion list" where
  "s2b_the_proxy_is_transparent S ctx =
     (if cx_proxy_degraded ctx then
        skips S2B_NAMES (asc ''the proxy degraded during this run, so its record cannot answer for what went on the wire'')
      else
        case (cx_probe_record ctx, cx_probe_sent_body ctx, cx_direct_probe_body ctx, cx_direct_probe_status ctx) of
          (Some rec, Some sent, Some direct, Some direct_status) \<Rightarrow>
            if \<not> rr_response_recorded rec then skips S2B_NAMES (asc ''the probe response was not recorded'')
            else
              [assert_that (S2B_NAMES ! 0) (rr_body_sha256 rec = sv_sha S (as_bytes sent)),
               assert_that (S2B_NAMES ! 1) (rr_response_sha256 rec = sv_sha S direct),
               assert_that (S2B_NAMES ! 2) (rr_response_status rec = direct_status)]
        | _ \<Rightarrow> skips S2B_NAMES (asc ''the transparency probe did not complete; nothing to compare''))"

section \<open>S4: rotation and its cause\<close>

definition why_the_wire_cannot_answer :: "rust_fmt \<Rightarrow> run_context \<Rightarrow> ustr option" where
  "why_the_wire_cannot_answer F ctx =
     (if cx_injected_agent ctx = None then
        Some (asc ''no agent was injected for this run, so no injected failure could reach the wire'')
      else if list_ex is_completion (cx_records ctx) then None
      else Some (case (cx_error ctx, cx_budget_exceeded ctx) of
          (Some e, _) \<Rightarrow>
            asc ''the run never reached a completion request, so the injection had nothing to fire on; it ended with: '' @ e
        | (None, Some d) \<Rightarrow>
            asc ''the run never reached a completion request: it ran out of time after '' @ dbg_dur F d
        | (None, None) \<Rightarrow>
            asc ''the run never reached a completion request over the wire, so the injection had nothing to fire on''))"

definition S4_WIRE :: ustr where
  "S4_WIRE = asc ''the injected failure reached a completion request over the wire, not a coincidence''"
definition S4_ROTATED :: ustr where
  "S4_ROTATED = asc ''the injected agent rotated to a second, differently-lineaged candidate''"
definition S4_CAUSE :: ustr where
  "S4_CAUSE = asc ''the injected HTTP failure rotates as run-wide Transport, not as a mage-local cause''"

fun first_hop :: "rotation_event list \<Rightarrow> rotation_event option" where
  "first_hop [] = None"
| "first_hop (h # _) = Some h"

definition hop_is :: "(rotation_event \<Rightarrow> bool) \<Rightarrow> agent_rotation \<Rightarrow> bool" where
  "hop_is P r \<longleftrightarrow> (case first_hop (ar_chain r) of Some hop \<Rightarrow> P hop | None \<Rightarrow> False)"

fun dbg_agent :: "agent_name \<Rightarrow> ustr" where
  "dbg_agent Melchior = asc ''Melchior''"
| "dbg_agent Balthasar = asc ''Balthasar''"
| "dbg_agent Caspar = asc ''Caspar''"

definition s4_wire :: "rust_fmt \<Rightarrow> run_context \<Rightarrow> assertion" where
  "s4_wire F ctx =
     (case why_the_wire_cannot_answer F ctx of
        Some reason \<Rightarrow> assertion_skip S4_WIRE reason
      | None \<Rightarrow>
          assert_that S4_WIRE
            (list_ex (\<lambda>r. is_completion r \<and> rr_response_status r = INJECTED_FAILURE_STATUS) (cx_records ctx)))"

definition s4_rotation_and_its_cause :: "'v scenario_env \<Rightarrow> run_context \<Rightarrow> assertion list" where
  "s4_rotation_and_its_cause S ctx =
     (if cx_proxy_degraded ctx then
        skips [S4_WIRE, S4_ROTATED, S4_CAUSE] (asc ''the proxy registry degraded during this run'')
      else
        let wire = s4_wire (sv_fmt S) ctx
        in case cx_report ctx of
             None \<Rightarrow>
               wire # skips [S4_ROTATED, S4_CAUSE] (error_or (asc ''the rotation run never happened'') ctx)
               @ [analyze_produced_a_report ctx]
           | Some report \<Rightarrow>
               (case cx_injected_agent ctx of
                  None \<Rightarrow> wire # skips [S4_ROTATED, S4_CAUSE] (asc ''no agent was injected for this run'')
                | Some ag \<Rightarrow>
                    (case mr_rotations report ag of
                       None \<Rightarrow>
                         wire # skips [S4_ROTATED, S4_CAUSE]
                           (asc ''no rotation telemetry was recorded for '' @ dbg_agent ag)
                     | Some rotation \<Rightarrow>
                         [wire, assert_that S4_ROTATED (hop_is (\<lambda>hop. re_to hop \<noteq> re_from hop) rotation),
                          assert_that S4_CAUSE (hop_is (\<lambda>hop. re_kind hop = KTransport) rotation)])))"

section \<open>S5: what the probes read\<close>

definition show_response_has_measurable_window :: "'v json_lib \<Rightarrow> byte list \<Rightarrow> bool" where
  "show_response_has_measurable_window J body \<longleftrightarrow>
     (case Option.bind (json_of_bytes J body) (\<lambda>v. Option.bind (js_get J v (asc ''model_info'')) (js_entries J)) of
        None \<Rightarrow> False
      | Some model_info \<Rightarrow>
          list_ex (\<lambda>(k, v). ends_with k (asc ''.context_length'')
            \<and> (case js_u64 J v of Some n \<Rightarrow> n > 0 | None \<Rightarrow> False)) model_info)"

definition is_hex_digit :: "nat \<Rightarrow> bool" where
  "is_hex_digit c \<longleftrightarrow> is_ascii_digit c \<or> (65 \<le> c \<and> c \<le> 70) \<or> (97 \<le> c \<and> c \<le> 102)"

definition tags_response_has_a_64_hex_digest :: "'v json_lib \<Rightarrow> byte list \<Rightarrow> bool" where
  "tags_response_has_a_64_hex_digest J body \<longleftrightarrow>
     (case Option.bind (json_of_bytes J body) (\<lambda>v. Option.bind (js_get J v (asc ''models'')) (js_items J)) of
        None \<Rightarrow> False
      | Some models \<Rightarrow>
          list_ex (\<lambda>entry.
            case Option.bind (js_get J entry (asc ''digest'')) (js_text J) of
              Some d \<Rightarrow> utf8_len d = 64 \<and> list_all (\<lambda>b. is_hex_digit (unat b)) (as_bytes d)
            | None \<Rightarrow> False) models)"

definition SHOW_PATH :: ustr where "SHOW_PATH = asc ''/api/show''"
definition TAGS_PATH :: ustr where "TAGS_PATH = asc ''/api/tags''"
definition FIRST_SUCCESS_STATUS :: nat where "FIRST_SUCCESS_STATUS = 200"
definition FIRST_NON_SUCCESS_STATUS :: nat where "FIRST_NON_SUCCESS_STATUS = 300"

definition answered_probes :: "run_context \<Rightarrow> ustr \<Rightarrow> request_record list" where
  "answered_probes ctx path =
     filter (\<lambda>r. rr_endpoint r = path \<and> rr_response_recorded r
       \<and> FIRST_SUCCESS_STATUS \<le> rr_response_status r \<and> rr_response_status r < FIRST_NON_SUCCESS_STATUS)
       (cx_records ctx)"

definition S5_WINDOW :: ustr where "S5_WINDOW = asc ''every probe answer carries a measurable context window''"
definition S5_DIGEST :: ustr where "S5_DIGEST = asc ''every probe answer carries a 64-hex-character digest''"

definition every_answer :: "ustr \<Rightarrow> ustr \<Rightarrow> (byte list \<Rightarrow> bool) \<Rightarrow> request_record list \<Rightarrow> assertion" where
  "every_answer name path P answers =
     (if answers = [] then
        assertion_skip name (asc ''no answered '' @ path @ asc '' probe was recorded for this run'')
      else assert_that name (list_all (\<lambda>r. P (rr_response_body r)) answers))"

definition s5_the_probe_still_reads_what_it_expects :: "'v scenario_env \<Rightarrow> run_context \<Rightarrow> assertion list" where
  "s5_the_probe_still_reads_what_it_expects S ctx =
     (if cx_proxy_degraded ctx then
        skips [S5_WINDOW, S5_DIGEST] (asc ''the proxy registry degraded during this run'')
      else
        [every_answer S5_WINDOW SHOW_PATH (show_response_has_measurable_window (sv_json S))
           (answered_probes ctx SHOW_PATH),
         every_answer S5_DIGEST TAGS_PATH (tags_response_has_a_64_hex_digest (sv_json S))
           (answered_probes ctx TAGS_PATH)])"

section \<open>S6, S7, S14, S20: how the preflight stops\<close>

definition S6_NAME :: ustr where
  "S6_NAME = asc ''an unreachable backend makes the preflight cut with exit 2, naming the backend as the cause''"

definition s6_no_backend_no_green :: "run_context \<Rightarrow> assertion list" where
  "s6_no_backend_no_green ctx =
     (case preflight_error_for_stage ctx (asc ''Backend: '') of
        None \<Rightarrow> [assertion_out_of_scope S6_NAME]
      | Some err \<Rightarrow>
          [assert_that S6_NAME (contains err (asc ''backend at'')
            \<and> (contains err (asc ''did not answer'') \<or> contains err (asc ''answered with status'')))])"

definition S7_NAME :: ustr where
  "S7_NAME = asc ''a slow-but-responding endpoint is '' @ QUOTE @ asc ''cannot test'' @ QUOTE
     @ asc '', naming that contention and a cold model cannot be told apart''"

definition s7_a_saturated_endpoint_reports_cannot_test_with_its_scope :: "run_context \<Rightarrow> assertion list" where
  "s7_a_saturated_endpoint_reports_cannot_test_with_its_scope ctx =
     (case preflight_error_for_stage ctx (asc ''Probe: '') of
        None \<Rightarrow> [assertion_out_of_scope S7_NAME]
      | Some err \<Rightarrow>
          if \<not> contains err (asc ''did not answer a trivial request in time'') then
            [assertion_skip S7_NAME (asc ''the probe cut for a different reason than slowness: '' @ err)]
          else [assert_that S7_NAME (contains err (asc ''cannot tell them apart'')
            \<and> contains err (asc ''contention'') \<and> contains err (asc ''cold''))])"

definition UNKNOWN_FIELD :: ustr where "UNKNOWN_FIELD = asc ''unknown field''"

definition BACKTICK :: ustr where "BACKTICK = [96]"

definition names_the_offending_field :: "ustr \<Rightarrow> bool" where
  "names_the_offending_field err \<longleftrightarrow>
     (case Option.bind (split_once err UNKNOWN_FIELD) (\<lambda>(_, rest).
           Option.bind (split_once rest BACKTICK) (\<lambda>(_, named). split_once named BACKTICK)) of
        Some (name, _) \<Rightarrow> trim name \<noteq> []
      | None \<Rightarrow> False)"

definition S14_NAME :: ustr where
  "S14_NAME = asc ''a config with an unknown field names it and cuts with exit 2 before any run''"

definition s14_illegible_toml_is_fatal :: "run_context \<Rightarrow> assertion list" where
  "s14_illegible_toml_is_fatal ctx =
     (case preflight_error_for_stage ctx (asc ''Config: '') of
        None \<Rightarrow> [assertion_out_of_scope S14_NAME]
      | Some err \<Rightarrow>
          if \<not> contains err UNKNOWN_FIELD then [assertion_out_of_scope S14_NAME]
          else [assert_that S14_NAME (names_the_offending_field err)])"

definition S20_NAME :: ustr where
  "S20_NAME = asc ''a proxy that cannot start is a harness fault, never a crate verdict, and fails no scenario''"

definition s20_broken_proxy_is_not_a_scenario_red :: "run_context \<Rightarrow> assertion list" where
  "s20_broken_proxy_is_not_a_scenario_red ctx =
     (case preflight_error_for_stage ctx (asc ''Proxy: '') of
        None \<Rightarrow> [assertion_out_of_scope S20_NAME]
      | Some err \<Rightarrow>
          [assert_that S20_NAME (contains err (asc ''HARNESS fault'')
            \<and> contains err (asc ''never a verdict about the crate''))])"

section \<open>S15: a degraded run\<close>

definition S15_NAME_DEGRADED :: ustr where "S15_NAME_DEGRADED = asc ''degraded is true''"
definition S15_NAME_AGENT :: ustr where "S15_NAME_AGENT = asc ''failed_agents names the INJECTED agent, not just any agent''"
definition S15_NAME_COUNT :: ustr where "S15_NAME_COUNT = asc ''agent_count counts those that RESPONDED, not those launched''"
definition S15_NAME_LABEL :: ustr where "S15_NAME_LABEL = asc ''no STRONG label survives a 2/3 consensus''"
definition S15_NAMES :: "ustr list" where
  "S15_NAMES = [S15_NAME_DEGRADED, S15_NAME_AGENT, S15_NAME_COUNT, S15_NAME_LABEL]"

definition why_the_forced_failure_cannot_be_read :: "rust_fmt \<Rightarrow> run_context \<Rightarrow> ustr option" where
  "why_the_forced_failure_cannot_be_read F ctx =
     (case why_the_wire_cannot_answer F ctx of
        Some reason \<Rightarrow> Some reason
      | None \<Rightarrow>
          if list_ex (\<lambda>r. rr_response_status r = INJECTED_FAILURE_STATUS) (cx_records ctx) then None
          else Some (asc ''the run reached the wire but no request carried the injected failure status, so nothing forced a seat down and there is no degradation to judge''))"

definition s15_skips :: "ustr \<Rightarrow> assertion list" where
  "s15_skips reason = skips S15_NAMES reason"

definition s15_inconclusive :: "run_context \<Rightarrow> ustr \<Rightarrow> assertion list" where
  "s15_inconclusive ctx reason =
     (case (cx_report ctx, cx_error ctx) of
        (None, Some e) \<Rightarrow>
          s15_skips (reason @ asc ''; and analyze() produced no report at all: '' @ e)
          @ [analyze_produced_a_report ctx]
      | _ \<Rightarrow> s15_skips reason)"

definition s15_four_assertions :: "magi_report \<Rightarrow> run_context \<Rightarrow> assertion list" where
  "s15_four_assertions report ctx =
     [assert_that S15_NAME_DEGRADED (mr_degraded report),
      assert_that S15_NAME_AGENT
        ((case cx_injected_agent ctx of Some a \<Rightarrow> mr_failed_agents report a \<noteq> None | None \<Rightarrow> False)
         \<and> list_all (\<lambda>r. r \<noteq> []) (mage_values (mr_failed_agents report))),
      assert_that S15_NAME_COUNT
        (cr_agent_count (mr_consensus report) = length (mr_agents report) \<and> length (mr_agents report) = 2),
      assert_that S15_NAME_LABEL (\<not> contains (cr_consensus (mr_consensus report)) (asc ''STRONG''))]"

definition s15_degradation_is_honest :: "'v scenario_env \<Rightarrow> run_context \<Rightarrow> assertion list" where
  "s15_degradation_is_honest S ctx =
     (if cx_proxy_degraded ctx then
        s15_inconclusive ctx (asc ''the proxy registry degraded during this run, so whether the failure this report shows is the one we forced cannot be established'')
      else
        case why_the_forced_failure_cannot_be_read (sv_fmt S) ctx of
          Some reason \<Rightarrow> s15_inconclusive ctx reason
        | None \<Rightarrow>
            (case cx_report ctx of
               Some report \<Rightarrow> s15_four_assertions report ctx
             | None \<Rightarrow>
                 s15_skips (error_or (asc ''the degradation run never happened'') ctx)
                 @ [analyze_produced_a_report ctx]))"

section \<open>S16: no trace left in the repository\<close>

definition status_shows_nothing_outside_the_certificate :: "ustr \<Rightarrow> bool" where
  "status_shows_nothing_outside_the_certificate porcelain \<longleftrightarrow>
     list_all (\<lambda>l. ends_with (trim_end l) CERT_PATH_SUFFIX) (str_lines porcelain)"

definition S16_NAME :: ustr where
  "S16_NAME = asc ''the harness added nothing to the tree outside the certificate path''"

definition s16_no_trace_left_in_the_repo :: "'v scenario_env \<Rightarrow> run_context \<Rightarrow> assertion list" where
  "s16_no_trace_left_in_the_repo S ctx =
     (case cx_repo_status_before ctx of
        None \<Rightarrow> [assertion_skip S16_NAME (asc ''no pre-run baseline was captured, so nothing can be attributed to the harness'')]
      | Some before \<Rightarrow>
          (case status_porcelain (sv_git S) (sv_repo S) of
             Err e \<Rightarrow> [assertion_skip S16_NAME e]
           | Ok after \<Rightarrow>
               let baseline = set (str_lines before);
                   added = join [LF] (filter (\<lambda>l. l \<notin> baseline) (str_lines after))
               in [assert_that S16_NAME (status_shows_nothing_outside_the_certificate added)]))"

section \<open>S21: the two dependency modes\<close>

definition S21_ASSERTED :: "ustr list" where
  "S21_ASSERTED = [asc ''tree'', asc ''tree,published'', []]"

definition render_combinations :: "ustr list \<Rightarrow> ustr" where
  "render_combinations names = join (asc '', '') (map (\<lambda>n. if n = [] then asc ''none'' else n) names)"

definition S21_NAME :: ustr where "S21_NAME = asc ''the two dependency modes cannot be confused''"

definition matrix_outcome :: "(ustr \<times> build_outcome) list \<Rightarrow> ustr \<Rightarrow> build_outcome option" where
  "matrix_outcome m name = map_option snd (find (\<lambda>(c, _). c = name) m)"

definition matrix_has :: "(ustr \<times> build_outcome) list \<Rightarrow> ustr \<Rightarrow> build_outcome \<Rightarrow> bool" where
  "matrix_has m name want \<longleftrightarrow> list_ex (\<lambda>(c, out). c = name \<and> out = want) m"

definition s21_the_two_modes_cannot_be_confused :: "run_context \<Rightarrow> assertion list" where
  "s21_the_two_modes_cannot_be_confused ctx =
     (case cx_build_matrix ctx of
        None \<Rightarrow> [assertion_out_of_scope S21_NAME]
      | Some m \<Rightarrow>
          let absent = filter (\<lambda>n. matrix_outcome m n = None) S21_ASSERTED;
              unrunnable = filter (\<lambda>n. matrix_outcome m n = Some CouldNotRun) S21_ASSERTED
          in if absent \<noteq> [] then
               [assertion_skip S21_NAME (asc ''the build matrix reported nothing for '' @ render_combinations absent
                 @ asc '', so nothing was learned about those combinations '' @ EM_DASH
                 @ asc '' an absent row is not a refusal to compile, and this scenario judges only what the matrix actually built'')]
             else if unrunnable \<noteq> [] then
               [assertion_skip S21_NAME (asc ''cargo could not be run for '' @ render_combinations unrunnable
                 @ asc '', so nothing was learned about those combinations either way'')]
             else
               [assert_that S21_NAME (matrix_has m (asc ''tree'') Built
                 \<and> matrix_has m (asc ''tree,published'') DidNotBuild \<and> matrix_has m [] DidNotBuild)])"

section \<open>The registry of this milestone\<close>

definition scenario_of :: "string \<Rightarrow> source \<Rightarrow> backend_need \<Rightarrow> (run_context \<Rightarrow> assertion list) \<Rightarrow> scenario" where
  "scenario_of name src need f =
     \<lparr> sn_id = asc name, sn_source = src, sn_backend_tag = need, sn_assert = f \<rparr>"

definition e1_scenarios :: "'v scenario_env \<Rightarrow> scenario list" where
  "e1_scenarios S =
     [scenario_of ''S1'' (FromRun NoBackend) NeedsNone s1_external_provider_fails_typed,
      scenario_of ''S2'' (FromRun HappySmall) NeedsBackend (s2_happy_path_against_real_backend S),
      scenario_of ''S2b'' (FromRun HappySmall) NeedsBackend (s2b_the_proxy_is_transparent S),
      scenario_of ''S4'' (FromRun RotationRun) NeedsBackend (s4_rotation_and_its_cause S),
      scenario_of ''S5'' (FromRun HappySmall) NeedsBackend (s5_the_probe_still_reads_what_it_expects S),
      scenario_of ''S6'' FromPreflight NeedsNone s6_no_backend_no_green,
      scenario_of ''S7'' FromPreflight NeedsNone s7_a_saturated_endpoint_reports_cannot_test_with_its_scope,
      scenario_of ''S14'' FromPreflight NeedsNone s14_illegible_toml_is_fatal,
      scenario_of ''S15'' (FromRun DegradationRun) NeedsBackend (s15_degradation_is_honest S),
      scenario_of ''S16'' FromSession NeedsNone (s16_no_trace_left_in_the_repo S),
      scenario_of ''S20'' FromPreflight NeedsNone s20_broken_proxy_is_not_a_scenario_red,
      scenario_of ''S21'' FromBuild NeedsNone s21_the_two_modes_cannot_be_confused]"

end
