(* ===== verification/Smoke_Scenarios.thy ===== *)
theory Smoke_Scenarios
  imports Smoke_Scenarios_E1
begin

text \<open>
  The remaining scenarios of the harness (\<open>smoke/src/scenarios/e2.rs\<close>, \<open>e.rs\<close>, \<open>f.rs\<close>, \<open>r5.rs\<close>,
  \<open>r7.rs\<close>) and the whole registry, with the property that matters for all of them: what was not
  observed is never reported as passed.
\<close>

section \<open>e2.rs\<close>

definition NAME_NATIVE_ONLY :: ustr where "NAME_NATIVE_ONLY = asc ''every completion request goes to the native endpoint''"
definition NAME_NO_LEGACY :: ustr where "NAME_NO_LEGACY = asc ''no request reaches the OpenAI-compatible completions path''"
definition LEGACY_COMPAT_PATH :: ustr where "LEGACY_COMPAT_PATH = asc ''/v1/chat/completions''"

definition s8_completions_are_native_only :: "run_context \<Rightarrow> assertion list" where
  "s8_completions_are_native_only ctx =
     (if cx_proxy_degraded ctx then
        skips [NAME_NATIVE_ONLY, NAME_NO_LEGACY]
          (asc ''the proxy registry degraded during this run; a partial record could fail an assertion the crate satisfied perfectly'')
      else
        [assert_that NAME_NATIVE_ONLY (filter (\<lambda>r. rr_endpoint r = COMPLETIONS_PATH) (cx_records ctx) \<noteq> []),
         assert_that NAME_NO_LEGACY (\<not> list_ex (\<lambda>r. rr_endpoint r = LEGACY_COMPAT_PATH) (cx_records ctx))])"

definition NAME_ONE_PER_SEAT :: ustr where "NAME_ONE_PER_SEAT = asc ''every seat that answered left a completion record''"
definition NAME_MODEL_AND_CAP :: ustr where "NAME_MODEL_AND_CAP = asc ''every record names its model and the budget it ran under''"
definition NAME_TERMINATION :: ustr where "NAME_TERMINATION = asc ''every record carries the termination reason the backend reported''"
definition NAME_TRACE_LENGTH_ONLY :: ustr where "NAME_TRACE_LENGTH_ONLY = asc ''with the flag off, no record carries the trace text''"

text \<open>The completion records of a report, mage by mage; how many mages have an entry.\<close>

definition completions_of :: "magi_report \<Rightarrow> completion_record list" where
  "completions_of report = concat (mage_values (mr_completions report))"

definition mage_count :: "(agent_name \<rightharpoonup> 'a) \<Rightarrow> nat" where
  "mage_count m = length (mage_values m)"

text \<open>\<open>!records.is_empty() && records.iter().all(P)\<close>.\<close>

definition some_and_all :: "('a \<Rightarrow> bool) \<Rightarrow> 'a list \<Rightarrow> bool" where
  "some_and_all P xs \<longleftrightarrow> xs \<noteq> [] \<and> list_all P xs"

fun carries_trace :: "reasoning_state \<Rightarrow> bool" where
  "carries_trace (Measured _ (Some _)) = True"
| "carries_trace _ = False"

definition s13_every_completion_is_recorded :: "run_context \<Rightarrow> assertion list" where
  "s13_every_completion_is_recorded ctx =
     (case cx_report ctx of
        None \<Rightarrow> skips [NAME_ONE_PER_SEAT, NAME_MODEL_AND_CAP, NAME_TERMINATION, NAME_TRACE_LENGTH_ONLY]
          (error_or (asc ''the run never happened'') ctx)
      | Some report \<Rightarrow>
          let records = completions_of report
          in [assert_that NAME_ONE_PER_SEAT
                (records \<noteq> [] \<and> mage_count (mr_completions report) = length (mr_agents report)),
              assert_that NAME_MODEL_AND_CAP (some_and_all (\<lambda>r. co_model r \<noteq> [] \<and> co_cap r > 0) records),
              assert_that NAME_TERMINATION (some_and_all (\<lambda>r. co_finish r \<noteq> None) records),
              assert_that NAME_TRACE_LENGTH_ONLY (some_and_all (\<lambda>r. \<not> carries_trace (co_reasoning r)) records)])"

definition NAME_LARGE_OBSERVED :: ustr where "NAME_LARGE_OBSERVED = asc ''the large-payload run reached the wire and was recorded''"
definition NAME_NO_SEAT_LOST :: ustr where "NAME_NO_SEAT_LOST = asc ''no seat was lost to an empty completion on the large payload''"
definition NAME_NOT_DEGRADED :: ustr where "NAME_NOT_DEGRADED = asc ''the large-payload run is not degraded''"
definition NAME_NEW_DEFAULT_APPLIED :: ustr where
  "NAME_NEW_DEFAULT_APPLIED = asc ''every completion ran under the raised output budget, not the old one''"
definition NAME_PROMPT_LARGE :: ustr where
  "NAME_PROMPT_LARGE = asc ''the large payload reached the model large IN TOKENS, not just in bytes''"
definition RAISED_MAX_TOKENS :: nat where "RAISED_MAX_TOKENS = 16384"
definition FLOOR_TOKENS :: nat where "FLOOR_TOKENS = MIN_PAYLOAD_TARGET_BYTES div 8"

definition r17_the_prompt_is_large_in_tokens :: "completion_record list \<Rightarrow> assertion" where
  "r17_the_prompt_is_large_in_tokens records =
     assert_that NAME_PROMPT_LARGE
       (some_and_all (\<lambda>t. t \<ge> FLOOR_TOKENS) (List.map_filter co_prompt_tokens records))"

definition EMPTY_COMPLETION :: ustr where "EMPTY_COMPLETION = asc ''empty completion''"

definition s10_the_large_payload_costs_no_seat :: "run_context \<Rightarrow> assertion list" where
  "s10_the_large_payload_costs_no_seat ctx =
     (case cx_report ctx of
        None \<Rightarrow> skips [NAME_LARGE_OBSERVED, NAME_NO_SEAT_LOST, NAME_NOT_DEGRADED, NAME_NEW_DEFAULT_APPLIED,
            NAME_PROMPT_LARGE] (error_or (asc ''the run never happened'') ctx)
      | Some report \<Rightarrow>
          [assert_that NAME_LARGE_OBSERVED
             (mage_count (mr_completions report) > 0
              \<and> length (mr_agents report) + mage_count (mr_failed_agents report) \<ge> 3),
           assert_that NAME_NO_SEAT_LOST
             (\<not> list_ex (\<lambda>reason. contains reason EMPTY_COMPLETION) (mage_values (mr_failed_agents report))),
           assert_that NAME_NOT_DEGRADED (\<not> mr_degraded report),
           assert_that NAME_NEW_DEFAULT_APPLIED
             (some_and_all (\<lambda>c. co_cap c = RAISED_MAX_TOKENS) (completions_of report)),
           r17_the_prompt_is_large_in_tokens (completions_of report)])"

definition NAME_TRACE_MEASURED :: ustr where "NAME_TRACE_MEASURED = asc ''a reasoning trace was measured on the large-payload run''"
definition NAME_TRACE_TEXT :: ustr where "NAME_TRACE_TEXT = asc ''with the flag on, the trace carries its text as well as its length''"

fun measured_trace :: "reasoning_state \<Rightarrow> (nat \<times> bool) option" where
  "measured_trace (Measured n t) = Some (n, t \<noteq> None)"
| "measured_trace _ = None"

definition s11_the_trace_flag_adds_the_text :: "run_context \<Rightarrow> assertion list" where
  "s11_the_trace_flag_adds_the_text ctx =
     (case cx_report ctx of
        None \<Rightarrow> skips [NAME_TRACE_MEASURED, NAME_TRACE_TEXT] (error_or (asc ''the run never happened'') ctx)
      | Some report \<Rightarrow>
          let readings = List.map_filter (\<lambda>r. measured_trace (co_reasoning r)) (completions_of report)
          in [assert_that NAME_TRACE_MEASURED (list_ex (\<lambda>(n, _). n > 0) readings),
              assert_that NAME_TRACE_TEXT (some_and_all (\<lambda>(n, has_text). n > 0 \<and> has_text) readings)])"

definition NAME_NO_EMPTY_MISCLASSIFIED :: ustr where
  "NAME_NO_EMPTY_MISCLASSIFIED = asc ''no seat was lost to an empty completion classified as transport''"
definition NAME_CUT_NAMES_BUDGET :: ustr where
  "NAME_CUT_NAMES_BUDGET = asc ''a completion cut by the budget names the budget in its error''"
definition NAME_NO_RUN_WIDE :: ustr where "NAME_NO_RUN_WIDE = asc ''no content failure condemned a lineage run-wide''"

definition content_failure_detail :: "ustr \<Rightarrow> bool" where
  "content_failure_detail detail \<longleftrightarrow>
     contains detail EMPTY_COMPLETION \<or> contains detail (asc ''response contract'')"

definition s3_the_large_payload_loses_no_seat_to_misclassification :: "run_context \<Rightarrow> assertion list" where
  "s3_the_large_payload_loses_no_seat_to_misclassification ctx =
     (let names = [NAME_NO_EMPTY_MISCLASSIFIED, NAME_CUT_NAMES_BUDGET, NAME_NO_RUN_WIDE]
      in case cx_report ctx of
           None \<Rightarrow> skips names (error_or (asc ''the run never happened'') ctx)
         | Some report \<Rightarrow>
             if completions_of report = [] then
               skips names (asc ''the run recorded no completion at all, so there was nothing to classify ''
                 @ EM_DASH @ asc '' a green here would certify a run this scenario never saw'')
             else
               let failed = mage_values (mr_failed_agents report)
               in [assert_that NAME_NO_EMPTY_MISCLASSIFIED
                     (\<not> list_ex (\<lambda>r. contains r EMPTY_COMPLETION \<and> contains r (asc ''transport'')) failed),
                   assert_that NAME_CUT_NAMES_BUDGET
                     (list_all (\<lambda>r. contains r (asc ''output budget''))
                       (filter (\<lambda>r. contains r EMPTY_COMPLETION) failed)),
                   assert_that NAME_NO_RUN_WIDE
                     (list_all (\<lambda>hop. kind_is_mage_local (re_kind hop) \<or> \<not> content_failure_detail (re_detail hop))
                       (concat (map ar_chain (mage_values (mr_rotations report)))))])"

definition NAME_ABORTS :: ustr where "NAME_ABORTS = asc ''the run ends with an error that names a defect of this crate''"
definition NAME_NOT_A_SEAT :: ustr where "NAME_NOT_A_SEAT = asc ''no report was produced, so no seat was blamed for it''"

definition s9_a_defect_of_ours_aborts_the_run :: "run_context \<Rightarrow> assertion list" where
  "s9_a_defect_of_ours_aborts_the_run ctx =
     (case cx_error ctx of
        None \<Rightarrow>
          if cx_report ctx \<noteq> None then [assert_that NAME_ABORTS False, assert_that NAME_NOT_A_SEAT False]
          else skips [NAME_ABORTS, NAME_NOT_A_SEAT]
            (asc ''the run produced neither a report nor an error, so it never happened'')
      | Some e \<Rightarrow>
          [assert_that NAME_ABORTS (contains e (asc ''magi-core'') \<and> contains e (asc ''no generation'')),
           assert_that NAME_NOT_A_SEAT (cx_report ctx = None)])"

definition NAME_COUNTERS_ABSENT :: ustr where "NAME_COUNTERS_ABSENT = asc ''the live backend still OMITS the token counters''"
definition NAME_REASON_LOAD :: ustr where "NAME_REASON_LOAD = asc ''the live backend still reports the load termination''"
definition NAME_CONTENT_EMPTY :: ustr where "NAME_CONTENT_EMPTY = asc ''the live backend still returns empty content''"
definition NATIVE_OK :: nat where "NATIVE_OK = 200"

definition s9b_the_footprint_still_matches_the_live_backend :: "'v scenario_env \<Rightarrow> run_context \<Rightarrow> assertion list" where
  "s9b_the_footprint_still_matches_the_live_backend S ctx =
     (let names = [NAME_COUNTERS_ABSENT, NAME_REASON_LOAD, NAME_CONTENT_EMPTY]; J = sv_json S
      in case (cx_erosion_probe_body ctx, cx_erosion_probe_status ctx) of
           (Some body, Some status) \<Rightarrow>
             if status \<noteq> NATIVE_OK then
               skips names (asc ''the backend answered '' @ show_nat status
                 @ asc '', so this is not the response whose footprint is being checked '' @ EM_DASH
                 @ asc '' the probe asked the wrong question, which says nothing about erosion'')
             else
               (case json_of_bytes J body of
                  None \<Rightarrow> skips names (asc ''the backend answered '' @ show_nat status @ asc '' with a body that is not JSON'')
                | Some parsed \<Rightarrow>
                    let has = (\<lambda>k. js_get J parsed (asc k) \<noteq> None)
                    in [assert_that NAME_COUNTERS_ABSENT
                          ((has ''message'' \<and> has ''done'') \<and> \<not> has ''eval_count'' \<and> \<not> has ''prompt_eval_count''),
                        assert_that NAME_REASON_LOAD
                          (Option.bind (js_get J parsed (asc ''done_reason'')) (js_text J) = Some (asc ''load'')),
                        assert_that NAME_CONTENT_EMPTY
                          (Option.bind (js_get J parsed (asc ''message'')) (\<lambda>m.
                             Option.bind (js_get J m (asc ''content'')) (js_text J)) = Some [])])
         | _ \<Rightarrow> skips names (asc ''the erosion probe did not run, so nothing was asked of the live backend''))"

definition NAME_RUN_SURVIVES :: ustr where "NAME_RUN_SURVIVES = asc ''the mixed trio completes without breaking or degrading''"
definition NAME_SOMEONE_DECLARES :: ustr where
  "NAME_SOMEONE_DECLARES = asc ''the seat that cannot honour the control declares it, naming its backend''"
definition NAME_DISTINGUISHABLE :: ustr where
  "NAME_DISTINGUISHABLE = asc ''the declaration is distinguishable from a measured absence of reasoning''"

fun declares_backend :: "reasoning_state \<Rightarrow> bool" where
  "declares_backend (Unsupported backend _ _) \<longleftrightarrow> backend \<noteq> []"
| "declares_backend _ \<longleftrightarrow> False"

fun is_unsupported :: "reasoning_state \<Rightarrow> bool" where
  "is_unsupported (Unsupported _ _ _) = True"
| "is_unsupported _ = False"

definition s12_a_mixed_trio_honours_and_declares :: "run_context \<Rightarrow> assertion list" where
  "s12_a_mixed_trio_honours_and_declares ctx =
     (case cx_report ctx of
        None \<Rightarrow> skips [NAME_RUN_SURVIVES, NAME_SOMEONE_DECLARES, NAME_DISTINGUISHABLE]
          (error_or (asc ''the run never happened'') ctx)
      | Some report \<Rightarrow>
          let states = map co_reasoning (completions_of report)
          in [assert_that NAME_RUN_SURVIVES (\<not> mr_degraded report \<and> length (mr_agents report) = 3),
              assert_that NAME_SOMEONE_DECLARES (list_ex declares_backend states),
              assert_that NAME_DISTINGUISHABLE (states \<noteq> [] \<and> list_ex (\<lambda>s. \<not> is_unsupported s) states)])"

definition NAME_CONVERGES :: ustr where "NAME_CONVERGES = asc ''every seat produced a verdict on the large payload''"
definition NAME_NOT_REASONING :: ustr where "NAME_NOT_REASONING = asc ''no seat spent the run reasoning''"
definition NAME_BUDGET_INTACT :: ustr where "NAME_BUDGET_INTACT = asc ''and no completion came near the output budget''"
definition CONVERGED_TOKEN_CEILING :: nat where "CONVERGED_TOKEN_CEILING = 8000"

fun reasoned :: "reasoning_state \<Rightarrow> bool" where
  "reasoned (Measured n _) \<longleftrightarrow> n > 0"
| "reasoned _ \<longleftrightarrow> False"

definition none_or :: "(nat \<Rightarrow> bool) \<Rightarrow> nat option \<Rightarrow> bool" where
  "none_or P x = (case x of None \<Rightarrow> True | Some n \<Rightarrow> P n)"

definition s8b_disabling_reasoning_makes_the_large_payload_converge :: "run_context \<Rightarrow> assertion list" where
  "s8b_disabling_reasoning_makes_the_large_payload_converge ctx =
     (case cx_report ctx of
        None \<Rightarrow> skips [NAME_CONVERGES, NAME_NOT_REASONING, NAME_BUDGET_INTACT]
          (error_or (asc ''the run never happened'') ctx)
      | Some report \<Rightarrow>
          [assert_that NAME_CONVERGES (\<not> mr_degraded report \<and> length (mr_agents report) = 3),
           assert_that NAME_NOT_REASONING
             (some_and_all (\<lambda>r. \<not> reasoned (co_reasoning r)) (completions_of report)),
           assert_that NAME_BUDGET_INTACT
             (some_and_all (\<lambda>r. none_or (\<lambda>n. n < CONVERGED_TOKEN_CEILING) (co_completion_tokens r))
               (completions_of report))])"

definition e2_scenarios :: "'v scenario_env \<Rightarrow> scenario list" where
  "e2_scenarios S =
     [scenario_of ''S8'' (FromRun HappySmall) NeedsBackend s8_completions_are_native_only,
      scenario_of ''S8b'' (FromRun Large62kNoReasoning) NeedsBackend
        s8b_disabling_reasoning_makes_the_large_payload_converge,
      scenario_of ''S3'' (FromRun Large62k) NeedsBackend
        s3_the_large_payload_loses_no_seat_to_misclassification,
      scenario_of ''S9'' (FromRun CrateDefectRun) NeedsBackend s9_a_defect_of_ours_aborts_the_run,
      scenario_of ''S9b'' FromPreflight NeedsBackend (s9b_the_footprint_still_matches_the_live_backend S),
      scenario_of ''S10'' (FromRun Large62k) NeedsBackend s10_the_large_payload_costs_no_seat,
      scenario_of ''S11'' (FromRun Large62k) NeedsBackend s11_the_trace_flag_adds_the_text,
      scenario_of ''S12'' (FromRun MixedTrio) NeedsBackend s12_a_mixed_trio_honours_and_declares,
      scenario_of ''S13'' (FromRun HappySmall) NeedsBackend s13_every_completion_is_recorded]"

section \<open>e.rs\<close>

definition NAME_WHY_INELIGIBLE :: ustr where
  "NAME_WHY_INELIGIBLE = asc ''a seat that never rotated still reports which candidates were not eligible, and why''"
definition NAME_ALL_CONDITIONS :: ustr where
  "NAME_ALL_CONDITIONS = asc ''every failing condition is reported, not only the first''"

definition eligibilities_of :: "magi_report \<Rightarrow> candidate_eligibility list" where
  "eligibilities_of report = concat (mage_values (mr_pool_eligibility report))"

definition s_e2_why_a_candidate_was_not_eligible :: "run_context \<Rightarrow> assertion list" where
  "s_e2_why_a_candidate_was_not_eligible ctx =
     (case cx_report ctx of
        None \<Rightarrow> skips [NAME_WHY_INELIGIBLE] (error_or (asc ''the run never happened'') ctx)
      | Some report \<Rightarrow>
          [assert_that NAME_WHY_INELIGIBLE (filter (\<lambda>c. ce_causes c \<noteq> []) (eligibilities_of report) \<noteq> [])])"

definition s_e3_all_failing_conditions :: "run_context \<Rightarrow> assertion list" where
  "s_e3_all_failing_conditions ctx =
     (case cx_report ctx of
        None \<Rightarrow> skips [NAME_ALL_CONDITIONS] (error_or (asc ''the run never happened'') ctx)
      | Some report \<Rightarrow>
          [assert_that NAME_ALL_CONDITIONS (list_ex (\<lambda>c. length (ce_causes c) \<ge> 2) (eligibilities_of report))])"

definition e_scenarios :: "scenario list" where
  "e_scenarios =
     [scenario_of ''S-E2'' (FromRun PoolEligibility) NeedsBackend s_e2_why_a_candidate_was_not_eligible,
      scenario_of ''S-E3'' (FromRun PoolEligibility) NeedsBackend s_e3_all_failing_conditions]"

section \<open>f.rs\<close>

definition NAME_F1_PER_SEAT :: ustr where "NAME_F1_PER_SEAT = asc ''the derived worst case is per seat and does not bound anything''"
definition NAME_F2A_CHAIN :: ustr where "NAME_F2A_CHAIN = asc ''the agent ceiling covers the chain worst case''"
definition NAME_F2B :: ustr where
  "NAME_F2B = asc ''an exhausted budget is reported as a TYPED abandonment (OUT OF SCOPE here: the variant is stringified before it leaves the crate, and this harness does not wrap its providers in RetryProvider; the crate'' @ QUOTE @ asc ''s own tests match it)''"
definition NAME_F3_COUNT :: ustr where
  "NAME_F3_COUNT = asc ''an attempt-limited class stops at its own count (OUT OF SCOPE here: this harness does not wrap its providers in RetryProvider, so no attempt count reaches the wire; verified inside the crate instead)''"
definition NAME_F4 :: ustr where
  "NAME_F4 = asc ''the configuration warning fires on a bad relation and not on the defaults (OUT OF SCOPE here: it leaves only through tracing and dangerous_settings is pub(crate); observing it would need a new dependency to re-check a construction property)''"
definition NAME_F5_NO_ERR :: ustr where "NAME_F5_NO_ERR = asc ''no time value makes construction fail''"

definition s_f1 :: "run_context \<Rightarrow> assertion list" where
  "s_f1 ctx =
     (case cx_timings ctx of
        None \<Rightarrow> [assertion_skip NAME_F1_PER_SEAT (asc ''no trio was built, so there is no configured budget to read'')]
      | Some t \<Rightarrow>
          let calls = (if tm_schema_retry t then 2 else 1);
              expected = tm_agent_ceiling t * calls * (1 + tm_rotations_configured t)
          in [assert_that NAME_F1_PER_SEAT (tm_worst_case_per_seat t = expected)])"

definition s_f2a :: "run_context \<Rightarrow> assertion list" where
  "s_f2a ctx =
     (case cx_timings ctx of
        None \<Rightarrow> [assertion_skip NAME_F2A_CHAIN (asc ''no trio was built, so there is no budget to check the ceiling against'')]
      | Some t \<Rightarrow>
          let chain = tm_retry_client_timeout t * (1 + tm_retry_limited_max t)
                + tm_retry_base_delay t * tm_retry_limited_max t
          in [assert_that NAME_F2A_CHAIN (chain \<le> tm_agent_ceiling t)])"

definition s_f2b :: "run_context \<Rightarrow> assertion list" where
  "s_f2b ctx = [\<lparr> as_name = NAME_F2B, as_state = OutOfScope \<rparr>]"

definition s_f3 :: "run_context \<Rightarrow> assertion list" where
  "s_f3 ctx = [\<lparr> as_name = NAME_F3_COUNT, as_state = OutOfScope \<rparr>]"

definition s_f4 :: "run_context \<Rightarrow> assertion list" where
  "s_f4 ctx = [\<lparr> as_name = NAME_F4, as_state = OutOfScope \<rparr>]"

definition s_f5 :: "'v scenario_env \<Rightarrow> run_context \<Rightarrow> assertion list" where
  "s_f5 S ctx =
     [assert_that NAME_F5_NO_ERR (is_ok (build_with_absurd_timings (sv_fmt S) (sv_world S) (secs 1)))]"

definition f_scenarios :: "'v scenario_env \<Rightarrow> scenario list" where
  "f_scenarios S =
     [scenario_of ''S-F1'' FromSession NeedsNone s_f1,
      scenario_of ''S-F2a'' FromSession NeedsNone s_f2a,
      scenario_of ''S-F2b'' FromSession NeedsNone s_f2b,
      scenario_of ''S-F3'' FromSession NeedsNone s_f3,
      scenario_of ''S-F4'' FromSession NeedsNone s_f4,
      scenario_of ''S-F5'' FromSession NeedsNone (s_f5 S)]"

section \<open>r5.rs\<close>

definition NAME_RECOVERED_RUN_COMPLETES :: ustr where
  "NAME_RECOVERED_RUN_COMPLETES = asc ''a run whose seats rotated past a connection blip completes with three verdicts''"
definition NAME_BLIP_REALLY_HAPPENED :: ustr where
  "NAME_BLIP_REALLY_HAPPENED = asc ''every cut seat rotated away from its connection''"
definition NAME_DEAD_ENDPOINT_ABORTS :: ustr where
  "NAME_DEAD_ENDPOINT_ABORTS = asc ''a dead endpoint aborts the run with a typed EndpointDown''"
definition FULL_TRIO :: nat where "FULL_TRIO = 3"
definition NEVER_HAPPENED :: ustr where "NEVER_HAPPENED = asc ''the run never happened''"

definition seats_that_left_on_transport :: "magi_report \<Rightarrow> nat" where
  "seats_that_left_on_transport report =
     length (filter (hop_is (\<lambda>hop. re_kind hop = KTransport)) (mage_values (mr_rotations report)))"

definition s_r5a_recovered_run_is_not_aborted :: "run_context \<Rightarrow> assertion list" where
  "s_r5a_recovered_run_is_not_aborted ctx =
     (case (cx_report ctx, cx_error ctx) of
        (Some report, _) \<Rightarrow>
          [assert_that NAME_RECOVERED_RUN_COMPLETES
             (length (mr_agents report) = FULL_TRIO \<and> \<not> mr_degraded report),
           assert_that NAME_BLIP_REALLY_HAPPENED (seats_that_left_on_transport report = BLIP_SEATS)]
      | (None, Some e) \<Rightarrow>
          [assert_that NAME_RECOVERED_RUN_COMPLETES False,
           assertion_skip NAME_BLIP_REALLY_HAPPENED
             (asc ''the run aborted before any rotation could be read: '' @ e)]
      | (None, None) \<Rightarrow>
          skips [NAME_RECOVERED_RUN_COMPLETES, NAME_BLIP_REALLY_HAPPENED] NEVER_HAPPENED)"

definition s_r5b_dead_endpoint_still_aborts :: "run_context \<Rightarrow> assertion list" where
  "s_r5b_dead_endpoint_still_aborts ctx =
     (if cx_report ctx = None \<and> cx_error ctx = None then skips [NAME_DEAD_ENDPOINT_ABORTS] NEVER_HAPPENED
      else [assert_that NAME_DEAD_ENDPOINT_ABORTS (cx_reported_endpoint_down ctx)])"

definition r5_scenarios :: "scenario list" where
  "r5_scenarios =
     [scenario_of ''S-R5a'' (FromRun EndpointBlip) NeedsBackend s_r5a_recovered_run_is_not_aborted,
      scenario_of ''S-R5b'' (FromRun EndpointDownRun) NeedsBackend s_r5b_dead_endpoint_still_aborts]"

section \<open>r7.rs\<close>

definition NAME_DEFAULT_DIALECT_CUTS :: ustr where
  "NAME_DEFAULT_DIALECT_CUTS = asc ''the default dialect'' @ QUOTE @ asc ''s cap reaches the backend: the completion comes back cut at the cap''"
definition NAME_DEFAULT_DIALECT_READING :: ustr where
  "NAME_DEFAULT_DIALECT_READING = asc ''what the backend reported for the capped completion, beside the verdict''"
definition NAME_MODERN_DIALECT_RECORDED :: ustr where
  "NAME_MODERN_DIALECT_RECORDED = asc ''the modern dialect'' @ QUOTE @ asc ''s cap against this backend is recorded, not verified: a cut here means the backend now honours the field and the default'' @ QUOTE @ asc ''s justification has changed''"

definition measured_or_skip :: "run_context \<Rightarrow> ustr \<Rightarrow> (completion_evidence, assertion) result" where
  "measured_or_skip ctx name =
     (case (cx_completion ctx, cx_error ctx) of
        (Some e, _) \<Rightarrow> Ok e
      | (None, Some err) \<Rightarrow>
          Err (assertion_skip name (asc ''the completion failed before anything could be measured: '' @ err))
      | (None, None) \<Rightarrow> Err (assertion_skip name NEVER_HAPPENED))"

definition is_cut_at_the_cap :: "completion_evidence \<Rightarrow> bool" where
  "is_cut_at_the_cap e \<longleftrightarrow>
     tm_finish (ev_telemetry e) = Some Length
     \<and> none_or (\<lambda>n. n \<le> ev_cap e) (tm_completion_tokens (ev_telemetry e))"

fun finish_label :: "finish_reason option \<Rightarrow> ustr" where
  "finish_label None = asc ''unreported''"
| "finish_label (Some Stop) = asc ''stop''"
| "finish_label (Some Length) = asc ''length''"
| "finish_label (Some Load) = asc ''load''"
| "finish_label (Some (OtherReason word)) = word"

definition token_count :: "nat option \<Rightarrow> ustr \<Rightarrow> ustr" where
  "token_count n what =
     (case n of Some k \<Rightarrow> show_nat k @ [SPC] @ what @ asc '' tokens''
      | None \<Rightarrow> what @ asc '' tokens not counted'')"

definition render_reading :: "completion_evidence \<Rightarrow> ustr" where
  "render_reading e =
     asc ''cap '' @ show_nat (ev_cap e) @ asc '': finish '' @ finish_label (tm_finish (ev_telemetry e)) @ asc '', ''
     @ token_count (tm_completion_tokens (ev_telemetry e)) (asc ''completion'') @ asc '', ''
     @ token_count (tm_prompt_tokens (ev_telemetry e)) (asc ''prompt'')"

definition s_r7a_default_dialect_is_cut_at_the_cap :: "run_context \<Rightarrow> assertion list" where
  "s_r7a_default_dialect_is_cut_at_the_cap ctx =
     (case measured_or_skip ctx NAME_DEFAULT_DIALECT_CUTS of
        Err skip \<Rightarrow> [skip, \<lparr> as_name = NAME_DEFAULT_DIALECT_READING, as_state = as_state skip \<rparr>]
      | Ok evidence \<Rightarrow>
          [if tm_finish (ev_telemetry evidence) = None then
             assertion_skip NAME_DEFAULT_DIALECT_CUTS
               (asc ''the backend reported no finish reason, so whether the cap cut the completion cannot be read'')
           else assert_that NAME_DEFAULT_DIALECT_CUTS (is_cut_at_the_cap evidence),
           \<lparr> as_name = NAME_DEFAULT_DIALECT_READING, as_state = Observed (render_reading evidence) \<rparr>])"

definition s_r7b_modern_dialect_is_recorded :: "run_context \<Rightarrow> assertion list" where
  "s_r7b_modern_dialect_is_recorded ctx =
     (case measured_or_skip ctx NAME_MODERN_DIALECT_RECORDED of
        Err skip \<Rightarrow> [skip]
      | Ok evidence \<Rightarrow>
          if tm_finish (ev_telemetry evidence) = None then
            [assertion_skip NAME_MODERN_DIALECT_RECORDED
              (asc ''the backend reported no finish reason, so whether it discarded the cap cannot be read'')]
          else if is_cut_at_the_cap evidence then [assert_that NAME_MODERN_DIALECT_RECORDED False]
          else
            let discarded = none_or (\<lambda>n. n > ev_cap evidence) (tm_completion_tokens (ev_telemetry evidence));
                lead = (if discarded then asc ''the backend discarded the cap''
                        else asc ''not cut at the cap '' @ EM_DASH @ asc '' the model may have had nothing to cut'')
            in [\<lparr> as_name = NAME_MODERN_DIALECT_RECORDED,
                  as_state = Observed (lead @ [SPC] @ EM_DASH @ [SPC] @ render_reading evidence) \<rparr>])"

definition r7_scenarios :: "scenario list" where
  "r7_scenarios =
     [scenario_of ''S-R7a'' (FromRun DialectMaxTokens) NeedsBackend s_r7a_default_dialect_is_cut_at_the_cap,
      scenario_of ''S-R7b'' (FromRun DialectMaxCompletionTokens) NeedsBackend s_r7b_modern_dialect_is_recorded]"

section \<open>The whole registry\<close>

definition all_scenarios :: "'v scenario_env \<Rightarrow> scenario list" where
  "all_scenarios S =
     e1_scenarios S @ e2_scenarios S @ f_scenarios S @ e_scenarios @ r5_scenarios @ r7_scenarios"

end
