(* ===== verification/Smoke_Main.thy ===== *)
theory Smoke_Main
  imports Smoke_Scenarios
begin

text \<open>
  \<open>smoke/src/main.rs\<close>: the command line, the dispatch of the runs with their measured cost, the
  evaluation of the scenarios against what was observed, the feature matrix, and the session as a
  whole, from the arguments to the exit code and the certificate on disk. What the operating
  system answers along the way is \<open>session_env\<close>; lines printed for the operator are not modelled.
\<close>

section \<open>The command line\<close>

record cli =
  cli_smoke_2 :: bool
  cli_no_backend :: bool
  cli_print_payload_size :: bool
  cli_json :: bool
  cli_break_proxy :: bool
  cli_build_matrix :: bool
  cli_config :: "ustr option"
  cli_round :: nat

definition DEFAULT_ROUND :: nat where "DEFAULT_ROUND = 1"

definition cli_default :: cli where
  "cli_default =
     \<lparr> cli_smoke_2 = False, cli_no_backend = False, cli_print_payload_size = False, cli_json = False,
       cli_break_proxy = False, cli_build_matrix = False, cli_config = None, cli_round = DEFAULT_ROUND \<rparr>"

definition rendered_parts :: "cli \<Rightarrow> ustr list" where
  "rendered_parts c =
     (if cli_smoke_2 c then [asc ''--smoke-2''] else [])
     @ (if cli_no_backend c then [asc ''--no-backend''] else [])
     @ (if cli_json c then [asc ''--json''] else [])
     @ (if cli_break_proxy c then [asc ''--break-proxy''] else [])
     @ (if cli_build_matrix c then [asc ''--build-matrix''] else [])
     @ (case cli_config c of Some path \<Rightarrow> [asc ''--config '' @ path] | None \<Rightarrow> [])
     @ (if cli_round c \<noteq> DEFAULT_ROUND then [asc ''--round '' @ show_nat (cli_round c)] else [])"

definition rendered_flags :: "cli \<Rightarrow> ustr" where
  "rendered_flags c = join [SPC] (rendered_parts c)"

text \<open>How the standard library words a failed parse of an unsigned number.\<close>

definition parse_int_error :: "ustr \<Rightarrow> ustr" where
  "parse_int_error raw =
     (let ds = (case raw of c # t \<Rightarrow> if c = 43 then t else raw | [] \<Rightarrow> [])
      in if raw = [] then asc ''cannot parse integer from empty string''
         else if ds \<noteq> [] \<and> list_all is_ascii_digit ds then asc ''number too large to fit in target type''
         else asc ''invalid digit found in string'')"

fun parse_args :: "rust_fmt \<Rightarrow> ustr list \<Rightarrow> cli \<Rightarrow> (cli, ustr) result" where
  "parse_args F [] c = Ok c"
| "parse_args F (a # rest) c =
     (if a = asc ''--smoke-2'' then parse_args F rest (c\<lparr> cli_smoke_2 := True \<rparr>)
      else if a = asc ''--no-backend'' then parse_args F rest (c\<lparr> cli_no_backend := True \<rparr>)
      else if a = asc ''--print-payload-size'' then parse_args F rest (c\<lparr> cli_print_payload_size := True \<rparr>)
      else if a = asc ''--json'' then parse_args F rest (c\<lparr> cli_json := True \<rparr>)
      else if a = asc ''--break-proxy'' then parse_args F rest (c\<lparr> cli_break_proxy := True \<rparr>)
      else if a = asc ''--build-matrix'' then parse_args F rest (c\<lparr> cli_build_matrix := True \<rparr>)
      else if a = asc ''--config'' then
        (case rest of
           [] \<Rightarrow> Err (asc ''--config needs a path'')
         | path # rest' \<Rightarrow> parse_args F rest' (c\<lparr> cli_config := Some path \<rparr>))
      else if a = asc ''--round'' then
        (case rest of
           [] \<Rightarrow> Err (asc ''--round needs a number'')
         | raw # rest' \<Rightarrow>
             (case parse_u32 raw of
                Some n \<Rightarrow> parse_args F rest' (c\<lparr> cli_round := n \<rparr>)
              | None \<Rightarrow> Err (asc ''--round '' @ dbg_str F raw @ asc '' is not a number: '' @ parse_int_error raw)))
      else Err (asc ''unknown flag '' @ dbg_str F a
        @ asc ''; known: --smoke-2 --no-backend --print-payload-size --json --break-proxy --build-matrix --config <path> --round <n>''))"

definition parse_from :: "rust_fmt \<Rightarrow> ustr list \<Rightarrow> (cli, ustr) result" where
  "parse_from F argv = parse_args F (drop 1 argv) cli_default"

definition cycle_run_of :: "cli \<Rightarrow> cycle_run" where
  "cycle_run_of c = (if cli_smoke_2 c then SecondCycle else FirstCycle)"

section \<open>Dispatch\<close>

text \<open>\<open>execute\<close> is the runner (trait \<open>ExecutesRuns\<close>), \<open>elapsed\<close> what the clock says a run took.\<close>

fun dispatch_measured ::
  "(run_spec \<Rightarrow> 'r \<Rightarrow> run_result \<times> 'r) \<Rightarrow> (run_id \<Rightarrow> duration) \<Rightarrow> run_spec list \<Rightarrow> cost_ledger \<Rightarrow> 'r
     \<Rightarrow> run_result list \<times> cost_ledger \<times> 'r" where
  "dispatch_measured execute elapsed [] ledger r = ([], ledger, r)"
| "dispatch_measured execute elapsed (spec # specs) ledger r =
     (let (res, r') = execute spec r;
          ledger' = (if uses_backend (rs_id spec) then ledger_measure (elapsed (rs_id spec)) ledger else ledger);
          (results, ledger'', r'') = dispatch_measured execute elapsed specs ledger' r'
      in (res # results, ledger'', r''))"

text \<open>The runner of the session: the attempts of a run happen in surroundings of their own.\<close>

definition runner_execute ::
  "rust_fmt \<Rightarrow> net_lib \<Rightarrow> 'v json_lib \<Rightarrow> ustr \<Rightarrow> (run_id \<Rightarrow> attempt_env \<times> attempt_env) \<Rightarrow> run_spec \<Rightarrow> runner
     \<Rightarrow> run_result \<times> runner" where
  "runner_execute F N J manifest_dir attempts spec R =
     (let (E, E') = attempts (rs_id spec);
          (res, spec', p) = execute_one F N J manifest_dir (ru_config R) E E' spec (ru_proxy R)
      in (res, R\<lparr> ru_proxy := p \<rparr>))"

section \<open>Evaluation\<close>

record session_facts =
  se_repo_status_before :: "ustr option"
  se_timings :: "timings option"

definition absent_context :: "run_id \<Rightarrow> run_context" where
  "absent_context run =
     \<lparr> cx_run = run, cx_erosion_probe_body = None, cx_erosion_probe_status = None, cx_report = None,
       cx_error = None, cx_error_class = None, cx_reported_endpoint_down = False, cx_records = [],
       cx_proxy_degraded = False, cx_budget_exceeded = None, cx_direct_probe_body = None,
       cx_direct_probe_status = None, cx_probe_record = None, cx_probe_sent_body = None,
       cx_injected_agent = None, cx_build_matrix = None, cx_repo_status_before = None, cx_timings = None,
       cx_completion = None \<rparr>"

definition run_view :: "transparency_probe \<Rightarrow> erosion_probe \<Rightarrow> run_result \<Rightarrow> run_context" where
  "run_view tp ep r =
     (absent_context NoBackend)\<lparr> cx_run := rn_run r, cx_report := rn_report r, cx_error := rn_error r,
       cx_error_class := rn_error_class r, cx_reported_endpoint_down := rn_reported_endpoint_down r,
       cx_records := rn_records r, cx_proxy_degraded := rn_proxy_degraded r,
       cx_budget_exceeded := rn_budget_exceeded r, cx_direct_probe_body := tp_direct_response tp,
       cx_direct_probe_status := tp_direct_status tp, cx_probe_record := tp_record tp,
       cx_probe_sent_body := tp_sent_body tp, cx_erosion_probe_body := ep_response ep,
       cx_erosion_probe_status := ep_status ep, cx_injected_agent := rn_injected_agent r,
       cx_completion := rn_completion r \<rparr>"

definition result_of :: "run_id \<Rightarrow> run_outcome \<Rightarrow> run_result list \<Rightarrow> run_result option" where
  "result_of run out results = find (\<lambda>r. rn_run r = run \<and> rn_outcome r = out) results"

definition one_row :: "scenario \<Rightarrow> run_id option \<Rightarrow> ustr \<Rightarrow> scenario_state \<Rightarrow> duration option \<Rightarrow> assertion_row list" where
  "one_row sc run name st over =
     [\<lparr> rw_scenario_id = sn_id sc, rw_scenario = name, rw_run_id = run, rw_state = st, rw_budget_exceeded = over \<rparr>]"

definition asserted :: "scenario \<Rightarrow> run_id option \<Rightarrow> run_context \<Rightarrow> duration option \<Rightarrow> assertion_row list" where
  "asserted sc run ctx over = rows_of (sn_id sc) run (sn_assert sc ctx) over"

definition evaluate_run ::
  "run_result list \<Rightarrow> transparency_probe \<Rightarrow> erosion_probe \<Rightarrow> scenario \<Rightarrow> run_id \<Rightarrow> assertion_row list" where
  "evaluate_run results tp ep sc run =
     (case result_of run PanickedInCrate results of
        Some _ \<Rightarrow> one_row sc (Some run) (asc ''the crate panicked during this run'') Fail None
      | None \<Rightarrow>
     (case result_of run CannotTest results of
        Some r \<Rightarrow>
          one_row sc (Some run) (asc ''the run could not be started'')
            (Skip (case rn_error r of Some e \<Rightarrow> e | None \<Rightarrow> asc ''no reason was recorded'')) None
      | None \<Rightarrow>
     (case result_of run TimedOut results of
        Some r \<Rightarrow>
          one_row sc (Some run) (asc ''the run exceeded its time budget before it could be read'')
            TimeoutState (rn_budget_exceeded r)
      | None \<Rightarrow>
     (case find (\<lambda>r. rn_run r = run) results of
        Some r \<Rightarrow> asserted sc (Some run) (run_view tp ep r) (rn_budget_exceeded r)
      | None \<Rightarrow> asserted sc (Some run) (absent_context run) None))))"

definition evaluate_scenario ::
  "run_result list \<Rightarrow> transparency_probe \<Rightarrow> erosion_probe \<Rightarrow> (ustr \<times> build_outcome) list option \<Rightarrow> bool
     \<Rightarrow> session_facts \<Rightarrow> scenario \<Rightarrow> assertion_row list" where
  "evaluate_scenario results tp ep matrix no_backend session sc =
     (if no_backend \<and> sn_backend_tag sc = NeedsBackend then
        one_row sc None (asc ''not part of the --no-backend partition'') OutOfScope None
      else
        let ctx = absent_context NoBackend
        in case sn_source sc of
             FromRun run \<Rightarrow> evaluate_run results tp ep sc run
           | FromPreflight \<Rightarrow>
               asserted sc None (ctx\<lparr> cx_erosion_probe_body := ep_response ep, cx_erosion_probe_status := ep_status ep \<rparr>) None
           | FromSession \<Rightarrow>
               asserted sc None (ctx\<lparr> cx_repo_status_before := se_repo_status_before session,
                 cx_timings := se_timings session \<rparr>) None
           | FromBuild \<Rightarrow> asserted sc None (ctx\<lparr> cx_build_matrix := matrix \<rparr>) None)"

definition evaluate ::
  "scenario list \<Rightarrow> run_result list \<Rightarrow> transparency_probe \<Rightarrow> erosion_probe
     \<Rightarrow> (ustr \<times> build_outcome) list option \<Rightarrow> bool \<Rightarrow> session_facts \<Rightarrow> assertion_row list" where
  "evaluate scenarios results tp ep matrix no_backend session =
     concat (map (evaluate_scenario results tp ep matrix no_backend session) scenarios)"

definition stopped_context :: "ustr \<Rightarrow> run_context" where
  "stopped_context rendered =
     (absent_context NoBackend)\<lparr> cx_error := Some rendered, cx_error_class := Some Environment \<rparr>"

definition evaluate_preflight_only :: "scenario list \<Rightarrow> preflight_error \<Rightarrow> assertion_row list" where
  "evaluate_preflight_only scenarios err =
     (let rendered = show_preflight_error err
      in concat (map (\<lambda>sc.
           if sn_source sc = FromPreflight then asserted sc None (stopped_context rendered) None
           else one_row sc None (asc ''not evaluated: the preflight stopped before any run'') (Skip rendered) None)
           scenarios))"

section \<open>The feature matrix\<close>

definition COMPILE_REFUSAL_MARKER :: ustr where "COMPILE_REFUSAL_MARKER = asc ''could not compile''"
definition RUSTC_ABORT_MARKER :: ustr where "RUSTC_ABORT_MARKER = asc ''aborting due to''"
definition OUT_OF_SERVICE_MARKER :: ustr where "OUT_OF_SERVICE_MARKER = asc ''out of service since 4.1.0''"
definition BOTH_MODES_MARKER :: ustr where "BOTH_MODES_MARKER = asc ''mutually exclusive''"
definition NEITHER_MODE_MARKER :: ustr where "NEITHER_MODE_MARKER = asc ''must be enabled''"

definition FEATURE_MATRIX :: "(ustr \<times> ustr option) list" where
  "FEATURE_MATRIX =
     [(asc ''tree'', None), (asc ''published'', Some OUT_OF_SERVICE_MARKER),
      (asc ''tree,published'', Some BOTH_MODES_MARKER), ([], Some NEITHER_MODE_MARKER)]"

record cargo_output =
  cg_success :: bool
  cg_stderr :: "byte list"

definition own_diagnostics :: "ustr \<Rightarrow> ustr list" where
  "own_diagnostics stderr =
     filter (\<lambda>l. starts_with l (asc ''error'') \<and> \<not> contains l COMPILE_REFUSAL_MARKER
       \<and> \<not> contains l RUSTC_ABORT_MARKER) (str_lines stderr)"

definition build_outcome_of :: "cargo_output option \<Rightarrow> ustr option \<Rightarrow> build_outcome" where
  "build_outcome_of out marker =
     (case out of
        None \<Rightarrow> CouldNotRun
      | Some o' \<Rightarrow>
          if cg_success o' then Built
          else
            let wanted = (case marker of Some m \<Rightarrow> m | None \<Rightarrow> COMPILE_REFUSAL_MARKER);
                stderr = from_utf8_lossy (cg_stderr o')
            in if contains stderr wanted then
                 if wanted = OUT_OF_SERVICE_MARKER \<and> length (own_diagnostics stderr) \<noteq> 1 then CouldNotRun
                 else DidNotBuild
               else CouldNotRun)"

definition NO_FEATURES_TAG :: ustr where "NO_FEATURES_TAG = asc ''none''"

definition matrix_tag :: "ustr \<Rightarrow> ustr" where
  "matrix_tag combo = (if combo = [] then NO_FEATURES_TAG else map (\<lambda>c. if c = 44 then 45 else c) combo)"

definition matrix_args :: "ustr \<Rightarrow> ustr list" where
  "matrix_args combo =
     [asc ''check'', asc ''--no-default-features'', asc ''--quiet'']
     @ (if combo = [] then [] else [asc ''--features'', combo])"

text \<open>\<open>cargo\<close> is what running cargo gives, for its arguments and its target directory.\<close>

definition run_feature_matrix ::
  "(ustr list \<Rightarrow> ustr \<Rightarrow> cargo_output option) \<Rightarrow> ustr \<Rightarrow> (ustr \<times> build_outcome) list" where
  "run_feature_matrix cargo temp_dir =
     map (\<lambda>(combo, marker).
       (combo, build_outcome_of (cargo (matrix_args combo) (feature_matrix_target_dir temp_dir (matrix_tag combo))) marker))
       FEATURE_MATRIX"

section \<open>The facts of a certificate\<close>

definition CRATE_UNDER_TEST :: ustr where "CRATE_UNDER_TEST = asc ''magi-core''"

text \<open>\<open>is_null\<close> tells whether a JSON value is null; a missing member counts as null.\<close>

definition version_of_crate_under_test :: "'v json_lib \<Rightarrow> ('v \<Rightarrow> bool) \<Rightarrow> 'v \<Rightarrow> ustr \<Rightarrow> ustr option" where
  "version_of_crate_under_test J is_null metadata mode =
     (let wants_path_source = (mode = asc ''tree'')
      in Option.bind (Option.bind (js_get J metadata (asc ''packages'')) (js_items J)) (\<lambda>ps.
         Option.bind (find (\<lambda>p.
             Option.bind (js_get J p (asc ''name'')) (js_text J) = Some CRATE_UNDER_TEST
             \<and> (case js_get J p (asc ''source'') of None \<Rightarrow> True | Some v \<Rightarrow> is_null v) = wants_path_source) ps)
           (\<lambda>p. Option.bind (js_get J p (asc ''version'')) (js_text J))))"

definition crate_version :: "'v json_lib \<Rightarrow> ('v \<Rightarrow> bool) \<Rightarrow> byte list option \<Rightarrow> ustr \<Rightarrow> ustr option" where
  "crate_version J is_null metadata_out mode =
     Option.bind metadata_out (\<lambda>out.
     Option.bind (json_of_bytes J out) (\<lambda>v. version_of_crate_under_test J is_null v mode))"

definition repo_status_of :: "git \<Rightarrow> ustr \<Rightarrow> ustr option" where
  "repo_status_of git dir = (case status_porcelain git dir of Ok s \<Rightarrow> Some s | Err _ \<Rightarrow> None)"

definition git_commit :: "git \<Rightarrow> ustr \<Rightarrow> ustr option" where
  "git_commit git dir =
     (case git [asc ''rev-parse'', asc ''--short'', asc ''HEAD''] dir of
        Err _ \<Rightarrow> None
      | Ok out \<Rightarrow>
          if \<not> go_success out then None
          else let s = trim (from_utf8_lossy (go_stdout out)) in if s = [] then None else Some s)"

definition payload_size_target :: "rust_fmt \<Rightarrow> toml_lib \<Rightarrow> smoke_host \<Rightarrow> ustr option \<Rightarrow> (nat, ustr) result" where
  "payload_size_target F L H path =
     and_then (load_or_fail F L H path) (\<lambda>(c, _). Ok (sc_payload_target_bytes c))"

section \<open>The session\<close>

record 'v session_env =
  sm_fmt :: rust_fmt
  sm_toml :: toml_lib
  sm_json :: "'v json_lib"
  sm_is_null :: "'v \<Rightarrow> bool"
  sm_host :: smoke_host
  sm_manifest_dir :: ustr
  sm_temp_dir :: ustr
  sm_tree :: "ustr \<Rightarrow> fs_listing"
  sm_defect_body :: "byte list"
  sm_preflight :: preflight_env
  sm_git_before :: git
  sm_git_commit :: git
  sm_cargo :: "ustr list \<Rightarrow> ustr \<Rightarrow> cargo_output option"
  sm_metadata :: "byte list option"
  sm_mode :: ustr
  sm_now :: "duration option"
  sm_net :: net_lib
  sm_attempts :: "run_id \<Rightarrow> attempt_env \<times> attempt_env"
  sm_elapsed :: "run_id \<Rightarrow> duration"
  sm_show_request :: probe_request
  sm_chat_request :: probe_request
  sm_probe_events :: "proxy_event list"
  sm_scenarios :: "'v scenario_env"
  sm_cert :: cert_env

text \<open>The runs: the probes are primed, then every specification is executed and measured.\<close>

definition session_runs ::
  "'v session_env \<Rightarrow> smoke_config \<Rightarrow> announcement \<Rightarrow> run_spec list \<Rightarrow> run_result list \<times> cost_ledger \<times> runner" where
  "session_runs E c ready specs =
     (let ids = map rs_id specs;
          R0 = runner_new c (an_proxy ready);
          R1 = prime_transparency_probe (sm_json E) (sm_show_request E) (sm_probe_events E) (sc_endpoint c) ids R0;
          R2 = prime_erosion_probe (sm_chat_request E) (sc_endpoint c) ids R1
      in dispatch_measured (runner_execute (sm_fmt E) (sm_net E) (sm_json E) (sm_manifest_dir E) (sm_attempts E))
           (sm_elapsed E) specs (an_ledger ready) R2)"

definition session_specs :: "'v session_env \<Rightarrow> smoke_config \<Rightarrow> bool \<Rightarrow> (run_spec list, ustr) result" where
  "session_specs E c no_backend =
     all_specs c (generate_payload (sm_fmt E) (repo_root (sm_manifest_dir E)) (sm_tree E)) (sm_defect_body E) no_backend"

definition session_rows ::
  "'v session_env \<Rightarrow> cli \<Rightarrow> run_result list \<Rightarrow> runner \<Rightarrow> assertion_row list" where
  "session_rows E o' results R =
     evaluate (all_scenarios (sm_scenarios E)) results (ru_probe R) (ru_erosion R)
       (if cli_build_matrix o' then Some (run_feature_matrix (sm_cargo E) (sm_temp_dir E)) else None)
       (cli_no_backend o')
       \<lparr> se_repo_status_before = repo_status_of (sm_git_before E) (repo_root (sm_manifest_dir E)),
          se_timings = shipped_timings (sv_world (sm_scenarios E)) \<rparr>"

definition session_facts_of :: "'v session_env \<Rightarrow> cli \<Rightarrow> announcement \<Rightarrow> cost_ledger \<Rightarrow> certificate_facts" where
  "session_facts_of E o' ready ledger =
     \<lparr> cf_version = crate_version (sm_json E) (sm_is_null E) (sm_metadata E) (sm_mode E),
       cf_commit = git_commit (sm_git_commit E) (repo_root (sm_manifest_dir E)),
       cf_date = iso_date_utc (sm_now E), cf_mode = sm_mode E,
       cf_cost = (case ledger_record ledger of Ok cost \<Rightarrow> Some cost | Err _ \<Rightarrow> None),
       cf_round = cli_round o', cf_invocation = rendered_flags o', cf_fixtures = an_fixtures ready \<rparr>"

definition session :: "'v session_env \<Rightarrow> cli \<Rightarrow> ustr option \<Rightarrow> report \<times> ustr option" where
  "session E o' file =
     (let F = sm_fmt E; scenarios = all_scenarios (sm_scenarios E); run = cycle_run_of o';
          stopped = (\<lambda>err. (\<lparr> rp_rows = evaluate_preflight_only scenarios err, rp_run = run \<rparr>, file))
      in case load_or_fail F (sm_toml E) (sm_host E) (cli_config o') of
           Err e \<Rightarrow> stopped \<lparr> pfe_stage = StConfig, pfe_msg = e \<rparr>
         | Ok (c, origin) \<Rightarrow>
        (case fst (preflight_run F (sm_toml E) (sm_json E) (sm_preflight E) (sm_manifest_dir E) c
             (map sn_id scenarios) (cli_break_proxy o') (cli_no_backend o')) of
           Err e \<Rightarrow> stopped e
         | Ok ready \<Rightarrow>
        (case session_specs E c (cli_no_backend o') of
           Err e \<Rightarrow> (report_cannot_test e run, file)
         | Ok specs \<Rightarrow>
             let (results, ledger, R) = session_runs E c ready specs;
                 rep = \<lparr> rp_rows = session_rows E o' results R, rp_run = run \<rparr>
             in write_certificate_in (sm_cert E) (repo_root (sm_manifest_dir E))
                  (session_facts_of E o' ready ledger) rep file)))"

definition smoke_main :: "'v session_env \<Rightarrow> ustr list \<Rightarrow> ustr option \<Rightarrow> nat \<times> ustr option" where
  "smoke_main E argv file =
     (case parse_from (sm_fmt E) argv of
        Err _ \<Rightarrow> (EXIT_INCONCLUSIVE, file)
      | Ok o' \<Rightarrow>
          if cli_print_payload_size o' then
            (case and_then (payload_size_target (sm_fmt E) (sm_toml E) (sm_host E) (cli_config o'))
                (generate_payload (sm_fmt E) (repo_root (sm_manifest_dir E)) (sm_tree E)) of
               Ok _ \<Rightarrow> (EXIT_OK, file)
             | Err _ \<Rightarrow> (EXIT_INCONCLUSIVE, file))
          else
            let (rep, file') = session E o' file in (report_exit_code rep, file'))"

section \<open>The command line, read back\<close>

lemma split_whitespace_space: "split_whitespace (a @ SPC # b) = split_whitespace a @ split_whitespace b"
  by (simp add: split_whitespace_def split_by_append is_ws_def)

lemma split_whitespace_join: "split_whitespace (join [SPC] ps) = concat (map split_whitespace ps)"
proof (induction "[SPC]" ps rule: join.induct)
  case 1
  then show ?case by (simp add: split_whitespace_def)
qed (simp_all add: split_whitespace_space)

definition word :: "ustr \<Rightarrow> bool" where
  "word w \<longleftrightarrow> w \<noteq> [] \<and> list_all (\<lambda>ch. \<not> is_ws ch) w"

lemma split_whitespace_of_word: "word w \<Longrightarrow> split_whitespace w = [w]"
  by (rule split_whitespace_word) (auto simp: word_def list_all_iff)

lemma word_digits: "word (show_nat n)"
proof -
  have "show_nat n \<noteq> []" using digits_of_hd [of n] by (auto simp: show_nat_def)
  moreover have "\<not> is_ws ch" if "ch \<in> set (show_nat n)" for ch
    using ascii_show_nat [OF that] by (auto simp: is_ascii_digit_def is_ws_def)
  ultimately show ?thesis by (simp add: word_def list_all_iff)
qed

definition flag_words :: "cli \<Rightarrow> ustr list" where
  "flag_words c =
     (if cli_smoke_2 c then [asc ''--smoke-2''] else [])
     @ (if cli_no_backend c then [asc ''--no-backend''] else [])
     @ (if cli_json c then [asc ''--json''] else [])
     @ (if cli_break_proxy c then [asc ''--break-proxy''] else [])
     @ (if cli_build_matrix c then [asc ''--build-matrix''] else [])
     @ (case cli_config c of Some path \<Rightarrow> [asc ''--config'', path] | None \<Rightarrow> [])
     @ (if cli_round c \<noteq> DEFAULT_ROUND then [asc ''--round'', show_nat (cli_round c)] else [])"

lemma flag_word: "split_whitespace (asc f) = [asc f]"
  if "f \<in> {''--smoke-2'', ''--no-backend'', ''--json'', ''--break-proxy'', ''--build-matrix''}"
  by (rule split_whitespace_of_word) (use that in \<open>auto simp: word_def is_ws_def\<close>)

lemma option_words: "word w \<Longrightarrow> split_whitespace (asc ''--config '' @ w) = [asc ''--config'', w]"
    "word w \<Longrightarrow> split_whitespace (asc ''--round '' @ w) = [asc ''--round'', w]"
proof -
  have c: "split_whitespace (asc ''--config'') = [asc ''--config'']" "split_whitespace (asc ''--round'') = [asc ''--round'']"
    by (rule split_whitespace_of_word, simp add: word_def is_ws_def)+
  show "word w \<Longrightarrow> split_whitespace (asc ''--config '' @ w) = [asc ''--config'', w]"
    using split_whitespace_space [of "asc ''--config''" w, unfolded c] by (simp add: split_whitespace_of_word)
  show "word w \<Longrightarrow> split_whitespace (asc ''--round '' @ w) = [asc ''--round'', w]"
    using split_whitespace_space [of "asc ''--round''" w, unfolded c] by (simp add: split_whitespace_of_word)
qed

lemma rendered_words:
  assumes "\<And>p. cli_config c = Some p \<Longrightarrow> word p"
  shows "split_whitespace (rendered_flags c) = flag_words c"
  using assms
  by (auto simp: rendered_flags_def split_whitespace_join rendered_parts_def flag_words_def flag_word option_words
      word_digits simp del: asc_Cons split: option.splits)

lemma parse_u32_show: "n \<le> U32_MAX \<Longrightarrow> parse_u32 (show_nat n) = Some n"
  using parse_u64_digits_of [of n] by (simp add: parse_u32_def show_nat_def U32_MAX_def U64_MAX_def)

lemma parse_flags:
  "parse_args F ((if b then [asc ''--smoke-2''] else []) @ ws) c = parse_args F ws (if b then c\<lparr> cli_smoke_2 := True \<rparr> else c)"
  "parse_args F ((if b then [asc ''--no-backend''] else []) @ ws) c = parse_args F ws (if b then c\<lparr> cli_no_backend := True \<rparr> else c)"
  "parse_args F ((if b then [asc ''--json''] else []) @ ws) c = parse_args F ws (if b then c\<lparr> cli_json := True \<rparr> else c)"
  "parse_args F ((if b then [asc ''--break-proxy''] else []) @ ws) c = parse_args F ws (if b then c\<lparr> cli_break_proxy := True \<rparr> else c)"
  "parse_args F ((if b then [asc ''--build-matrix''] else []) @ ws) c = parse_args F ws (if b then c\<lparr> cli_build_matrix := True \<rparr> else c)"
  "parse_args F ((case q of Some p \<Rightarrow> [asc ''--config'', p] | None \<Rightarrow> []) @ ws) c
     = parse_args F ws (case q of Some p \<Rightarrow> c\<lparr> cli_config := Some p \<rparr> | None \<Rightarrow> c)"
  "n \<le> U32_MAX \<Longrightarrow> parse_args F (if b then [asc ''--round'', show_nat n] else []) c
     = Ok (if b then c\<lparr> cli_round := n \<rparr> else c)"
  by (auto simp: parse_u32_show split: option.splits)

text \<open>C27: The invocation printed on a certificate reproduces the session: read back word by word it is
  the command line the session was started with, for every command line that asks for a session
  and whose configuration path is one word.\<close>

theorem invocation_roundtrip:
  assumes "\<not> cli_print_payload_size c" and "cli_round c \<le> U32_MAX"
    and "\<And>p. cli_config c = Some p \<Longrightarrow> word p"
  shows "parse_from F (program # split_whitespace (rendered_flags c)) = Ok c"
proof -
  have "parse_from F (program # split_whitespace (rendered_flags c)) = parse_args F (flag_words c) cli_default"
    using rendered_words [OF assms(3)] by (simp add: parse_from_def)
  also have "\<dots> = Ok c"
    unfolding flag_words_def parse_flags parse_flags(7) [OF assms(2)]
    using assms(1) by (intro arg_cong [where f = Ok] cli.equality) (auto simp: cli_default_def split: option.splits)
  finally show ?thesis .
qed

theorem invocation_roundtrip_witness:
  "parse_from plain_fmt (asc ''magi-smoke'' # split_whitespace (rendered_flags
     (cli_default\<lparr> cli_smoke_2 := True, cli_config := Some (asc ''cheap.toml''), cli_round := 3 \<rparr>)))
   = Ok (cli_default\<lparr> cli_smoke_2 := True, cli_config := Some (asc ''cheap.toml''), cli_round := 3 \<rparr>)"
  by (rule invocation_roundtrip) (auto simp: cli_default_def U32_MAX_def word_def is_ws_def)

section \<open>Dispatch\<close>

text \<open>What a runner promises: a result names the run it was asked for. Everything the session relies
  on follows.\<close>

locale executes_runs =
  fixes execute :: "run_spec \<Rightarrow> 'r \<Rightarrow> run_result \<times> 'r"
  assumes names_its_run: "rn_run (fst (execute spec r)) = rs_id spec"
    and shaped: "result_shape (fst (execute spec r))"
begin

lemma dispatched:
  "dispatch_measured execute elapsed specs ledger r = (results, ledger', r') \<Longrightarrow>
     map rn_run results = map rs_id specs \<and> list_all result_shape results
     \<and> cl_announced ledger' = cl_announced ledger \<and> cl_backend_runs ledger' = cl_backend_runs ledger
     \<and> cl_measured ledger' = cl_measured ledger @ map elapsed (filter uses_backend (map rs_id specs))"
proof (induction specs arbitrary: ledger r results)
  case (Cons spec specs)
  obtain res r1 where e: "execute spec r = (res, r1)" by (cases "execute spec r")
  let ?l = "if uses_backend (rs_id spec) then ledger_measure (elapsed (rs_id spec)) ledger else ledger"
  obtain rest l2 r2 where d: "dispatch_measured execute elapsed specs ?l r1 = (rest, l2, r2)"
    by (cases "dispatch_measured execute elapsed specs ?l r1")
  from Cons.prems e d have eqs: "results = res # rest" "ledger' = l2" "r' = r2" by (simp_all add: Let_def)
  from Cons.IH [of ?l r1 rest] d eqs names_its_run [of spec r] shaped [of spec r] e show ?case
    by (auto simp: ledger_measure_def)
qed simp

text \<open>The receipt can always be written after the announced runs were dispatched.\<close>

lemma receipt:
  assumes "dispatch_measured execute elapsed specs (snd (ledger_announce c no_backend ledger_new)) r = (results, ledger', r')"
    and "map rs_id specs = stage_e1_run_ids no_backend"
  shows "\<exists>cost. ledger_record ledger' = Ok cost"
  using dispatched [OF assms(1)] assms(2)
  by (simp add: ledger_record_def ledger_announce_def ledger_new_def backend_runs_of_def)

end

lemma execute_one_result:
  "rn_run (fst (execute_one F N J m c E E' spec p)) = rs_id spec
     \<and> result_shape (fst (execute_one F N J m c E E' spec p))"
proof -
  let ?p = "set_injection (rs_injection spec) p"
  obtain first p2 where a: "attempt_run F N J m c E spec ?p = (first, p2)" by (cases "attempt_run F N J m c E spec ?p")
  obtain again p3 where b: "attempt_run F N J m c E' spec p2 = (again, p3)" by (cases "attempt_run F N J m c E' spec p2")
  show ?thesis
    using attempt_run_shape [OF a] attempt_run_shape [OF b] a b by (auto simp: execute_one_def Let_def)
qed

interpretation harness_runs: executes_runs "runner_execute F N J m attempts" for F N J m attempts
proof
  fix spec :: run_spec and R :: runner
  show "rn_run (fst (runner_execute F N J m attempts spec R)) = rs_id spec"
    "result_shape (fst (runner_execute F N J m attempts spec R))"
    using execute_one_result [of F N J m "ru_config R"]
    by (auto simp: runner_execute_def case_prod_beta Let_def)
qed


section \<open>Nothing seen, nothing green\<close>

definition is_skip :: "scenario_state \<Rightarrow> bool" where
  "is_skip st \<longleftrightarrow> (case st of Skip _ \<Rightarrow> True | _ \<Rightarrow> False)"

text \<open>A context that carries no outcome of a run.\<close>

definition silent :: "run_context \<Rightarrow> bool" where
  "silent ctx \<longleftrightarrow> cx_report ctx = None \<and> cx_error ctx = None \<and> cx_completion ctx = None"

lemma skips_states: "a \<in> set (skips names reason) \<Longrightarrow> is_skip (as_state a)"
  by (auto simp: skips_def assertion_skip_def is_skip_def)

lemma as_state_skip [simp]: "as_state (assertion_skip n r) = Skip r" "is_skip (Skip r)"
  by (simp_all add: assertion_skip_def is_skip_def)

text \<open>Every run has a scenario that skips when the run left no outcome.\<close>

lemma lead_scenario:
  "\<exists>sc. sc \<in> set (all_scenarios S) \<and> sn_source sc = FromRun run
     \<and> (sn_backend_tag sc = NeedsBackend \<longleftrightarrow> uses_backend run)
     \<and> (\<forall>ctx. silent ctx \<longrightarrow> (\<exists>a\<in>set (sn_assert sc ctx). is_skip (as_state a)))"
proof -
  define lead where "lead = (\<lambda>n f. scenario_of n (FromRun run) (if uses_backend run then NeedsBackend else NeedsNone) f)"
  have skip1: "\<exists>a\<in>set (skips (n # ns) r @ xs). is_skip (as_state a)" for n ns r xs
    by (simp add: skips_def)
  have "\<exists>n f. lead n f \<in> set (all_scenarios S)
      \<and> (\<forall>ctx. silent ctx \<longrightarrow> (\<exists>a\<in>set (f ctx). is_skip (as_state a)))"
  proof (cases run)
    case HappySmall
    show ?thesis
      by (rule exI [of _ "''S2''"], rule exI [of _ "s2_happy_path_against_real_backend S"])
        (auto simp: lead_def HappySmall all_scenarios_def e1_scenarios_def silent_def
          s2_happy_path_against_real_backend_def skips_def)
  next
    case Large62k
    show ?thesis
      by (rule exI [of _ "''S10''"], rule exI [of _ s10_the_large_payload_costs_no_seat])
        (auto simp: lead_def Large62k all_scenarios_def e2_scenarios_def silent_def
          s10_the_large_payload_costs_no_seat_def skips_def)
  next
    case RotationRun
    show ?thesis
      by (rule exI [of _ "''S4''"], rule exI [of _ "s4_rotation_and_its_cause S"])
        (auto simp: lead_def RotationRun all_scenarios_def e1_scenarios_def silent_def
          s4_rotation_and_its_cause_def skips_def Let_def)
  next
    case DegradationRun
    show ?thesis
      by (rule exI [of _ "''S15''"], rule exI [of _ "s15_degradation_is_honest S"])
        (auto simp: lead_def DegradationRun all_scenarios_def e1_scenarios_def silent_def S15_NAMES_def
          s15_degradation_is_honest_def s15_inconclusive_def s15_skips_def skips_def split: option.splits)
  next
    case CrateDefectRun
    show ?thesis
      by (rule exI [of _ "''S9''"], rule exI [of _ s9_a_defect_of_ours_aborts_the_run])
        (auto simp: lead_def CrateDefectRun all_scenarios_def e2_scenarios_def silent_def
          s9_a_defect_of_ours_aborts_the_run_def skips_def)
  next
    case MixedTrio
    show ?thesis
      by (rule exI [of _ "''S12''"], rule exI [of _ s12_a_mixed_trio_honours_and_declares])
        (auto simp: lead_def MixedTrio all_scenarios_def e2_scenarios_def silent_def
          s12_a_mixed_trio_honours_and_declares_def skips_def)
  next
    case Large62kNoReasoning
    show ?thesis
      by (rule exI [of _ "''S8b''"], rule exI [of _ s8b_disabling_reasoning_makes_the_large_payload_converge])
        (auto simp: lead_def Large62kNoReasoning all_scenarios_def e2_scenarios_def silent_def
          s8b_disabling_reasoning_makes_the_large_payload_converge_def skips_def)
  next
    case PoolEligibility
    show ?thesis
      by (rule exI [of _ "''S-E2''"], rule exI [of _ s_e2_why_a_candidate_was_not_eligible])
        (auto simp: lead_def PoolEligibility all_scenarios_def e_scenarios_def silent_def
          s_e2_why_a_candidate_was_not_eligible_def skips_def)
  next
    case EndpointBlip
    show ?thesis
      by (rule exI [of _ "''S-R5a''"], rule exI [of _ s_r5a_recovered_run_is_not_aborted])
        (auto simp: lead_def EndpointBlip all_scenarios_def r5_scenarios_def silent_def
          s_r5a_recovered_run_is_not_aborted_def skips_def)
  next
    case EndpointDownRun
    show ?thesis
      by (rule exI [of _ "''S-R5b''"], rule exI [of _ s_r5b_dead_endpoint_still_aborts])
        (auto simp: lead_def EndpointDownRun all_scenarios_def r5_scenarios_def silent_def
          s_r5b_dead_endpoint_still_aborts_def skips_def)
  next
    case DialectMaxTokens
    show ?thesis
      by (rule exI [of _ "''S-R7a''"], rule exI [of _ s_r7a_default_dialect_is_cut_at_the_cap])
        (auto simp: lead_def DialectMaxTokens all_scenarios_def r7_scenarios_def silent_def
          s_r7a_default_dialect_is_cut_at_the_cap_def measured_or_skip_def)
  next
    case DialectMaxCompletionTokens
    show ?thesis
      by (rule exI [of _ "''S-R7b''"], rule exI [of _ s_r7b_modern_dialect_is_recorded])
        (auto simp: lead_def DialectMaxCompletionTokens all_scenarios_def r7_scenarios_def silent_def
          s_r7b_modern_dialect_is_recorded_def measured_or_skip_def)
  next
    case NoBackend
    show ?thesis
      by (rule exI [of _ "''S1''"], rule exI [of _ s1_external_provider_fails_typed])
        (auto simp: lead_def NoBackend all_scenarios_def e1_scenarios_def silent_def
          s1_external_provider_fails_typed_def Let_def)
  qed
  then obtain n f where "lead n f \<in> set (all_scenarios S)"
      "\<forall>ctx. silent ctx \<longrightarrow> (\<exists>a\<in>set (f ctx). is_skip (as_state a))" by blast
  then show ?thesis
    by (intro exI [of _ "lead n f"]) (simp add: lead_def scenario_of_def)
qed

end
