(* ===== verification/Smoke_Session.thy ===== *)
theory Smoke_Session
  imports Smoke_Main
begin

text \<open>
  What holds of a session of the smoke harness as a whole. A session that stops early exits as the
  scenarios about the preflight judge its message; a session that succeeds has observed every run;
  the receipt can always be written; the certificate on disk tells the truth; and the run without a
  backend fails the way its scenario demands. The last section gives the faults of the harness
  itself that these theorems do not excuse: each exits as a failure of the crate.
\<close>

section \<open>A session that stops before any run\<close>

definition stopped_report :: "'v scenario_env \<Rightarrow> preflight_error \<Rightarrow> cycle_run \<Rightarrow> report" where
  "stopped_report S e run = \<lparr> rp_rows = evaluate_preflight_only (all_scenarios S) e, rp_run = run \<rparr>"

definition preflight_scenarios :: "'v scenario_env \<Rightarrow> scenario list" where
  "preflight_scenarios S = filter (\<lambda>sc. sn_source sc = FromPreflight) (all_scenarios S)"

lemma scenarios_simps: "sn_id (scenario_of n src need f) = asc n" "sn_source (scenario_of n src need f) = src"
    "sn_backend_tag (scenario_of n src need f) = need" "sn_assert (scenario_of n src need f) = f"
  by (simp_all add: scenario_of_def)

lemma preflight_scenarios_of:
  "map sn_assert (preflight_scenarios S) =
     [s6_no_backend_no_green, s7_a_saturated_endpoint_reports_cannot_test_with_its_scope,
      s14_illegible_toml_is_fatal, s20_broken_proxy_is_not_a_scenario_red,
      s9b_the_footprint_still_matches_the_live_backend S]"
  by (simp add: preflight_scenarios_def all_scenarios_def e1_scenarios_def e2_scenarios_def f_scenarios_def
      e_scenarios_def r5_scenarios_def r7_scenarios_def scenarios_simps del: asc_Cons)

lemma rendered_prefix:
  "starts_with (show_preflight_error e) (asc ''Backend: '') = (pfe_stage e = StBackend)"
  "starts_with (show_preflight_error e) (asc ''Probe: '') = (pfe_stage e = StProbe)"
  "starts_with (show_preflight_error e) (asc ''Config: '') = (pfe_stage e = StConfig)"
  "starts_with (show_preflight_error e) (asc ''Proxy: '') = (pfe_stage e = StProxy)"
  by (cases "pfe_stage e"; simp add: show_preflight_error_def split: option.split)+

lemma outside_preflight: "\<exists>sc\<in>set (all_scenarios S). sn_source sc \<noteq> FromPreflight"
  by (simp add: all_scenarios_def e1_scenarios_def scenarios_simps)

lemma stopped_states:
  "set (report_states (stopped_report S e run)) =
     insert (Skip (show_preflight_error e))
       (as_state ` (\<Union>f\<in>set (map sn_assert (preflight_scenarios S)). set (f (stopped_context (show_preflight_error e)))))"
proof -
  let ?m = "show_preflight_error e"
  let ?rows = "\<lambda>sc. if sn_source sc = FromPreflight then asserted sc None (stopped_context ?m) None
    else one_row sc None (asc ''not evaluated: the preflight stopped before any run'') (Skip ?m) None"
  have "set (report_states (stopped_report S e run)) = (\<Union>sc\<in>set (all_scenarios S). rw_state ` set (?rows sc))"
    by (simp only: report_states_def stopped_report_def evaluate_preflight_only_def Let_def report.simps
        set_map set_concat image_UN UN_simps image_image)
  also have "\<dots> = (\<Union>sc\<in>set (all_scenarios S). if sn_source sc = FromPreflight
      then as_state ` set (sn_assert sc (stopped_context ?m)) else {Skip ?m})"
    by (intro SUP_cong refl) (simp add: asserted_def rows_of_def image_image one_row_def)
  also have "\<dots> = insert (Skip ?m)
      (as_state ` (\<Union>f\<in>set (map sn_assert (preflight_scenarios S)). set (f (stopped_context ?m))))"
    using outside_preflight [of S] by (auto simp: preflight_scenarios_def split: if_splits)
  finally show ?thesis .
qed

text \<open>What the scenarios that watch the preflight hold against a message.\<close>

definition message_fails :: "preflight_error \<Rightarrow> bool" where
  "message_fails e \<longleftrightarrow>
     (let m = show_preflight_error e
      in case pfe_stage e of
           StBackend \<Rightarrow> \<not> (contains m (asc ''backend at'')
             \<and> (contains m (asc ''did not answer'') \<or> contains m (asc ''answered with status'')))
         | StProbe \<Rightarrow> contains m (asc ''did not answer a trivial request in time'')
             \<and> \<not> (contains m (asc ''cannot tell them apart'') \<and> contains m (asc ''contention'') \<and> contains m (asc ''cold''))
         | StConfig \<Rightarrow> contains m UNKNOWN_FIELD \<and> \<not> names_the_offending_field m
         | StProxy \<Rightarrow> \<not> (contains m (asc ''HARNESS fault'') \<and> contains m (asc ''never a verdict about the crate''))
         | _ \<Rightarrow> False)"

lemma stopped_fails: "Fail \<in> set (report_states (stopped_report S e run)) \<longleftrightarrow> message_fails e"
proof -
  let ?m = "show_preflight_error e"
  have stage: "preflight_error_for_stage (stopped_context ?m) p = (if starts_with ?m p then Some ?m else None)" for p
    by (simp add: preflight_error_for_stage_def stopped_context_def)
  have s9b: "Fail \<notin> as_state ` set (s9b_the_footprint_still_matches_the_live_backend S (stopped_context ?m))"
    by (auto simp: s9b_the_footprint_still_matches_the_live_backend_def stopped_context_def absent_context_def
        Let_def skips_def assertion_skip_def)
  show ?thesis
    unfolding stopped_states preflight_scenarios_of message_fails_def Let_def
    using s9b
    by (cases "pfe_stage e")
      (auto simp: s6_no_backend_no_green_def s7_a_saturated_endpoint_reports_cannot_test_with_its_scope_def
        s14_illegible_toml_is_fatal_def s20_broken_proxy_is_not_a_scenario_red_def stage rendered_prefix
        assert_that_def assertion_skip_def assertion_out_of_scope_def simp del: asc_Cons split: if_splits)
qed

lemma stopped_skips: "Skip (show_preflight_error e) \<in> set (report_states (stopped_report S e run))"
  by (simp add: stopped_states)

lemma stopped_exit:
  "report_exit_code (stopped_report S e run) = (if message_fails e then EXIT_FAILED else EXIT_INCONCLUSIVE)"
  using stopped_fails [of S e run] stopped_skips [of e S run]
  by (auto simp: report_exit_code_def exit_code_def list_ex_iff)

section \<open>Nothing observed, nothing green\<close>

text \<open>A run gave something to read: it completed, and left a report, a typed error or a completion.\<close>

definition evidence :: "run_result list \<Rightarrow> run_id \<Rightarrow> bool" where
  "evidence results run \<longleftrightarrow>
     list_ex (\<lambda>r. rn_run r = run \<and> rn_outcome r = Complete
       \<and> (rn_report r \<noteq> None \<or> rn_error r \<noteq> None \<or> rn_completion r \<noteq> None)) results"

lemma green_states:
  "exit_code states = EXIT_OK \<Longrightarrow> st \<in> set states \<Longrightarrow> st \<noteq> Fail \<and> st \<noteq> TimeoutState \<and> \<not> is_skip st"
  by (auto simp: exit_code_cases EXIT_OK_def list_ex_iff is_skip_def split: if_splits scenario_state.splits)

lemma evaluated_rows:
  "sc \<in> set scenarios \<Longrightarrow> row \<in> set (evaluate_scenario results tp ep matrix nb sf sc) \<Longrightarrow>
     row \<in> set (evaluate scenarios results tp ep matrix nb sf)"
  by (auto simp: evaluate_def)

lemma silent_views:
  "silent (absent_context run)"
  "rn_report r = None \<Longrightarrow> rn_error r = None \<Longrightarrow> rn_completion r = None \<Longrightarrow> silent (run_view tp ep r)"
  by (simp_all add: silent_def absent_context_def run_view_def)

lemma asserted_skip:
  "a \<in> set (sn_assert sc ctx) \<Longrightarrow> is_skip (as_state a) \<Longrightarrow> \<exists>row\<in>set (asserted sc run ctx b). is_skip (rw_state row)"
  by (auto simp: asserted_def rows_of_def)

lemma evaluate_run_bad:
  assumes lead: "\<forall>ctx. silent ctx \<longrightarrow> (\<exists>a\<in>set (sn_assert sc ctx). is_skip (as_state a))"
    and shapes: "list_all result_shape results" and "distinct (map rn_run results)"
    and none: "\<not> evidence results run"
  shows "\<exists>row\<in>set (evaluate_run results tp ep sc run).
    rw_state row = Fail \<or> rw_state row = TimeoutState \<or> is_skip (rw_state row)"
proof -
  have skips: "\<exists>row\<in>set (asserted sc (Some run) ctx b). is_skip (rw_state row)" if "silent ctx" for ctx b
    using lead [rule_format, OF that] asserted_skip by blast
  show ?thesis
  proof (cases "find (\<lambda>r. rn_run r = run) results")
    case None
    then show ?thesis
      using skips [OF silent_views(1)]
      by (fastforce simp: evaluate_run_def one_row_def is_skip_def split: option.splits)
  next
    case (Some r)
    then have r: "r \<in> set results" "rn_run r = run" by (auto simp: find_Some_iff)
    have same: "r' = r" if "r' \<in> set results" "rn_run r' = run" for r'
      using assms(3) r that by (simp add: distinct_map inj_on_def)
    have outcome: "result_of run w results = None" if "w \<noteq> rn_outcome r" for w
      using that same by (auto simp: result_of_def find_None_iff)
    have found: "result_of run (rn_outcome r) results = Some r"
    proof (cases "result_of run (rn_outcome r) results")
      case None
      with r show ?thesis by (auto simp: result_of_def find_None_iff)
    next
      case (Some r')
      then have "r' \<in> set results" "rn_run r' = run" by (auto simp: result_of_def find_Some_iff)
      with Some same show ?thesis by simp
    qed
    have shape: "result_shape r" using shapes r by (simp add: list_all_iff)
    show ?thesis
    proof (cases "rn_outcome r")
      case Complete
      with shape have "rn_report r \<noteq> None \<or> rn_error r \<noteq> None \<or> rn_completion r \<noteq> None"
        by (auto simp: result_shape_def split: if_splits)
      with none r Complete show ?thesis by (auto simp: evidence_def list_ex_iff)
    next
      case PanickedInHarness
      with shape have "silent (run_view tp ep r)" by (intro silent_views) (simp_all add: result_shape_def)
      from skips [OF this] show ?thesis
        using outcome PanickedInHarness Some by (fastforce simp: evaluate_run_def)
    qed (use outcome found Some in \<open>auto simp: evaluate_run_def one_row_def is_skip_def\<close>)
  qed
qed

lemma green_evidence:
  assumes "exit_code (map rw_state (evaluate (all_scenarios S) results tp ep matrix nb sf)) = EXIT_OK"
    and "distinct (map rn_run results)" and "list_all result_shape results" and "\<not> (nb \<and> uses_backend run)"
  shows "evidence results run"
proof (rule ccontr)
  assume none: "\<not> evidence results run"
  obtain sc where sc: "sc \<in> set (all_scenarios S)" "sn_source sc = FromRun run"
      "sn_backend_tag sc = NeedsBackend \<longleftrightarrow> uses_backend run"
      "\<forall>ctx. silent ctx \<longrightarrow> (\<exists>a\<in>set (sn_assert sc ctx). is_skip (as_state a))"
    using lead_scenario by blast
  have "evaluate_scenario results tp ep matrix nb sf sc = evaluate_run results tp ep sc run"
    using sc assms(4) by (auto simp: evaluate_scenario_def)
  with evaluate_run_bad [OF sc(4) assms(3,2) none] evaluated_rows [OF sc(1)] green_states [OF assms(1)]
  show False by (metis (no_types, lifting) image_eqI list.set_map)
qed

section \<open>The scenarios about the configured budgets\<close>

lemma default_build:
  assumes "check_embedded_prompts w = Ok ()" and "mb_prompts_dir b = None" and "mb_overrides b = (\<lambda>_. None)"
    and "mb_report_config b = report_config_default" and "check_primary_lineages (mb_agent_lineages b) = Ok ()"
    and "mb_fallback_pool b = None" and "mb_primary_probes b = (\<lambda>_. None)"
  shows "\<exists>M. snd (build w b) = Ok M \<and> mg_config M = mb_config b \<and> mg_validator M = mb_validation_limits b
    \<and> mg_consensus_engine M = engine_new (mb_consensus_config b) \<and> mg_complexity_gate M = mb_complexity_gate b
    \<and> mg_rotation_config M = None"
proof -
  have o: "check_overrides w (\<lambda>_. None) = Ok ()" by (simp add: check_overrides_Ok)
  have l: "check_pool_lineages None = Ok ()" by (simp add: check_pool_lineages_def)
  show ?thesis
    by (simp add: build_def Let_def assms o l load_overrides_def default_formatter engaged_rotation_def)
qed

lemma built_config:
  assumes "snd (build w b) = Ok M"
  shows "mg_config M = mb_config b" "mg_rotation_config M = engaged_rotation b"
  using assms by (auto simp: build_def Let_def and_then_Ok_iff split: result.splits prod.splits)

text \<open>Whatever the world, an instance that is built at all satisfies both scenarios.\<close>

lemma shipped_timings_pass:
  assumes "shipped_timings w = Some t" and "cx_timings ctx = Some t"
  shows "map as_state (s_f1 ctx) = [Pass]" "map as_state (s_f2a ctx) = [Pass]"
proof -
  obtain M where M: "snd (build w (builder_new STUB)) = Ok M" and t: "t = timings_of M"
    using assms(1) by (auto simp: shipped_timings_def split: result.splits)
  have c: "mg_config M = magi_config_default" "mg_rotation_config M = None"
    using built_config [OF M] by (simp_all add: builder_new_def engaged_rotation_def)
  show "map as_state (s_f1 ctx) = [Pass]"
    using c by (simp add: s_f1_def assms(2) t timings_of_def worst_case_per_seat_def assert_that_def Let_def
        magi_config_default_def DEFAULT_AGENT_TIMEOUT_def dur_mul_def sat_add_def sat_mul_def U32_MAX_def
        DURATION_MAX_def U64_MAX_def secs_def NANOS_def)
  show "map as_state (s_f2a ctx) = [Pass]"
    by (simp add: s_f2a_def assms(2) t timings_of_def assert_that_def Let_def
        magi_config_default_def retry_config_default_def DEFAULT_CLIENT_TIMEOUT_def DEFAULT_LIMITED_MAX_RETRIES_def
        DEFAULT_BASE_DELAY_def DEFAULT_AGENT_TIMEOUT_def secs_def NANOS_def)
qed

section \<open>The offline run\<close>

text \<open>A provider that only ever fails from outside costs the seat, and is never taken for a defect of
  the crate.\<close>

lemma stub_seat:
  assumes "\<And>n p s u c. se_backend E n p s u c = Answered stub_complete"
  shows "\<exists>m fs rs. dispatch_one_agent E = (Err m, False, fs, rs, None)"
proof -
  obtain lg where "call E (ag_provider (se_agent E)) (se_user_prompt E) log_new = (Answered stub_complete, lg)"
    by (simp add: call_def execute_with_def assms Let_def)
  then show ?thesis
    by (simp add: dispatch_one_agent_def Let_def stub_complete_def external_def crate_defect_of_def)
qed

lemma stub_dispatch:
  assumes "\<And>a n p s u c. wo_backend w a n p s u c = Answered stub_complete" and "0 < min_agents"
  shows "dispatch_no_rotation (seat_env_for w M prompt) panics min_agents agents = Err (InsufficientAgents 0 min_agents)"
proof -
  let ?hs = "seat_handles (seat_env_for w M prompt) panics agents"
  have seat: "\<exists>m fs rs. dispatch_one_agent (seat_env_for w M prompt ag) = (Err m, False, fs, rs, None)" for ag
    by (rule stub_seat) (simp add: seat_env_for_def assms)
  have h: "join_output h = None \<and> defect_of_join h = None" if "h \<in> set ?hs" for h
  proof -
    from that obtain ag where "ag \<in> set agents" and h: "h = (ag_name ag, case panics (ag_name ag) of Some e \<Rightarrow> Panicked e
        | None \<Rightarrow> Joined (dispatch_one_agent (seat_env_for w M prompt ag)))"
      unfolding seat_handles_def set_map by blast
    obtain m fs rs where "dispatch_one_agent (seat_env_for w M prompt ag) = (Err m, False, fs, rs, None)"
      using seat by blast
    then show ?thesis by (cases "panics (ag_name ag)") (simp_all add: h defect_of_join_def)
  qed
  then have "filter (\<lambda>h. join_output h \<noteq> None) ?hs = []" by (simp add: filter_empty_conv)
  then have "List.map_filter join_output ?hs = []" by (simp add: List.map_filter_def)
  then have "do_successful (fold record_join ?hs (join_start models)) = []" for models
    by (simp add: plain.fold_successful join_start_def)
  moreover have "join_no_rotation ?hs J = Ok (fold record_join ?hs J)" for J
    using h by (simp add: join_no_rotation_Ok)
  ultimately show ?thesis
    using assms(2) by (simp add: dispatch_no_rotation_def check_quorum_def)
qed

lemma stub_analysis:
  assumes "\<And>a n p s u c. wo_backend w a n p s u c = Answered stub_complete"
    and "mg_rotation_config M = None" and "mg_complexity_gate M = None"
    and "utf8_len content \<le> mf_max_input_len (mg_config M)"
    and "build_user_prompt (wo_unicode w) m content nonce = Ok prompt" and "0 < cn_min_agents (mg_consensus_engine M)"
  shows "snd (analyze w M m content nonce W) = Err (InsufficientAgents 0 (cn_min_agents (mg_consensus_engine M)))"
  using assms by (simp add: analyze_def Let_def dispatch_with_retry_def stub_dispatch split: prod.split)

lemma seats_stub_builds:
  assumes "list_all (\<lambda>s. is_ok (seat_agent_name F s) \<and> seat_lineage s \<noteq> []) seats"
    and "\<forall>a. mb_agent_lineages b a \<noteq> Some []"
  shows "\<exists>b'. seats_stub F seats b = Ok b' \<and> (\<forall>a. mb_agent_lineages b' a \<noteq> Some [])
    \<and> mb_prompts_dir b' = mb_prompts_dir b \<and> mb_overrides b' = mb_overrides b \<and> mb_report_config b' = mb_report_config b
    \<and> mb_fallback_pool b' = mb_fallback_pool b \<and> (mb_primary_probes b = (\<lambda>_. None) \<longrightarrow> mb_primary_probes b' = (\<lambda>_. None))
    \<and> mb_config b' = mb_config b \<and> mb_complexity_gate b' = mb_complexity_gate b
    \<and> mb_consensus_config b' = mb_consensus_config b"
  using assms
proof (induction seats arbitrary: b)
  case (Cons s ss)
  then obtain name where name: "seat_agent_name F s = Ok name" by (auto simp: is_ok_iff)
  let ?b = "with_agent name STUB (seat_lineage s) b"
  from Cons.prems have "\<forall>a. mb_agent_lineages ?b a \<noteq> Some []"
    by (simp add: with_agent_def register_seat_def Let_def)
  moreover have "list_all (\<lambda>s. is_ok (seat_agent_name F s) \<and> seat_lineage s \<noteq> []) ss" using Cons.prems by simp
  ultimately show ?case
    using Cons.IH [of ?b] by (auto simp: name with_agent_def register_seat_def Let_def map_remove_def)
qed simp

lemma offline_run:
  assumes "rs_providers spec = KExternalStub" and "rs_seats spec \<noteq> []"
    and "list_all (\<lambda>s. is_ok (seat_agent_name F s) \<and> seat_lineage s \<noteq> []) (rs_seats spec)"
    and stub: "\<And>a n p s u c. wo_backend (ae_world E) a n p s u c = Answered stub_complete"
    and "check_embedded_prompts (ae_world E) = Ok ()"
    and "utf8_len (pl_text (rs_payload spec)) \<le> DEFAULT_MAX_INPUT_LEN"
    and "build_user_prompt (wo_unicode (ae_world E)) Design (pl_text (rs_payload spec)) (ae_nonce E) = Ok prompt"
  shows "rn_outcome (fst (run_once F N J E spec p)) = Complete"
    and "rn_error (fst (run_once F N J E spec p)) = Some (show_magi_error F (InsufficientAgents 0 2))"
    and "rn_error_class (fst (run_once F N J E spec p)) = Some Environment"
proof -
  let ?w = "ae_world E"
  obtain b where b: "seats_stub F (rs_seats spec) (builder_new STUB) = Ok b" "\<forall>a. mb_agent_lineages b a \<noteq> Some []"
      "mb_prompts_dir b = None" "mb_overrides b = (\<lambda>_. None)" "mb_report_config b = report_config_default"
      "mb_fallback_pool b = None" "mb_primary_probes b = (\<lambda>_. None)" "mb_config b = magi_config_default"
      "mb_complexity_gate b = None" "mb_consensus_config b = consensus_config_default"
    using seats_stub_builds [OF assms(3), of "builder_new STUB"] by (auto simp: builder_new_def)
  then have "check_primary_lineages (mb_agent_lineages b) = Ok ()" by (simp add: check_lineages_Ok)
  from default_build [OF assms(5) b(3,4,5) this b(6,7)] b
  obtain M where M: "snd (build ?w b) = Ok M" "mg_config M = magi_config_default"
      "mg_consensus_engine M = engine_new consensus_config_default" "mg_complexity_gate M = None"
      "mg_rotation_config M = None"
    by auto
  have min: "cn_min_agents (mg_consensus_engine M) = 2"
    by (simp add: M engine_new_def consensus_config_default_def)
  have built: "build_magi_against F N ?w u (rs_seats spec) fbs KExternalStub rc tr = Ok M" for u fbs rc tr
    using assms(2) b(1) by (cases "rs_seats spec") (simp_all add: build_magi_against_def built_def M del: seats_stub.simps)
  have "snd (analyze ?w M Design (pl_text (rs_payload spec)) (ae_nonce E) W) = Err (InsufficientAgents 0 2)" for W
    using stub_analysis [OF stub M(5,4) _ assms(7)] assms(6) min by (simp add: M(2) magi_config_default_def)
  then show "rn_outcome (fst (run_once F N J E spec p)) = Complete"
    "rn_error (fst (run_once F N J E spec p)) = Some (show_magi_error F (InsufficientAgents 0 2))"
    "rn_error_class (fst (run_once F N J E spec p)) = Some Environment"
    by (simp_all add: run_once_def assms(1) built Let_def case_prod_beta del: asc_Cons)
qed

lemma offline_message:
  "contains (show_magi_error F (InsufficientAgents 0 2)) (asc ''insufficient agents'')"
  "\<not> contains (show_magi_error F (InsufficientAgents 0 2)) (asc ''endpoint down'')"
  by (simp_all add: show_nat_def digits_of.simps)

section \<open>The whole session\<close>

text \<open>What stops a session before any run: the configuration or the preflight.\<close>

definition stop_of :: "'v session_env \<Rightarrow> cli \<Rightarrow> preflight_error option" where
  "stop_of E o' =
     (case load_or_fail (sm_fmt E) (sm_toml E) (sm_host E) (cli_config o') of
        Err e \<Rightarrow> Some \<lparr> pfe_stage = StConfig, pfe_msg = e \<rparr>
      | Ok (c, origin) \<Rightarrow>
          (case fst (preflight_run (sm_fmt E) (sm_toml E) (sm_json E) (sm_preflight E) (sm_manifest_dir E) c
               (map sn_id (all_scenarios (sm_scenarios E))) (cli_break_proxy o') (cli_no_backend o')) of
             Err e \<Rightarrow> Some e
           | Ok ready \<Rightarrow> None))"

lemma stopped_session:
  "stop_of E o' = Some e \<Longrightarrow> session E o' file = (stopped_report (sm_scenarios E) e (cycle_run_of o'), file)"
  by (auto simp: stop_of_def session_def stopped_report_def Let_def split: result.splits prod.splits)

lemma preflight_ledger:
  assumes "fst (preflight_run F L J P dir c live brk no_backend) = Ok ready"
  shows "an_ledger ready = snd (ledger_announce c no_backend ledger_new)"
  using assms by (auto simp: preflight_run_def ledger_announce_def and_then_Ok_iff Let_def case_prod_beta
      split: result.splits prod.splits if_splits)

lemma session_spec_ids: "session_specs E c no_backend = Ok specs \<Longrightarrow> map rs_id specs = stage_e1_run_ids no_backend"
  by (auto simp: session_specs_def all_specs_def stage_e1_run_ids_def Let_def and_then_Ok_iff split: if_splits)

lemma stage_distinct: "distinct (stage_e1_run_ids no_backend)"
  by (simp add: stage_e1_run_ids_def)

lemma stage_complete: "run \<in> set (stage_e1_run_ids no_backend) \<longleftrightarrow> \<not> (no_backend \<and> uses_backend run)"
  by (cases run) (auto simp: stage_e1_run_ids_def)

lemma session_results:
  assumes "session_runs E c ready specs = (results, ledger, R)" and "session_specs E c no_backend = Ok specs"
  shows "map rn_run results = stage_e1_run_ids no_backend" and "list_all result_shape results"
  using harness_runs.dispatched [OF assms(1) [unfolded session_runs_def Let_def]] session_spec_ids [OF assms(2)]
  by simp_all

text \<open>Once the preflight passed and the runs were prepared, the receipt of the real cost can always
  be written: the dispatch measures one interval for every announced run that reaches the backend
  and none for the offline one, whatever the runs came to.\<close>

theorem receipt_always_written:
  "case (fst (preflight_run F L J P dir c live brk no_backend), session_specs E c no_backend) of
     (Ok ready, Ok specs) \<Rightarrow> (\<exists>cost. ledger_record (fst (snd (session_runs E c ready specs))) = Ok cost)
   | _ \<Rightarrow> True"
proof (cases "fst (preflight_run F L J P dir c live brk no_backend)")
  case ready: (Ok ready)
  show ?thesis
  proof (cases "session_specs E c no_backend")
    case specs: (Ok specs)
    obtain results ledger R where r: "session_runs E c ready specs = (results, ledger, R)"
      by (cases "session_runs E c ready specs")
    from harness_runs.receipt [OF r [unfolded session_runs_def Let_def preflight_ledger [OF ready]] session_spec_ids [OF specs]]
    show ?thesis by (simp add: ready specs r)
  qed (simp add: ready)
qed simp

text \<open>A failure to write the certificate only adds a skipped row.\<close>

lemma certificate_keeps_rows:
  assumes "write_certificate_in C base facts r file = (r', file')"
  shows "r' = r \<or> (\<exists>reason. r' = note_certificate_failure reason r)"
  using assms by (auto simp: write_certificate_in_def Let_def split: option.splits result.splits prod.splits)

lemma noted_not_ok: "report_exit_code (note_certificate_failure reason r) \<noteq> EXIT_OK"
  by (auto simp: report_exit_code_def report_states_def note_certificate_failure_def exit_code_def
      EXIT_OK_def EXIT_FAILED_def EXIT_INCONCLUSIVE_def)

lemma cannot_test_not_ok: "report_exit_code (report_cannot_test reason run) \<noteq> EXIT_OK"
  by (simp add: report_exit_code_def report_states_def report_cannot_test_def exit_code_def
      EXIT_OK_def EXIT_INCONCLUSIVE_def)

lemma session_cases:
  obtains (stopped) e where "stop_of E o' = Some e"
    | (unprepared) c origin ready e where "load_or_fail (sm_fmt E) (sm_toml E) (sm_host E) (cli_config o') = Ok (c, origin)"
        "fst (preflight_run (sm_fmt E) (sm_toml E) (sm_json E) (sm_preflight E) (sm_manifest_dir E) c
           (map sn_id (all_scenarios (sm_scenarios E))) (cli_break_proxy o') (cli_no_backend o')) = Ok ready"
        "session_specs E c (cli_no_backend o') = Err e"
        "session E o' file = (report_cannot_test e (cycle_run_of o'), file)"
    | (ran) c origin ready specs results ledger R where
        "load_or_fail (sm_fmt E) (sm_toml E) (sm_host E) (cli_config o') = Ok (c, origin)"
        "fst (preflight_run (sm_fmt E) (sm_toml E) (sm_json E) (sm_preflight E) (sm_manifest_dir E) c
           (map sn_id (all_scenarios (sm_scenarios E))) (cli_break_proxy o') (cli_no_backend o')) = Ok ready"
        "session_specs E c (cli_no_backend o') = Ok specs" "session_runs E c ready specs = (results, ledger, R)"
        "session E o' file = write_certificate_in (sm_cert E) (repo_root (sm_manifest_dir E))
           (session_facts_of E o' ready ledger)
           \<lparr> rp_rows = session_rows E o' results R, rp_run = cycle_run_of o' \<rparr> file"
proof (cases "load_or_fail (sm_fmt E) (sm_toml E) (sm_host E) (cli_config o')")
  case (Err e)
  then show ?thesis by (intro stopped) (simp add: stop_of_def)
next
  case load: (Ok co)
  obtain c origin where co: "co = (c, origin)" by (cases co)
  let ?pf = "fst (preflight_run (sm_fmt E) (sm_toml E) (sm_json E) (sm_preflight E) (sm_manifest_dir E) c
     (map sn_id (all_scenarios (sm_scenarios E))) (cli_break_proxy o') (cli_no_backend o'))"
  show ?thesis
  proof (cases ?pf)
    case (Err e)
    then show ?thesis by (intro stopped) (simp add: stop_of_def load co)
  next
    case pf: (Ok ready)
    show ?thesis
    proof (cases "session_specs E c (cli_no_backend o')")
      case (Err e)
      then show ?thesis by (intro unprepared) (simp_all add: load co pf session_def)
    next
      case specs: (Ok specs)
      obtain results ledger R where "session_runs E c ready specs = (results, ledger, R)"
        by (cases "session_runs E c ready specs")
      with specs show ?thesis by (intro ran) (simp_all add: load co pf session_def)
    qed
  qed
qed


text \<open>C20: No session succeeds without having looked: if the exit code is that of success, the
  configuration loaded, the preflight passed, and every run the session announced was executed,
  completed within its budget and left something to read, a report, a typed error or a
  completion.\<close>

theorem green_session:
  assumes "report_exit_code (fst (session E o' file)) = EXIT_OK"
  shows "\<exists>c origin ready specs results ledger R.
    load_or_fail (sm_fmt E) (sm_toml E) (sm_host E) (cli_config o') = Ok (c, origin)
    \<and> fst (preflight_run (sm_fmt E) (sm_toml E) (sm_json E) (sm_preflight E) (sm_manifest_dir E) c
        (map sn_id (all_scenarios (sm_scenarios E))) (cli_break_proxy o') (cli_no_backend o')) = Ok ready
    \<and> session_specs E c (cli_no_backend o') = Ok specs \<and> session_runs E c ready specs = (results, ledger, R)
    \<and> map rn_run results = stage_e1_run_ids (cli_no_backend o')
    \<and> list_all (\<lambda>r. rn_outcome r = Complete
        \<and> (rn_report r \<noteq> None \<or> rn_error r \<noteq> None \<or> rn_completion r \<noteq> None)) results"
proof (cases rule: session_cases [of E o' _ "file"])
  case (stopped e)
  with assms stopped_exit [of "sm_scenarios E" e "cycle_run_of o'"] show ?thesis
    by (auto simp: stopped_session EXIT_OK_def EXIT_FAILED_def EXIT_INCONCLUSIVE_def split: if_splits)
next
  case (unprepared c origin ready e)
  with assms cannot_test_not_ok show ?thesis by simp
next
  case (ran c origin ready specs results ledger R)
  obtain rep file' where s: "session E o' file = (rep, file')" by (cases "session E o' file")
  with certificate_keeps_rows [OF ran(5) [symmetric, unfolded s]] assms noted_not_ok
  have "rep = \<lparr> rp_rows = session_rows E o' results R, rp_run = cycle_run_of o' \<rparr>" by auto
  with assms s have "exit_code (map rw_state (session_rows E o' results R)) = EXIT_OK"
    by (simp add: report_exit_code_def report_states_def)
  note green = green_evidence [OF this [unfolded session_rows_def]]
  note shape = session_results [OF ran(4,3)]
  have dist: "distinct (map rn_run results)" using shape(1) stage_distinct by simp
  have "rn_outcome r = Complete \<and> (rn_report r \<noteq> None \<or> rn_error r \<noteq> None \<or> rn_completion r \<noteq> None)"
    if r: "r \<in> set results" for r
  proof -
    have "rn_run r \<in> set (stage_e1_run_ids (cli_no_backend o'))"
      using r shape(1) by (metis image_eqI list.set_map)
    then have "evidence results (rn_run r)" using green [OF dist shape(2)] by (simp add: stage_complete)
    then obtain r' where r': "r' \<in> set results" "rn_run r' = rn_run r" "rn_outcome r' = Complete"
        "rn_report r' \<noteq> None \<or> rn_error r' \<noteq> None \<or> rn_completion r' \<noteq> None"
      by (auto simp: evidence_def list_ex_iff)
    moreover have "r' = r" using dist r r'(1,2) by (simp add: distinct_map inj_on_def)
    ultimately show ?thesis by simp
  qed
  with ran shape(1) show ?thesis by (auto simp: list_all_iff)
qed


text \<open>C25: The run without a backend fails the way the scenario S1 demands: with an outside provider that
  only ever fails, on the seats the preflight accepts and under the shipped configuration, the
  analysis ends for want of agents, as an environment failure, whatever tasks panic and whatever
  the clock and the random source answer.\<close>

theorem offline_run_fails_typed:
  assumes "rs_providers spec = KExternalStub" and "rs_seats spec \<noteq> []"
    and "list_all (\<lambda>s. is_ok (seat_agent_name F s) \<and> seat_lineage s \<noteq> []) (rs_seats spec)"
    and "\<And>a n p s u c. wo_backend (ae_world E) a n p s u c = Answered stub_complete"
    and "check_embedded_prompts (ae_world E) = Ok ()"
    and "utf8_len (pl_text (rs_payload spec)) \<le> DEFAULT_MAX_INPUT_LEN"
    and "is_ok (build_user_prompt (wo_unicode (ae_world E)) Design (pl_text (rs_payload spec)) (ae_nonce E))"
  shows "rn_error (fst (run_once F N J E spec p)) = Some (show_magi_error F (InsufficientAgents 0 2))
    \<and> rn_error_class (fst (run_once F N J E spec p)) = Some Environment
    \<and> map as_state (s1_external_provider_fails_typed (run_view tp ep (fst (run_once F N J E spec p)))) = [Pass]"
proof -
  obtain prompt where "build_user_prompt (wo_unicode (ae_world E)) Design (pl_text (rs_payload spec)) (ae_nonce E) = Ok prompt"
    using assms(7) by (auto simp: is_ok_iff)
  note run = offline_run [OF assms(1-6) this, of N J p]
  have "map as_state (s1_external_provider_fails_typed (run_view tp ep (fst (run_once F N J E spec p)))) = [Pass]"
    by (simp add: s1_external_provider_fails_typed_def run_view_def run(2) assert_that_def offline_message Let_def
        del: asc_Cons show_magi_error.simps)
  with run show ?thesis by blast
qed

section \<open>A session that succeeds\<close>

text \<open>A session without a backend over a tree of one file, whose configuration asks for three bytes.\<close>

definition stub_world :: world where
  "stub_world = sample_world\<lparr> wo_backend := (\<lambda>a n p s u c. Answered stub_complete) \<rparr>"

definition quiet_attempt :: attempt_env where
  "quiet_attempt = \<lparr> ae_elapsed = False, ae_panic = None, ae_events = [], ae_world = stub_world, ae_nonce = 0,
     ae_warn = warn_state_new, ae_decode = (\<lambda>_. None), ae_client = (\<lambda>_. Err \<lparr> te_causes = [], te_is_timeout = False, te_is_redirect = False \<rparr>),
     ae_now = 0 \<rparr>"

definition offline_spec :: run_spec where
  "offline_spec = \<lparr> rs_id = NoBackend, rs_seats = default_seats, rs_payload = \<lparr> pl_text = asc ''abc'', pl_bytes = 3 \<rparr>,
     rs_injection = None, rs_fallbacks = default_fallbacks, rs_providers = KExternalStub, rs_reasoning = RcDefault,
     rs_trace = False \<rparr>"

lemma stub_world_prompts: "check_embedded_prompts stub_world = Ok ()"
  by (simp add: check_embedded_Ok validate_prompt_def validate_prompt_Ok stub_world_def sample_world_def strip_bom_def
      framed_demo demo_serde_def)

lemma offline_prompt: "is_ok (build_user_prompt ascii_tables Design (asc ''abc'') 0)"
proof -
  have "\<not> contains s (hex32 0)" if "length s < 32" for s
  proof
    assume "contains s (hex32 0)"
    then obtain a b where "s = a @ hex32 0 @ b" by (auto simp: contains_iff)
    then have "length s = length a + 32 + length b" by (simp add: hex32_def)
    with that show False by simp
  qed
  moreover have "length (sanitize_content ascii_tables (asc ''abc'')) < 32"
    by (simp add: sanitize_content_def strip_invisibles_def is_invisible_def ascii_tables_def
        is_newline_like_def neutralize_headers_def neutralize_line_def header_split_def Let_def
        keyword_at_def boundary_def is_ascii_alpha_def ends_with_def)
  ultimately show ?thesis by (simp add: build_user_prompt_def Let_def is_ok_iff)
qed

lemma default_seats_named:
  "list_all (\<lambda>s. is_ok (seat_agent_name F s) \<and> seat_lineage s \<noteq> []) default_seats"
  by (simp add: default_seats_def seat_agent_name_def is_ok_iff seat_lineage_def lineage_new_def trim_def trim_start_def
      trim_end_def is_ws_def)

lemma offline_fields:
  "rs_providers offline_spec = KExternalStub" "rs_seats offline_spec = default_seats"
  "rs_payload offline_spec = \<lparr> pl_text = asc ''abc'', pl_bytes = 3 \<rparr>" "rs_id offline_spec = NoBackend"
  "rs_injection offline_spec = None"
  "ae_world quiet_attempt = stub_world" "ae_nonce quiet_attempt = 0" "wo_unicode stub_world = ascii_tables"
  "wo_backend stub_world a n q u v c = Answered stub_complete" "ae_elapsed quiet_attempt = False"
  "ae_panic quiet_attempt = None" "default_seats \<noteq> []"
  by (simp_all add: offline_spec_def quiet_attempt_def stub_world_def sample_world_def default_seats_def)

lemma small_payload: "utf8_len (pl_text \<lparr> pl_text = asc ''abc'', pl_bytes = 3 \<rparr>) \<le> DEFAULT_MAX_INPUT_LEN"
  by (simp add: DEFAULT_MAX_INPUT_LEN_def utf8_len1_def)

theorem offline_run_fails_typed_witness:
  "\<forall>N (J :: nat json_lib) p tp ep.
     map as_state (s1_external_provider_fails_typed (run_view tp ep
       (fst (run_once plain_fmt N J quiet_attempt offline_spec p)))) = [Pass]"
  by (intro allI offline_run_fails_typed [THEN conjunct2, THEN conjunct2])
    (simp_all add: offline_fields default_seats_named offline_prompt stub_world_prompts small_payload
      small_payload [simplified payload.simps] del: asc_Cons)

text \<open>Its surroundings: an empty corpus, an isolated package whose metadata name its root, a tracked lock
  file, a git whose status is clean.\<close>

definition offline_lib :: "ustr json_lib" where
  "offline_lib = \<lparr> js_response = (\<lambda>_. None), js_error = (\<lambda>_. None), js_value = Some,
     js_get = (\<lambda>v k. Some v), js_entries = (\<lambda>_. None), js_items = (\<lambda>_. None), js_text = Some,
     js_u64 = (\<lambda>_. None) \<rparr>"

definition offline_toml :: toml_lib where
  "offline_toml = \<lparr> toml_parse = (\<lambda>_. Ok (TTable [(asc ''run_payload_bytes'', TInt 3)])), toml_shape_error = (\<lambda>_. []) \<rparr>"

definition offline_preflight :: preflight_env where
  "offline_preflight = \<lparr> pv_metadata = Ok [], pv_json_error = (\<lambda>_. []), pv_canonical = (\<lambda>_. Ok []), pv_lock_listed = Ok True,
     pv_client = (\<lambda>_. Ok ()), pv_status_text = (\<lambda>_. []), pv_get = (\<lambda>_ _. Err []), pv_post = (\<lambda>_ _ _ _. Err []),
     pv_bind = Ok (asc ''http://127.0.0.1:1''), pv_reader = (\<lambda>_. Err \<lparr> io_not_found = True, io_text = [] \<rparr>),
     pv_fixtures = Ok [], pv_sha = (\<lambda>_. []), pv_audit_pretty = (\<lambda>_. []) \<rparr>"

definition offline_tree :: "ustr \<Rightarrow> fs_listing" where
  "offline_tree path =
     (if path = asc ''/../src'' then Ok [example_file ''a.rs'' ''abc''] else Err \<lparr> io_not_found = True, io_text = [] \<rparr>)"

definition offline_scenarios :: "ustr scenario_env" where
  "offline_scenarios = \<lparr> sv_fmt = plain_fmt, sv_json = offline_lib, sv_sha = (\<lambda>_. []), sv_serializes = (\<lambda>_. True),
     sv_git = printing [], sv_repo = [], sv_world = stub_world \<rparr>"

definition offline_session :: "ustr session_env" where
  "offline_session = \<lparr> sm_fmt = plain_fmt, sm_toml = offline_toml, sm_json = offline_lib, sm_is_null = (\<lambda>_. False),
     sm_host = \<lparr> sh_exists = (\<lambda>_. True), sh_read = (\<lambda>_. Ok []), sh_vars = [] \<rparr>, sm_manifest_dir = [], sm_temp_dir = [],
     sm_tree = offline_tree, sm_defect_body = [], sm_preflight = offline_preflight, sm_git_before = printing [],
     sm_git_commit = printing [], sm_cargo = (\<lambda>_ _. None), sm_metadata = None, sm_mode = asc ''tree'', sm_now = None,
     sm_net = \<lparr> nl_url = plain_url_lib (\<lambda>_. Err []), nl_client = (\<lambda>_. Ok ()), nl_probe = (\<lambda>_. \<lparr> pb_declared_model = None \<rparr>) \<rparr>,
     sm_attempts = (\<lambda>_. (quiet_attempt, quiet_attempt)), sm_elapsed = (\<lambda>_. 0),
     sm_show_request = (\<lambda>_ _ _. None), sm_chat_request = (\<lambda>_ _ _. None), sm_probe_events = [],
     sm_scenarios = offline_scenarios, sm_cert = tree_env [] \<rparr>"

definition offline_cli :: cli where
  "offline_cli = cli_default\<lparr> cli_no_backend := True, cli_config := Some (asc ''small.toml'') \<rparr>"

definition offline_config :: smoke_config where
  "offline_config = default_config\<lparr> sc_run_payload_bytes := 3 \<rparr>"

lemma offline_loads:
  "load_or_fail plain_fmt offline_toml (sm_host offline_session) (cli_config offline_cli)
     = Ok (offline_config, asc ''config: small.toml'')"
proof -
  have "config_of_toml (TTable [(asc ''run_payload_bytes'', TInt 3)]) = Some offline_config"
    by (simp add: config_of_toml_def known_table_def field_or_def default_config_def offline_config_def)
  moreover have "config_validate plain_fmt offline_config = Ok ()"
    using default_config_valid [of plain_fmt]
    by (simp add: smoke_config_valid_exact offline_config_def default_config_def)
  moreover have "apply_overrides [] names c = Ok c" for names c
    by (induction names arbitrary: c) simp_all
  moreover have "reject_unknown_smoke_vars plain_fmt [] = Ok ()" by (simp add: reject_unknown_iff)
  ultimately show ?thesis
    by (simp add: load_or_fail_def config_base_def offline_session_def offline_cli_def config_from_str_def offline_toml_def
        del: asc_Cons, simp)
qed

lemma offline_seats: "check_seats plain_fmt offline_config = Ok ()"
  by (simp add: check_seats_def offline_config_def default_config_def default_seats_def default_fallbacks_def
      REQUIRED_SEATS_def BLIP_SEATS_def no_duplicate_def seat_agent_name_def Let_def)

lemma offline_preflights:
  "\<exists>ready. fst (preflight_run plain_fmt offline_toml offline_lib offline_preflight [] offline_config live False True) = Ok ready"
proof -
  have "check_fixtures plain_fmt offline_toml offline_preflight d live = Ok \<lparr> fs_total = 0, fs_unverified = 0 \<rparr>" for d
    by (simp add: check_fixtures_def manifest_load_def offline_preflight_def read_text_def manifest_verify_def Let_def
        audit_default_def audit_is_clean_def audit_summary_def)
  moreover have "check_workspace_isolation offline_lib offline_preflight (smoke_dir []) = Ok ()"
    by (simp add: check_workspace_isolation_def offline_preflight_def offline_lib_def path_eq_def Let_def from_utf8_def)
  moreover have "check_lock_is_tracked offline_preflight = Ok ()"
    by (simp add: check_lock_is_tracked_def offline_preflight_def)
  moreover have "\<exists>q. raise_proxy offline_preflight offline_config False = Ok q"
    by (simp add: raise_proxy_def offline_preflight_def cannot_test_at_def)
  ultimately show ?thesis
    by (auto simp: preflight_run_def offline_seats cannot_test_at_def ledger_announce_def Let_def)
qed

lemma offline_specs: "session_specs offline_session offline_config True = Ok [offline_spec]"
proof -
  have j: "path_join (repo_root []) (asc ''src'') = asc ''/../src''" "path_join (repo_root []) (asc ''tests'') = asc ''/../tests''"
    "path_join (repo_root []) (asc ''examples'') = asc ''/../examples''"
    by (simp_all add: repo_root_def path_join_def SLASH_def)
  have "generate_payload plain_fmt (repo_root []) offline_tree 3 = Ok \<lparr> pl_text = asc ''abc'', pl_bytes = 3 \<rparr>"
  proof -
    have "collect_rs (asc ''/../src'') (offline_tree (asc ''/../src''))
        = ([(asc ''/../src/a.rs'', Ok (as_bytes (asc ''abc'')))], [])"
      by (simp add: offline_tree_def collect_rs_def collect_from_entries_def example_file_def entry_path_def
          path_join_def SLASH_def extension_def file_name_def components_def to_component_def Let_def)
    moreover have "read_text (Ok (as_bytes (asc ''abc''))) = Ok (asc ''abc'')"
      by (simp add: read_text_def decode_text_def from_utf8_as_bytes is_scalar_def)
    moreover have "sort_deterministically [f] = [f]" for f by (simp add: sort_deterministically_def)
    ultimately have "add_roots (repo_root []) offline_tree 3 ROOTS [] = Ok (asc ''abc'')"
      by (simp add: ROOTS_def Let_def j del: asc_Cons, simp add: utf8_len1_def)
    then show ?thesis by (simp add: generate_payload_def utf8_len1_def Let_def)
  qed
  then show ?thesis
    by (simp add: session_specs_def all_specs_def offline_session_def offline_config_def default_config_def offline_spec_def)
qed

lemma offline_result:
  "\<exists>r s' p'. execute_one plain_fmt N J d c quiet_attempt quiet_attempt offline_spec p = (r, s', p')
     \<and> rn_run r = NoBackend \<and> rn_outcome r = Complete
     \<and> rn_error r = Some (show_magi_error plain_fmt (InsufficientAgents 0 2))"
proof -
  let ?p = "set_injection None p"
  obtain r q where r: "run_once plain_fmt N J quiet_attempt offline_spec ?p = (r, q)"
    by (cases "run_once plain_fmt N J quiet_attempt offline_spec ?p")
  obtain prompt where pr: "build_user_prompt ascii_tables Design (asc ''abc'') 0 = Ok prompt"
    using offline_prompt by (auto simp: is_ok_iff)
  have run: "rn_outcome r = Complete" "rn_error r = Some (show_magi_error plain_fmt (InsufficientAgents 0 2))"
    using offline_run [of offline_spec plain_fmt quiet_attempt prompt N J ?p] small_payload stub_world_prompts
      default_seats_named pr r
    by (simp_all add: offline_fields del: asc_Cons show_magi_error.simps)
  have att: "attempt_run plain_fmt N J d c quiet_attempt offline_spec ?p = (r, q)"
    by (simp add: attempt_run_def offline_fields r)
  from attempt_run_shape [OF att] have "rn_run r = NoBackend" by (simp add: offline_fields)
  with run att show ?thesis
    by (simp add: execute_one_def offline_fields attempts_for_def)
qed

lemma offline_timings: "\<exists>t. shipped_timings stub_world = Some t"
    "is_ok (build_with_absurd_timings F stub_world limit)"
proof -
  have "\<exists>M. snd (build stub_world (builder_new STUB)) = Ok M"
    using default_build [OF stub_world_prompts, of "builder_new STUB"] by (auto simp: builder_new_def check_lineages_Ok)
  then show "\<exists>t. shipped_timings stub_world = Some t" by (auto simp: shipped_timings_def)
  have "\<exists>M. snd (build stub_world (with_timeout limit (builder_new STUB))) = Ok M"
    using default_build [OF stub_world_prompts, of "with_timeout limit (builder_new STUB)"]
    by (auto simp: builder_new_def with_timeout_def check_lineages_Ok)
  then show "is_ok (build_with_absurd_timings F stub_world limit)"
    by (auto simp: build_with_absurd_timings_def built_def is_ok_iff)
qed

lemma offline_evaluated:
  assumes "rn_run r = NoBackend" "rn_outcome r = Complete"
    and "rn_error r = Some (show_magi_error plain_fmt (InsufficientAgents 0 2))"
    and "se_repo_status_before sf = Some []" "se_timings sf = shipped_timings stub_world"
    and "sc \<in> set (all_scenarios offline_scenarios)"
  shows "\<forall>row\<in>set (evaluate_scenario [r] tp ep None True sf sc). rw_state row = Pass \<or> rw_state row = OutOfScope"
proof -
  obtain t where t: "shipped_timings stub_world = Some t" using offline_timings(1) by blast
  have s1: "as_state ` set (s1_external_provider_fails_typed (run_view tp ep r)) = {Pass}"
    by (simp add: s1_external_provider_fails_typed_def run_view_def assms(3) assert_that_def offline_message Let_def
        del: asc_Cons show_magi_error.simps)
  have s16: "as_state ` set (s16_no_trace_left_in_the_repo offline_scenarios ctx) = {Pass}"
    if "cx_repo_status_before ctx = Some []" for ctx
    using that status_printing [of "[]"] by (simp add: s16_no_trace_left_in_the_repo_def offline_scenarios_def str_lines_def assert_that_def
        status_shows_nothing_outside_the_certificate_def)
  have f: "as_state ` set (s_f1 ctx) = {Pass}" "as_state ` set (s_f2a ctx) = {Pass}" if "cx_timings ctx = Some t" for ctx
    using shipped_timings_pass [OF t that] by (metis list.set(1,2) set_map)+
  have f5: "as_state ` set (s_f5 offline_scenarios ctx) = {Pass}" for ctx
    by (simp add: s_f5_def offline_scenarios_def offline_timings assert_that_def)
  define fine where "fine = (\<lambda>rows :: assertion_row list. \<forall>row\<in>set rows. rw_state row = Pass \<or> rw_state row = OutOfScope)"
  have rows: "fine (asserted sc' q ctx b) \<longleftrightarrow> (\<forall>st\<in>as_state ` set (sn_assert sc' ctx). st = Pass \<or> st = OutOfScope)"
    "fine (one_row sc' q n OutOfScope b)" for sc' q ctx b n
    by (simp_all add: fine_def asserted_def rows_of_def one_row_def)
  have "list_all (\<lambda>sc'. fine (evaluate_scenario [r] tp ep None True sf sc')) (all_scenarios offline_scenarios)"
    by (simp add: all_scenarios_def e1_scenarios_def e2_scenarios_def f_scenarios_def e_scenarios_def r5_scenarios_def
        r7_scenarios_def scenarios_simps evaluate_scenario_def evaluate_run_def result_of_def rows
        assms(1-5) s1 s16 f f5 t absent_context_def preflight_error_for_stage_def s6_no_backend_no_green_def
        s7_a_saturated_endpoint_reports_cannot_test_with_its_scope_def s14_illegible_toml_is_fatal_def
        s20_broken_proxy_is_not_a_scenario_red_def s21_the_two_modes_cannot_be_confused_def
        s_f2b_def s_f3_def s_f4_def assertion_out_of_scope_def del: asc_Cons)
  with assms(6) show ?thesis by (simp add: list_all_iff fine_def)
qed

lemma all_fine: "xs \<noteq> [] \<Longrightarrow> (\<And>s. s \<in> set xs \<Longrightarrow> s = Pass \<or> s = OutOfScope) \<Longrightarrow> exit_code xs = EXIT_OK"
  by (fastforce simp: exit_code_cases EXIT_OK_def list_ex_iff skipped_or_late_iff)

lemma offline_session_fields:
  "sm_fmt offline_session = plain_fmt" "sm_toml offline_session = offline_toml" "sm_json offline_session = offline_lib" "sm_preflight offline_session = offline_preflight"
    "sm_manifest_dir offline_session = []" "sm_scenarios offline_session = offline_scenarios" "sm_attempts offline_session = (\<lambda>_. (quiet_attempt, quiet_attempt))"
    "sm_git_before offline_session = printing []" "cli_no_backend offline_cli" "\<not> cli_break_proxy offline_cli" "\<not> cli_smoke_2 offline_cli"
    "\<not> cli_build_matrix offline_cli"
  by (simp_all add: offline_session_def offline_cli_def cli_default_def)

lemma offline_green: "report_exit_code (fst (session offline_session offline_cli file)) = EXIT_OK"
proof -
  let ?E = offline_session
  note E = offline_session_fields
  obtain ready where ready: "fst (preflight_run plain_fmt offline_toml offline_lib offline_preflight [] offline_config
      (map sn_id (all_scenarios offline_scenarios)) False True) = Ok ready"
    using offline_preflights by blast
  obtain results ledger R where runs: "session_runs ?E offline_config ready [offline_spec] = (results, ledger, R)"
    by (cases "session_runs ?E offline_config ready [offline_spec]")
  define R0 where "R0 = prime_erosion_probe (sm_chat_request ?E) (sc_endpoint offline_config) [NoBackend]
      (prime_transparency_probe offline_lib (sm_show_request ?E) (sm_probe_events ?E) (sc_endpoint offline_config) [NoBackend]
        (runner_new offline_config (an_proxy ready)))"
  obtain r s' p' where one: "execute_one plain_fmt (sm_net ?E) offline_lib [] (ru_config R0) quiet_attempt quiet_attempt
        offline_spec (ru_proxy R0) = (r, s', p')" and out: "rn_run r = NoBackend" "rn_outcome r = Complete"
        "rn_error r = Some (show_magi_error plain_fmt (InsufficientAgents 0 2))"
    using offline_result by blast
  have "fst (dispatch_measured f elapsed [spec] l q) = [fst (f spec q)]" for f :: "run_spec \<Rightarrow> runner \<Rightarrow> run_result \<times> runner"
      and elapsed spec l q
    by (simp add: case_prod_beta Let_def)
  then have "results = [r]"
    using arg_cong [OF runs, of fst]
    by (simp add: session_runs_def E Let_def offline_fields runner_execute_def R0_def [symmetric] one del: dispatch_measured.simps)
  note r = this out
  let ?rows = "session_rows ?E offline_cli results R"
  let ?sf = "\<lparr> se_repo_status_before = repo_status_of (printing []) (repo_root []), se_timings = shipped_timings stub_world \<rparr>"
  have "?rows = concat (map (evaluate_scenario [r] (ru_probe R) (ru_erosion R) None True ?sf) (all_scenarios offline_scenarios))"
    by (simp add: session_rows_def E r(1) evaluate_def offline_scenarios_def)
  moreover have "se_repo_status_before ?sf = Some []"
    using status_printing [of "[]"] by (simp add: repo_status_of_def)
  ultimately have "rw_state row = Pass \<or> rw_state row = OutOfScope" if "row \<in> set ?rows" for row
    using that offline_evaluated [OF r(2-4), of ?sf] by auto
  moreover have "?rows \<noteq> []"
    by (simp add: session_rows_def evaluate_def all_scenarios_def e1_scenarios_def evaluate_scenario_def scenarios_simps E
        one_row_def)
  ultimately have "exit_code (map rw_state ?rows) = EXIT_OK"
    by (intro all_fine) auto
  moreover have "render_certificate \<lparr> rp_rows = ?rows, rp_run = FirstCycle \<rparr> facts = None" for facts
    using no_refusal_iff [of "\<lparr> rp_rows = ?rows, rp_run = FirstCycle \<rparr>" facts]
    by (auto simp: render_certificate_def split: option.split)
  ultimately show ?thesis
    using offline_loads ready runs offline_specs
    by (simp add: session_def E write_certificate_in_def cycle_run_of_def report_exit_code_def report_states_def Let_def)
qed

theorem green_session_witness:
  "\<exists>specs ready results ledger R. session_specs offline_session offline_config True = Ok specs
     \<and> session_runs offline_session offline_config ready specs = (results, ledger, R)
     \<and> map rn_run results = [NoBackend] \<and> list_all (\<lambda>r. rn_outcome r = Complete) results"
proof -
  obtain c origin ready specs results ledger R where
      l: "load_or_fail (sm_fmt offline_session) (sm_toml offline_session) (sm_host offline_session) (cli_config offline_cli)
        = Ok (c, origin)" and s: "session_specs offline_session c (cli_no_backend offline_cli) = Ok specs"
      "session_runs offline_session c ready specs = (results, ledger, R)"
      "map rn_run results = stage_e1_run_ids (cli_no_backend offline_cli)"
      "list_all (\<lambda>r. rn_outcome r = Complete
        \<and> (rn_report r \<noteq> None \<or> rn_error r \<noteq> None \<or> rn_completion r \<noteq> None)) results"
    using green_session [OF offline_green] by blast
  have "c = offline_config" using l offline_loads by (simp add: offline_session_fields)
  moreover have "list_all (\<lambda>r. rn_outcome r = Complete) results" using s(4) by (simp add: list_all_iff)
  ultimately show ?thesis
    using s(1-3) by (intro exI [of _ specs] exI [of _ ready] exI [of _ results] exI [of _ ledger] exI [of _ R])
      (simp add: offline_session_fields stage_e1_run_ids_def)
qed

section \<open>Faults of the harness that exit as failures of the crate\<close>

text \<open>A proxy that cannot start for a real reason: the message says neither of the things S20 asks for,
  so S20 fails and the session exits as if the crate were wrong.\<close>

lemma proxy_bind_failure_fails:
  "\<exists>e. raise_proxy (offline_preflight\<lparr> pv_bind := Err (asc ''address in use'') \<rparr>) c False = Err e \<and> pfe_stage e = StProxy
     \<and> report_exit_code (stopped_report S e run) = EXIT_FAILED"
proof -
  let ?e = "\<lparr> pfe_stage = StProxy, pfe_msg = asc ''proxy: could not start: address in use'' \<rparr>"
  have "raise_proxy (offline_preflight\<lparr> pv_bind := Err (asc ''address in use'') \<rparr>) c False = Err ?e"
    by (simp add: raise_proxy_def cannot_test_at_def)
  moreover have "message_fails ?e"
    by (simp add: message_fails_def show_preflight_error_def preflight_step_order_def ascii_lower_def Let_def
        show_nat_def digits_of.simps)
  ultimately show ?thesis by (intro exI [of _ ?e]) (simp add: stopped_exit)
qed

text \<open>A model the backend does not hold: the preflight promises that this is never a verdict about the
  crate, but S6 expects every fault of this stage to be an unreachable backend.\<close>

definition one_seat :: smoke_config where
  "one_seat = default_config\<lparr> sc_seats := [hd default_seats], sc_fallbacks := [] \<rparr>"

lemma missing_model_fails:
  "\<exists>m. check_seat_models plain_fmt one_seat (Some []) = Err m
     \<and> report_exit_code (stopped_report S \<lparr> pfe_stage = StBackend, pfe_msg = m \<rparr> run) = EXIT_FAILED"
proof -
  obtain m where m: "check_seat_models plain_fmt one_seat (Some []) = Err m"
    and t: "m = asc ''the backend does not hold 1 of the configured models (melchior declares qwen3.5:397b-cloud). It lists []. A model it cannot serve makes that mage fail to answer '' @ EM_DASH @ asc '' or leaves rotation with nowhere to go '' @ EM_DASH @ asc '' which the runs report as a red row about the crate for a mistake in this file. Pull the model, or correct the entry. '' @ SEAT_FIX"
    by (simp add: check_seat_models_def declared_models_def one_seat_def default_seats_def Let_def plain_fmt_def show_nat_def
        digits_of.simps dbg_list_def default_config_def)
  have "message_fails \<lparr> pfe_stage = StBackend, pfe_msg = m \<rparr>"
    by (simp add: message_fails_def show_preflight_error_def preflight_step_order_def ascii_lower_def Let_def
        show_nat_def digits_of.simps t EM_DASH_def SEAT_FIX_def)
  with m show ?thesis by (simp add: stopped_exit)
qed

text \<open>A run in which the harness itself panicked leaves nothing to read. Its scenarios are meant to skip,
  but S8 fails on the empty record.\<close>

lemma silent_run_fails_S8:
  "map as_state (s8_completions_are_native_only (run_view tp ep
     ((timed_out HappySmall cap None)\<lparr> rn_outcome := PanickedInHarness, rn_budget_exceeded := None \<rparr>)))
     = [Fail, Pass]"
  by (simp add: s8_completions_are_native_only_def run_view_def absent_context_def timed_out_def assert_that_def)

end
