(* ===== verification/Smoke_Weakened.thy ===== *)
theory Smoke_Weakened
  imports Smoke_Files
begin

text \<open>
  \<open>smoke/src/weakened.rs\<close>: a guard over the harness's own sources. A comment that mentions a
  weakening must carry the mark with exactly one identifier; the scan reports every line that
  does not, and everything it could not look at.
\<close>

section \<open>Lines\<close>

definition MARK :: ustr where "MARK = asc ''// WEAKENED_FOR: ''"
definition GUARD_OWN_FILE :: ustr where "GUARD_OWN_FILE = asc ''weakened.rs''"
definition TRIGGER :: ustr where "TRIGGER = asc ''WEAKENED''"
definition COMMENT_OPENS :: "ustr list" where "COMMENT_OPENS = [asc ''//'', asc ''/*'']"

text \<open>\<open>min_by_key\<close>: the first element whose key is smallest.\<close>

fun min_by_fst :: "(nat \<times> 'a) list \<Rightarrow> (nat \<times> 'a) option" where
  "min_by_fst [] = None"
| "min_by_fst (x # xs) =
     (case min_by_fst xs of
        None \<Rightarrow> Some x
      | Some y \<Rightarrow> if fst y < fst x then Some y else Some x)"

definition comment_of :: "ustr \<Rightarrow> ustr option" where
  "comment_of line =
     map_option (\<lambda>(_, after). drop after line)
       (min_by_fst (List.map_filter
          (\<lambda>open. map_option (\<lambda>i. (i, i + length open)) (find_at line open)) COMMENT_OPENS))"

definition validate_line :: "rust_fmt \<Rightarrow> ustr \<Rightarrow> (unit, ustr) result" where
  "validate_line F line =
     (case comment_of line of
        None \<Rightarrow> Ok ()
      | Some comment \<Rightarrow>
          if \<not> contains (to_ascii_uppercase comment) TRIGGER then Ok ()
          else case split_once line MARK of
            None \<Rightarrow> Err (asc ''malformed mark, expected `'' @ trim_start MARK @ asc ''<id>`: '' @ dbg_str F line)
          | Some (_, rest) \<Rightarrow>
              let ident = trim rest
              in if ident = [] \<or> length (split_whitespace ident) \<noteq> 1 then
                   Err (asc ''mark needs exactly one non-empty id: '' @ dbg_str F line)
                 else Ok ())"

section \<open>Files\<close>

fun err_list :: "('a, 'e) result \<Rightarrow> 'e list" where
  "err_list (Ok _) = []"
| "err_list (Err e) = [e]"

definition scan :: "rust_fmt \<Rightarrow> ustr \<Rightarrow> (unit, ustr list) result" where
  "scan F src =
     (let bad = concat (map (\<lambda>l. err_list (validate_line F l)) (str_lines src))
      in if bad = [] then Ok () else Err bad)"

text \<open>One entry of a directory: the complaints it adds and the directories it pushes.\<close>

definition scan_entry ::
  "rust_fmt \<Rightarrow> ustr \<Rightarrow> ustr \<Rightarrow> fs_entry \<Rightarrow> ustr list \<times> (ustr \<times> fs_listing) list" where
  "scan_entry F base dir entry =
     (case entry of
        Err e \<Rightarrow> ([dir @ asc '': could not read an entry: '' @ io_text e], [])
      | Ok (name, node) \<Rightarrow>
          let path = entry_path dir name
          in case node of
               OpaqueNode e \<Rightarrow> ([path @ asc '': could not inspect: '' @ io_text e], [])
             | LinkNode _ \<Rightarrow> ([], [])
             | DirNode l \<Rightarrow> ([], [(path, l)])
             | FileNode content \<Rightarrow>
                 if path_eq path (path_join base GUARD_OWN_FILE) then ([], [])
                 else if extension path = Some (asc ''rs'') then
                   (case read_text content of
                      Ok src \<Rightarrow> (map (\<lambda>m. path @ asc '': '' @ m)
                        (concat (err_list (scan F src))), [])
                    | Err e \<Rightarrow> ([path @ asc '': could not read file: '' @ io_text e], []))
                 else ([], []))"

lemma scan_entry_pushes:
  "(p, l) \<in> set (snd (scan_entry F base dir e)) \<Longrightarrow> \<exists>n. e = Ok (n, DirNode l) \<and> p = entry_path dir n"
  by (cases e) (auto simp: scan_entry_def Let_def split: prod.splits fs_node.splits if_splits result.splits)

lemma scan_entry_weight:
  "sum_list (map (\<lambda>x. listing_weight (snd x)) (snd (scan_entry F base dir e)))
     \<le> (case e of Ok (n, nd) \<Rightarrow> node_weight nd | Err _ \<Rightarrow> 0)"
  by (cases e) (auto simp: scan_entry_def Let_def split: prod.splits fs_node.splits if_splits result.splits)

lemma scan_entries_weight:
  "sum_list (map (\<lambda>x. listing_weight (snd x)) (concat (map (\<lambda>e. snd (scan_entry F base dir e)) es)))
     < listing_weight (Ok es)"
proof (induction es)
  case (Cons e es)
  show ?case using add_le_less_mono [OF scan_entry_weight [of F base dir e] Cons.IH] by simp
qed simp

text \<open>The walk: the top of the stack is the head of the list, so what is pushed last is visited first.\<close>

function scan_walk ::
  "rust_fmt \<Rightarrow> ustr \<Rightarrow> (ustr \<times> fs_listing) list \<Rightarrow> ustr list \<Rightarrow> ustr list" where
  "scan_walk F base [] bad = bad"
| "scan_walk F base ((dir, Err e) # stack) bad =
     scan_walk F base stack (bad @ [dir @ asc '': could not read directory: '' @ io_text e])"
| "scan_walk F base ((dir, Ok entries) # stack) bad =
     scan_walk F base
       (rev (concat (map (\<lambda>e. snd (scan_entry F base dir e)) entries)) @ stack)
       (bad @ concat (map (\<lambda>e. fst (scan_entry F base dir e)) entries))"
  by pat_completeness auto
termination
proof (relation "measure (\<lambda>(F, base, stack, bad). sum_list (map (\<lambda>x. listing_weight (snd x)) stack))", goal_cases)
  case (3 F base dir entries stack bad)
  then show ?case
    using scan_entries_weight [of F base dir entries] by (simp add: rev_map [symmetric])
qed auto

definition scan_tree :: "rust_fmt \<Rightarrow> ustr \<Rightarrow> fs_listing \<Rightarrow> (unit, ustr list) result" where
  "scan_tree F base listing =
     (let bad = scan_walk F base [(base, listing)] []
      in if bad = [] then Ok () else Err bad)"

section \<open>What a clean scan says\<close>

text \<open>A line is in order when its comment, if it has one, does not speak of a weakening or carries
  the mark with one identifier after it.\<close>

definition well_marked :: "ustr \<Rightarrow> bool" where
  "well_marked line \<longleftrightarrow>
     (case comment_of line of
        None \<Rightarrow> True
      | Some comment \<Rightarrow>
          contains (to_ascii_uppercase comment) TRIGGER \<longrightarrow>
          (\<exists>before after. split_once line MARK = Some (before, after)
             \<and> trim after \<noteq> [] \<and> list_all (\<lambda>c. \<not> is_ws c) (trim after)))"

lemma one_word:
  assumes "ident = trim r" "ident \<noteq> []"
  shows "length (split_whitespace ident) = Suc 0 \<longleftrightarrow> list_all (\<lambda>c. \<not> is_ws c) ident"
proof
  assume "length (split_whitespace ident) = Suc 0"
  then obtain w where w: "split_whitespace ident = [w]" by (auto simp: length_Suc_conv)
  have "w = ident"
    using w assms trim_hd [of r] trim_last [of r]
    unfolding split_whitespace_def by (intro split_by_one_word [of is_ws]) auto
  moreover have "w \<in> set (split_by is_ws ident)"
    using w unfolding split_whitespace_def by (metis filter_is_subset list.set_intros(1) subsetD)
  ultimately show "list_all (\<lambda>c. \<not> is_ws c) ident"
    using split_by_no_sep by (fastforce simp: list_all_iff)
next
  assume "list_all (\<lambda>c. \<not> is_ws c) ident"
  with assms(2) show "length (split_whitespace ident) = Suc 0"
    by (simp add: split_whitespace_word list_all_iff)
qed

lemma validate_line_iff: "validate_line F line = Ok () \<longleftrightarrow> well_marked line"
  by (auto simp: validate_line_def well_marked_def Let_def one_word [OF refl]
      split: option.splits if_splits)

lemma scan_iff: "scan F src = Ok () \<longleftrightarrow> list_all well_marked (str_lines src)"
proof -
  have "err_list r = [] \<longleftrightarrow> r = Ok ()" for r :: "(unit, ustr) result" by (cases r) auto
  then show ?thesis by (auto simp: scan_def Let_def list_all_iff validate_line_iff)
qed

text \<open>A directory is in order when all of it could be read and every Rust source below it, but the
  guard's own, has only lines in order; what is behind a link does not count.\<close>

definition clean_source :: "ustr \<Rightarrow> ustr \<Rightarrow> (byte list, io_error) result \<Rightarrow> bool" where
  "clean_source base path content \<longleftrightarrow>
     path_eq path (path_join base GUARD_OWN_FILE) \<or> extension path \<noteq> Some (asc ''rs'')
     \<or> (\<exists>src. read_text content = Ok src \<and> list_all well_marked (str_lines src))"

inductive clean_dir :: "ustr \<Rightarrow> ustr \<Rightarrow> fs_listing \<Rightarrow> bool" for base :: ustr where
  clean_dir:
    "clean_dir base dir (Ok entries)"
    if "\<And>e. Err e \<notin> set entries"
    and "\<And>n e. Ok (n, OpaqueNode e) \<notin> set entries"
    and "\<And>n c. Ok (n, FileNode c) \<in> set entries \<Longrightarrow> clean_source base (entry_path dir n) c"
    and "\<And>n l. Ok (n, DirNode l) \<in> set entries \<Longrightarrow> clean_dir base (entry_path dir n) l"

inductive_simps clean_dir_simps: "clean_dir base dir (Ok es)" "clean_dir base dir (Err e)"

lemma scan_source: "(case scan F src of Ok _ \<Rightarrow> [] | Err es \<Rightarrow> map f es) = [] \<longleftrightarrow> scan F src = Ok ()"
  by (auto simp: scan_def Let_def)

lemma scan_file_nil:
  "concat (err_list (scan F src)) = [] \<longleftrightarrow> list_all well_marked (str_lines src)"
  unfolding scan_iff [where F = F, symmetric] by (auto simp: scan_def Let_def)

lemma scan_entry_silent:
  "fst (scan_entry F base dir e) = [] \<longleftrightarrow>
     (case e of
        Err _ \<Rightarrow> False
      | Ok (n, OpaqueNode _) \<Rightarrow> False
      | Ok (n, FileNode c) \<Rightarrow> clean_source base (entry_path dir n) c
      | _ \<Rightarrow> True)"
  by (auto simp: scan_entry_def Let_def clean_source_def scan_file_nil simp del: concat_eq_Nil_conv
      split: result.splits prod.splits fs_node.splits)

lemma scan_entry_dirs:
  "snd (scan_entry F base dir e) = (case e of Ok (n, DirNode l) \<Rightarrow> [(entry_path dir n, l)] | _ \<Rightarrow> [])"
  by (auto simp: scan_entry_def Let_def split: result.splits prod.splits fs_node.splits)

lemma clean_dir_entries:
  "clean_dir base dir (Ok es) \<longleftrightarrow>
     (\<forall>e\<in>set es. fst (scan_entry F base dir e) = []
        \<and> (\<forall>(p, l)\<in>set (snd (scan_entry F base dir e)). clean_dir base p l))"
  (is "_ \<longleftrightarrow> (\<forall>e\<in>set es. ?ok e)")
proof -
  have "?ok e \<longleftrightarrow> (case e of
      Err _ \<Rightarrow> False
    | Ok (n, OpaqueNode _) \<Rightarrow> False
    | Ok (n, FileNode c) \<Rightarrow> clean_source base (entry_path dir n) c
    | Ok (n, DirNode l) \<Rightarrow> clean_dir base (entry_path dir n) l
    | Ok (n, LinkNode c) \<Rightarrow> True)" for e
    by (simp add: scan_entry_silent scan_entry_dirs split: result.splits prod.splits fs_node.splits)
  then show ?thesis
    unfolding clean_dir_simps by (auto split: result.splits prod.splits fs_node.splits)
qed

lemma scan_walk_silent:
  "scan_walk F base stack bad = [] \<longleftrightarrow> bad = [] \<and> (\<forall>(d, l)\<in>set stack. clean_dir base d l)"
proof (induction F base stack bad rule: scan_walk.induct)
  case (3 F base dir entries stack bad)
  have "(\<forall>(d, l)\<in>set (rev (concat (map (\<lambda>e. snd (scan_entry F base dir e)) entries)) @ stack). clean_dir base d l)
      \<and> concat (map (\<lambda>e. fst (scan_entry F base dir e)) entries) = []
    \<longleftrightarrow> clean_dir base dir (Ok entries) \<and> (\<forall>(d, l)\<in>set stack. clean_dir base d l)"
    unfolding clean_dir_entries [where F = F] by auto
  with 3 show ?case by auto
qed (simp_all add: clean_dir_simps)

text \<open>The walk over the harness's sources accepts a tree exactly when it could read all of it and
  every line of every Rust file below it, the guard's own excepted, either does not mention a
  weakening in its comment or carries the mark with exactly one identifier; nothing unreadable is
  ever taken for clean, and links are not followed.\<close>

theorem weakened_scan_exact: "scan_tree F base listing = Ok () \<longleftrightarrow> clean_dir base base listing"
  by (simp add: scan_tree_def Let_def scan_walk_silent)

end
